(* ===== verification/Prelude.thy ===== *)
theory Prelude
  imports Main "HOL-Library.AList" "HOL-Library.Char_ord" "HOL-Library.List_Lexorder"
    "HOL-Library.Product_Lexorder" "HOL-Library.Sublist"
begin

text \<open>
  What every component of the Solventa back end shares: Go's machine integers, its error
  values with the chain that \<^verbatim>\<open>errors.Is\<close> walks, its maps, and the generic lemmas on lists,
  maps and sums that the component theories rest on.

  \<^item> A Go \<^verbatim>\<open>string\<close> is a sequence of bytes, here a \<^typ>\<open>string\<close> (a \<^typ>\<open>char list\<close>).
  \<^item> \<^verbatim>\<open>int\<close> and \<^verbatim>\<open>int64\<close> are \<^typ>\<open>int\<close> kept in the two's complement range by
    \<open>i64\<close>, which is written out wherever the code does arithmetic that could leave it.
  \<^item> A Go map that the code only looks up is a partial function; one that the code
    ranges over is an association list with distinct keys (its order stands for the
    unspecified iteration order of Go).
  \<^item> A function that returns \<^verbatim>\<open>(T, error)\<close> returns a sum, \<open>Inl\<close> the error.
\<close>

section \<open>Collections of facts\<close>

named_theorems go_defs \<open>unfolding rules of small source-level helpers\<close>
named_theorems store_simps \<open>equations of the stores' operations\<close>
named_theorems inv_intros \<open>introduction rules of the components' invariants\<close>

section \<open>Machine integers\<close>

definition i64 :: "int \<Rightarrow> int" where
  "i64 x = (x + 2 ^ 63) mod 2 ^ 64 - 2 ^ 63"

definition in_i64 :: "int \<Rightarrow> bool" where
  "in_i64 x \<longleftrightarrow> - (2 ^ 63) \<le> x \<and> x < 2 ^ 63"

text \<open>Go's integer division truncates towards zero.\<close>

definition quot :: "int \<Rightarrow> int \<Rightarrow> int" where
  "quot a b = sgn a * sgn b * (\<bar>a\<bar> div \<bar>b\<bar>)"

lemma i64_id [simp]: "in_i64 x \<Longrightarrow> i64 x = x"
  by (simp add: i64_def in_i64_def)

lemma in_i64_i64 [simp]: "in_i64 (i64 x)"
proof -
  have "0 \<le> (x + 2 ^ 63) mod (2 ^ 64)" and "(x + 2 ^ 63) mod (2 ^ 64) < (2 ^ 64 :: int)"
    by simp_all
  then show ?thesis by (simp add: i64_def in_i64_def)
qed

lemma in_i64_between:
  assumes "in_i64 a" and "in_i64 b" and "a \<le> x" and "x \<le> b"
  shows "in_i64 x"
  using assms by (simp add: in_i64_def)

lemma in_i64_numeral_bound: "0 \<le> x \<Longrightarrow> x < 9223372036854775808 \<Longrightarrow> in_i64 x"
  by (simp add: in_i64_def)

lemma quot_nonneg: "0 \<le> a \<Longrightarrow> 0 < b \<Longrightarrow> quot a b = a div b"
  by (cases "a = 0") (simp_all add: quot_def)

section \<open>Errors\<close>

text \<open>
  An error value is its message and the chain of sentinel values it wraps
  (\<^verbatim>\<open>fmt.Errorf("... %w", err)\<close>), each named by the text it was created with. Two sentinels
  of the repository never share their text.
\<close>

datatype go_error = GoError (err_chain: "string list") (err_text: string)

definition errors_New :: "string \<Rightarrow> go_error" where
  "errors_New t = GoError [t] t"

definition errors_Is :: "go_error \<Rightarrow> go_error \<Rightarrow> bool" where
  "errors_Is e target \<longleftrightarrow> (case err_chain target of [] \<Rightarrow> False | s # _ \<Rightarrow> s \<in> set (err_chain e))"

definition errorf_w :: "string \<Rightarrow> go_error \<Rightarrow> go_error" where
  "errorf_w prefix_text e = GoError (err_chain e) (prefix_text @ err_text e)"

lemma errors_Is_New [simp]: "errors_Is (errors_New s) (errors_New t) \<longleftrightarrow> s = t"
  by (auto simp: errors_Is_def errors_New_def)

lemma errors_Is_errorf [simp]: "errors_Is (errorf_w p e) target \<longleftrightarrow> errors_Is e target"
  by (simp add: errors_Is_def errorf_w_def split: list.split)

type_synonym 'a result = "go_error + 'a"

section \<open>Results\<close>

definition is_ok :: "'e + 'a \<Rightarrow> bool" where
  "is_ok r \<longleftrightarrow> (case r of Inl _ \<Rightarrow> False | Inr _ \<Rightarrow> True)"

lemma is_ok_simps [simp]: "is_ok (Inr x)" "\<not> is_ok (Inl e)"
  by (simp_all add: is_ok_def)

lemma is_ok_iff: "is_ok r \<longleftrightarrow> (\<exists>x. r = Inr x)"
  by (cases r) simp_all

section \<open>Maps that are ranged over\<close>

type_synonym ('k, 'v) gomap = "('k \<times> 'v) list"

definition gm_get :: "('k, 'v) gomap \<Rightarrow> 'k \<Rightarrow> 'v option" where
  "gm_get m k = map_of m k"

definition gm_put :: "'k \<Rightarrow> 'v \<Rightarrow> ('k, 'v) gomap \<Rightarrow> ('k, 'v) gomap" where
  "gm_put k v m = AList.update k v m"

definition gm_ok :: "('k, 'v) gomap \<Rightarrow> bool" where
  "gm_ok m \<longleftrightarrow> distinct (map fst m)"

lemma gm_get_put [simp]: "gm_get (gm_put k v m) = (gm_get m)(k \<mapsto> v)"
  by (rule ext) (simp add: gm_get_def gm_put_def update_conv')

lemma gm_get_Nil [simp]: "gm_get [] k = None"
  by (simp add: gm_get_def)

lemma gm_ok_Nil [simp]: "gm_ok []"
  by (simp add: gm_ok_def)

lemma gm_ok_put [simp]: "gm_ok m \<Longrightarrow> gm_ok (gm_put k v m)"
  by (simp add: gm_ok_def gm_put_def distinct_update)

lemma gm_in_set_iff: "gm_ok m \<Longrightarrow> (k, v) \<in> set m \<longleftrightarrow> gm_get m k = Some v"
  by (simp add: gm_ok_def gm_get_def)

lemma gm_get_SomeD: "gm_get m k = Some v \<Longrightarrow> (k, v) \<in> set m"
  by (simp add: gm_get_def map_of_SomeD)

lemma gm_keys: "dom (gm_get m) = fst ` set m"
  unfolding gm_get_def by (simp add: dom_map_of_conv_image_fst)

lemma gm_put_same:
  "gm_get m k = Some v \<Longrightarrow> gm_put k v m = m"
  by (induction m) (auto simp: gm_get_def gm_put_def split: if_splits)

section \<open>Lists\<close>

lemma sorted_key_filter: "sorted (map f xs) \<Longrightarrow> sorted (map f (filter P xs))"
  by (induction xs) auto

lemma sort_key_unique:
  assumes "inj_on f (set xs)" and "distinct xs" and "distinct ys" and "set xs = set ys"
  shows "sort_key f xs = sort_key f ys"
proof -
  have d: "distinct (map f (sort_key f xs))" "distinct (map f (sort_key f ys))"
    using assms by (simp_all add: distinct_map)
  have "sorted (map f (sort_key f xs))" and "sorted (map f (sort_key f ys))"
    by simp_all
  moreover have "set (map f (sort_key f xs)) = set (map f (sort_key f ys))"
    using assms(4) by simp
  ultimately have "map f (sort_key f xs) = map f (sort_key f ys)"
    using d by (intro sorted_distinct_set_unique)
  then show ?thesis
    by (rule map_inj_on) (use assms in \<open>simp add: inj_on_def\<close>)
qed

section \<open>Sorting with a comparison function\<close>

text \<open>\<^verbatim>\<open>sort.Slice(xs, less)\<close>: a comparison sort with the function the code passes. The result
  is pinned down by the function alone wherever the keys it compares are distinct.\<close>

fun insert_by :: "('a \<Rightarrow> 'a \<Rightarrow> bool) \<Rightarrow> 'a \<Rightarrow> 'a list \<Rightarrow> 'a list" where
  "insert_by lt x [] = [x]"
| "insert_by lt x (y # ys) = (if lt x y then x # y # ys else y # insert_by lt x ys)"

fun slice_sort :: "('a \<Rightarrow> 'a \<Rightarrow> bool) \<Rightarrow> 'a list \<Rightarrow> 'a list" where
  "slice_sort lt [] = []"
| "slice_sort lt (x # xs) = insert_by lt x (slice_sort lt xs)"

lemma set_insert_by [simp]: "set (insert_by lt x ys) = insert x (set ys)"
  by (induction ys) auto

lemma set_slice_sort [simp]: "set (slice_sort lt xs) = set xs"
  by (induction xs) auto

lemma length_insert_by [simp]: "length (insert_by lt x ys) = Suc (length ys)"
  by (induction ys) auto

lemma length_slice_sort [simp]: "length (slice_sort lt xs) = length xs"
  by (induction xs) auto

lemma sorted_insert_by:
  assumes "\<And>y. y \<in> set ys \<Longrightarrow> (lt x y \<longleftrightarrow> R x y) \<and> (\<not> R x y \<longrightarrow> R y x)"
    and "\<And>y z. y \<in> set ys \<Longrightarrow> z \<in> set ys \<Longrightarrow> R x y \<Longrightarrow> R y z \<Longrightarrow> R x z"
    and "sorted_wrt R ys"
  shows "sorted_wrt R (insert_by lt x ys)"
  using assms
proof (induction ys)
  case (Cons y ys)
  then have IH: "sorted_wrt R (insert_by lt x ys)" by auto
  show ?case
  proof (cases "lt x y")
    case True
    then have "R x y" using Cons.prems(1) by auto
    then have "\<forall>z \<in> set ys. R x z" using Cons.prems(2,3) by (metis list.set_intros sorted_wrt.simps(2))
    with True \<open>R x y\<close> Cons.prems(3) show ?thesis by simp
  next
    case False
    then have "R y x" using Cons.prems(1) by auto
    with False IH Cons.prems(3) show ?thesis by auto
  qed
qed simp

lemma slice_sort_sorted:
  fixes key :: "'a \<Rightarrow> 'k::linorder"
  assumes "distinct (map key xs)"
    and "\<And>x y. x \<in> set xs \<Longrightarrow> y \<in> set xs \<Longrightarrow> key x \<noteq> key y \<Longrightarrow> (lt x y \<longleftrightarrow> key x < key y)"
  shows "sorted_wrt (\<lambda>x y. key x < key y) (slice_sort lt xs)"
  using assms
proof (induction xs)
  case (Cons x xs)
  then show ?case
    by (auto intro!: sorted_insert_by Cons.IH dest: order.strict_trans) (metis image_eqI linorder_neqE)+
qed simp

lemma slice_sort_desc_sorted:
  fixes key :: "'a \<Rightarrow> 'k::linorder"
  assumes "distinct (map key xs)"
    and "\<And>x y. x \<in> set xs \<Longrightarrow> y \<in> set xs \<Longrightarrow> key x \<noteq> key y \<Longrightarrow> (lt x y \<longleftrightarrow> key y < key x)"
  shows "sorted_wrt (\<lambda>x y. key y < key x) (slice_sort lt xs)"
  using assms
proof (induction xs)
  case (Cons x xs)
  then show ?case
    by (auto intro!: sorted_insert_by Cons.IH dest: order.strict_trans) (metis image_eqI linorder_neqE)+
qed simp

text \<open>Two strictly sorted lists with the same elements are the same list: the order in which a map
  is ranged over does not show in a sorted result.\<close>

lemma sorted_wrt_unique:
  assumes "sorted_wrt R xs" and "sorted_wrt R ys" and "set xs = set ys"
    and "\<And>x y. R x y \<Longrightarrow> \<not> R y x"
  shows "xs = ys"
  using assms(1-3)
proof (induction xs arbitrary: ys)
  case (Cons x xs)
  then obtain y ys' where ys: "ys = y # ys'" by (cases ys) auto
  have irrefl: "\<not> R z z" for z using assms(4) by blast
  have "x = y"
  proof (rule ccontr)
    assume "x \<noteq> y"
    then have "y \<in> set xs" and "x \<in> set ys'" using Cons.prems(3) ys by auto
    then have "R x y" and "R y x" using Cons.prems(1,2) ys by auto
    then show False using assms(4) by blast
  qed
  moreover have "x \<notin> set xs" and "y \<notin> set ys'" using Cons.prems(1,2) ys irrefl by auto
  ultimately have "set xs = set ys'" using Cons.prems(3) ys by auto
  with Cons ys \<open>x = y\<close> show ?case by simp
qed simp

lemma sorted_wrt_irrefl_distinct:
  assumes "sorted_wrt R xs" and "\<And>x. \<not> R x x"
  shows "distinct xs"
  using assms by (induction xs) auto

text \<open>What comes after the element at a place of a strictly sorted list is the rest of the list.\<close>

lemma filter_after:
  assumes "sorted_wrt R xs" and "n < length xs" and "\<And>x y. R x y \<Longrightarrow> \<not> R y x"
  shows "filter (\<lambda>x. R (xs ! n) x) xs = drop (Suc n) xs"
proof -
  have irrefl: "\<not> R z z" for z using assms(3) by blast
  have split: "xs = take n xs @ xs ! n # drop (Suc n) xs" using assms(2) by (simp add: id_take_nth_drop)
  have "sorted_wrt R (take n xs @ xs ! n # drop (Suc n) xs)" using assms(1) split by simp
  then have l: "\<forall>x \<in> set (take n xs). R x (xs ! n)" and r: "\<forall>x \<in> set (drop (Suc n) xs). R (xs ! n) x"
    by (auto simp: sorted_wrt_append)
  have "filter (\<lambda>x. R (xs ! n) x) xs =
    filter (\<lambda>x. R (xs ! n) x) (take n xs) @ filter (\<lambda>x. R (xs ! n) x) (xs ! n # drop (Suc n) xs)"
    by (subst split) simp
  also have "filter (\<lambda>x. R (xs ! n) x) (take n xs) = []"
    using l assms(3) by (auto simp: filter_empty_conv)
  also have "filter (\<lambda>x. R (xs ! n) x) (xs ! n # drop (Suc n) xs) = drop (Suc n) xs"
    using r irrefl by (simp add: filter_id_conv)
  finally show ?thesis by simp
qed

lemma slice_sort_filter:
  assumes "sorted_wrt R (slice_sort lt xs)" and "sorted_wrt R (slice_sort lt (filter P xs))"
    and "\<And>x y. R x y \<Longrightarrow> \<not> R y x"
  shows "slice_sort lt (filter P xs) = filter P (slice_sort lt xs)"
  by (rule sorted_wrt_unique [of R]) (use assms in \<open>auto simp: sorted_wrt_filter\<close>)

end
