(* ===== verification/Gostring.thy ===== *)
theory Gostring
  imports Prelude
begin

text \<open>
  The part of Go's string library that the services use, on byte strings:
  \<^verbatim>\<open>strings.TrimSpace\<close>, the decoding of UTF-8 into runes (\<^verbatim>\<open>[]rune(s)\<close>,
  \<^verbatim>\<open>utf8.RuneCountInString\<close>) and back, \<^verbatim>\<open>strconv.FormatInt\<close> and \<^verbatim>\<open>strconv.ParseInt\<close>
  in base 10, and the character classes of the regular expressions of the domain.
\<close>

section \<open>Bytes and runes\<close>

definition byte :: "char \<Rightarrow> nat" where
  "byte c = of_char c"

definition chr :: "nat \<Rightarrow> char" where
  "chr n = char_of n"

lemma byte_less [simp]: "byte c < 256"
  by (simp add: byte_def)

lemma byte_chr: "n < 256 \<Longrightarrow> byte (chr n) = n"
  by (simp add: byte_def chr_def)

lemma chr_byte [simp]: "chr (byte c) = c"
  by (simp add: byte_def chr_def)

lemma byte_inject [simp]: "byte c = byte d \<longleftrightarrow> c = d"
  by (simp add: byte_def)

definition cont :: "nat \<Rightarrow> nat \<Rightarrow> char \<Rightarrow> bool" where
  "cont lo hi c \<longleftrightarrow> lo \<le> byte c \<and> byte c \<le> hi"

definition rune_error :: nat where "rune_error = 65533"

text \<open>
  \<^verbatim>\<open>utf8.DecodeRuneInString\<close>: the rune at the start of a non-empty string and its width; a
  byte that starts no well-formed sequence is \<^verbatim>\<open>RuneError\<close> of width 1.
\<close>

fun decode_rune :: "string \<Rightarrow> nat \<times> nat" where
  "decode_rune [] = (rune_error, 0)"
| "decode_rune (c0 # cs) =
    (let b0 = byte c0 in
     if b0 < 128 then (b0, 1)
     else if 194 \<le> b0 \<and> b0 \<le> 223 then
       (case cs of c1 # _ \<Rightarrow> if cont 128 191 c1 then ((b0 - 192) * 64 + (byte c1 - 128), 2)
                            else (rune_error, 1)
        | _ \<Rightarrow> (rune_error, 1))
     else if 224 \<le> b0 \<and> b0 \<le> 239 then
       (case cs of c1 # c2 # _ \<Rightarrow>
          if cont (if b0 = 224 then 160 else 128) (if b0 = 237 then 159 else 191) c1 \<and> cont 128 191 c2
          then ((b0 - 224) * 4096 + (byte c1 - 128) * 64 + (byte c2 - 128), 3)
          else (rune_error, 1)
        | _ \<Rightarrow> (rune_error, 1))
     else if 240 \<le> b0 \<and> b0 \<le> 244 then
       (case cs of c1 # c2 # c3 # _ \<Rightarrow>
          if cont (if b0 = 240 then 144 else 128) (if b0 = 244 then 143 else 191) c1 \<and>
             cont 128 191 c2 \<and> cont 128 191 c3
          then ((b0 - 240) * 262144 + (byte c1 - 128) * 4096 + (byte c2 - 128) * 64 + (byte c3 - 128), 4)
          else (rune_error, 1)
        | _ \<Rightarrow> (rune_error, 1))
     else (rune_error, 1))"

lemma decode_rune_width: "s \<noteq> [] \<Longrightarrow> 1 \<le> snd (decode_rune s)"
  by (cases s) (auto simp: Let_def split: list.splits if_splits)

function runes :: "string \<Rightarrow> nat list" where
  "runes s = (if s = [] then [] else fst (decode_rune s) # runes (drop (snd (decode_rune s)) s))"
  by pat_completeness auto
termination
proof (relation "measure length")
  fix s :: string
  assume "s \<noteq> []"
  with decode_rune_width[of s] show "(drop (snd (decode_rune s)) s, s) \<in> measure length"
    by (cases s) auto
qed simp

declare runes.simps [simp del]

lemma runes_Nil [simp]: "runes [] = []"
  by (simp add: runes.simps)

lemma runes_Nil_iff [simp]: "runes s = [] \<longleftrightarrow> s = []"
  by (subst runes.simps) simp

definition rune_count :: "string \<Rightarrow> nat" where
  "rune_count s = length (runes s)"

lemma rune_count_pos: "rune_count s = 0 \<longleftrightarrow> s = []"
  by (simp add: rune_count_def)

text \<open>\<^verbatim>\<open>string(r)\<close>: the UTF-8 encoding of a rune; surrogates and values past the range are
  written as \<^verbatim>\<open>RuneError\<close>.\<close>

definition encode_rune :: "nat \<Rightarrow> string" where
  "encode_rune r =
    (if r < 128 then [chr r]
     else if r < 2048 then [chr (192 + r div 64), chr (128 + r mod 64)]
     else if 55296 \<le> r \<and> r \<le> 57343 \<or> 1114111 < r then [chr 239, chr 191, chr 189]
     else if r < 65536 then [chr (224 + r div 4096), chr (128 + r div 64 mod 64), chr (128 + r mod 64)]
     else [chr (240 + r div 262144), chr (128 + r div 4096 mod 64), chr (128 + r div 64 mod 64),
           chr (128 + r mod 64)])"

definition encode_runes :: "nat list \<Rightarrow> string" where
  "encode_runes rs = concat (map encode_rune rs)"

section \<open>Trimming\<close>

text \<open>\<^verbatim>\<open>unicode.IsControl\<close>\<close>

definition is_control :: "nat \<Rightarrow> bool" where
  "is_control r \<longleftrightarrow> r < 32 \<or> 127 \<le> r \<and> r < 160"

text \<open>The UTF-8 encodings of the runes for which \<^verbatim>\<open>unicode.IsSpace\<close> holds.\<close>

definition space_runes :: "nat list" where
  "space_runes = [9, 10, 11, 12, 13, 32, 133, 160, 5760, 8192, 8193, 8194, 8195, 8196, 8197, 8198,
     8199, 8200, 8201, 8202, 8232, 8233, 8239, 8287, 12288]"

definition space_encodings :: "string list" where
  "space_encodings = map encode_rune space_runes"

lemma encode_rune_nonempty [simp]: "encode_rune r \<noteq> []"
  by (simp add: encode_rune_def)

lemma space_encodings_nonempty: "e \<in> set space_encodings \<Longrightarrow> e \<noteq> []"
  by (auto simp: space_encodings_def)

function trim_left :: "string \<Rightarrow> string" where
  "trim_left s = (case find (\<lambda>e. prefix e s) space_encodings of
      None \<Rightarrow> s | Some e \<Rightarrow> trim_left (drop (length e) s))"
  by pat_completeness auto
termination
proof (relation "measure length")
  fix s e
  assume "find (\<lambda>e. prefix e s) space_encodings = Some e"
  then have "e \<in> set space_encodings" and "prefix e s"
    by (auto simp: find_Some_iff)
  then have "e \<noteq> []" and "length e \<le> length s"
    by (auto simp: space_encodings_nonempty prefix_length_le)
  then show "(drop (length e) s, s) \<in> measure length" by (cases e) auto
qed simp

function trim_right :: "string \<Rightarrow> string" where
  "trim_right s = (case find (\<lambda>e. suffix e s) space_encodings of
      None \<Rightarrow> s | Some e \<Rightarrow> trim_right (take (length s - length e) s))"
  by pat_completeness auto
termination
proof (relation "measure length")
  fix s e
  assume "find (\<lambda>e. suffix e s) space_encodings = Some e"
  then have "e \<in> set space_encodings" and "suffix e s"
    by (auto simp: find_Some_iff)
  then have "e \<noteq> []" and "length e \<le> length s"
    by (auto simp: space_encodings_nonempty suffix_length_le)
  then show "(take (length s - length e) s, s) \<in> measure length" by (cases e) auto
qed simp

declare trim_left.simps [simp del] trim_right.simps [simp del]

definition TrimSpace :: "string \<Rightarrow> string" where
  "TrimSpace s = trim_right (trim_left s)"

lemma trim_left_suffix: "\<exists>p. s = p @ trim_left s"
proof (induction s rule: trim_left.induct)
  case (1 s)
  show ?case
  proof (cases "find (\<lambda>e. prefix e s) space_encodings")
    case None
    then show ?thesis by (simp add: trim_left.simps)
  next
    case (Some e)
    from 1 [OF Some] obtain p where "drop (length e) s = p @ trim_left (drop (length e) s)" by blast
    then have "s = (take (length e) s @ p) @ trim_left (drop (length e) s)"
      by (metis append.assoc append_take_drop_id)
    with Some show ?thesis
      by (simp only: trim_left.simps [of s] option.simps) blast
  qed
qed

lemma trim_right_prefix: "\<exists>p. s = trim_right s @ p"
proof (induction s rule: trim_right.induct)
  case (1 s)
  show ?case
  proof (cases "find (\<lambda>e. suffix e s) space_encodings")
    case None
    then show ?thesis by (simp add: trim_right.simps)
  next
    case (Some e)
    let ?t = "take (length s - length e) s"
    from 1 [OF Some] obtain p where "?t = trim_right ?t @ p" by blast
    then have "s = trim_right ?t @ (p @ drop (length s - length e) s)"
      by (metis append.assoc append_take_drop_id)
    with Some show ?thesis
      by (simp only: trim_right.simps [of s] option.simps) blast
  qed
qed

lemma TrimSpace_infix: "\<exists>p q. s = p @ TrimSpace s @ q"
  unfolding TrimSpace_def by (metis trim_left_suffix trim_right_prefix)

lemma set_TrimSpace: "set (TrimSpace s) \<subseteq> set s"
proof -
  obtain p q where "s = p @ TrimSpace s @ q" using TrimSpace_infix by blast
  then have "set s = set p \<union> set (TrimSpace s) \<union> set q" by (metis set_append sup_assoc)
  then show ?thesis by blast
qed

lemma length_TrimSpace: "length (TrimSpace s) \<le> length s"
proof -
  obtain p q where "s = p @ TrimSpace s @ q" using TrimSpace_infix by blast
  then have "length s = length p + (length (TrimSpace s) + length q)" by (metis length_append)
  then show ?thesis by simp
qed

lemma trim_left_stop: "find (\<lambda>e. prefix e (trim_left s)) space_encodings = None"
proof (induction s rule: trim_left.induct)
  case (1 s)
  then show ?case
    by (cases "find (\<lambda>e. prefix e s) space_encodings") (simp_all add: trim_left.simps [of s])
qed

lemma trim_right_stop: "find (\<lambda>e. suffix e (trim_right s)) space_encodings = None"
proof (induction s rule: trim_right.induct)
  case (1 s)
  then show ?case
    by (cases "find (\<lambda>e. suffix e s) space_encodings") (simp_all add: trim_right.simps [of s])
qed

text \<open>Trimming is idempotent: nothing is left to trim.\<close>

lemma TrimSpace_idem [simp]: "TrimSpace (TrimSpace s) = TrimSpace s"
proof -
  let ?l = "trim_left s" and ?t = "trim_right (trim_left s)"
  have "find (\<lambda>e. prefix e ?t) space_encodings = None"
  proof (rule ccontr)
    assume "find (\<lambda>e. prefix e ?t) space_encodings \<noteq> None"
    then obtain e where e: "e \<in> set space_encodings" "prefix e ?t"
      by (auto simp: find_None_iff)
    obtain p where "?l = ?t @ p" using trim_right_prefix by blast
    with e(2) have "prefix e ?l" by (metis prefix_prefix)
    with e(1) trim_left_stop [of s] show False by (auto simp: find_None_iff)
  qed
  then have "trim_left ?t = ?t" by (simp add: trim_left.simps [of ?t])
  moreover have "trim_right ?t = ?t"
    using trim_right_stop [of ?l] by (simp add: trim_right.simps [of ?t])
  ultimately show ?thesis by (simp add: TrimSpace_def)
qed

lemma TrimSpace_Nil [simp]: "TrimSpace [] = []"
  using length_TrimSpace [of "[]"] by simp

text \<open>
  No encoding of a white space starts or ends with a printable ASCII byte, so a string between
  two of them is left as it is.
\<close>

definition graphic :: "char \<Rightarrow> bool" where
  "graphic c \<longleftrightarrow> 33 \<le> byte c \<and> byte c \<le> 126"

lemma encode_space_ends:
  "list_all (\<lambda>r. \<not> graphic (hd (encode_rune r)) \<and> \<not> graphic (last (encode_rune r))) space_runes"
  by (simp add: space_runes_def encode_rune_def graphic_def byte_chr)

lemma space_encoding_ends:
  assumes "e \<in> set space_encodings"
  shows "\<not> graphic (hd e)" and "\<not> graphic (last e)"
  using assms encode_space_ends by (auto simp: space_encodings_def list_all_iff)

lemma TrimSpace_graphic:
  assumes "s \<noteq> []" and "graphic (hd s)" and "graphic (last s)"
  shows "TrimSpace s = s"
proof -
  have "\<not> prefix e s" "\<not> suffix e s" if "e \<in> set space_encodings" for e
    using space_encoding_ends [OF that] space_encodings_nonempty [OF that] assms
    by (auto simp: prefix_def suffix_def)
  then have "find (\<lambda>e. prefix e s) space_encodings = None" "find (\<lambda>e. suffix e s) space_encodings = None"
    by (auto simp: find_None_iff)
  then show ?thesis
    by (simp add: TrimSpace_def trim_left.simps [of s] trim_right.simps [of s])
qed

text \<open>The same as equations to evaluate: a printable byte at the end is decided without the table of
  the white spaces.\<close>

lemma trim_left_code [code]:
  "trim_left s = (if s = [] \<or> graphic (hd s) then s
     else case find (\<lambda>e. prefix e s) space_encodings of None \<Rightarrow> s | Some e \<Rightarrow> trim_left (drop (length e) s))"
proof -
  have "find (\<lambda>e. prefix e s) space_encodings = None" if "s = [] \<or> graphic (hd s)"
    using that space_encoding_ends(1) space_encodings_nonempty by (auto simp: find_None_iff prefix_def)
  then show ?thesis by (simp add: trim_left.simps [of s])
qed

lemma trim_right_code [code]:
  "trim_right s = (if s = [] \<or> graphic (last s) then s
     else case find (\<lambda>e. suffix e s) space_encodings of None \<Rightarrow> s | Some e \<Rightarrow> trim_right (take (length s - length e) s))"
proof -
  have "find (\<lambda>e. suffix e s) space_encodings = None" if "s = [] \<or> graphic (last s)"
    using that space_encoding_ends(2) space_encodings_nonempty by (auto simp: find_None_iff suffix_def)
  then show ?thesis by (simp add: trim_right.simps [of s])
qed

section \<open>Character classes\<close>

definition is_digit :: "char \<Rightarrow> bool" where
  "is_digit c \<longleftrightarrow> 48 \<le> byte c \<and> byte c \<le> 57"

definition is_lower :: "char \<Rightarrow> bool" where
  "is_lower c \<longleftrightarrow> 97 \<le> byte c \<and> byte c \<le> 122"

definition is_upper :: "char \<Rightarrow> bool" where
  "is_upper c \<longleftrightarrow> 65 \<le> byte c \<and> byte c \<le> 90"

definition is_alnum :: "char \<Rightarrow> bool" where
  "is_alnum c \<longleftrightarrow> is_digit c \<or> is_lower c \<or> is_upper c"

definition is_lower_hex :: "char \<Rightarrow> bool" where
  "is_lower_hex c \<longleftrightarrow> is_digit c \<or> 97 \<le> byte c \<and> byte c \<le> 102"

text \<open>A pattern \<^verbatim>\<open>^[class]{lo,hi}$\<close>.\<close>

definition class_match :: "(char \<Rightarrow> bool) \<Rightarrow> nat \<Rightarrow> nat \<Rightarrow> string \<Rightarrow> bool" where
  "class_match p lo hi s \<longleftrightarrow> lo \<le> length s \<and> length s \<le> hi \<and> list_all p s"

section \<open>Numbers\<close>

definition digit_val :: "char \<Rightarrow> nat" where
  "digit_val c = byte c - 48"

definition digit_chr :: "nat \<Rightarrow> char" where
  "digit_chr d = chr (48 + d)"

fun nat_dec :: "nat \<Rightarrow> string" where
  "nat_dec n = (if n < 10 then [digit_chr n] else nat_dec (n div 10) @ [digit_chr (n mod 10)])"

declare nat_dec.simps [simp del]

text \<open>\<^verbatim>\<open>strconv.FormatInt(x, 10)\<close>, also \<^verbatim>\<open>strconv.Itoa\<close>.\<close>

definition FormatInt :: "int \<Rightarrow> string" where
  "FormatInt x = (if x < 0 then CHR ''-'' # nat_dec (nat (- x)) else nat_dec (nat x))"

text \<open>The verb \<^verbatim>\<open>%0wd\<close> for a non-negative number.\<close>

definition pad_dec :: "nat \<Rightarrow> nat \<Rightarrow> string" where
  "pad_dec w n = (let s = nat_dec n in replicate (w - length s) CHR ''0'' @ s)"

fun dec_val :: "nat \<Rightarrow> string \<Rightarrow> nat" where
  "dec_val acc [] = acc"
| "dec_val acc (c # cs) = dec_val (acc * 10 + digit_val c) cs"

lemma digit_val_chr [simp]: "d < 10 \<Longrightarrow> digit_val (digit_chr d) = d"
  by (simp add: digit_val_def digit_chr_def byte_chr)

lemma is_digit_chr [simp]: "d < 10 \<Longrightarrow> is_digit (digit_chr d)"
  by (simp add: is_digit_def digit_chr_def byte_chr)

lemma dec_val_append: "dec_val acc (xs @ ys) = dec_val (dec_val acc xs) ys"
  by (induction xs arbitrary: acc) auto

lemma dec_val_nat_dec: "dec_val 0 (nat_dec n) = n"
proof (induction n rule: nat_dec.induct)
  case (1 n)
  then show ?case
    by (cases "n < 10") (simp_all add: nat_dec.simps [of n] dec_val_append)
qed

lemma nat_dec_digits: "list_all is_digit (nat_dec n)"
proof (induction n rule: nat_dec.induct)
  case (1 n)
  then show ?case
    by (cases "n < 10") (simp_all add: nat_dec.simps [of n])
qed

lemma nat_dec_nonempty [simp]: "nat_dec n \<noteq> []"
  by (subst nat_dec.simps) simp

lemma nat_dec_inject [simp]: "nat_dec m = nat_dec n \<longleftrightarrow> m = n"
  by (metis dec_val_nat_dec)

lemma nat_dec_no_minus: "CHR ''-'' \<notin> set (nat_dec n)"
  using nat_dec_digits [of n] by (auto simp: list_all_iff is_digit_def byte_def)

lemma FormatInt_inject [simp]: "FormatInt x = FormatInt y \<longleftrightarrow> x = y"
proof
  assume eq: "FormatInt x = FormatInt y"
  have m: "CHR ''-'' # s \<noteq> nat_dec n" for s n
    using nat_dec_no_minus [of n] by (metis list.set_intros(1))
  show "x = y"
    using eq m m [symmetric]
    by (auto simp: FormatInt_def split: if_splits)
qed simp

datatype num_error = ErrSyntax | ErrRange

text \<open>
  The loop of \<^verbatim>\<open>strconv.ParseUint(s, 10, 64)\<close>: a character that is not a digit is a syntax
  error, a value that does not fit is a range error, whichever comes first.
\<close>

fun parse_uint_loop :: "nat \<Rightarrow> string \<Rightarrow> num_error + nat" where
  "parse_uint_loop n [] = Inr n"
| "parse_uint_loop n (c # cs) =
    (if \<not> is_digit c then Inl ErrSyntax
     else if 1844674407370955162 \<le> n then Inl ErrRange
     else if n * 10 + digit_val c \<ge> 2 ^ 64 then Inl ErrRange
     else parse_uint_loop (n * 10 + digit_val c) cs)"

definition ParseUint :: "string \<Rightarrow> num_error + nat" where
  "ParseUint s = (if s = [] then Inl ErrSyntax else parse_uint_loop 0 s)"

definition ParseInt :: "string \<Rightarrow> num_error + int" where
  "ParseInt s =
    (if s = [] then Inl ErrSyntax
     else let neg = (hd s = CHR ''-'');
              body = (if hd s = CHR ''-'' \<or> hd s = CHR ''+'' then tl s else s)
          in case ParseUint body of
               Inl ErrSyntax \<Rightarrow> Inl ErrSyntax
             | Inl ErrRange \<Rightarrow> Inl ErrRange
             | Inr un \<Rightarrow> if \<not> neg \<and> 2 ^ 63 \<le> un then Inl ErrRange
                       else if neg \<and> 2 ^ 63 < un then Inl ErrRange
                       else Inr (if neg then - int un else int un))"

lemma pad_dec_digits: "list_all is_digit (pad_dec w n)"
  using nat_dec_digits [of n] by (auto simp: pad_dec_def Let_def list_all_iff is_digit_def byte_def)

lemma dec_val_zeros: "dec_val 0 (replicate k CHR ''0'' @ s) = dec_val 0 s"
  by (induction k) (simp_all add: digit_val_def byte_def)

lemma dec_val_pad_dec: "dec_val 0 (pad_dec w n) = n"
  by (simp add: pad_dec_def Let_def dec_val_zeros dec_val_nat_dec)

lemma dec_val_mono: "acc \<le> dec_val acc cs"
proof (induction cs arbitrary: acc)
  case (Cons c cs)
  have "acc \<le> acc * 10 + digit_val c" by simp
  also have "\<dots> \<le> dec_val (acc * 10 + digit_val c) cs" by (rule Cons.IH)
  finally show ?case by simp
qed simp

lemma parse_uint_loop_ok:
  "list_all is_digit cs \<Longrightarrow> dec_val n cs < 2 ^ 64 \<Longrightarrow> parse_uint_loop n cs = Inr (dec_val n cs)"
proof (induction cs arbitrary: n)
  case (Cons c cs)
  have "n * 10 + digit_val c \<le> dec_val (n * 10 + digit_val c) cs" by (rule dec_val_mono)
  with Cons.prems have "n * 10 + digit_val c < 2 ^ 64" by simp
  then show ?case using Cons by simp
qed simp

lemma parse_uint_loop_sound:
  "parse_uint_loop n cs = Inr v \<Longrightarrow> list_all is_digit cs \<and> v = dec_val n cs"
  by (induction cs arbitrary: n) (auto split: if_splits)

text \<open>Printing and reading back an \<^verbatim>\<open>int64\<close> is the identity.\<close>

lemma ParseInt_FormatInt: "in_i64 x \<Longrightarrow> ParseInt (FormatInt x) = Inr x"
proof -
  assume x: "in_i64 x"
  have u: "ParseUint (nat_dec n) = Inr n" if "n < 2 ^ 64" for n
    using that by (simp add: ParseUint_def parse_uint_loop_ok nat_dec_digits dec_val_nat_dec)
  have d: "is_digit (hd (nat_dec n))" for n
    using nat_dec_digits [of n] by (simp add: list_all_iff)
  have h: "hd (nat_dec n) \<noteq> CHR ''-''" "hd (nat_dec n) \<noteq> CHR ''+''" for n
    using d [of n] by (auto simp: is_digit_def byte_def)
  show ?thesis
  proof (cases "x < 0")
    case True
    with x have "nat (- x) \<le> 2 ^ 63" by (simp add: in_i64_def)
    with True show ?thesis by (simp add: FormatInt_def ParseInt_def u)
  next
    case False
    with x have "nat x < 2 ^ 63" by (simp add: in_i64_def)
    with False h [of "nat x"] show ?thesis by (simp add: FormatInt_def ParseInt_def u)
  qed
qed

end
