(* ===== verification/Gotime.thy ===== *)
theory Gotime
  imports Gostring
begin

text \<open>
  Go's \<^verbatim>\<open>time\<close> package as the services use it. An instant is the number of nanoseconds since
  the zero \<^verbatim>\<open>time.Time\<close> (1 January of year 1, UTC), so \<^verbatim>\<open>t.IsZero()\<close> is \<open>t = 0\<close>,
  \<^verbatim>\<open>Before\<close>, \<^verbatim>\<open>After\<close> and \<^verbatim>\<open>Equal\<close> are the order of the integers, and \<^verbatim>\<open>UTC()\<close>, which
  only changes how an instant is displayed, is the identity. \<^verbatim>\<open>Add\<close> is addition: a
  \<^verbatim>\<open>time.Time\<close> spans far more than the instants of the program, so it never wraps. A
  \<^verbatim>\<open>time.Duration\<close> is an \<^verbatim>\<open>int64\<close> of nanoseconds.
\<close>

type_synonym time = int
type_synonym duration = int

definition zero_time :: time where "zero_time = 0"

definition time_IsZero :: "time \<Rightarrow> bool" where "time_IsZero t \<longleftrightarrow> t = zero_time"

definition time_Add :: "time \<Rightarrow> duration \<Rightarrow> time" where "time_Add t d = t + d"

definition time_Second :: duration where "time_Second = 1000000000"
definition time_Millisecond :: duration where "time_Millisecond = 1000000"
definition time_Microsecond :: duration where "time_Microsecond = 1000"
definition time_Minute :: duration where "time_Minute = 60 * time_Second"
definition time_Hour :: duration where "time_Hour = 60 * time_Minute"

lemmas time_units [simp, go_defs] = time_Second_def time_Millisecond_def time_Microsecond_def
  time_Minute_def time_Hour_def

lemmas time_basics [simp, go_defs] = zero_time_def time_IsZero_def time_Add_def

text \<open>\<^verbatim>\<open>t.Truncate(d)\<close> rounds down to a multiple of \<open>d\<close> since the zero time; \<open>d \<le> 0\<close> strips
  nothing.\<close>

definition time_Truncate :: "time \<Rightarrow> duration \<Rightarrow> time" where
  "time_Truncate t d = (if d \<le> 0 then t else t - t mod d)"

lemma time_Truncate_bounds: "0 < d \<Longrightarrow> time_Truncate t d \<le> t \<and> t - d < time_Truncate t d"
  by (simp add: time_Truncate_def)

lemma time_Truncate_dvd: "0 < d \<Longrightarrow> d dvd time_Truncate t d"
  by (simp add: time_Truncate_def minus_mod_eq_mult_div)

lemma time_Truncate_idem: "0 < d \<Longrightarrow> time_Truncate (time_Truncate t d) d = time_Truncate t d"
  by (simp add: time_Truncate_def mod_diff_eq)

text \<open>\<^verbatim>\<open>t.AddDate(0, 0, n)\<close> in UTC moves whole days.\<close>

definition day_ns :: int where "day_ns = 24 * time_Hour"

definition AddDays :: "time \<Rightarrow> int \<Rightarrow> time" where
  "AddDays t n = t + n * day_ns"

section \<open>The civil calendar\<close>

definition is_leap :: "int \<Rightarrow> bool" where
  "is_leap y \<longleftrightarrow> y mod 4 = 0 \<and> (y mod 100 \<noteq> 0 \<or> y mod 400 = 0)"

definition days_before_year :: "int \<Rightarrow> int" where
  "days_before_year y = 365 * (y - 1) + (y - 1) div 4 - (y - 1) div 100 + (y - 1) div 400"

definition month_days :: "bool \<Rightarrow> int list" where
  "month_days leap = [31, if leap then 29 else 28, 31, 30, 31, 30, 31, 31, 30, 31, 30, 31]"

definition days_before_month :: "bool \<Rightarrow> nat \<Rightarrow> int" where
  "days_before_month leap m = sum_list (take (m - 1) (month_days leap))"

definition days_in :: "bool \<Rightarrow> nat \<Rightarrow> int" where
  "days_in leap m = (if 1 \<le> m \<and> m \<le> 12 then month_days leap ! (m - 1) else 0)"

definition civil_days :: "int \<Rightarrow> nat \<Rightarrow> nat \<Rightarrow> int" where
  "civil_days y m d = days_before_year y + days_before_month (is_leap y) m + int d - 1"

definition date_instant :: "int \<Rightarrow> nat \<Rightarrow> nat \<Rightarrow> int \<Rightarrow> int \<Rightarrow> int \<Rightarrow> int \<Rightarrow> time" where
  "date_instant y m d hh mm ss ns =
    (((civil_days y m d * 24 + hh) * 60 + mm) * 60 + ss) * time_Second + ns"

text \<open>The year of a day number: 400-, 100-, 4- and 1-year cycles.\<close>

definition year_of_days :: "int \<Rightarrow> int" where
  "year_of_days d =
    (let n400 = d div 146097; r400 = d mod 146097;
         n100 = min 3 (r400 div 36524); r100 = r400 - n100 * 36524;
         n4 = r100 div 1461; r4 = r100 mod 1461;
         n1 = min 3 (r4 div 365)
     in 400 * n400 + 100 * n100 + 4 * n4 + n1 + 1)"

definition time_Year :: "time \<Rightarrow> int" where
  "time_Year t = year_of_days (t div day_ns)"

fun month_day_of :: "nat \<Rightarrow> int list \<Rightarrow> int \<Rightarrow> nat \<times> nat" where
  "month_day_of m [] d = (m, nat d + 1)"
| "month_day_of m (l # ls) d = (if d < l then (m, nat d + 1) else month_day_of (m + 1) ls (d - l))"

definition civil_of_days :: "int \<Rightarrow> int \<times> nat \<times> nat" where
  "civil_of_days d =
    (let y = year_of_days d; (m, dd) = month_day_of 1 (month_days (is_leap y)) (d - days_before_year y)
     in (y, m, dd))"

section \<open>RFC 3339\<close>

text \<open>\<^verbatim>\<open>t.UTC().Format(time.RFC3339Nano)\<close>: the fraction is printed without trailing zeros and
  left out when it is zero. Years of the program are between 0 and 9999.\<close>

fun drop_trailing_zeros :: "string \<Rightarrow> string" where
  "drop_trailing_zeros s = rev (dropWhile (\<lambda>c. c = CHR ''0'') (rev s))"

definition format_rfc3339nano :: "time \<Rightarrow> string" where
  "format_rfc3339nano t =
    (let (y, m, d) = civil_of_days (t div day_ns); r = t mod day_ns;
         ns = r mod time_Second; s = r div time_Second;
         frac = (if ns = 0 then '''' else CHR ''.'' # drop_trailing_zeros (pad_dec 9 (nat ns)))
     in pad_dec 4 (nat y) @ ''-'' @ pad_dec 2 m @ ''-'' @ pad_dec 2 d @ ''T'' @
        pad_dec 2 (nat (s div 3600)) @ '':'' @ pad_dec 2 (nat (s div 60 mod 60)) @ '':'' @
        pad_dec 2 (nat (s mod 60)) @ frac @ ''Z'')"

text \<open>
  \<^verbatim>\<open>time.Parse(time.RFC3339, s)\<close>: the reader of the layout
  \<^verbatim>\<open>2006-01-02T15:04:05Z07:00\<close>. The hour may have one digit, and a fraction of seconds is
  accepted after a dot or a comma although the layout has none, as in the library.
\<close>

fun expect :: "char \<Rightarrow> string \<Rightarrow> string option" where
  "expect c [] = None"
| "expect c (x # xs) = (if x = c then Some xs else None)"

text \<open>\<^verbatim>\<open>getnum(s, fixed)\<close>: two digits, or one when the number need not have two.\<close>

fun getnum :: "bool \<Rightarrow> string \<Rightarrow> (nat \<times> string) option" where
  "getnum fixed [] = None"
| "getnum fixed [a] = (if is_digit a \<and> \<not> fixed then Some (digit_val a, []) else None)"
| "getnum fixed (a # b # cs) =
    (if \<not> is_digit a then None
     else if \<not> is_digit b then (if fixed then None else Some (digit_val a, b # cs))
     else Some (digit_val a * 10 + digit_val b, cs))"

definition parse_year :: "string \<Rightarrow> (nat \<times> string) option" where
  "parse_year s = (if 4 \<le> length s \<and> list_all is_digit (take 4 s)
     then Some (dec_val 0 (take 4 s), drop 4 s) else None)"

definition ranged :: "nat \<Rightarrow> nat \<Rightarrow> (nat \<times> string) option \<Rightarrow> (nat \<times> string) option" where
  "ranged lo hi r = (case r of None \<Rightarrow> None
     | Some (n, s) \<Rightarrow> if lo \<le> n \<and> n \<le> hi then Some (n, s) else None)"

definition parse_fraction :: "string \<Rightarrow> nat \<times> string" where
  "parse_fraction s =
    (case s of
       c # d # rest \<Rightarrow>
         if (c = CHR ''.'' \<or> c = CHR '','') \<and> is_digit d
         then let ds = takeWhile is_digit (d # rest); nine = take 9 ds
              in (dec_val 0 nine * 10 ^ (9 - length nine), dropWhile is_digit (d # rest))
         else (0, s)
     | _ \<Rightarrow> (0, s))"

definition parse_zone :: "string \<Rightarrow> (int \<times> string) option" where
  "parse_zone s =
    (case s of
       [] \<Rightarrow> None
     | c # rest \<Rightarrow>
        if c = CHR ''Z'' then Some (0, rest)
        else if length s < 6 \<or> s ! 3 \<noteq> CHR '':'' then None
        else case (getnum True (take 2 (drop 1 s)), getnum True (take 2 (drop 4 s))) of
               (Some (hh, _), Some (mm, _)) \<Rightarrow>
                 if 24 < hh \<or> 60 < mm then None
                 else let off = int ((hh * 60 + mm) * 60) in
                   if c = CHR ''+'' then Some (off, drop 6 s)
                   else if c = CHR ''-'' then Some (- off, drop 6 s)
                   else None
             | _ \<Rightarrow> None)"

definition parse_rfc3339 :: "string \<Rightarrow> time option" where
  "parse_rfc3339 s0 =
    Option.bind (parse_year s0) (\<lambda>(y, s1).
    Option.bind (expect CHR ''-'' s1) (\<lambda>s2.
    Option.bind (ranged 1 12 (getnum True s2)) (\<lambda>(mon, s3).
    Option.bind (expect CHR ''-'' s3) (\<lambda>s4.
    Option.bind (getnum True s4) (\<lambda>(d, s5).
    Option.bind (expect CHR ''T'' s5) (\<lambda>s6.
    Option.bind (ranged 0 23 (getnum False s6)) (\<lambda>(hh, s7).
    Option.bind (expect CHR '':'' s7) (\<lambda>s8.
    Option.bind (ranged 0 59 (getnum True s8)) (\<lambda>(mi, s9).
    Option.bind (expect CHR '':'' s9) (\<lambda>s10.
    Option.bind (ranged 0 59 (getnum True s10)) (\<lambda>(ss, s11).
    let (ns, s12) = parse_fraction s11 in
    Option.bind (parse_zone s12) (\<lambda>(off, s13).
    if s13 \<noteq> [] then None
    else if d < 1 \<or> days_in (is_leap (int y)) mon < int d then None
    else Some (date_instant (int y) mon d (int hh) (int mi) (int ss) (int ns) - off * time_Second)))))))))))))"

text \<open>A calendar day \<^verbatim>\<open>YYYY-MM-DD\<close> read at midnight of a fixed zone (\<^verbatim>\<open>time.DateOnly\<close> with
  \<^verbatim>\<open>ParseInLocation\<close>); the offset of the zone is in seconds.\<close>

definition parse_date_only :: "int \<Rightarrow> string \<Rightarrow> time option" where
  "parse_date_only off s0 =
    Option.bind (parse_year s0) (\<lambda>(y, s1).
    Option.bind (expect CHR ''-'' s1) (\<lambda>s2.
    Option.bind (ranged 1 12 (getnum True s2)) (\<lambda>(mon, s3).
    Option.bind (expect CHR ''-'' s3) (\<lambda>s4.
    Option.bind (getnum True s4) (\<lambda>(d, s5).
    if s5 \<noteq> [] then None
    else if d < 1 \<or> days_in (is_leap (int y)) mon < int d then None
    else Some (date_instant (int y) mon d 0 0 0 0 - off * time_Second))))))"

section \<open>Facts of the calendar\<close>

lemma div_step: "0 < k \<Longrightarrow> (y::int) div k = (y - 1) div k + (if y mod k = 0 then 1 else 0)"
proof -
  assume k: "0 < k"
  have m: "0 \<le> y mod k" "y mod k < k" using k by simp_all
  have y: "y = k * (y div k) + y mod k" by simp
  show ?thesis
  proof (cases "y mod k = 0")
    case True
    then have "y - 1 = k * (y div k - 1) + (k - 1)" using y by (simp add: right_diff_distrib)
    then have "(y - 1) div k = y div k - 1" by (rule int_div_pos_eq) (use k in simp_all)
    with True show ?thesis by simp
  next
    case False
    have "y - 1 = k * (y div k) + (y mod k - 1)" using y by simp
    then have "(y - 1) div k = y div k" by (rule int_div_pos_eq) (use m False in simp_all)
    with False show ?thesis by simp
  qed
qed

lemma days_before_year_Suc: "days_before_year (y + 1) = days_before_year y + (if is_leap y then 366 else 365)"
proof -
  have a: "y div 4 = (y - 1) div 4 + (if y mod 4 = 0 then 1 else 0)" by (rule div_step) simp
  have b: "y div 100 = (y - 1) div 100 + (if y mod 100 = 0 then 1 else 0)" by (rule div_step) simp
  have c: "y div 400 = (y - 1) div 400 + (if y mod 400 = 0 then 1 else 0)" by (rule div_step) simp
  have d: "y mod 400 = 0 \<Longrightarrow> y mod 100 = 0" "y mod 100 = 0 \<Longrightarrow> y mod 4 = 0"
    by (auto simp flip: dvd_eq_mod_eq_0 elim: dvd_trans [rotated])
  define A B C where "A = (y - 1) div 4" and "B = (y - 1) div 100" and "C = (y - 1) div 400"
  have "days_before_year (y + 1) = 365 * y + y div 4 - y div 100 + y div 400"
    by (simp add: days_before_year_def)
  also have "\<dots> = 365 * y + (A + (if y mod 4 = 0 then 1 else 0)) - (B + (if y mod 100 = 0 then 1 else 0))
      + (C + (if y mod 400 = 0 then 1 else 0))"
    by (simp only: a b c A_def B_def C_def)
  also have "\<dots> = 365 * (y - 1) + A - B + C + (if is_leap y then 366 else 365)"
  proof -
    define P Q R where "P \<longleftrightarrow> y mod 4 = 0" and "Q \<longleftrightarrow> y mod 100 = 0" and "R \<longleftrightarrow> y mod 400 = 0"
    have "R \<Longrightarrow> Q" "Q \<Longrightarrow> P" using d by (simp_all only: P_def Q_def R_def)
    then show ?thesis
      unfolding is_leap_def P_def [symmetric] Q_def [symmetric] R_def [symmetric]
      by (cases P; cases Q; cases R) simp_all
  qed
  finally show ?thesis by (simp only: days_before_year_def A_def B_def C_def)
qed

lemma r100_bounds:
  assumes "0 \<le> (r::int)" and "r < 146097"
  shows "0 \<le> r - min 3 (r div 36524) * 36524" and "r - min 3 (r div 36524) * 36524 \<le> 36524"
    and "min 3 (r div 36524) < 3 \<longrightarrow> r - min 3 (r div 36524) * 36524 < 36524"
proof -
  define q m where "q = r div 36524" and "m = r mod 36524"
  have r: "r = q * 36524 + m" by (simp add: q_def m_def)
  have m: "0 \<le> m" "m < 36524" by (simp_all add: m_def)
  have q: "0 \<le> q" "q \<le> 4" "q = 4 \<longrightarrow> m \<le> 0" using assms r m by linarith+
  consider "q \<le> 3" | "q = 4" using q by linarith
  then have "0 \<le> r - min 3 q * 36524 \<and> r - min 3 q * 36524 \<le> 36524
      \<and> (min 3 q < 3 \<longrightarrow> r - min 3 q * 36524 < 36524)"
    by cases (use r m q in \<open>simp_all add: min_def\<close>)
  then show "0 \<le> r - min 3 (r div 36524) * 36524" and "r - min 3 (r div 36524) * 36524 \<le> 36524"
    and "min 3 (r div 36524) < 3 \<longrightarrow> r - min 3 (r div 36524) * 36524 < 36524"
    by (simp_all add: q_def)
qed

text \<open>The day number lies in the year that \<open>year_of_days\<close> gives: the cycles are right.\<close>

lemma year_of_days_range:
  "days_before_year (year_of_days d) \<le> d \<and> d < days_before_year (year_of_days d + 1)"
proof -
  define n400 where "n400 = d div 146097"
  define r400 where "r400 = d mod 146097"
  define n100 where "n100 = min 3 (r400 div 36524)"
  define r100 where "r100 = r400 - n100 * 36524"
  define n4 where "n4 = r100 div 1461"
  define r4 where "r4 = r100 mod 1461"
  define n1 where "n1 = min 3 (r4 div 365)"
  have y: "year_of_days d = 400 * n400 + 100 * n100 + 4 * n4 + n1 + 1"
    by (simp only: year_of_days_def Let_def n400_def r400_def n100_def r100_def n4_def r4_def n1_def)
  have d: "d = 146097 * n400 + r400" by (simp add: n400_def r400_def)
  have r400: "0 \<le> r400" "r400 < 146097" by (simp_all add: r400_def)
  have n100: "0 \<le> n100" "n100 \<le> 3" using r400 by (simp_all add: n100_def)
  have r100: "0 \<le> r100" "r100 \<le> 36524" "n100 < 3 \<longrightarrow> r100 < 36524"
    using r400 r100_bounds [of r400] unfolding r100_def n100_def by simp_all
  have r100d: "r100 = 1461 * n4 + r4" by (simp add: n4_def r4_def)
  have r4: "0 \<le> r4" "r4 < 1461" by (simp_all add: r4_def)
  have n4: "0 \<le> n4" "n4 \<le> 24" using r100 by (simp_all add: n4_def) 
  have n1: "0 \<le> n1" "n1 \<le> 3" "365 * n1 \<le> r4" "n1 < 3 \<longrightarrow> r4 < 365 * n1 + 365" "r4 \<le> 365 * n1 + 365"
    using r4 by (auto simp: n1_def min_def)
  have before: "days_before_year (year_of_days d) = 146097 * n400 + 36524 * n100 + 1461 * n4 + 365 * n1"
  proof -
    have "(400 * n400 + 100 * n100 + 4 * n4 + n1) div 4 = 100 * n400 + 25 * n100 + n4"
      by (rule int_div_pos_eq [where r = n1]) (use n1 in simp_all)
    moreover have "(400 * n400 + 100 * n100 + 4 * n4 + n1) div 100 = 4 * n400 + n100"
      by (rule int_div_pos_eq [where r = "4 * n4 + n1"]) (use n1 n4 in simp_all)
    moreover have "(400 * n400 + 100 * n100 + 4 * n4 + n1) div 400 = n400"
      by (rule int_div_pos_eq [where r = "100 * n100 + 4 * n4 + n1"]) (use n1 n4 n100 in simp_all)
    ultimately show ?thesis by (simp add: days_before_year_def y)
  qed
  have leap: "is_leap (year_of_days d) \<longleftrightarrow> n1 = 3 \<and> (n4 \<noteq> 24 \<or> n100 = 3)"
  proof -
    have z: "(r + k * q) mod k = 0 \<longleftrightarrow> r = 0 \<or> r = k" if "0 < k" "0 \<le> r" "r \<le> k" for r k q :: int
      using that by (cases "r = k") auto
    let ?Y = "400 * n400 + 100 * n100 + 4 * n4 + n1 + 1"
    have e: "?Y = (n1 + 1) + 4 * (100 * n400 + 25 * n100 + n4)"
      "?Y = (4 * n4 + n1 + 1) + 100 * (4 * n400 + n100)"
      "?Y = (100 * n100 + 4 * n4 + n1 + 1) + 400 * n400"
      by simp_all
    have "?Y mod 4 = 0 \<longleftrightarrow> n1 = 3"
      unfolding e(1) using n1 by (subst z) auto
    moreover have "?Y mod 100 = 0 \<longleftrightarrow> n4 = 24 \<and> n1 = 3"
      unfolding e(2) using n1 n4 by (subst z) auto
    moreover have "?Y mod 400 = 0 \<longleftrightarrow> n100 = 3 \<and> n4 = 24 \<and> n1 = 3"
      unfolding e(3) using n1 n4 n100 by (subst z) auto
    ultimately show ?thesis unfolding is_leap_def y by (simp only:) (metis (no_types))
  qed
  have day: "d = days_before_year (year_of_days d) + (r4 - 365 * n1)"
    using before d r100d r100_def by linarith
  have "r4 - 365 * n1 < (if is_leap (year_of_days d) then 366 else 365)"
  proof (cases "is_leap (year_of_days d)")
    case True
    then show ?thesis using n1(5) by simp
  next
    case False
    with leap consider "n1 < 3" | "n4 = 24" "n100 < 3" using n1(2) n100(2) by force
    then have "r4 < 365 * n1 + 365"
    proof cases
      case 2
      then have "r4 < 1460" using r100 r100d by simp
      then show ?thesis using n1 by (cases "n1 = 3") simp_all
    qed (use n1 in simp)
    with False show ?thesis by simp
  qed
  with day n1(3) show ?thesis
    by (simp only: days_before_year_Suc) linarith
qed

lemma days_before_year_step: "days_before_year y + 365 \<le> days_before_year (y + 1)"
  by (simp add: days_before_year_Suc)

lemma days_before_year_mono_nat: "days_before_year y \<le> days_before_year (y + int n)"
proof (induction n)
  case (Suc n)
  have "days_before_year (y + int n) \<le> days_before_year (y + int n + 1)"
    using days_before_year_step [of "y + int n"] by simp
  with Suc show ?case by (simp add: add.assoc add.commute [of "int n"])
qed simp

lemma days_before_year_mono: "y \<le> z \<Longrightarrow> days_before_year y \<le> days_before_year z"
  using days_before_year_mono_nat [of y "nat (z - y)"] by simp

text \<open>It is the only year that contains the day.\<close>

lemma year_of_days_unique:
  assumes "days_before_year y \<le> d" and "d < days_before_year (y + 1)"
  shows "year_of_days d = y"
proof (rule linorder_cases [of "year_of_days d" y])
  assume "year_of_days d < y"
  then have "days_before_year (year_of_days d + 1) \<le> days_before_year y"
    by (simp add: days_before_year_mono)
  with year_of_days_range [of d] assms show ?thesis by simp
next
  assume "y < year_of_days d"
  then have "days_before_year (y + 1) \<le> days_before_year (year_of_days d)"
    by (simp add: days_before_year_mono)
  with year_of_days_range [of d] assms show ?thesis by simp
qed

end
