(* ===== verification/Claims_Catalog.thy ===== *)
theory Claims_Catalog
  imports Gotime Gohash
begin

text \<open>
  The vocabulary of the claims service (\<^verbatim>\<open>services/claims/internal/domain\<close>): the statuses, the
  policies of the insured (\<^verbatim>\<open>policy.go\<close>), the catalog of claim types and the supports each one
  asks for (\<^verbatim>\<open>catalog.go\<close>), and the terms of a policy (\<^verbatim>\<open>evaluation.go\<close>). Claim types, lines
  and policy statuses are open sets of strings in the code (they come from requests and from the
  policy core), and stay strings here; the statuses of a claim and the file formats are closed.
\<close>

section \<open>Statuses of a claim\<close>

datatype claim_status =
    StatusActive | StatusInEvaluation | StatusApproved | StatusPaid | StatusRejected | StatusPaymentException

definition status_name :: "claim_status \<Rightarrow> string" where
  "status_name s = (case s of StatusActive \<Rightarrow> ''active'' | StatusInEvaluation \<Rightarrow> ''in_evaluation''
     | StatusApproved \<Rightarrow> ''approved'' | StatusPaid \<Rightarrow> ''paid'' | StatusRejected \<Rightarrow> ''rejected''
     | StatusPaymentException \<Rightarrow> ''payment_exception'')"

text \<open>\<^verbatim>\<open>Known\<close>: the status a filter names, if it is one.\<close>

definition Known :: "string \<Rightarrow> claim_status option" where
  "Known s =
    (if s = ''active'' then Some StatusActive
     else if s = ''in_evaluation'' then Some StatusInEvaluation
     else if s = ''approved'' then Some StatusApproved
     else if s = ''paid'' then Some StatusPaid
     else if s = ''rejected'' then Some StatusRejected
     else if s = ''payment_exception'' then Some StatusPaymentException
     else None)"

lemma Known_status_name [simp]: "Known (status_name s) = Some s"
  by (cases s) (simp_all add: Known_def status_name_def)

definition triageableStatuses :: "claim_status list" where
  "triageableStatuses = [StatusActive, StatusInEvaluation]"

definition Triageable :: "claim_status \<Rightarrow> bool" where
  "Triageable s = list_ex (\<lambda>t. s = t) triageableStatuses"

definition Decidable :: "claim_status \<Rightarrow> bool" where
  "Decidable s = Triageable s"

lemma Triageable_iff [simp]: "Triageable s \<longleftrightarrow> s = StatusActive \<or> s = StatusInEvaluation"
  by (simp add: Triageable_def triageableStatuses_def)

lemma Decidable_iff [simp]: "Decidable s \<longleftrightarrow> s = StatusActive \<or> s = StatusInEvaluation"
  by (simp add: Decidable_def)

section \<open>Claim types and lines\<close>

type_synonym incident_type = string
type_synonym policy_line = string

definition IncidentCollision :: incident_type where "IncidentCollision = ''collision''"
definition IncidentTheft :: incident_type where "IncidentTheft = ''theft''"
definition IncidentThirdPartyDamage :: incident_type where "IncidentThirdPartyDamage = ''third_party_damage''"
definition IncidentOther :: incident_type where "IncidentOther = ''other''"
definition IncidentGlass :: incident_type where "IncidentGlass = ''glass''"
definition IncidentWaterDamage :: incident_type where "IncidentWaterDamage = ''water_damage''"

definition LineAuto :: policy_line where "LineAuto = ''auto''"
definition LineHome :: policy_line where "LineHome = ''home''"
definition LineTravel :: policy_line where "LineTravel = ''travel''"

lemmas incident_defs [go_defs] = IncidentCollision_def IncidentTheft_def IncidentThirdPartyDamage_def
  IncidentOther_def IncidentGlass_def IncidentWaterDamage_def LineAuto_def LineHome_def LineTravel_def

text \<open>\<^verbatim>\<open>IncidentType.Valid\<close>: the four types of the mobile assistant.\<close>

definition IncidentType_Valid :: "incident_type \<Rightarrow> bool" where
  "IncidentType_Valid t \<longleftrightarrow>
    t = IncidentCollision \<or> t = IncidentTheft \<or> t = IncidentThirdPartyDamage \<or> t = IncidentOther"

section \<open>The catalog\<close>

datatype file_format = FormatJPEG | FormatPNG | FormatPDF

definition FileFormat_ContentType :: "file_format \<Rightarrow> string" where
  "FileFormat_ContentType f = (case f of FormatJPEG \<Rightarrow> ''image/jpeg'' | FormatPNG \<Rightarrow> ''image/png''
     | FormatPDF \<Rightarrow> ''application/pdf'')"

definition FormatOf :: "string \<Rightarrow> file_format option" where
  "FormatOf contentType = find (\<lambda>f. FileFormat_ContentType f = contentType) [FormatJPEG, FormatPNG, FormatPDF]"

lemma FormatOf_ContentType [simp]: "FormatOf (FileFormat_ContentType f) = Some f"
  by (cases f) (simp_all add: FormatOf_def FileFormat_ContentType_def)

record requirement =
  rq_Code :: string
  rq_Label :: string
  rq_Required :: bool
  rq_MinFiles :: nat
  rq_MaxFiles :: nat
  rq_Formats :: "file_format list"

definition Requirement_Accepts :: "requirement \<Rightarrow> file_format \<Rightarrow> bool" where
  "Requirement_Accepts r f = list_ex (\<lambda>accepted. accepted = f) (rq_Formats r)"

record incident_option =
  io_Type :: incident_type
  io_Line :: policy_line
  io_Label :: string
  io_Requirements :: "requirement list"

definition IncidentOption_Requirement :: "incident_option \<Rightarrow> string \<Rightarrow> requirement option" where
  "IncidentOption_Requirement opt code = find (\<lambda>r. rq_Code r = code) (io_Requirements opt)"

record catalog =
  cat_Version :: string
  cat_Incidents :: "incident_option list"

definition Catalog_Incident :: "catalog \<Rightarrow> incident_type \<Rightarrow> incident_option option" where
  "Catalog_Incident c t = find (\<lambda>opt. io_Type opt = t) (cat_Incidents c)"

text \<open>Accented letters of the labels, in UTF-8.\<close>

definition i_acute :: string where "i_acute = [CHR 0xC3, CHR 0xAD]"
definition a_acute :: string where "a_acute = [CHR 0xC3, CHR 0xA1]"
definition o_acute :: string where "o_acute = [CHR 0xC3, CHR 0xB3]"
definition n_tilde :: string where "n_tilde = [CHR 0xC3, CHR 0xB1]"

definition image_formats :: "file_format list" where "image_formats = [FormatJPEG, FormatPNG]"
definition document_formats :: "file_format list" where "document_formats = [FormatPDF, FormatJPEG, FormatPNG]"

definition req_of :: "string \<Rightarrow> string \<Rightarrow> bool \<Rightarrow> nat \<Rightarrow> nat \<Rightarrow> file_format list \<Rightarrow> requirement" where
  "req_of code label required lo hi formats =
    \<lparr>rq_Code = code, rq_Label = label, rq_Required = required, rq_MinFiles = lo, rq_MaxFiles = hi,
     rq_Formats = formats\<rparr>"

definition vehiclePhotos :: "bool \<Rightarrow> requirement" where
  "vehiclePhotos required =
    (let r = req_of ''vehicle_photos'' (''Fotos del veh'' @ i_acute @ ''culo'') False 0 10 image_formats
     in if required then r\<lparr>rq_Required := True, rq_MinFiles := 4\<rparr> else r)"

definition driverDocument :: "bool \<Rightarrow> requirement" where
  "driverDocument required =
    (let r = req_of ''driver_document'' ''Documento del conductor'' False 0 2 document_formats
     in if required then r\<lparr>rq_Required := True, rq_MinFiles := 1\<rparr> else r)"

definition trafficReport :: requirement where
  "trafficReport = req_of ''traffic_report'' (''Informe de tr'' @ a_acute @ ''nsito o croquis'') True 1 3 document_formats"

definition io_of :: "incident_type \<Rightarrow> policy_line \<Rightarrow> string \<Rightarrow> requirement list \<Rightarrow> incident_option" where
  "io_of t l label reqs = \<lparr>io_Type = t, io_Line = l, io_Label = label, io_Requirements = reqs\<rparr>"

definition CatalogVersionV1 :: string where "CatalogVersionV1 = ''claim-catalog-v1''"

definition CatalogV1 :: catalog where
  "CatalogV1 = \<lparr>cat_Version = CatalogVersionV1, cat_Incidents =
    [io_of IncidentCollision LineAuto (''Colisi'' @ o_acute @ ''n con da'' @ n_tilde @ ''os al veh'' @ i_acute @ ''culo'')
       [vehiclePhotos True, driverDocument True, trafficReport],
     io_of IncidentTheft LineAuto ''Hurto''
       [req_of ''police_report'' ''Denuncia ante autoridad'' True 1 3 document_formats,
        driverDocument True, vehiclePhotos False],
     io_of IncidentThirdPartyDamage LineAuto (''Da'' @ n_tilde @ ''o a terceros'')
       [vehiclePhotos True, driverDocument True, trafficReport],
     io_of IncidentGlass LineAuto ''Cristales''
       [req_of ''glass_photos'' ''Fotos de los cristales'' True 2 6 image_formats, driverDocument False],
     io_of IncidentOther LineAuto ''Otro''
       [req_of ''supporting_document'' ''Documento de soporte'' True 1 5 document_formats],
     io_of IncidentWaterDamage LineHome (''Da'' @ n_tilde @ ''o por agua'')
       [req_of ''damage_photos'' (''Fotos del da'' @ n_tilde @ ''o'') True 2 10 image_formats,
        req_of ''repair_quote'' (''Factura o cotizaci'' @ o_acute @ ''n de la reparaci'' @ o_acute @ ''n'') True 1 3 document_formats]]\<rparr>"

text \<open>\<^verbatim>\<open>CatalogFor\<close> (\<^verbatim>\<open>summary.go\<close>): there is one version so far.\<close>

definition CatalogFor :: "string \<Rightarrow> catalog" where
  "CatalogFor version = CatalogV1"

section \<open>Policies\<close>

record policy =
  pol_ID :: string
  pol_Line :: policy_line
  pol_Product :: string
  pol_InsuredObject :: string
  pol_Status :: string
  pol_ValidFrom :: time
  pol_ValidTo :: time
  pol_CoveredIncidents :: "incident_type list"

definition PolicyActive :: string where "PolicyActive = ''active''"

datatype eligibility_error = ErrPolicyNotActive | ErrIncidentNotCovered | ErrOccurredOutsideValidity

definition Policy_Within :: "policy \<Rightarrow> time \<Rightarrow> bool" where
  "Policy_Within p at \<longleftrightarrow> \<not> at < pol_ValidFrom p \<and> at < pol_ValidTo p"

definition Policy_ActiveAt :: "policy \<Rightarrow> time \<Rightarrow> bool" where
  "Policy_ActiveAt p at \<longleftrightarrow> pol_Status p = PolicyActive \<and> Policy_Within p at"

definition Policy_Covers :: "policy \<Rightarrow> catalog \<Rightarrow> incident_type \<Rightarrow> bool" where
  "Policy_Covers p cat incident =
    (case Catalog_Incident cat incident of
       None \<Rightarrow> False
     | Some opt \<Rightarrow> if io_Line opt \<noteq> pol_Line p then False
                  else list_ex (\<lambda>covered. covered = incident) (pol_CoveredIncidents p))"

definition Policy_EligibleFor :: "policy \<Rightarrow> catalog \<Rightarrow> incident_type \<Rightarrow> time \<Rightarrow> time \<Rightarrow> eligibility_error option" where
  "Policy_EligibleFor p cat incident occurredAt now =
    (if \<not> Policy_ActiveAt p now then Some ErrPolicyNotActive
     else if \<not> Policy_Covers p cat incident then Some ErrIncidentNotCovered
     else if \<not> Policy_Within p occurredAt then Some ErrOccurredOutsideValidity
     else None)"

definition Catalog_OptionsFor :: "catalog \<Rightarrow> policy \<Rightarrow> incident_option list" where
  "Catalog_OptionsFor c p = filter (\<lambda>opt. Policy_Covers p c (io_Type opt)) (cat_Incidents c)"

section \<open>Terms of a policy and the insured\<close>

record coverage =
  cov_Incident :: incident_type
  cov_InsuredValueMinor :: int
  cov_Currency :: string
  cov_DeductibleBasisPoints :: int

record policy_terms =
  pt_Policy :: policy
  pt_Coverages :: "coverage list"

definition PolicyTerms_CoverageOf :: "policy_terms \<Rightarrow> incident_type \<Rightarrow> coverage option" where
  "PolicyTerms_CoverageOf t incident = find (\<lambda>c. cov_Incident c = incident) (pt_Coverages t)"

record payout_account =
  pa_BankCode :: string
  pa_BankName :: string
  pa_AccountType :: string
  pa_AccountNumber :: string

record holder =
  ho_FullName :: string
  ho_DocumentType :: string
  ho_DocumentID :: string
  ho_Email :: string
  ho_Phone :: string
  ho_PayoutAccount :: payout_account

text \<open>The bullet in front of a masked number, U+2022 in UTF-8.\<close>

definition bullet :: string where "bullet = [CHR 0xE2, CHR 0x80, CHR 0xA2]"

definition MaskedNumber :: "payout_account \<Rightarrow> string" where
  "MaskedNumber a =
    (let digits = filter is_digit (pa_AccountNumber a) in
     if digits = [] then ''''
     else let last4 = (if length digits > 4 then drop (length digits - 4) digits else digits)
          in bullet @ bullet @ bullet @ bullet @ '' '' @ TrimSpace last4)"

section \<open>Facts of the catalog and the policies\<close>

lemma find_SomeD: "find P xs = Some x \<Longrightarrow> x \<in> set xs \<and> P x"
  by (auto simp: find_Some_iff)

text \<open>A policy takes a claim exactly when it is in force now, its line and its coverages list the
  claim type, and the incident happened within its validity.\<close>

lemma EligibleFor_None:
  "Policy_EligibleFor p cat t occurredAt now = None \<longleftrightarrow>
    Policy_ActiveAt p now \<and> Policy_Covers p cat t \<and> Policy_Within p occurredAt"
  by (simp add: Policy_EligibleFor_def)

lemma Policy_Covers_iff:
  "Policy_Covers p cat t \<longleftrightarrow>
    (\<exists>opt. Catalog_Incident cat t = Some opt \<and> io_Line opt = pol_Line p) \<and> t \<in> set (pol_CoveredIncidents p)"
  by (auto simp: Policy_Covers_def list_ex_iff split: option.splits)

text \<open>The filing form offers exactly the claim types that the eligibility check accepts.\<close>

lemma OptionsFor_covers:
  "opt \<in> set (Catalog_OptionsFor c p) \<longleftrightarrow> opt \<in> set (cat_Incidents c) \<and> Policy_Covers p c (io_Type opt)"
  by (simp add: Catalog_OptionsFor_def)

text \<open>Each version of the catalog names a type once and a requirement once per type, asks for a
  positive number of files exactly when the support is required, and never for more than
  the most it takes.\<close>

definition requirement_ok :: "requirement \<Rightarrow> bool" where
  "requirement_ok r \<longleftrightarrow> (rq_Required r \<longleftrightarrow> 0 < rq_MinFiles r) \<and> rq_MinFiles r \<le> rq_MaxFiles r \<and>
     0 < rq_MaxFiles r \<and> rq_Formats r \<noteq> []"

definition catalog_ok :: "catalog \<Rightarrow> bool" where
  "catalog_ok c \<longleftrightarrow> distinct (map io_Type (cat_Incidents c)) \<and>
     list_all (\<lambda>opt. distinct (map rq_Code (io_Requirements opt)) \<and> list_all requirement_ok (io_Requirements opt))
       (cat_Incidents c)"

lemmas catalog_defs = CatalogV1_def io_of_def req_of_def vehiclePhotos_def driverDocument_def trafficReport_def

lemma catalog_ok_V1: "catalog_ok CatalogV1"
  by (simp add: catalog_ok_def requirement_ok_def catalog_defs incident_defs image_formats_def
      document_formats_def Let_def)

lemma catalog_incident_in:
  "catalog_ok c \<Longrightarrow> Catalog_Incident c t = Some opt \<Longrightarrow>
     io_Type opt = t \<and> distinct (map rq_Code (io_Requirements opt)) \<and> list_all requirement_ok (io_Requirements opt)"
  by (auto simp: catalog_ok_def Catalog_Incident_def list_all_iff dest!: find_SomeD)

text \<open>A masked number shows at most four digits of the account and nothing else of it.\<close>

lemma TrimSpace_digits:
  assumes "list_all is_digit ds"
  shows "TrimSpace ds = ds"
proof (cases "ds = []")
  case False
  then have "is_digit (hd ds)" "is_digit (last ds)" using assms by (auto simp: list_all_iff)
  then show ?thesis
    using False by (intro TrimSpace_graphic) (auto simp: is_digit_def graphic_def)
qed simp

lemma MaskedNumber_cases:
  "MaskedNumber a = '''' \<or>
   (\<exists>ds. MaskedNumber a = bullet @ bullet @ bullet @ bullet @ '' '' @ ds \<and> length ds \<le> 4 \<and>
     suffix ds (filter is_digit (pa_AccountNumber a)))"
proof -
  let ?ds = "filter is_digit (pa_AccountNumber a)"
  define l where "l = (if length ?ds > 4 then drop (length ?ds - 4) ?ds else ?ds)"
  have l: "length l \<le> 4" "suffix l ?ds" by (auto simp: l_def suffix_drop)
  have "set l \<subseteq> set ?ds" using set_drop_subset by (auto simp: l_def split: if_splits dest: in_set_dropD)
  then have "TrimSpace l = l" by (intro TrimSpace_digits) (auto simp: list_all_iff)
  then show ?thesis using l by (auto simp: MaskedNumber_def Let_def l_def [symmetric])
qed

end
