(* ===== verification/Claims_Rules.thy ===== *)
theory Claims_Rules
  imports Claims_Catalog Complex_Main
begin

text \<open>
  The rules of a filing (\<^verbatim>\<open>claim.go\<close>, \<^verbatim>\<open>evidence.go\<close>): what the phone sends, the checks that
  every field goes through, and the claim they give. The closure \<^verbatim>\<open>bad\<close> that collects the
  invalid fields of a request becomes the list of field errors that every check returns, in the
  order the code appends them. The coordinates and the accuracy of a capture are finite
  \<^verbatim>\<open>float64\<close> values (they come from JSON) that are only compared, so they are \<^typ>\<open>rat\<close>.
\<close>

section \<open>Fields and codes\<close>

record field_error =
  fe_Field :: string
  fe_Code :: string

definition fe :: "string \<Rightarrow> string \<Rightarrow> field_error" where
  "fe field code = \<lparr>fe_Field = field, fe_Code = code\<rparr>"

definition CodeRequired :: string where "CodeRequired = ''required''"
definition CodeInvalidFormat :: string where "CodeInvalidFormat = ''invalid_format''"
definition CodeOutOfRange :: string where "CodeOutOfRange = ''out_of_range''"
definition CodeNotStored :: string where "CodeNotStored = ''not_stored''"

text \<open>An error of a request: the \<^verbatim>\<open>*ValidationError\<close> with its fields.\<close>

type_synonym validation_error = "field_error list"

definition ValidationError_Error :: "validation_error \<Rightarrow> string" where
  "ValidationError_Error bads =
    ''invalid filing request ('' @
    concat (case map (\<lambda>f. fe_Field f @ '': '' @ fe_Code f) bads of
              [] \<Rightarrow> [] | p # ps \<Rightarrow> p # map (\<lambda>q. '', '' @ q) ps) @ '')''"

definition MinPlace :: nat where "MinPlace = 3"
definition MaxPlace :: nat where "MaxPlace = 160"
definition MinDescription :: nat where "MinDescription = 10"
definition MaxDescription :: nat where "MaxDescription = 1000"
definition MaxDetails :: nat where "MaxDetails = 20"
definition MaxDetailValue :: nat where "MaxDetailValue = 200"
definition MaxIncidentAgeDay :: int where "MaxIncidentAgeDay = 5 * 365"

lemmas filing_limits [go_defs] = MinPlace_def MaxPlace_def MinDescription_def MaxDescription_def
  MaxDetails_def MaxDetailValue_def MaxIncidentAgeDay_def

definition policyIDPattern :: "string \<Rightarrow> bool" where
  "policyIDPattern = class_match (\<lambda>c. is_alnum c \<or> c = CHR ''-'') 3 40"

definition detailKeyPattern :: "string \<Rightarrow> bool" where
  "detailKeyPattern = class_match (\<lambda>c. is_alnum c \<or> c = CHR ''_'') 1 40"

definition sha256Pattern :: "string \<Rightarrow> bool" where
  "sha256Pattern = class_match is_lower_hex 64 64"

section \<open>Evidence\<close>

datatype evidence_kind = KindPhoto | KindVideo

definition kind_of :: "string \<Rightarrow> evidence_kind option" where
  "kind_of s = (if s = ''photo'' then Some KindPhoto else if s = ''video'' then Some KindVideo else None)"

definition MinEvidenceBytes :: int where "MinEvidenceBytes = 1024"
definition MaxPhotoBytes :: int where "MaxPhotoBytes = 2000000"
definition MaxVideoBytes :: int where "MaxVideoBytes = 60000000"
definition MaxVideoSeconds :: int where "MaxVideoSeconds = 30"
definition MinPhotos :: nat where "MinPhotos = 4"
definition MaxPhotos :: nat where "MaxPhotos = 6"
definition MaxVideos :: nat where "MaxVideos = 1"
definition TrustedAccuracyM :: rat where "TrustedAccuracyM = 50"
definition evidencePrefix :: string where "evidencePrefix = ''evidence/''"

lemmas evidence_limits [go_defs] = MinEvidenceBytes_def MaxPhotoBytes_def MaxVideoBytes_def
  MaxVideoSeconds_def MinPhotos_def MaxPhotos_def MaxVideos_def TrustedAccuracyM_def

definition kind_contentType :: "evidence_kind \<Rightarrow> string" where
  "kind_contentType k = (case k of KindVideo \<Rightarrow> ''video/mp4'' | KindPhoto \<Rightarrow> ''image/jpeg'')"

definition kind_maxBytes :: "evidence_kind \<Rightarrow> int" where
  "kind_maxBytes k = (case k of KindVideo \<Rightarrow> MaxVideoBytes | KindPhoto \<Rightarrow> MaxPhotoBytes)"

definition kind_extension :: "evidence_kind \<Rightarrow> string" where
  "kind_extension k = (case k of KindVideo \<Rightarrow> ''.mp4'' | KindPhoto \<Rightarrow> ''.jpg'')"

definition OwnedBy :: "string \<Rightarrow> string \<Rightarrow> bool" where
  "OwnedBy key subject = prefix (evidencePrefix @ subject @ ''/'') key"

record upload_request =
  ur_Kind :: string
  ur_ContentType :: string
  ur_ByteSize :: int
  ur_SHA256 :: string

record upload =
  up_Kind :: evidence_kind
  up_ContentType :: string
  up_ByteSize :: int
  up_SHA256 :: string

definition UploadRequest_Validate :: "upload_request \<Rightarrow> validation_error + upload" where
  "UploadRequest_Validate r =
    (let kindText = TrimSpace (ur_Kind r); contentType = TrimSpace (ur_ContentType r);
         kind = kind_of kindText;
         e1 = (if kindText = '''' then [fe ''kind'' CodeRequired]
               else case kind of
                      None \<Rightarrow> [fe ''kind'' CodeInvalidFormat]
                    | Some k \<Rightarrow> if contentType \<noteq> kind_contentType k then [fe ''content_type'' CodeInvalidFormat] else []);
         e2 = (case kind of None \<Rightarrow> []
               | Some k \<Rightarrow> if ur_ByteSize r < MinEvidenceBytes \<or> ur_ByteSize r > kind_maxBytes k
                          then [fe ''byte_size'' CodeOutOfRange] else []);
         digest = TrimSpace (ur_SHA256 r);
         e3 = (if digest = '''' then [fe ''sha256'' CodeRequired]
               else if \<not> sha256Pattern digest then [fe ''sha256'' CodeInvalidFormat] else [])
     in case kind of
          Some k \<Rightarrow> if e1 @ e2 @ e3 \<noteq> [] then Inl (e1 @ e2 @ e3)
                   else Inr \<lparr>up_Kind = k, up_ContentType = contentType, up_ByteSize = ur_ByteSize r, up_SHA256 = digest\<rparr>
        | None \<Rightarrow> Inl (e1 @ e2 @ e3))"

definition Upload_Key :: "upload \<Rightarrow> string \<Rightarrow> string" where
  "Upload_Key u subject = evidencePrefix @ subject @ ''/'' @ up_SHA256 u @ kind_extension (up_Kind u)"

record evidence_request =
  er_ObjectKey :: string
  er_Kind :: string
  er_CapturedAt :: string
  er_Latitude :: rat
  er_Longitude :: rat
  er_AltitudeM :: "rat option"
  er_AccuracyM :: rat
  er_LocationTrusted :: bool
  er_SHA256 :: string
  er_ByteSize :: int
  er_DurationS :: int

record evidence =
  ev_ObjectKey :: string
  ev_Kind :: evidence_kind
  ev_CapturedAt :: time
  ev_Latitude :: rat
  ev_Longitude :: rat
  ev_AltitudeM :: "rat option"
  ev_AccuracyM :: rat
  ev_LocationTrusted :: bool
  ev_SHA256 :: string
  ev_ByteSize :: int
  ev_DurationS :: int

definition evidence_field :: "nat \<Rightarrow> string \<Rightarrow> string" where
  "evidence_field i name = ''evidence.'' @ FormatInt (int i) @ ''.'' @ name"

definition capturedAt :: "string \<Rightarrow> time \<Rightarrow> time \<Rightarrow> nat \<Rightarrow> time \<times> field_error list" where
  "capturedAt value0 occurredAt now i =
    (let value = TrimSpace value0; field = evidence_field i ''captured_at'' in
     if value = '''' then (zero_time, [fe field CodeRequired])
     else case parse_rfc3339 value of
            None \<Rightarrow> (zero_time, [fe field CodeInvalidFormat])
          | Some inst \<Rightarrow> (inst, if inst > now \<or> (\<not> time_IsZero occurredAt \<and> inst < occurredAt)
                          then [fe field CodeOutOfRange] else []))"

text \<open>The checks of one evidence of a known kind, in the order of the loop body.\<close>

definition check_evidence_item ::
  "nat \<Rightarrow> evidence_request \<Rightarrow> evidence_kind \<Rightarrow> time \<Rightarrow> time \<Rightarrow> evidence \<times> field_error list" where
  "check_evidence_item i e kind occurredAt now =
    (let key = TrimSpace (er_ObjectKey e);
         e1 = (if key = '''' then [fe (evidence_field i ''object_key'') CodeRequired]
               else if \<not> prefix evidencePrefix key then [fe (evidence_field i ''object_key'') CodeInvalidFormat] else []);
         digest = TrimSpace (er_SHA256 e);
         e2 = (if \<not> sha256Pattern digest then [fe (evidence_field i ''sha256'') CodeInvalidFormat] else []);
         e3 = (if er_ByteSize e < MinEvidenceBytes \<or> er_ByteSize e > kind_maxBytes kind
               then [fe (evidence_field i ''byte_size'') CodeOutOfRange] else []);
         (captured, e4) = capturedAt (er_CapturedAt e) occurredAt now i;
         e5 = (if er_Latitude e < -90 \<or> er_Latitude e > 90 then [fe (evidence_field i ''latitude'') CodeOutOfRange]
               else if er_Longitude e < -180 \<or> er_Longitude e > 180 then [fe (evidence_field i ''longitude'') CodeOutOfRange]
               else []);
         e6 = (if er_AccuracyM e < 0 then [fe (evidence_field i ''accuracy_m'') CodeOutOfRange] else []);
         e7 = (if kind = KindVideo \<and> (er_DurationS e \<le> 0 \<or> er_DurationS e > MaxVideoSeconds)
               then [fe (evidence_field i ''duration_s'') CodeOutOfRange] else [])
     in (\<lparr>ev_ObjectKey = key, ev_Kind = kind, ev_CapturedAt = captured,
          ev_Latitude = er_Latitude e, ev_Longitude = er_Longitude e, ev_AltitudeM = er_AltitudeM e,
          ev_AccuracyM = er_AccuracyM e,
          ev_LocationTrusted = (er_LocationTrusted e \<and> er_AccuracyM e > 0 \<and> er_AccuracyM e \<le> TrustedAccuracyM),
          ev_SHA256 = digest, ev_ByteSize = er_ByteSize e, ev_DurationS = er_DurationS e\<rparr>,
         e1 @ e2 @ e3 @ e4 @ e5 @ e6 @ e7))"

text \<open>The loop: the numbers of photographs and videos, the evidence kept and the errors.\<close>

fun evidence_loop :: "nat \<Rightarrow> evidence_request list \<Rightarrow> time \<Rightarrow> time \<Rightarrow> nat \<times> nat \<times> evidence list \<times> field_error list" where
  "evidence_loop i [] occurredAt now = (0, 0, [], [])"
| "evidence_loop i (e # es) occurredAt now =
    (let (photos, videos, out, errs) = evidence_loop (i + 1) es occurredAt now in
     case kind_of (TrimSpace (er_Kind e)) of
       None \<Rightarrow> (photos, videos, out, fe (evidence_field i ''kind'') CodeInvalidFormat # errs)
     | Some kind \<Rightarrow>
        (let (ev, es1) = check_evidence_item i e kind occurredAt now in
         (if kind = KindPhoto then photos + 1 else photos, if kind = KindVideo then videos + 1 else videos,
          ev # out, es1 @ errs)))"

definition validateEvidence :: "evidence_request list \<Rightarrow> time \<Rightarrow> time \<Rightarrow> evidence list \<times> field_error list" where
  "validateEvidence ins occurredAt now =
    (let (photos, videos, out, errs) = evidence_loop 0 ins occurredAt now in
     (out, errs @ (if photos < MinPhotos \<or> photos > MaxPhotos \<or> videos > MaxVideos
                   then [fe ''evidence'' CodeOutOfRange] else [])))"

section \<open>The filing from the phone\<close>

record filing_request =
  fr_PolicyID :: string
  fr_IncidentType :: string
  fr_OccurredAt :: string
  fr_Place :: string
  fr_Description :: string
  fr_Details :: "(string, string) gomap"
  fr_DeclarationAccepted :: bool
  fr_Evidence :: "evidence_request list"
  fr_EstimatedAmountMinor :: string

record claim =
  cl_ID :: string
  cl_FilingNumber :: string
  cl_Subject :: string
  cl_FilingKey :: string
  cl_PolicyID :: string
  cl_IncidentType :: incident_type
  cl_OccurredAt :: time
  cl_Place :: string
  cl_Description :: string
  cl_Details :: "(string, string) gomap"
  cl_Evidence :: "evidence list"
  cl_Status :: claim_status
  cl_FiledAt :: time
  cl_EstimatedAmountMinor :: "int option"

definition FilingNumber :: "time \<Rightarrow> int \<Rightarrow> string" where
  "FilingNumber inst seqno = ''SIN-'' @ FormatInt (time_Year inst) @ ''-'' @ pad_dec 5 (nat seqno)"

definition nl :: string where "nl = [CHR 0x0A]"

text \<open>The text whose digest is the fingerprint of the facts of a filing.\<close>

definition facts_text :: "('a) claim_scheme \<Rightarrow> string" where
  "facts_text c =
    cl_PolicyID c @ nl @ cl_IncidentType c @ nl @ format_rfc3339nano (cl_OccurredAt c) @ nl @
    cl_Place c @ nl @ cl_Description c @ nl @
    concat (map (\<lambda>k. k @ ''='' @ (case gm_get (cl_Details c) k of None \<Rightarrow> '''' | Some v \<Rightarrow> v) @ nl)
      (sort (map fst (cl_Details c)))) @
    concat (map (\<lambda>e. ev_ObjectKey e @ nl) (cl_Evidence c))"

definition factsFingerprint :: "('a) claim_scheme \<Rightarrow> string" where
  "factsFingerprint c = sha256_hex (facts_text c)"

definition Fingerprint :: "('a) claim_scheme \<Rightarrow> string" where
  "Fingerprint c =
    (case cl_EstimatedAmountMinor c of
       None \<Rightarrow> factsFingerprint c
     | Some m \<Rightarrow> sha256_hex (factsFingerprint c @ nl @ ''estimated_amount='' @ FormatInt m))"

definition occurred :: "string \<Rightarrow> time \<Rightarrow> time \<times> field_error list" where
  "occurred value now =
    (if value = '''' then (zero_time, [fe ''occurred_at'' CodeRequired])
     else case parse_rfc3339 value of
            None \<Rightarrow> (zero_time, [fe ''occurred_at'' CodeInvalidFormat])
          | Some inst \<Rightarrow> (inst, if inst > now \<or> inst < AddDays now (- MaxIncidentAgeDay)
                          then [fe ''occurred_at'' CodeOutOfRange] else []))"

text \<open>The loop over the details; the order of the list is the iteration order of the map.\<close>

fun details_loop :: "(string, string) gomap \<Rightarrow> (string, string) gomap \<Rightarrow> (string, string) gomap \<times> field_error list" where
  "details_loop out [] = (out, [])"
| "details_loop out ((k, v) # kvs) =
    (let key = TrimSpace k; value = TrimSpace v in
     if \<not> detailKeyPattern key then
       (let (o', es) = details_loop out kvs in (o', fe ''details'' CodeInvalidFormat # es))
     else if rune_count value > MaxDetailValue then
       (let (o', es) = details_loop out kvs in (o', fe ''details'' CodeOutOfRange # es))
     else details_loop (gm_put key value out) kvs)"

definition normalizeDetails :: "(string, string) gomap \<Rightarrow> (string, string) gomap \<times> field_error list" where
  "normalizeDetails ins =
    (if length ins > MaxDetails then ([], [fe ''details'' CodeOutOfRange]) else details_loop [] ins)"

definition MinEstimatedAmountMinor :: int where "MinEstimatedAmountMinor = 1"
definition MaxEstimatedAmountMinor :: int where "MaxEstimatedAmountMinor = 10000000000000"

definition estimatedAmount :: "string \<Rightarrow> int option \<times> field_error list" where
  "estimatedAmount value =
    (if value = '''' then (None, [])
     else case ParseInt value of
            Inl ErrRange \<Rightarrow> (None, [fe ''estimated_amount_minor'' CodeOutOfRange])
          | Inl ErrSyntax \<Rightarrow> (None, [fe ''estimated_amount_minor'' CodeInvalidFormat])
          | Inr amount \<Rightarrow>
             if amount < MinEstimatedAmountMinor \<or> amount > MaxEstimatedAmountMinor
             then (None, [fe ''estimated_amount_minor'' CodeOutOfRange])
             else (Some amount, []))"

text \<open>The checks that both channels share.\<close>

definition check_policy_id :: "string \<Rightarrow> field_error list" where
  "check_policy_id policyID =
    (if policyID = '''' then [fe ''policy_id'' CodeRequired]
     else if \<not> policyIDPattern policyID then [fe ''policy_id'' CodeInvalidFormat] else [])"

definition check_text :: "string \<Rightarrow> nat \<Rightarrow> nat \<Rightarrow> string \<Rightarrow> field_error list" where
  "check_text field lo hi s =
    (if s = '''' then [fe field CodeRequired]
     else if rune_count s < lo \<or> rune_count s > hi then [fe field CodeOutOfRange] else [])"

definition FilingRequest_Validate :: "filing_request \<Rightarrow> time \<Rightarrow> validation_error + claim" where
  "FilingRequest_Validate r now =
    (let policyID = TrimSpace (fr_PolicyID r);
         e1 = check_policy_id policyID;
         incident = TrimSpace (fr_IncidentType r);
         e2 = (if incident = '''' then [fe ''incident_type'' CodeRequired]
               else if \<not> IncidentType_Valid incident then [fe ''incident_type'' CodeInvalidFormat] else []);
         (occurredAt, e3) = occurred (TrimSpace (fr_OccurredAt r)) now;
         place = TrimSpace (fr_Place r);
         e4 = check_text ''place'' MinPlace MaxPlace place;
         description = TrimSpace (fr_Description r);
         e5 = check_text ''description'' MinDescription MaxDescription description;
         (details, e6) = normalizeDetails (fr_Details r);
         (evidence, e7) = validateEvidence (fr_Evidence r) occurredAt now;
         (amount, e8) = estimatedAmount (TrimSpace (fr_EstimatedAmountMinor r));
         e9 = (if \<not> fr_DeclarationAccepted r then [fe ''declaration_accepted'' CodeRequired] else []);
         bads = e1 @ e2 @ e3 @ e4 @ e5 @ e6 @ e7 @ e8 @ e9
     in if bads \<noteq> [] then Inl bads
        else Inr \<lparr>cl_ID = '''', cl_FilingNumber = '''', cl_Subject = '''', cl_FilingKey = '''',
                  cl_PolicyID = policyID, cl_IncidentType = incident, cl_OccurredAt = occurredAt,
                  cl_Place = place, cl_Description = description, cl_Details = details,
                  cl_Evidence = evidence, cl_Status = StatusActive, cl_FiledAt = zero_time,
                  cl_EstimatedAmountMinor = amount\<rparr>)"

section \<open>What a valid filing is\<close>

definition evidence_ok :: "time \<Rightarrow> time \<Rightarrow> evidence \<Rightarrow> bool" where
  "evidence_ok occurredAt now e \<longleftrightarrow>
     prefix evidencePrefix (ev_ObjectKey e) \<and> sha256Pattern (ev_SHA256 e) \<and>
     MinEvidenceBytes \<le> ev_ByteSize e \<and> ev_ByteSize e \<le> kind_maxBytes (ev_Kind e) \<and>
     ev_CapturedAt e \<le> now \<and> (occurredAt \<noteq> 0 \<longrightarrow> occurredAt \<le> ev_CapturedAt e) \<and>
     -90 \<le> ev_Latitude e \<and> ev_Latitude e \<le> 90 \<and> -180 \<le> ev_Longitude e \<and> ev_Longitude e \<le> 180 \<and>
     0 \<le> ev_AccuracyM e \<and> (ev_LocationTrusted e \<longrightarrow> 0 < ev_AccuracyM e \<and> ev_AccuracyM e \<le> TrustedAccuracyM) \<and>
     (ev_Kind e = KindVideo \<longrightarrow> 0 < ev_DurationS e \<and> ev_DurationS e \<le> MaxVideoSeconds)"

definition photos_of :: "evidence list \<Rightarrow> nat" where
  "photos_of es = length (filter (\<lambda>e. ev_Kind e = KindPhoto) es)"

definition videos_of :: "evidence list \<Rightarrow> nat" where
  "videos_of es = length (filter (\<lambda>e. ev_Kind e = KindVideo) es)"

definition details_ok :: "(string, string) gomap \<Rightarrow> bool" where
  "details_ok d \<longleftrightarrow> gm_ok d \<and> length d \<le> MaxDetails \<and>
     list_all (\<lambda>(k, v). detailKeyPattern k \<and> rune_count v \<le> MaxDetailValue) d"

text \<open>The fields both channels check.\<close>

definition facts_ok :: "time \<Rightarrow> ('a) claim_scheme \<Rightarrow> bool" where
  "facts_ok now c \<longleftrightarrow>
     policyIDPattern (cl_PolicyID c) \<and>
     AddDays now (- MaxIncidentAgeDay) \<le> cl_OccurredAt c \<and> cl_OccurredAt c \<le> now \<and>
     MinPlace \<le> rune_count (cl_Place c) \<and> rune_count (cl_Place c) \<le> MaxPlace \<and>
     MinDescription \<le> rune_count (cl_Description c) \<and> rune_count (cl_Description c) \<le> MaxDescription \<and>
     (case cl_EstimatedAmountMinor c of None \<Rightarrow> True
      | Some m \<Rightarrow> MinEstimatedAmountMinor \<le> m \<and> m \<le> MaxEstimatedAmountMinor) \<and>
     details_ok (cl_Details c) \<and> cl_Status c = StatusActive"

definition mobile_claim_ok :: "time \<Rightarrow> claim \<Rightarrow> bool" where
  "mobile_claim_ok now c \<longleftrightarrow> facts_ok now c \<and> IncidentType_Valid (cl_IncidentType c) \<and>
     list_all (evidence_ok (cl_OccurredAt c) now) (cl_Evidence c) \<and>
     MinPhotos \<le> photos_of (cl_Evidence c) \<and> photos_of (cl_Evidence c) \<le> MaxPhotos \<and>
     videos_of (cl_Evidence c) \<le> MaxVideos"

section \<open>The checks one by one\<close>

lemma check_policy_id_Nil [simp]: "check_policy_id p = [] \<longleftrightarrow> policyIDPattern p"
  by (auto simp: check_policy_id_def policyIDPattern_def class_match_def)

lemma check_text_Nil: "0 < lo \<Longrightarrow> check_text f lo hi s = [] \<longleftrightarrow> lo \<le> rune_count s \<and> rune_count s \<le> hi"
  by (auto simp: check_text_def rune_count_def)

lemma occurred_Nil:
  "occurred v now = (inst, []) \<Longrightarrow> inst \<le> now \<and> AddDays now (- MaxIncidentAgeDay) \<le> inst"
  by (auto simp: occurred_def split: if_splits option.splits)

lemma estimatedAmount_Nil:
  "estimatedAmount v = (m, []) \<Longrightarrow>
     (case m of None \<Rightarrow> v = [] | Some a \<Rightarrow> MinEstimatedAmountMinor \<le> a \<and> a \<le> MaxEstimatedAmountMinor \<and> ParseInt v = Inr a)"
  by (auto simp: estimatedAmount_def split: if_splits sum.splits num_error.splits)

lemma capturedAt_Nil:
  "capturedAt v occ now i = (inst, []) \<Longrightarrow> inst \<le> now \<and> (occ \<noteq> 0 \<longrightarrow> occ \<le> inst)"
  by (auto simp: capturedAt_def Let_def split: if_splits option.splits)

lemma check_evidence_item_Nil:
  assumes "check_evidence_item i e kind occ now = (ev, [])"
  shows "evidence_ok occ now ev" and "ev_Kind ev = kind"
proof -
  obtain inst es where c: "capturedAt (er_CapturedAt e) occ now i = (inst, es)" by fastforce
  from assms c have "es = []"
    by (auto simp: check_evidence_item_def Let_def split: if_splits)
  with c have "inst \<le> now \<and> (occ \<noteq> 0 \<longrightarrow> occ \<le> inst)" by (auto dest: capturedAt_Nil)
  then show "evidence_ok occ now ev" and "ev_Kind ev = kind"
    using assms c unfolding check_evidence_item_def evidence_ok_def Let_def
    by (auto split: if_splits)
qed

lemma evidence_loop_Nil:
  assumes "evidence_loop i es occ now = (photos, videos, out, [])"
  shows "list_all (evidence_ok occ now) out \<and> photos = photos_of out \<and> videos = videos_of out \<and> length out = length es"
  using assms
proof (induction es arbitrary: i photos videos out)
  case (Cons e es)
  obtain p v o' errs where loop: "evidence_loop (i + 1) es occ now = (p, v, o', errs)"
    by (metis prod_cases4)
  from Cons.prems loop obtain kind ev where
    k: "check_evidence_item i e kind occ now = (ev, [])" "errs = []" "out = ev # o'"
      "photos = (if kind = KindPhoto then p + 1 else p)" "videos = (if kind = KindVideo then v + 1 else v)"
    by (auto simp: Let_def split: option.splits prod.splits)
  with check_evidence_item_Nil [OF k(1)] Cons.IH [of "i + 1" p v o'] loop show ?case
    by (auto simp: photos_of_def videos_of_def)
qed (simp add: photos_of_def videos_of_def)

lemma length_gm_put: "length (gm_put k v m) \<le> length m + 1"
  by (induction m) (auto simp: gm_put_def)

lemma set_gm_put: "set (gm_put k v m) \<subseteq> insert (k, v) (set m)"
  by (induction m) (auto simp: gm_put_def)

lemma details_loop_Nil:
  assumes "details_loop out kvs = (d, [])" and "gm_ok out"
    and "list_all (\<lambda>(k, v). detailKeyPattern k \<and> rune_count v \<le> MaxDetailValue) out"
  shows "gm_ok d \<and> length d \<le> length out + length kvs \<and>
    list_all (\<lambda>(k, v). detailKeyPattern k \<and> rune_count v \<le> MaxDetailValue) d"
  using assms
proof (induction out kvs rule: details_loop.induct)
  case (2 out k v kvs)
  let ?out' = "gm_put (TrimSpace k) (TrimSpace v) out"
  from 2(4) have c: "detailKeyPattern (TrimSpace k)" "\<not> MaxDetailValue < rune_count (TrimSpace v)"
    and l: "details_loop ?out' kvs = (d, [])"
    by (auto simp: Let_def split: if_splits prod.splits)
  have "list_all (\<lambda>(k, v). detailKeyPattern k \<and> rune_count v \<le> MaxDetailValue) ?out'"
    using 2(6) c set_gm_put [of "TrimSpace k" "TrimSpace v" out] by (fastforce simp: list_all_iff)
  with 2(3) [OF refl refl] c l 2(5) length_gm_put [of "TrimSpace k" "TrimSpace v" out] show ?case
    by fastforce
qed simp

lemma normalizeDetails_Nil: "normalizeDetails ins = (d, []) \<Longrightarrow> details_ok d"
  using details_loop_Nil [of "[]" ins d]
  by (auto simp: normalizeDetails_def details_ok_def split: if_splits)

lemma validateEvidence_Nil:
  assumes "validateEvidence ins occ now = (out, [])"
  shows "list_all (evidence_ok occ now) out" "MinPhotos \<le> photos_of out" "photos_of out \<le> MaxPhotos"
    "videos_of out \<le> MaxVideos" "length out = length ins"
proof -
  obtain p v o' errs where loop: "evidence_loop 0 ins occ now = (p, v, o', errs)" by (metis prod_cases4)
  with assms have "errs = []" "o' = out" "\<not> (p < MinPhotos \<or> p > MaxPhotos \<or> v > MaxVideos)"
    by (auto simp: validateEvidence_def split: if_splits)
  with loop evidence_loop_Nil [of 0 ins occ now p v out]
  show "list_all (evidence_ok occ now) out" "MinPhotos \<le> photos_of out" "photos_of out \<le> MaxPhotos"
    "videos_of out \<le> MaxVideos" "length out = length ins" by auto
qed

text \<open>An accepted filing from the phone is a well-formed claim, not filed yet, and only a declared
  one is accepted.\<close>

lemma FilingRequest_Validate_sound:
  assumes "FilingRequest_Validate r now = Inr c"
  shows "mobile_claim_ok now c" and "fr_DeclarationAccepted r" and "cl_FilingNumber c = []"
    and "length (cl_Evidence c) = length (fr_Evidence r)"
proof -
  obtain inst e3 where o: "occurred (TrimSpace (fr_OccurredAt r)) now = (inst, e3)" by fastforce
  obtain d e6 where d: "normalizeDetails (fr_Details r) = (d, e6)" by fastforce
  obtain ev e7 where v: "validateEvidence (fr_Evidence r) inst now = (ev, e7)" by fastforce
  obtain m e8 where m: "estimatedAmount (TrimSpace (fr_EstimatedAmountMinor r)) = (m, e8)" by fastforce
  note all = assms [simplified FilingRequest_Validate_def Let_def o d v m prod.case]
  have nil: "e3 = []" "e6 = []" "e7 = []" "e8 = []"
    using all by (auto split: if_splits)
  note facts = occurred_Nil [OF o [unfolded nil]] normalizeDetails_Nil [OF d [unfolded nil]]
    validateEvidence_Nil [OF v [unfolded nil]] estimatedAmount_Nil [OF m [unfolded nil]]
  show "mobile_claim_ok now c" and "fr_DeclarationAccepted r" and "cl_FilingNumber c = []"
    and "length (cl_Evidence c) = length (fr_Evidence r)"
    using all facts
    by (auto simp: mobile_claim_ok_def facts_ok_def check_text_Nil MinPlace_def MinDescription_def
        split: if_splits option.splits)
qed

end
