(* ===== verification/Claims_Web.thy ===== *)
theory Claims_Web
  imports Claims_Rules
begin

text \<open>
  The filing from the web portal (\<^verbatim>\<open>support.go\<close>, \<^verbatim>\<open>web_filing.go\<close>, \<^verbatim>\<open>summary.go\<close>): the files
  an insured uploads as supports, the requirements of the catalog they answer, the validated
  \<^verbatim>\<open>ClaimRecord\<close> and what its receipt shows. A \<open>claim_record\<close> extends the record of a claim,
  as the Go struct embeds it.
\<close>

section \<open>Supports\<close>

definition MaxSupportBytes :: int where "MaxSupportBytes = 10485760"
definition MaxSupportsPerClaim :: nat where "MaxSupportsPerClaim = 20"
definition MaxPendingSupports :: nat where "MaxPendingSupports = 50"
definition maxFileNameRunes :: nat where "maxFileNameRunes = 120"
definition SupportIDPrefix :: string where "SupportIDPrefix = ''sup-''"

definition ValidSupportID :: "string \<Rightarrow> bool" where
  "ValidSupportID s \<longleftrightarrow> prefix SupportIDPrefix s \<and> class_match is_lower_hex 32 32 (drop 4 s)"

datatype support_error =
    ErrUnsupportedFileType | ErrFileTooLarge | ErrEmptyFile | ErrTooManyPendingSupports
  | ErrSupportNotFound | ErrSupportNotUploaded | ErrSupportMismatch
  | SupportInvalid validation_error

definition SupportObjectKey :: "string \<Rightarrow> string \<Rightarrow> string" where
  "SupportObjectKey subject supportID = ''supports/'' @ subject @ ''/'' @ supportID"

text \<open>The part of a name after its last separator (\<^verbatim>\<open>strings.LastIndexAny\<close>).\<close>

definition is_sep :: "char \<Rightarrow> bool" where
  "is_sep c \<longleftrightarrow> byte c = 47 \<or> byte c = 92"

definition after_last_sep :: "string \<Rightarrow> string" where
  "after_last_sep s = rev (takeWhile (\<lambda>c. \<not> is_sep c) (rev s))"

definition SanitizeFileName :: "string \<Rightarrow> string" where
  "SanitizeFileName name0 =
    (let name1 = after_last_sep name0;
         name2 = encode_runes (filter (\<lambda>r. \<not> (is_control r \<or> r = rune_error)) (runes name1));
         name3 = TrimSpace name2;
         name4 = (if length (runes name3) > maxFileNameRunes
                  then TrimSpace (encode_runes (take maxFileNameRunes (runes name3))) else name3)
     in if name4 = '''' \<or> name4 = ''.'' \<or> name4 = ''..'' then ''support'' else name4)"

record support_upload_request =
  sur_FileName :: string
  sur_ContentType :: string
  sur_ByteSize :: int
  sur_SHA256 :: string

record support_upload =
  su_FileName :: string
  su_Format :: file_format
  su_ByteSize :: int
  su_SHA256 :: string

definition SupportUploadRequest_Validate :: "support_upload_request \<Rightarrow> support_error + support_upload" where
  "SupportUploadRequest_Validate r =
    (case FormatOf (TrimSpace (sur_ContentType r)) of
       None \<Rightarrow> Inl ErrUnsupportedFileType
     | Some format \<Rightarrow>
        if sur_ByteSize r \<le> 0 then Inl ErrEmptyFile
        else if sur_ByteSize r > MaxSupportBytes then Inl ErrFileTooLarge
        else let digest = TrimSpace (sur_SHA256 r) in
          if digest = '''' then Inl (SupportInvalid [fe ''sha256'' CodeRequired])
          else if \<not> sha256Pattern digest then Inl (SupportInvalid [fe ''sha256'' CodeInvalidFormat])
          else Inr \<lparr>su_FileName = SanitizeFileName (sur_FileName r), su_Format = format,
                    su_ByteSize = sur_ByteSize r, su_SHA256 = digest\<rparr>)"

record support_file =
  sf_ID :: string
  sf_OwnerSubject :: string
  sf_FileName :: string
  sf_Format :: file_format
  sf_ByteSize :: int
  sf_SHA256 :: string
  sf_UploadedAt :: time
  sf_ConfirmedAt :: time

definition SupportFile_ObjectKey :: "support_file \<Rightarrow> string" where
  "SupportFile_ObjectKey s = SupportObjectKey (sf_OwnerSubject s) (sf_ID s)"

definition SupportFile_Confirmed :: "support_file \<Rightarrow> bool" where
  "SupportFile_Confirmed s \<longleftrightarrow> \<not> time_IsZero (sf_ConfirmedAt s)"

definition signatureJPEG :: string where "signatureJPEG = [CHR 0xFF, CHR 0xD8, CHR 0xFF]"
definition signaturePNG :: string where
  "signaturePNG = [CHR 0x89, CHR ''P'', CHR ''N'', CHR ''G'', CHR 0x0D, CHR 0x0A, CHR 0x1A, CHR 0x0A]"
definition signaturePDF :: string where "signaturePDF = ''%PDF-''"

definition DetectFormat :: "string \<Rightarrow> file_format option" where
  "DetectFormat head =
    (if prefix signatureJPEG head then Some FormatJPEG
     else if prefix signaturePNG head then Some FormatPNG
     else if prefix signaturePDF head then Some FormatPDF
     else None)"

section \<open>The web filing\<close>

datatype channel = ChannelMobile | ChannelWeb

definition CodeMissing :: string where "CodeMissing = ''missing''"
definition CodeTooFew :: string where "CodeTooFew = ''too_few''"
definition CodeTooMany :: string where "CodeTooMany = ''too_many''"
definition CodeNotApplicable :: string where "CodeNotApplicable = ''not_applicable''"
definition CodeNotFound :: string where "CodeNotFound = ''not_found''"

lemmas code_defs = CodeMissing_def CodeTooFew_def CodeTooMany_def CodeNotApplicable_def CodeNotFound_def
  CodeRequired_def CodeInvalidFormat_def CodeOutOfRange_def CodeNotStored_def

definition requirementCodePattern :: "string \<Rightarrow> bool" where
  "requirementCodePattern = class_match (\<lambda>c. is_lower c \<or> c = CHR ''_'') 1 40"

record support_group =
  sg_RequirementCode :: string
  sg_SupportIDs :: "string list"

record web_filing_request =
  wr_PolicyID :: string
  wr_IncidentType :: string
  wr_OccurredAt :: string
  wr_Place :: string
  wr_Description :: string
  wr_Supports :: "support_group list"
  wr_EstimatedAmountMinor :: string

record attached_support =
  as_RequirementCode :: string
  as_Position :: nat
  as_File :: support_file

record claim_record = claim +
  cr_Channel :: channel
  cr_Policy :: "policy option"
  cr_CatalogVersion :: string
  cr_Supports :: "attached_support list"

definition WebFingerprint :: "claim_record \<Rightarrow> string" where
  "WebFingerprint c =
    sha256_hex (''web'' @ nl @ factsFingerprint c @ nl @
      concat (map (\<lambda>s. as_RequirementCode s @ ''='' @ sf_ID (as_File s) @ nl) (cr_Supports c)) @
      (case cl_EstimatedAmountMinor c of None \<Rightarrow> '''' | Some m \<Rightarrow> ''estimated_amount='' @ FormatInt m @ nl))"

definition countIDs :: "support_group list \<Rightarrow> nat" where
  "countIDs groups = sum_list (map (\<lambda>g. length (sg_SupportIDs g)) groups)"

text \<open>Two groups with the same code are one group: the ids of a code in the order they came, and
  the codes in the order of their first group.\<close>

definition byCode :: "support_group list \<Rightarrow> string \<Rightarrow> string list" where
  "byCode groups code = concat (map sg_SupportIDs (filter (\<lambda>g. TrimSpace (sg_RequirementCode g) = code) groups))"

fun first_codes :: "string list \<Rightarrow> support_group list \<Rightarrow> string list" where
  "first_codes seen [] = []"
| "first_codes seen (g # gs) =
    (let code = TrimSpace (sg_RequirementCode g) in
     if code \<in> set seen then first_codes seen gs else code # first_codes (code # seen) gs)"

definition zero_support_file :: support_file where
  "zero_support_file = \<lparr>sf_ID = '''', sf_OwnerSubject = '''', sf_FileName = '''', sf_Format = FormatJPEG,
     sf_ByteSize = 0, sf_SHA256 = '''', sf_UploadedAt = zero_time, sf_ConfirmedAt = zero_time\<rparr>"

text \<open>
  The closure \<^verbatim>\<open>files\<close>: the supports of a group, the problem it has (none while it is empty) and
  the ids seen so far. A file that is not there stands as the zero value, and its problem makes
  the group be dropped. \<open>file_problem\<close> is the problem after one id.
\<close>

definition file_of :: "(string \<rightharpoonup> support_file) \<Rightarrow> string \<Rightarrow> support_file" where
  "file_of uploaded sid = (case uploaded sid of None \<Rightarrow> zero_support_file | Some f \<Rightarrow> f)"

definition file_problem ::
  "string \<Rightarrow> (string \<rightharpoonup> support_file) \<Rightarrow> requirement option \<Rightarrow> string \<Rightarrow> string set \<Rightarrow> string \<Rightarrow> string" where
  "file_problem subject uploaded req sid seen problem =
    (let file = file_of uploaded sid in
     if \<not> ValidSupportID sid \<or> uploaded sid = None \<or> sf_OwnerSubject file \<noteq> subject \<or>
        \<not> SupportFile_Confirmed file \<or> sid \<in> seen then CodeNotFound
     else case req of
            None \<Rightarrow> problem
          | Some r \<Rightarrow> if \<not> Requirement_Accepts r (sf_Format file) \<and> problem = '''' then CodeInvalidFormat else problem)"

fun files_loop ::
  "string \<Rightarrow> (string \<rightharpoonup> support_file) \<Rightarrow> requirement option \<Rightarrow> string list \<Rightarrow> string set \<Rightarrow> string \<Rightarrow>
     support_file list \<times> string \<times> string set" where
  "files_loop subject uploaded req [] seen problem = ([], problem, seen)"
| "files_loop subject uploaded req (id0 # ids) seen problem =
    (let sid = TrimSpace id0;
         problem1 = file_problem subject uploaded req sid seen problem;
         (out, problem2, seen2) = files_loop subject uploaded req ids (insert sid seen) problem1
     in (file_of uploaded sid # out, problem2, seen2))"

definition group_problem :: "requirement \<Rightarrow> nat \<Rightarrow> string \<Rightarrow> string" where
  "group_problem req n problem =
    (if problem \<noteq> '''' then problem
     else if rq_Required req \<and> n = 0 then CodeMissing
     else if n > 0 \<and> n < rq_MinFiles req then CodeTooFew
     else if n > rq_MaxFiles req then CodeTooMany
     else '''')"

fun attach :: "string \<Rightarrow> support_file list \<Rightarrow> attached_support list \<Rightarrow> attached_support list" where
  "attach code [] attached = attached"
| "attach code (f # fs) attached =
    attach code fs (attached @ [\<lparr>as_RequirementCode = code, as_Position = length attached, as_File = f\<rparr>])"

text \<open>The loop over the requirements of the claim type.\<close>

fun requirements_loop ::
  "support_group list \<Rightarrow> string \<Rightarrow> (string \<rightharpoonup> support_file) \<Rightarrow> requirement list \<Rightarrow> string set \<Rightarrow>
     attached_support list \<Rightarrow> attached_support list \<times> field_error list \<times> string set" where
  "requirements_loop groups subject uploaded [] seen attached = (attached, [], seen)"
| "requirements_loop groups subject uploaded (req # reqs) seen attached =
    (let (found, problem0, seen1) = files_loop subject uploaded (Some req) (byCode groups (rq_Code req)) seen '''';
         problem = group_problem req (length found) problem0;
         (attached2, errs, seen2) =
           requirements_loop groups subject uploaded reqs seen1
             (if problem \<noteq> '''' then attached else attach (rq_Code req) found attached)
     in (attached2, (if problem \<noteq> '''' then [fe (''supports.'' @ rq_Code req) problem] else []) @ errs, seen2))"

text \<open>The loop over the groups the claim type does not ask for.\<close>

fun unasked_loop ::
  "support_group list \<Rightarrow> incident_option \<Rightarrow> string \<Rightarrow> (string \<rightharpoonup> support_file) \<Rightarrow> string list \<Rightarrow> string set \<Rightarrow>
     field_error list" where
  "unasked_loop groups opt subject uploaded [] seen = []"
| "unasked_loop groups opt subject uploaded (code # codes) seen =
    (if IncidentOption_Requirement opt code \<noteq> None then unasked_loop groups opt subject uploaded codes seen
     else
       let field = (if \<not> requirementCodePattern code then ''supports'' else ''supports.'' @ code);
           (_, problem, seen1) = files_loop subject uploaded None (byCode groups code) seen ''''
       in fe field (if problem = CodeNotFound then CodeNotFound else CodeNotApplicable)
          # unasked_loop groups opt subject uploaded codes seen1)"

definition checkSupports ::
  "support_group list \<Rightarrow> incident_option \<Rightarrow> string \<Rightarrow> (string \<rightharpoonup> support_file) \<Rightarrow>
     attached_support list \<times> field_error list" where
  "checkSupports groups opt subject uploaded =
    (let e0 = (if countIDs groups > MaxSupportsPerClaim then [fe ''supports'' CodeTooMany] else []);
         (attached, e1, seen) = requirements_loop groups subject uploaded (io_Requirements opt) {} [];
         e2 = unasked_loop groups opt subject uploaded (first_codes [] groups) seen
     in (attached, e0 @ e1 @ e2))"

definition WebFilingRequest_Validate ::
  "web_filing_request \<Rightarrow> time \<Rightarrow> catalog \<Rightarrow> string \<Rightarrow> (string \<rightharpoonup> support_file) \<Rightarrow> validation_error + claim_record" where
  "WebFilingRequest_Validate r now cat subject uploaded =
    (let policyID = TrimSpace (wr_PolicyID r);
         e1 = check_policy_id policyID;
         incident = TrimSpace (wr_IncidentType r);
         opt = Catalog_Incident cat incident;
         e2 = (if incident = '''' then [fe ''incident_type'' CodeRequired]
               else if opt = None then [fe ''incident_type'' CodeInvalidFormat] else []);
         (occurredAt, e3) = occurred (TrimSpace (wr_OccurredAt r)) now;
         place = TrimSpace (wr_Place r);
         e4 = check_text ''place'' MinPlace MaxPlace place;
         description = TrimSpace (wr_Description r);
         e5 = check_text ''description'' MinDescription MaxDescription description;
         (amount, e6) = estimatedAmount (TrimSpace (wr_EstimatedAmountMinor r));
         (supports, e7) =
           (case opt of
              Some opt1 \<Rightarrow> checkSupports (wr_Supports r) opt1 subject uploaded
            | None \<Rightarrow> ([], if countIDs (wr_Supports r) > MaxSupportsPerClaim then [fe ''supports'' CodeTooMany] else []));
         bads = e1 @ e2 @ e3 @ e4 @ e5 @ e6 @ e7
     in if bads \<noteq> [] then Inl bads
        else Inr \<lparr>cl_ID = '''', cl_FilingNumber = '''', cl_Subject = '''', cl_FilingKey = '''',
                  cl_PolicyID = policyID, cl_IncidentType = incident, cl_OccurredAt = occurredAt,
                  cl_Place = place, cl_Description = description, cl_Details = [],
                  cl_Evidence = [], cl_Status = StatusActive, cl_FiledAt = zero_time,
                  cl_EstimatedAmountMinor = amount,
                  cr_Channel = ChannelWeb, cr_Policy = None, cr_CatalogVersion = cat_Version cat,
                  cr_Supports = supports\<rparr>)"

section \<open>The confirmation\<close>

record support_item =
  si_RequirementCode :: string
  si_Label :: string
  si_Files :: "support_file list"

record support_summary =
  ss_RequiredTotal :: nat
  ss_RequiredAttached :: nat
  ss_Files :: nat
  ss_Items :: "support_item list"

definition IncidentLabel :: "claim_record \<Rightarrow> string" where
  "IncidentLabel c = (case Catalog_Incident (CatalogFor (cr_CatalogVersion c)) (cl_IncidentType c) of
     Some opt \<Rightarrow> io_Label opt | None \<Rightarrow> cl_IncidentType c)"

definition summary_step :: "claim_record \<Rightarrow> support_summary \<Rightarrow> requirement \<Rightarrow> support_summary" where
  "summary_step c s req =
    (let item = \<lparr>si_RequirementCode = rq_Code req, si_Label = rq_Label req,
            si_Files = map as_File (filter (\<lambda>a. as_RequirementCode a = rq_Code req) (cr_Supports c))\<rparr>;
         n = length (si_Files item);
         s1 = (if rq_Required req then
                 s\<lparr>ss_RequiredTotal := ss_RequiredTotal s + 1,
                   ss_RequiredAttached := ss_RequiredAttached s + (if n > 0 then 1 else 0)\<rparr> else s)
     in if n > 0 then s1\<lparr>ss_Files := ss_Files s1 + n, ss_Items := ss_Items s1 @ [item]\<rparr> else s1)"

definition SupportSummary :: "claim_record \<Rightarrow> support_summary" where
  "SupportSummary c =
    (let s = \<lparr>ss_RequiredTotal = 0, ss_RequiredAttached = 0, ss_Files = 0, ss_Items = []\<rparr> in
     if cr_Channel c \<noteq> ChannelWeb then s
     else case Catalog_Incident (CatalogFor (cr_CatalogVersion c)) (cl_IncidentType c) of
            None \<Rightarrow> s
          | Some opt \<Rightarrow> foldl (summary_step c) s (io_Requirements opt))"

record receipt =
  rc_FilingNumber :: string
  rc_Status :: claim_status
  rc_FiledAt :: time
  rc_PolicyID :: string
  rc_Product :: string
  rc_InsuredObject :: string
  rc_IncidentLabel :: string
  rc_OccurredAt :: time
  rc_Place :: string
  rc_Supports :: support_summary

definition ClaimRecord_Receipt :: "claim_record \<Rightarrow> receipt" where
  "ClaimRecord_Receipt c =
    \<lparr>rc_FilingNumber = cl_FilingNumber c, rc_Status = cl_Status c, rc_FiledAt = cl_FiledAt c,
     rc_PolicyID = cl_PolicyID c,
     rc_Product = (case cr_Policy c of None \<Rightarrow> '''' | Some p \<Rightarrow> pol_Product p),
     rc_InsuredObject = (case cr_Policy c of None \<Rightarrow> '''' | Some p \<Rightarrow> pol_InsuredObject p),
     rc_IncidentLabel = IncidentLabel c, rc_OccurredAt = cl_OccurredAt c, rc_Place = cl_Place c,
     rc_Supports = SupportSummary c\<rparr>"

section \<open>File names\<close>

lemma after_last_sep_no_sep: "list_all (\<lambda>c. \<not> is_sep c) (after_last_sep s)"
  by (auto simp: after_last_sep_def list_all_iff dest: set_takeWhileD)

text \<open>A separator is a one-byte rune: decoding finds it only where the byte is, and encoding
  writes the byte only for that rune.\<close>

lemma decode_rune_high:
  assumes "128 \<le> byte c"
  shows "128 \<le> fst (decode_rune (c # cs))"
proof -
  consider "byte c < 194" | "194 \<le> byte c" "byte c \<le> 223" | "224 \<le> byte c" "byte c \<le> 239"
    | "240 \<le> byte c" "byte c \<le> 244" | "244 < byte c" by linarith
  then show ?thesis
  proof cases
    case 2
    then show ?thesis
      by (cases cs) (simp_all add: Let_def rune_error_def, linarith)
  next
    case 3
    then show ?thesis
      by (cases cs rule: remdups_adj.cases) (simp_all add: Let_def rune_error_def cont_def, linarith)
  next
    case 4
    consider "cs = []" | c1 where "cs = [c1]" | c1 c2 where "cs = [c1, c2]"
      | c1 c2 c3 ds where "cs = c1 # c2 # c3 # ds"
      by (metis list.exhaust)
    then show ?thesis
      by cases (use 4 in \<open>simp_all add: Let_def rune_error_def cont_def, linarith\<close>)
  qed (use assms in \<open>simp_all add: Let_def rune_error_def\<close>)
qed

lemma decode_rune_ascii:
  assumes "s \<noteq> []" and "fst (decode_rune s) < 128"
  shows "fst (decode_rune s) = byte (hd s)"
proof (cases s)
  case (Cons c cs)
  with assms(2) decode_rune_high [of c cs] have "byte c < 128" by fastforce
  with Cons show ?thesis by simp
qed (use assms in simp)

lemma runes_ascii: "r \<in> set (runes s) \<Longrightarrow> r < 128 \<Longrightarrow> \<exists>c \<in> set s. byte c = r"
proof (induction s rule: runes.induct)
  case (1 s)
  show ?case
  proof (cases "s = []")
    case False
    with 1(2) consider "r = fst (decode_rune s)" | "r \<in> set (runes (drop (snd (decode_rune s)) s))"
      by (auto simp: runes.simps [of s])
    then show ?thesis
    proof cases
      case 1
      with False \<open>r < 128\<close> show ?thesis using decode_rune_ascii by (metis hd_in_set)
    next
      case 2
      with "1.IH" [OF False] \<open>r < 128\<close> show ?thesis by (meson in_set_dropD)
    qed
  qed (use 1 in simp)
qed

lemma byte_chr_high: "128 \<le> n \<Longrightarrow> n < 256 \<Longrightarrow> 128 \<le> byte (chr n)"
  by (simp add: byte_chr)

lemma encode_rune_high:
  assumes "128 \<le> r"
  shows "list_all (\<lambda>c. 128 \<le> byte c) (encode_rune r)"
proof -
  consider "r < 2048" | "2048 \<le> r" "55296 \<le> r \<and> r \<le> 57343 \<or> 1114111 < r"
    | "2048 \<le> r" "r < 65536" "\<not> (55296 \<le> r \<and> r \<le> 57343 \<or> 1114111 < r)"
    | "65536 \<le> r" "\<not> (55296 \<le> r \<and> r \<le> 57343 \<or> 1114111 < r)"
    by linarith
  then show ?thesis
  proof cases
    case 1
    then have "r div 64 < 32" by (simp add: div_less_iff_less_mult)
    with 1 assms show ?thesis by (simp add: encode_rune_def byte_chr_high)
  next
    case 2
    with assms show ?thesis by (simp add: encode_rune_def byte_chr_high)
  next
    case 3
    then have "r div 4096 < 16" by (simp add: div_less_iff_less_mult)
    with 3 assms show ?thesis by (simp add: encode_rune_def byte_chr_high)
  next
    case 4
    then have "r div 262144 < 8" by (simp add: div_less_iff_less_mult)
    with 4 assms show ?thesis by (simp add: encode_rune_def byte_chr_high)
  qed
qed

lemma encode_rune_ascii: "c \<in> set (encode_rune r) \<Longrightarrow> byte c < 128 \<Longrightarrow> byte c = r"
  using encode_rune_high [of r]
  by (cases "r < 128") (auto simp: encode_rune_def byte_chr list_all_iff)

lemma no_sep_encode_runes:
  assumes "c \<in> set (encode_runes rs)" and "is_sep c"
  shows "byte c \<in> set rs"
  using assms by (auto simp: encode_runes_def is_sep_def dest!: encode_rune_ascii)

lemma no_sep_runes:
  assumes "list_all (\<lambda>c. \<not> is_sep c) s"
  shows "47 \<notin> set (runes s)" and "92 \<notin> set (runes s)"
  using assms runes_ascii [of 47 s] runes_ascii [of 92 s] by (auto simp: list_all_iff is_sep_def)

lemma no_sep_recode:
  assumes "list_all (\<lambda>c. \<not> is_sep c) s" and "set rs \<subseteq> set (runes s)"
  shows "list_all (\<lambda>c. \<not> is_sep c) (encode_runes rs)"
proof (rule ccontr)
  assume "\<not> ?thesis"
  then obtain c where c: "c \<in> set (encode_runes rs)" "is_sep c" by (auto simp: list_all_iff)
  from no_sep_encode_runes [OF c] assms(2) have "byte c \<in> set (runes s)" by blast
  with c(2) no_sep_runes [OF assms(1)] show False by (auto simp: is_sep_def)
qed

lemma no_sep_TrimSpace: "list_all (\<lambda>c. \<not> is_sep c) s \<Longrightarrow> list_all (\<lambda>c. \<not> is_sep c) (TrimSpace s)"
  using set_TrimSpace [of s] by (auto simp: list_all_iff)

text \<open>A sanitized name is never a path: it has no separator, is not empty and is none of the two
  names that mean a directory.\<close>

lemma SanitizeFileName_safe:
  "list_all (\<lambda>c. \<not> is_sep c) (SanitizeFileName name)" (is ?nosep)
  "SanitizeFileName name \<noteq> []" "SanitizeFileName name \<noteq> ''.''" "SanitizeFileName name \<noteq> ''..''"
proof -
  let ?n1 = "after_last_sep name"
  let ?n2 = "encode_runes (filter (\<lambda>r. \<not> (is_control r \<or> r = rune_error)) (runes ?n1))"
  let ?n3 = "TrimSpace ?n2"
  have n2: "list_all (\<lambda>c. \<not> is_sep c) ?n2"
    by (rule no_sep_recode [OF after_last_sep_no_sep]) auto
  have n3: "list_all (\<lambda>c. \<not> is_sep c) ?n3" by (rule no_sep_TrimSpace [OF n2])
  have n4: "list_all (\<lambda>c. \<not> is_sep c) (TrimSpace (encode_runes (take maxFileNameRunes (runes ?n3))))"
    by (rule no_sep_TrimSpace, rule no_sep_recode [OF n3]) (auto dest: in_set_takeD)
  show ?nosep
    using n3 n4 by (simp add: SanitizeFileName_def Let_def is_sep_def byte_def)
  show "SanitizeFileName name \<noteq> []" "SanitizeFileName name \<noteq> ''.''" "SanitizeFileName name \<noteq> ''..''"
    by (simp_all add: SanitizeFileName_def Let_def)
qed

text \<open>No content has two formats, so the order of the checks does not matter.\<close>

lemma prefix_hd: "prefix (x # xs) ys \<Longrightarrow> \<exists>zs. ys = x # zs"
  by (auto simp: prefix_def)

lemma DetectFormat_Some:
  "DetectFormat h = Some f \<longleftrightarrow>
    prefix (case f of FormatJPEG \<Rightarrow> signatureJPEG | FormatPNG \<Rightarrow> signaturePNG | FormatPDF \<Rightarrow> signaturePDF) h"
  by (cases f)
    (auto simp: DetectFormat_def signatureJPEG_def signaturePNG_def signaturePDF_def dest!: prefix_hd)

section \<open>The supports of an accepted filing\<close>

definition support_ok :: "string \<Rightarrow> (string \<rightharpoonup> support_file) \<Rightarrow> support_file \<Rightarrow> bool" where
  "support_ok subject uploaded f \<longleftrightarrow>
    (\<exists>sid. uploaded sid = Some f \<and> ValidSupportID sid \<and> sf_OwnerSubject f = subject \<and> SupportFile_Confirmed f)"

lemma file_problem_sticky: "problem \<noteq> [] \<Longrightarrow> file_problem subject uploaded req sid seen problem \<noteq> []"
  by (simp add: file_problem_def Let_def code_defs split: option.split)

lemma file_problem_Nil:
  "file_problem subject uploaded req sid seen [] = [] \<longleftrightarrow>
    (\<exists>f. uploaded sid = Some f \<and> ValidSupportID sid \<and> sf_OwnerSubject f = subject \<and> SupportFile_Confirmed f \<and>
         sid \<notin> seen \<and> (case req of None \<Rightarrow> True | Some r \<Rightarrow> Requirement_Accepts r (sf_Format f)))"
  by (auto simp: file_problem_def file_of_def Let_def code_defs split: option.split)

lemma files_loop_problem_sticky:
  "problem \<noteq> [] \<Longrightarrow> fst (snd (files_loop subject uploaded req ids seen problem)) \<noteq> []"
proof (induction ids arbitrary: seen problem)
  case (Cons i ids)
  from Cons.IH [OF file_problem_sticky [OF Cons.prems]] show ?case
    by (simp add: Let_def case_prod_beta)
qed simp

lemma files_loop_seen:
  "snd (snd (files_loop subject uploaded req ids seen problem)) = seen \<union> TrimSpace ` set ids"
  by (induction ids arbitrary: seen problem) (simp_all add: Let_def case_prod_beta)

lemma files_loop_length:
  "length (fst (files_loop subject uploaded req ids seen problem)) = length ids"
  by (induction ids arbitrary: seen problem) (simp_all add: Let_def case_prod_beta)

text \<open>A group without a problem: its ids are new and distinct, and every file is there, confirmed,
  of the subject and of an accepted format.\<close>

definition group_ok ::
  "string \<Rightarrow> (string \<rightharpoonup> support_file) \<Rightarrow> requirement option \<Rightarrow> string list \<Rightarrow> string set \<Rightarrow> support_file list \<Rightarrow> bool" where
  "group_ok subject uploaded req ids seen out \<longleftrightarrow>
    map uploaded (map TrimSpace ids) = map Some out \<and> distinct (map TrimSpace ids) \<and>
    seen \<inter> TrimSpace ` set ids = {} \<and>
    list_all (\<lambda>f. support_ok subject uploaded f \<and>
      (case req of None \<Rightarrow> True | Some r \<Rightarrow> Requirement_Accepts r (sf_Format f))) out"

lemma files_loop_ok:
  assumes "files_loop subject uploaded req ids seen [] = (out, [], seen')"
  shows "group_ok subject uploaded req ids seen out"
  using assms
proof (induction ids arbitrary: seen out)
  case (Cons i ids)
  let ?sid = "TrimSpace i"
  let ?p1 = "file_problem subject uploaded req ?sid seen []"
  obtain o2 p2 s2 where l: "files_loop subject uploaded req ids (insert ?sid seen) ?p1 = (o2, p2, s2)"
    by (metis prod_cases3)
  from Cons.prems l have eq: "out = file_of uploaded ?sid # o2" "p2 = []" "s2 = seen'"
    by (auto simp: Let_def)
  have p1: "?p1 = []"
    using files_loop_problem_sticky [of ?p1 subject uploaded req ids "insert ?sid seen"] l eq by auto
  then obtain f where f: "uploaded ?sid = Some f" "ValidSupportID ?sid" "sf_OwnerSubject f = subject"
      "SupportFile_Confirmed f" "?sid \<notin> seen"
      "case req of None \<Rightarrow> True | Some r \<Rightarrow> Requirement_Accepts r (sf_Format f)"
    by (auto simp: file_problem_Nil)
  have "support_ok subject uploaded f" using f by (auto simp: support_ok_def)
  with Cons.IH [of "insert ?sid seen" o2] l [unfolded p1] eq f show ?case
    by (auto simp: group_ok_def file_of_def)
qed (simp add: group_ok_def)

lemma attach_positions:
  "map as_Position attached = [0..<length attached] \<Longrightarrow>
     map as_Position (attach code fs attached) = [0..<length (attach code fs attached)]"
  by (induction fs arbitrary: attached) auto

definition labelled :: "attached_support list \<Rightarrow> (string \<times> support_file) list" where
  "labelled out = map (\<lambda>a. (as_RequirementCode a, as_File a)) out"

lemma labelled_attach: "labelled (attach code fs attached) = labelled attached @ map (Pair code) fs"
  by (induction fs arbitrary: attached) (auto simp: labelled_def)

text \<open>What the loop over the requirements attaches when it finds nothing wrong: for each
  requirement, in the order of the catalog, the files its ids name, in the order they came.\<close>

definition ids_of :: "support_group list \<Rightarrow> requirement list \<Rightarrow> string list" where
  "ids_of groups reqs = concat (map (\<lambda>r. map TrimSpace (byCode groups (rq_Code r))) reqs)"

definition files_of ::
  "support_group list \<Rightarrow> (string \<rightharpoonup> support_file) \<Rightarrow> requirement list \<Rightarrow> (string \<times> support_file) list" where
  "files_of groups uploaded reqs =
    concat (map (\<lambda>r. map (\<lambda>i. (rq_Code r, file_of uploaded (TrimSpace i))) (byCode groups (rq_Code r))) reqs)"

definition count_ok :: "requirement \<Rightarrow> nat \<Rightarrow> bool" where
  "count_ok req n \<longleftrightarrow> (rq_Required req \<longrightarrow> 0 < n) \<and> (0 < n \<longrightarrow> rq_MinFiles req \<le> n) \<and> n \<le> rq_MaxFiles req"

lemma group_problem_Nil: "group_problem req n problem = [] \<longleftrightarrow> problem = [] \<and> count_ok req n"
  by (auto simp: group_problem_def count_ok_def code_defs)

definition requirement_met ::
  "string \<Rightarrow> (string \<rightharpoonup> support_file) \<Rightarrow> support_group list \<Rightarrow> requirement \<Rightarrow> bool" where
  "requirement_met subject uploaded groups r \<longleftrightarrow>
    count_ok r (length (byCode groups (rq_Code r))) \<and>
    list_all (\<lambda>i. \<exists>f. uploaded (TrimSpace i) = Some f \<and> support_ok subject uploaded f \<and> Requirement_Accepts r (sf_Format f))
      (byCode groups (rq_Code r))"

lemma group_ok_met:
  assumes "group_ok subject uploaded (Some r) (byCode groups (rq_Code r)) seen out"
    and "count_ok r (length out)"
  shows "requirement_met subject uploaded groups r"
    and "map (Pair (rq_Code r)) out = map (\<lambda>i. (rq_Code r, file_of uploaded (TrimSpace i))) (byCode groups (rq_Code r))"
proof -
  let ?ids = "byCode groups (rq_Code r)"
  from assms(1) have eq: "map uploaded (map TrimSpace ?ids) = map Some out"
    and ok: "list_all (\<lambda>f. support_ok subject uploaded f \<and> Requirement_Accepts r (sf_Format f)) out"
    by (auto simp: group_ok_def)
  then have len: "length out = length ?ids" by (metis length_map)
  have nth: "uploaded (TrimSpace (?ids ! k)) = Some (out ! k)" if "k < length ?ids" for k
    using eq that by (metis len length_map nth_map)
  show "requirement_met subject uploaded groups r"
    using nth ok assms(2) by (auto simp: requirement_met_def len list_all_length)
  show "map (Pair (rq_Code r)) out = map (\<lambda>i. (rq_Code r, file_of uploaded (TrimSpace i))) ?ids"
    by (rule nth_equalityI) (auto simp: len nth file_of_def)
qed

lemma requirements_loop_ok:
  assumes "requirements_loop groups subject uploaded reqs seen attached = (out, [], seen')"
  shows "list_all (requirement_met subject uploaded groups) reqs \<and>
    labelled out = labelled attached @ files_of groups uploaded reqs \<and>
    distinct (ids_of groups reqs) \<and> seen \<inter> set (ids_of groups reqs) = {} \<and>
    (map as_Position attached = [0..<length attached] \<longrightarrow> map as_Position out = [0..<length out])"
  using assms
proof (induction reqs arbitrary: seen attached)
  case (Cons r reqs)
  let ?ids = "byCode groups (rq_Code r)"
  obtain found p0 seen1 where f: "files_loop subject uploaded (Some r) ?ids seen [] = (found, p0, seen1)"
    by (metis prod_cases3)
  from Cons.prems f have gp: "group_problem r (length found) p0 = []"
    and rest: "requirements_loop groups subject uploaded reqs seen1 (attach (rq_Code r) found attached) = (out, [], seen')"
    by (auto simp: Let_def split: prod.splits if_splits)
  from gp have p0: "p0 = []" and cnt: "count_ok r (length found)" by (auto simp: group_problem_Nil)
  have g: "group_ok subject uploaded (Some r) ?ids seen found" using files_loop_ok f p0 by blast
  have s1: "seen1 = seen \<union> TrimSpace ` set ?ids"
    using files_loop_seen [of subject uploaded "Some r" ?ids seen "[]"] f by simp
  have g2: "distinct (map TrimSpace ?ids)" "seen \<inter> TrimSpace ` set ?ids = {}"
    using g by (auto simp: group_ok_def)
  note met = group_ok_met [OF g cnt]
  have ids: "ids_of groups (r # reqs) = map TrimSpace ?ids @ ids_of groups reqs"
    and files: "files_of groups uploaded (r # reqs) = map (Pair (rq_Code r)) found @ files_of groups uploaded reqs"
    using met(2) by (simp_all add: ids_of_def files_of_def)
  from Cons.IH [OF rest] s1 g2 have "distinct (ids_of groups (r # reqs)) \<and> seen \<inter> set (ids_of groups (r # reqs)) = {}"
    unfolding ids by auto
  with Cons.IH [OF rest] met(1) show ?case
    by (auto simp: labelled_attach files attach_positions)
qed (simp add: files_of_def ids_of_def)

lemma first_codes_set: "set (first_codes seen groups) = (\<lambda>g. TrimSpace (sg_RequirementCode g)) ` set groups - set seen"
  by (induction groups arbitrary: seen) (auto simp: Let_def)

lemma unasked_loop_Nil:
  "unasked_loop groups opt subject uploaded codes seen = [] \<longleftrightarrow>
    list_all (\<lambda>code. IncidentOption_Requirement opt code \<noteq> None) codes"
  by (induction codes arbitrary: seen) (auto simp: Let_def case_prod_beta)

lemma IncidentOption_Requirement_iff:
  "(\<exists>req. IncidentOption_Requirement opt code = Some req) \<longleftrightarrow> code \<in> rq_Code ` set (io_Requirements opt)"
  by (auto simp: IncidentOption_Requirement_def find_None_iff simp flip: not_None_eq)

text \<open>With every group asked for, no id is left out: the requirements take all of them.\<close>

lemma byCode_Cons:
  "byCode (g # gs) code = (if TrimSpace (sg_RequirementCode g) = code then sg_SupportIDs g else []) @ byCode gs code"
  by (simp add: byCode_def)

lemma countIDs_byCode:
  assumes "distinct codes" and "(\<lambda>g. TrimSpace (sg_RequirementCode g)) ` set groups \<subseteq> set codes"
  shows "(\<Sum>code\<leftarrow>codes. length (byCode groups code)) = countIDs groups"
  using assms(2)
proof (induction groups)
  case (Cons g gs)
  have "(\<Sum>code\<leftarrow>codes. length (byCode (g # gs) code)) =
    (\<Sum>code\<leftarrow>codes. if TrimSpace (sg_RequirementCode g) = code then length (sg_SupportIDs g) else 0) +
    (\<Sum>code\<leftarrow>codes. length (byCode gs code))"
    unfolding sum_list_addf [symmetric] by (intro arg_cong [of _ _ sum_list] map_cong) (auto simp: byCode_Cons)
  also have "(\<Sum>code\<leftarrow>codes. if TrimSpace (sg_RequirementCode g) = code then length (sg_SupportIDs g) else 0) =
    length (sg_SupportIDs g)"
    using Cons.prems assms(1) by (simp add: sum_list_distinct_conv_sum_set)
  finally show ?case using Cons by (simp add: countIDs_def)
qed (simp add: byCode_def countIDs_def sum_list_0)

text \<open>
  The supports of an accepted filing: one list in the order of the catalog, positions counted from
  zero, no id twice, every requirement met by files the subject owns and confirmed, in a format it
  takes; every group is asked for; and all the ids sent are attached, at most twenty.
\<close>

definition supports_ok ::
  "support_group list \<Rightarrow> incident_option \<Rightarrow> string \<Rightarrow> (string \<rightharpoonup> support_file) \<Rightarrow> attached_support list \<Rightarrow> bool" where
  "supports_ok groups opt subject uploaded out \<longleftrightarrow>
    list_all (requirement_met subject uploaded groups) (io_Requirements opt) \<and>
    labelled out = files_of groups uploaded (io_Requirements opt) \<and>
    map as_Position out = [0..<length out] \<and>
    distinct (ids_of groups (io_Requirements opt)) \<and>
    list_all (\<lambda>g. TrimSpace (sg_RequirementCode g) \<in> rq_Code ` set (io_Requirements opt)) groups \<and>
    countIDs groups \<le> MaxSupportsPerClaim"

lemma checkSupports_ok:
  assumes "checkSupports groups opt subject uploaded = (out, [])"
  shows "supports_ok groups opt subject uploaded out"
proof -
  obtain att e1 seen where r: "requirements_loop groups subject uploaded (io_Requirements opt) {} [] = (att, e1, seen)"
    by (metis prod_cases3)
  from assms r have eq: "e1 = []" "att = out" "countIDs groups \<le> MaxSupportsPerClaim"
    and u: "unasked_loop groups opt subject uploaded (first_codes [] groups) seen = []"
    by (auto simp: checkSupports_def split: if_splits)
  from u have "list_all (\<lambda>g. TrimSpace (sg_RequirementCode g) \<in> rq_Code ` set (io_Requirements opt)) groups"
    by (auto simp: unasked_loop_Nil IncidentOption_Requirement_iff list_all_iff first_codes_set)
  with requirements_loop_ok r eq show ?thesis
    unfolding supports_ok_def by (fastforce simp: labelled_def)
qed

lemma supports_ok_length:
  assumes "supports_ok groups opt subject uploaded out" and "distinct (map rq_Code (io_Requirements opt))"
  shows "length out = countIDs groups"
proof -
  let ?reqs = "io_Requirements opt"
  from assms(1) have "length out = length (files_of groups uploaded ?reqs)"
    by (metis supports_ok_def labelled_def length_map)
  also have "\<dots> = (\<Sum>code\<leftarrow>map rq_Code ?reqs. length (byCode groups code))"
    by (simp add: files_of_def length_concat comp_def)
  also have "\<dots> = countIDs groups"
    by (rule countIDs_byCode [OF assms(2)]) (use assms(1) in \<open>auto simp: supports_ok_def list_all_iff\<close>)
  finally show ?thesis .
qed

text \<open>When the uploads are kept by their id, no file is attached twice.\<close>

lemma supports_ok_distinct:
  assumes "supports_ok groups opt subject uploaded out"
    and "\<And>sid f. uploaded sid = Some f \<Longrightarrow> sf_ID f = sid"
  shows "distinct (map (\<lambda>a. sf_ID (as_File a)) out)"
proof -
  let ?reqs = "io_Requirements opt"
  have "map (\<lambda>a. sf_ID (as_File a)) out = map (sf_ID \<circ> snd) (labelled out)"
    by (simp add: labelled_def comp_def)
  also have "\<dots> = map (sf_ID \<circ> snd) (files_of groups uploaded ?reqs)"
    using assms(1) by (simp add: supports_ok_def)
  also have "\<dots> = ids_of groups ?reqs"
  proof -
    have "sf_ID (file_of uploaded (TrimSpace i)) = TrimSpace i"
      if "r \<in> set ?reqs" "i \<in> set (byCode groups (rq_Code r))" for r i
      using assms that by (force simp: supports_ok_def requirement_met_def list_all_iff file_of_def)
    then show ?thesis
      by (auto simp: files_of_def ids_of_def map_concat intro!: arg_cong [of _ _ concat] map_cong)
  qed
  finally show ?thesis using assms(1) by (simp add: supports_ok_def)
qed

text \<open>An accepted web filing: the shared facts are checked, the claim type is in the catalog and
  its supports are in order.\<close>

lemma WebFilingRequest_Validate_sound:
  assumes "WebFilingRequest_Validate r now cat subject uploaded = Inr c"
  shows "facts_ok now c" and "cr_Channel c = ChannelWeb" and "cl_FilingNumber c = []"
    and "\<exists>opt. Catalog_Incident cat (cl_IncidentType c) = Some opt \<and>
           supports_ok (wr_Supports r) opt subject uploaded (cr_Supports c)"
proof -
  let ?opt = "Catalog_Incident cat (TrimSpace (wr_IncidentType r))"
  obtain inst e3 where o: "occurred (TrimSpace (wr_OccurredAt r)) now = (inst, e3)" by fastforce
  obtain m e6 where m: "estimatedAmount (TrimSpace (wr_EstimatedAmountMinor r)) = (m, e6)" by fastforce
  from assms obtain opt where opt: "?opt = Some opt"
    by (cases ?opt) (auto simp: WebFilingRequest_Validate_def Let_def o m split: if_splits)
  obtain sups e7 where s: "checkSupports (wr_Supports r) opt subject uploaded = (sups, e7)" by fastforce
  note all = assms [simplified WebFilingRequest_Validate_def Let_def o m prod.case opt option.case s]
  have nil: "e3 = []" "e6 = []" "e7 = []"
    using all by (auto split: if_splits)
  note facts = occurred_Nil [OF o [unfolded nil]] estimatedAmount_Nil [OF m [unfolded nil]]
    checkSupports_ok [OF s [unfolded nil]]
  show "facts_ok now c" and "cr_Channel c = ChannelWeb" and "cl_FilingNumber c = []"
    using all facts
    by (auto simp: facts_ok_def check_text_Nil MinPlace_def MinDescription_def details_ok_def
        split: if_splits option.splits)
  show "\<exists>opt. Catalog_Incident cat (cl_IncidentType c) = Some opt \<and>
      supports_ok (wr_Supports r) opt subject uploaded (cr_Supports c)"
    using all facts opt by (auto split: if_splits)
qed

end
