(* ===== verification/Paging.thy ===== *)
theory Paging
  imports Prelude
begin

text \<open>
  Lists served in pages. Every list of the services asks its store for one element more than the
  page, cuts the page and gives the position of its last element as the cursor of the next one
  (\<^verbatim>\<open>QueryService.List\<close>, \<^verbatim>\<open>evaluation.Service.page\<close>). \<open>page_of\<close> is that step and
  \<open>follow_pages\<close> a caller that asks for the pages one after the other. The locale
  \<open>cursor_list\<close> is what a store promises of its list operation; under it, following the pages
  gives the whole list, each element once and in order.
\<close>

definition page_of :: "('c option \<Rightarrow> nat \<Rightarrow> 'a list) \<Rightarrow> ('a \<Rightarrow> 'c) \<Rightarrow> nat \<Rightarrow> 'c option \<Rightarrow> 'a list \<times> 'c option" where
  "page_of fetch cur psize after =
    (let xs = fetch after (psize + 1) in
     if length xs > psize then (take psize xs, Some (cur (xs ! (psize - 1)))) else (xs, None))"

fun follow_pages :: "('c option \<Rightarrow> 'a list \<times> 'c option) \<Rightarrow> nat \<Rightarrow> 'c option \<Rightarrow> 'a list option" where
  "follow_pages page 0 after = None"
| "follow_pages page (Suc fuel) after =
    (case page after of
       (xs, None) \<Rightarrow> Some xs
     | (xs, Some c) \<Rightarrow> map_option (\<lambda>ys. xs @ ys) (follow_pages page fuel (Some c)))"

locale cursor_list =
  fixes fetch :: "'s \<Rightarrow> 'c option \<Rightarrow> nat \<Rightarrow> 'a list"
    and cur :: "'a \<Rightarrow> 'c"
    and whole :: "'s \<Rightarrow> 'a list"
    and inv :: "'s \<Rightarrow> bool"
  assumes fetch_first: "inv s \<Longrightarrow> fetch s None n = take n (whole s)"
    and fetch_next: "inv s \<Longrightarrow> k < length (whole s) \<Longrightarrow>
      fetch s (Some (cur (whole s ! k))) n = take n (drop (Suc k) (whole s))"
begin

text \<open>The cursor in front of place \<open>k\<close>.\<close>

definition at_place :: "'s \<Rightarrow> nat \<Rightarrow> 'c option" where
  "at_place s k = (case k of 0 \<Rightarrow> None | Suc j \<Rightarrow> Some (cur (whole s ! j)))"

lemma fetch_at: "inv s \<Longrightarrow> k \<le> length (whole s) \<Longrightarrow> fetch s (at_place s k) n = take n (drop k (whole s))"
  by (cases k) (simp_all add: at_place_def fetch_first fetch_next)

lemma page_at:
  assumes "inv s" and "k \<le> length (whole s)" and "0 < psize"
  shows "page_of (fetch s) cur psize (at_place s k) =
    (if k + psize < length (whole s) then (take psize (drop k (whole s)), at_place s (k + psize))
     else (drop k (whole s), None))"
proof (cases "k + psize < length (whole s)")
  case True
  then have "(take (psize + 1) (drop k (whole s))) ! (psize - 1) = whole s ! (k + psize - 1)"
    using assms(3) by simp
  moreover have "at_place s (k + psize) = Some (cur (whole s ! (k + psize - 1)))"
    using assms(3) by (cases "k + psize") (simp_all add: at_place_def)
  ultimately show ?thesis
    using True assms by (simp add: page_of_def fetch_at Let_def)
qed (use assms in \<open>simp add: page_of_def fetch_at Let_def\<close>)

lemma follow_from:
  assumes "inv s" and "0 < psize" and "k \<le> length (whole s)" and "length (whole s) - k < fuel"
  shows "follow_pages (page_of (fetch s) cur psize) fuel (at_place s k) = Some (drop k (whole s))"
  using assms(3,4)
proof (induction fuel arbitrary: k)
  case (Suc fuel)
  show ?case
  proof (cases "k + psize < length (whole s)")
    case True
    have "follow_pages (page_of (fetch s) cur psize) fuel (at_place s (k + psize)) = Some (drop (k + psize) (whole s))"
      using Suc.prems True assms(2) by (intro Suc.IH) auto
    moreover have "at_place s (k + psize) \<noteq> None" using assms(2) by (simp add: at_place_def split: nat.split)
    moreover have "take psize (drop k (whole s)) @ drop (k + psize) (whole s) = drop k (whole s)"
      by (metis append_take_drop_id drop_drop add.commute)
    ultimately show ?thesis
      using True Suc.prems by (auto simp: page_at [OF assms(1) _ assms(2)])
  qed (use Suc.prems in \<open>simp add: page_at [OF assms(1) _ assms(2)]\<close>)
qed simp

lemma follow_all:
  assumes "inv s" and "0 < psize"
  shows "follow_pages (page_of (fetch s) cur psize) (Suc (length (whole s))) None = Some (whole s)"
  using follow_from [OF assms, of 0 "Suc (length (whole s))"] by (simp add: at_place_def)

end

end
