(* ===== verification/Claims_Cases.thy ===== *)
theory Claims_Cases
  imports Claims_Web Paging
begin

text \<open>
  The store of the claims of both channels and of the supports of the web filings
  (\<^verbatim>\<open>adapters/memory/cases.go\<close>). Its state is the record of the fields of \<^verbatim>\<open>CaseStore\<close>; every
  operation holds the mutex from its first line to its last, so it is one function of the state.
  The copies the code makes (\<^verbatim>\<open>copyRecord\<close>) are the value semantics of HOL. The two maps that the
  code ranges over are association lists, and the theorems show that the order of their entries,
  which Go leaves open, never shows.
\<close>

section \<open>State\<close>

datatype case_error = ErrFilingKeyReused | ErrSupportAlreadyAttached | ErrClaimNotFound

record case_store =
  cs_byID :: "(string, claim_record) gomap"
  cs_byKey :: "string \<rightharpoonup> string"
  cs_sequence :: int
  cs_supports :: "(string, support_file) gomap"
  cs_attachedTo :: "string \<rightharpoonup> string"

definition NewCaseStore :: case_store where
  "NewCaseStore = \<lparr>cs_byID = [], cs_byKey = Map.empty, cs_sequence = 0, cs_supports = [], cs_attachedTo = Map.empty\<rparr>"

definition zero_claim :: claim where
  "zero_claim = \<lparr>cl_ID = '''', cl_FilingNumber = '''', cl_Subject = '''', cl_FilingKey = '''', cl_PolicyID = '''',
     cl_IncidentType = '''', cl_OccurredAt = zero_time, cl_Place = '''', cl_Description = '''', cl_Details = [],
     cl_Evidence = [], cl_Status = StatusActive, cl_FiledAt = zero_time, cl_EstimatedAmountMinor = None\<rparr>"

definition mobile_record :: "claim \<Rightarrow> claim_record" where
  "mobile_record c = claim.extend c (claim_record.fields ChannelMobile None '''' [])"

text \<open>The key of a filing: \<^verbatim>\<open>subject + "\x00" + key\<close>.\<close>

definition filing_slot :: "string \<Rightarrow> string \<Rightarrow> string" where
  "filing_slot subject key = subject @ [CHR 0x00] @ key"

definition byFilingKey :: "case_store \<Rightarrow> string \<Rightarrow> string \<Rightarrow> claim_record option" where
  "byFilingKey s subject key =
    (case cs_byKey s (filing_slot subject key) of
       None \<Rightarrow> None
     | Some cid \<Rightarrow> Some (case gm_get (cs_byID s) cid of Some c \<Rightarrow> c | None \<Rightarrow> mobile_record zero_claim))"

definition insert_case :: "claim_record \<Rightarrow> case_store \<Rightarrow> case_store \<times> claim_record" where
  "insert_case c s =
    (let sq = cs_sequence s + 1;
         c1 = c\<lparr>cl_FilingNumber := FilingNumber (cl_FiledAt c) sq\<rparr>
     in (s\<lparr>cs_sequence := sq, cs_byID := gm_put (cl_ID c1) c1 (cs_byID s),
           cs_byKey := (cs_byKey s)(filing_slot (cl_Subject c1) (cl_FilingKey c1) \<mapsto> cl_ID c1)\<rparr>, c1))"

section \<open>Filing\<close>

definition Create :: "claim \<Rightarrow> case_store \<Rightarrow> case_store \<times> (case_error + claim \<times> bool)" where
  "Create c s =
    (case byFilingKey s (cl_Subject c) (cl_FilingKey c) of
       Some existing \<Rightarrow>
         if cr_Channel existing \<noteq> ChannelMobile \<or> Fingerprint existing \<noteq> Fingerprint c
         then (s, Inl ErrFilingKeyReused)
         else (s, Inr (claim.truncate existing, False))
     | None \<Rightarrow> let (s1, stored) = insert_case (mobile_record c) s in (s1, Inr (claim.truncate stored, True)))"

definition support_ids :: "claim_record \<Rightarrow> string list" where
  "support_ids c = map (\<lambda>a. sf_ID (as_File a)) (cr_Supports c)"

definition CreateWeb :: "claim_record \<Rightarrow> case_store \<Rightarrow> case_store \<times> (case_error + claim_record \<times> bool)" where
  "CreateWeb c s =
    (case byFilingKey s (cl_Subject c) (cl_FilingKey c) of
       Some existing \<Rightarrow>
         if cr_Channel existing \<noteq> ChannelWeb \<or> WebFingerprint existing \<noteq> WebFingerprint c
         then (s, Inl ErrFilingKeyReused)
         else (s, Inr (existing, False))
     | None \<Rightarrow>
         if list_ex (\<lambda>sid. cs_attachedTo s sid \<noteq> None) (support_ids c) then (s, Inl ErrSupportAlreadyAttached)
         else
           let (s1, stored) = insert_case (c\<lparr>cr_Channel := ChannelWeb\<rparr>) s;
               s2 = s1\<lparr>cs_attachedTo := foldl (\<lambda>m sid. m(sid \<mapsto> cl_ID stored)) (cs_attachedTo s1) (support_ids stored)\<rparr>
           in (s2, Inr (stored, True)))"

definition FindByKey :: "string \<Rightarrow> string \<Rightarrow> case_store \<Rightarrow> case_error + claim_record" where
  "FindByKey subject key s = (case byFilingKey s subject key of Some c \<Rightarrow> Inr c | None \<Rightarrow> Inl ErrClaimNotFound)"

definition Get :: "string \<Rightarrow> case_store \<Rightarrow> case_error + claim_record" where
  "Get cid s = (case gm_get (cs_byID s) cid of Some c \<Rightarrow> Inr c | None \<Rightarrow> Inl ErrClaimNotFound)"

section \<open>Lists\<close>

record claim_filter =
  cf_Status :: "claim_status option"
  cf_PolicyID :: string
  cf_FiledFrom :: time

record claim_cursor =
  cu_FiledAt :: time
  cu_ID :: string

definition olderThan :: "claim_record \<Rightarrow> claim_cursor \<Rightarrow> bool" where
  "olderThan c cursor =
    (if cl_FiledAt c \<noteq> cu_FiledAt cursor then cl_FiledAt c < cu_FiledAt cursor else cl_ID c < cu_ID cursor)"

definition newerThan :: "claim_record \<Rightarrow> claim_cursor \<Rightarrow> bool" where
  "newerThan c cursor =
    (if cl_FiledAt c \<noteq> cu_FiledAt cursor then cl_FiledAt c > cu_FiledAt cursor else cl_ID c > cu_ID cursor)"

definition cursor_of :: "claim_record \<Rightarrow> claim_cursor" where
  "cursor_of c = \<lparr>cu_FiledAt = cl_FiledAt c, cu_ID = cl_ID c\<rparr>"

text \<open>A listed claim comes without its supports and its evidence.\<close>

definition listed :: "claim_record \<Rightarrow> claim_record" where
  "listed c = c\<lparr>cr_Supports := [], cl_Evidence := []\<rparr>"

definition owner_matches :: "string \<Rightarrow> claim_filter \<Rightarrow> claim_record \<Rightarrow> bool" where
  "owner_matches subject f c \<longleftrightarrow>
    \<not> (cl_Subject c \<noteq> subject \<or>
       (case cf_Status f of None \<Rightarrow> False | Some st \<Rightarrow> cl_Status c \<noteq> st) \<or>
       cf_PolicyID f \<noteq> '''' \<and> cl_PolicyID c \<noteq> cf_PolicyID f \<or>
       \<not> time_IsZero (cf_FiledFrom f) \<and> cl_FiledAt c < cf_FiledFrom f)"

text \<open>\<open>out[:limit]\<close> panics on a negative limit: no value.\<close>

definition ListByOwner ::
  "string \<Rightarrow> claim_filter \<Rightarrow> claim_cursor option \<Rightarrow> int \<Rightarrow> case_store \<Rightarrow> claim_record list option" where
  "ListByOwner subject f after limit s =
    (let out = map listed (filter (\<lambda>c. owner_matches subject f c \<and>
                 (case after of None \<Rightarrow> True | Some cur \<Rightarrow> olderThan c cur)) (map snd (cs_byID s)));
         out1 = slice_sort (\<lambda>x y. \<not> olderThan x (cursor_of y)) out
     in if int (length out1) > limit then if limit < 0 then None else Some (take (nat limit) out1)
        else Some out1)"

definition ListByStatus ::
  "claim_status list \<Rightarrow> claim_cursor option \<Rightarrow> int \<Rightarrow> case_store \<Rightarrow> claim_record list" where
  "ListByStatus statuses after limit s =
    (let out = map listed (filter (\<lambda>c. cl_Status c \<in> set statuses \<and>
                 (case after of None \<Rightarrow> True | Some cur \<Rightarrow> newerThan c cur)) (map snd (cs_byID s)));
         out1 = slice_sort (\<lambda>x y. olderThan x (cursor_of y)) out
     in if limit \<ge> 0 \<and> int (length out1) > limit then take (nat limit) out1 else out1)"

section \<open>Supports\<close>

definition Save_support :: "support_file \<Rightarrow> case_store \<Rightarrow> case_store" where
  "Save_support f s = s\<lparr>cs_supports := gm_put (sf_ID f) f (cs_supports s)\<rparr>"

definition Confirm_support :: "string \<Rightarrow> time \<Rightarrow> case_store \<Rightarrow> case_store \<times> (support_error + support_file)" where
  "Confirm_support sid when s =
    (case gm_get (cs_supports s) sid of
       None \<Rightarrow> (s, Inl ErrSupportNotFound)
     | Some f \<Rightarrow>
        if \<not> SupportFile_Confirmed f then
          let f1 = f\<lparr>sf_ConfirmedAt := when\<rparr> in (s\<lparr>cs_supports := gm_put sid f1 (cs_supports s)\<rparr>, Inr f1)
        else (s, Inr f))"

definition Find_supports :: "string list \<Rightarrow> case_store \<Rightarrow> (string \<rightharpoonup> support_file)" where
  "Find_supports ids s = (\<lambda>sid. if sid \<in> set ids then gm_get (cs_supports s) sid else None)"

definition CountPending :: "string \<Rightarrow> case_store \<Rightarrow> nat" where
  "CountPending owner s =
    length (filter (\<lambda>(sid, f). sf_OwnerSubject f = owner \<and> cs_attachedTo s sid = None) (cs_supports s))"

section \<open>Filing numbers\<close>

text \<open>The sequence is the run of digits after the last dash, whatever the year.\<close>

lemma FilingNumber_sequence:
  "dec_val 0 (rev (takeWhile is_digit (rev (FilingNumber t n)))) = nat n"
proof -
  have d: "\<forall>c \<in> set (rev (pad_dec 5 (nat n))). is_digit c"
    using pad_dec_digits [of 5 "nat n"] by (auto simp: list_all_iff)
  have "rev (FilingNumber t n) = rev (pad_dec 5 (nat n)) @ CHR ''-'' # rev (''SIN-'' @ FormatInt (time_Year t))"
    by (simp add: FilingNumber_def)
  then have "takeWhile is_digit (rev (FilingNumber t n)) = rev (pad_dec 5 (nat n))"
    using d by (simp add: takeWhile_append is_digit_def byte_def)
  then show ?thesis by (simp add: dec_val_pad_dec)
qed

lemma FilingNumber_inject:
  assumes "FilingNumber t m = FilingNumber u n" and "0 \<le> m" and "0 \<le> n"
  shows "m = n"
  using assms by (metis FilingNumber_sequence nat_eq_iff2 int_nat_eq)

section \<open>The invariant of the store\<close>

text \<open>
  Every claim is kept under its id and reached from its filing key, and only from it; its filing
  number is the one of a place of the sequence no other claim has; supports are kept under their
  id; and \<^verbatim>\<open>attachedTo\<close> names, for each support of each claim, that claim.
\<close>

definition ids_ok :: "case_store \<Rightarrow> bool" where
  "ids_ok s \<longleftrightarrow> gm_ok (cs_byID s) \<and> (\<forall>(cid, c) \<in> set (cs_byID s). cl_ID c = cid) \<and>
     gm_ok (cs_supports s) \<and> (\<forall>(sid, f) \<in> set (cs_supports s). sf_ID f = sid)"

definition keys_ok :: "case_store \<Rightarrow> bool" where
  "keys_ok s \<longleftrightarrow>
     (\<forall>cid c. gm_get (cs_byID s) cid = Some c \<longrightarrow> cs_byKey s (filing_slot (cl_Subject c) (cl_FilingKey c)) = Some cid) \<and>
     (\<forall>k cid. cs_byKey s k = Some cid \<longrightarrow>
        (\<exists>c. gm_get (cs_byID s) cid = Some c \<and> k = filing_slot (cl_Subject c) (cl_FilingKey c)))"

definition numbers_ok :: "case_store \<Rightarrow> bool" where
  "numbers_ok s \<longleftrightarrow> 0 \<le> cs_sequence s \<and>
     (\<exists>num. inj_on num (dom (gm_get (cs_byID s))) \<and>
        (\<forall>cid c. gm_get (cs_byID s) cid = Some c \<longrightarrow>
           1 \<le> num cid \<and> num cid \<le> cs_sequence s \<and> cl_FilingNumber c = FilingNumber (cl_FiledAt c) (num cid)))"

definition attached_ok :: "case_store \<Rightarrow> bool" where
  "attached_ok s \<longleftrightarrow> (\<forall>sid cid. cs_attachedTo s sid = Some cid \<longleftrightarrow>
     (\<exists>c. gm_get (cs_byID s) cid = Some c \<and> sid \<in> set (support_ids c)))"

definition case_inv :: "case_store \<Rightarrow> bool" where
  "case_inv s \<longleftrightarrow> ids_ok s \<and> keys_ok s \<and> numbers_ok s \<and> attached_ok s"

lemma case_inv_New: "case_inv NewCaseStore"
  by (simp add: case_inv_def ids_ok_def keys_ok_def numbers_ok_def attached_ok_def NewCaseStore_def)
    (simp add: dom_def)

lemma case_inv_id: "case_inv s \<Longrightarrow> gm_get (cs_byID s) cid = Some c \<Longrightarrow> cl_ID c = cid"
  by (auto simp: case_inv_def ids_ok_def dest!: gm_get_SomeD)

lemma case_inv_support_id: "case_inv s \<Longrightarrow> gm_get (cs_supports s) sid = Some f \<Longrightarrow> sf_ID f = sid"
  by (auto simp: case_inv_def ids_ok_def dest!: gm_get_SomeD)

text \<open>An id is fresh when no claim has it: \<^verbatim>\<open>newID\<close> draws 122 random bits.\<close>

definition fresh_id :: "case_store \<Rightarrow> string \<Rightarrow> bool" where
  "fresh_id s cid \<longleftrightarrow> gm_get (cs_byID s) cid = None"

definition free_slot :: "case_store \<Rightarrow> claim_record \<Rightarrow> bool" where
  "free_slot s c \<longleftrightarrow> cs_byKey s (filing_slot (cl_Subject c) (cl_FilingKey c)) = None"

lemma mobile_record_sel [simp]:
  "cl_ID (mobile_record c) = cl_ID c" "cl_Subject (mobile_record c) = cl_Subject c"
  "cl_FilingKey (mobile_record c) = cl_FilingKey c" "cl_FiledAt (mobile_record c) = cl_FiledAt c"
  "cr_Channel (mobile_record c) = ChannelMobile" "cr_Supports (mobile_record c) = []"
  "cl_Status (mobile_record c) = cl_Status c"
  by (simp_all add: mobile_record_def claim.defs claim_record.defs)

lemma insert_case_get:
  assumes "insert_case c s = (s1, c1)"
  shows "gm_get (cs_byID s1) = (gm_get (cs_byID s))(cl_ID c \<mapsto> c1)"
    and "cs_byKey s1 = (cs_byKey s)(filing_slot (cl_Subject c) (cl_FilingKey c) \<mapsto> cl_ID c)"
    and "cs_sequence s1 = cs_sequence s + 1" and "cs_supports s1 = cs_supports s"
    and "cs_attachedTo s1 = cs_attachedTo s"
    and "c1 = c\<lparr>cl_FilingNumber := FilingNumber (cl_FiledAt c) (cs_sequence s + 1)\<rparr>"
  using assms by (auto simp: insert_case_def Let_def)

lemma insert_case_ids: "ids_ok s \<Longrightarrow> insert_case c s = (s1, c1) \<Longrightarrow> ids_ok s1"
  using set_gm_put [of "cl_ID c" c1 "cs_byID s"]
  by (auto simp: insert_case_def Let_def ids_ok_def)

lemma insert_case_keys:
  assumes "keys_ok s" and "insert_case c s = (s1, c1)" and "fresh_id s (cl_ID c)" and "free_slot s c"
  shows "keys_ok s1"
proof -
  note i = insert_case_get [OF assms(2)]
  have sel: "cl_Subject c1 = cl_Subject c" "cl_FilingKey c1 = cl_FilingKey c" using i(6) by simp_all
  show ?thesis
    using assms(1,3,4) unfolding keys_ok_def i(1,2) fresh_id_def free_slot_def
    by (auto simp: sel) (metis option.simps(3))+
qed

lemma insert_case_numbers:
  assumes "numbers_ok s" and "insert_case c s = (s1, c1)" and "fresh_id s (cl_ID c)"
  shows "numbers_ok s1"
proof -
  note i = insert_case_get [OF assms(2)]
  from assms(1) obtain num where num: "0 \<le> cs_sequence s" "inj_on num (dom (gm_get (cs_byID s)))"
    "\<And>cid c. gm_get (cs_byID s) cid = Some c \<Longrightarrow>
       1 \<le> num cid \<and> num cid \<le> cs_sequence s \<and> cl_FilingNumber c = FilingNumber (cl_FiledAt c) (num cid)"
    unfolding numbers_ok_def by blast
  let ?num = "num(cl_ID c := cs_sequence s + 1)"
  have f: "cl_ID c \<notin> dom (gm_get (cs_byID s))" using assms(3) by (auto simp: fresh_id_def)
  have "inj_on ?num (dom (gm_get (cs_byID s)))"
    using num(2) f by (auto simp: inj_on_def)
  moreover have "cs_sequence s + 1 \<notin> num ` dom (gm_get (cs_byID s))" using num(3) by force
  ultimately have "inj_on ?num (dom (gm_get (cs_byID s1)))"
    using f unfolding i(1) by (simp add: inj_on_insert) blast
  moreover have "1 \<le> ?num cid \<and> ?num cid \<le> cs_sequence s1 \<and> cl_FilingNumber d = FilingNumber (cl_FiledAt d) (?num cid)"
    if "gm_get (cs_byID s1) cid = Some d" for cid d
    using that num(1) num(3) [of cid d] by (auto simp: i(1,3,6) split: if_splits)
  ultimately show ?thesis unfolding numbers_ok_def using num(1) i(3) by (metis add_increasing2 zero_le_one)
qed

text \<open>The two ways of filing keep the invariant.\<close>

lemma byFilingKey_None: "byFilingKey s subject key = None \<longleftrightarrow> cs_byKey s (filing_slot subject key) = None"
  by (simp add: byFilingKey_def split: option.split)

lemma byFilingKey_Some:
  assumes "case_inv s"
  shows "byFilingKey s subject key = Some c \<longleftrightarrow>
    gm_get (cs_byID s) (cl_ID c) = Some c \<and> filing_slot (cl_Subject c) (cl_FilingKey c) = filing_slot subject key"
proof
  assume "byFilingKey s subject key = Some c"
  then obtain cid where k: "cs_byKey s (filing_slot subject key) = Some cid"
    and c: "c = (case gm_get (cs_byID s) cid of Some c \<Rightarrow> c | None \<Rightarrow> mobile_record zero_claim)"
    by (auto simp: byFilingKey_def split: option.splits)
  from k assms obtain d where "gm_get (cs_byID s) cid = Some d" "filing_slot subject key = filing_slot (cl_Subject d) (cl_FilingKey d)"
    unfolding case_inv_def keys_ok_def by blast
  with c assms show "gm_get (cs_byID s) (cl_ID c) = Some c \<and> filing_slot (cl_Subject c) (cl_FilingKey c) = filing_slot subject key"
    using case_inv_id by auto
next
  assume "gm_get (cs_byID s) (cl_ID c) = Some c \<and> filing_slot (cl_Subject c) (cl_FilingKey c) = filing_slot subject key"
  with assms have "cs_byKey s (filing_slot subject key) = Some (cl_ID c)" "gm_get (cs_byID s) (cl_ID c) = Some c"
    unfolding case_inv_def keys_ok_def by metis+
  then show "byFilingKey s subject key = Some c" by (simp add: byFilingKey_def)
qed

lemma attach_fold: "foldl (\<lambda>m sid. m(sid \<mapsto> cid)) m sids = (\<lambda>sid. if sid \<in> set sids then Some cid else m sid)"
  by (induction sids arbitrary: m) auto

lemma Create_inv [inv_intros]:
  assumes "case_inv s" and "fresh_id s (cl_ID c)"
  shows "case_inv (fst (Create c s))"
proof (cases "byFilingKey s (cl_Subject c) (cl_FilingKey c)")
  case None
  obtain s1 c1 where i: "insert_case (mobile_record c) s = (s1, c1)" by fastforce
  have f: "fresh_id s (cl_ID (mobile_record c))" "free_slot s (mobile_record c)"
    using assms(2) None by (simp_all add: byFilingKey_None free_slot_def)
  note g = insert_case_get [OF i]
  have "support_ids c1 = []" using g(6) by (simp add: support_ids_def)
  then have "attached_ok s1"
    using assms f(1) by (auto simp: attached_ok_def case_inv_def fresh_id_def g(1,5))
  with assms(1) f i insert_case_ids insert_case_keys insert_case_numbers have "case_inv s1"
    by (meson case_inv_def)
  then show ?thesis by (simp add: Create_def None i)
qed (simp add: Create_def assms)

lemma CreateWeb_inv [inv_intros]:
  assumes "case_inv s" and "fresh_id s (cl_ID c)"
  shows "case_inv (fst (CreateWeb c s))"
proof (cases "byFilingKey s (cl_Subject c) (cl_FilingKey c) = None \<and> \<not> list_ex (\<lambda>sid. cs_attachedTo s sid \<noteq> None) (support_ids c)")
  case True
  let ?c = "c\<lparr>cr_Channel := ChannelWeb\<rparr>"
  obtain s1 c1 where i: "insert_case ?c s = (s1, c1)" by fastforce
  have f: "fresh_id s (cl_ID ?c)" "free_slot s ?c"
    using assms(2) True by (simp_all add: byFilingKey_None free_slot_def)
  note g = insert_case_get [OF i]
  let ?s2 = "s1\<lparr>cs_attachedTo := foldl (\<lambda>m sid. m(sid \<mapsto> cl_ID c1)) (cs_attachedTo s1) (support_ids c1)\<rparr>"
  have c1: "cl_ID c1 = cl_ID c" "support_ids c1 = support_ids c" using g(6) by (simp_all add: support_ids_def)
  have none: "\<forall>sid \<in> set (support_ids c). cs_attachedTo s sid = None" using True by (auto simp: list_ex_iff)
  have a: "cs_attachedTo s sid = Some cid \<longleftrightarrow> (\<exists>d. gm_get (cs_byID s) cid = Some d \<and> sid \<in> set (support_ids d))" for sid cid
    using assms(1) by (simp add: case_inv_def attached_ok_def)
  have "attached_ok ?s2"
    unfolding attached_ok_def
  proof (intro allI)
    fix sid cid
    have "(\<exists>d. gm_get (cs_byID s) cid = Some d \<and> sid \<in> set (support_ids d)) \<longrightarrow> sid \<notin> set (support_ids c)"
      using a none by (metis option.simps(3))
    with a [of sid cid] f(1)
    show "(cs_attachedTo ?s2 sid = Some cid) = (\<exists>d. gm_get (cs_byID ?s2) cid = Some d \<and> sid \<in> set (support_ids d))"
      by (auto simp: attach_fold c1 g(1,5) fresh_id_def)
  qed
  moreover have "ids_ok s1" "keys_ok s1" "numbers_ok s1"
    using assms(1) f i insert_case_ids insert_case_keys insert_case_numbers by (meson case_inv_def)+
  then have "ids_ok ?s2" "keys_ok ?s2" "numbers_ok ?s2"
    by (simp_all add: ids_ok_def keys_ok_def numbers_ok_def)
  ultimately have "case_inv ?s2" by (simp add: case_inv_def)
  then show ?thesis using True by (simp add: CreateWeb_def i)
qed (auto simp: CreateWeb_def assms split: option.split)

lemma supports_irrelevant:
  assumes "case_inv s" and "gm_ok m" and "\<forall>(sid, f) \<in> set m. sf_ID f = sid"
  shows "case_inv (s\<lparr>cs_supports := m\<rparr>)"
  using assms by (auto simp: case_inv_def ids_ok_def keys_ok_def numbers_ok_def attached_ok_def)

lemma put_support_inv:
  assumes "case_inv s" and "sf_ID f = sid"
  shows "case_inv (s\<lparr>cs_supports := gm_put sid f (cs_supports s)\<rparr>)"
  by (rule supports_irrelevant [OF assms(1)])
    (use assms set_gm_put [of sid f "cs_supports s"] in \<open>auto simp: case_inv_def ids_ok_def\<close>)

lemma Save_support_inv [inv_intros]: "case_inv s \<Longrightarrow> case_inv (Save_support f s)"
  by (simp add: Save_support_def put_support_inv)

lemma Confirm_support_inv [inv_intros]: "case_inv s \<Longrightarrow> case_inv (fst (Confirm_support sid when s))"
proof -
  assume inv: "case_inv s"
  with case_inv_support_id [OF inv] show ?thesis
    by (auto simp: Confirm_support_def Let_def split: option.split intro!: put_support_inv)
qed

section \<open>What the invariant gives\<close>

lemma filing_numbers_distinct:
  assumes "case_inv s" and "gm_get (cs_byID s) i = Some c" and "gm_get (cs_byID s) j = Some d"
    and "cl_FilingNumber c = cl_FilingNumber d"
  shows "i = j"
proof -
  from assms(1) obtain num where num: "inj_on num (dom (gm_get (cs_byID s)))"
    "\<And>cid c. gm_get (cs_byID s) cid = Some c \<Longrightarrow>
       1 \<le> num cid \<and> num cid \<le> cs_sequence s \<and> cl_FilingNumber c = FilingNumber (cl_FiledAt c) (num cid)"
    unfolding case_inv_def numbers_ok_def by blast
  have "num i = num j"
    using num(2) [OF assms(2)] num(2) [OF assms(3)] assms(4)
    by (intro FilingNumber_inject [of "cl_FiledAt c" "num i" "cl_FiledAt d"]) auto
  with num(1) assms(2,3) show ?thesis by (auto dest: inj_onD)
qed

lemma support_attached_once:
  assumes "case_inv s" and "gm_get (cs_byID s) i = Some c" and "gm_get (cs_byID s) j = Some d"
    and "sid \<in> set (support_ids c)" and "sid \<in> set (support_ids d)"
  shows "i = j"
proof -
  have "cs_attachedTo s sid = Some i" and "cs_attachedTo s sid = Some j"
    using assms unfolding case_inv_def attached_ok_def by blast+
  then show ?thesis by simp
qed

section \<open>Retries of a filing\<close>

lemma mobile_record_claim [simp]: "claim.truncate (mobile_record c) = c"
  by (cases c) (simp add: mobile_record_def claim.defs claim_record.defs)

lemma Fingerprint_mobile [simp]: "Fingerprint (mobile_record c) = Fingerprint c"
  by (simp add: mobile_record_def claim.defs claim_record.defs Fingerprint_def factsFingerprint_def facts_text_def split: option.split)

lemma Fingerprint_number [simp]: "Fingerprint (c\<lparr>cl_FilingNumber := n\<rparr>) = Fingerprint c"
  by (simp add: Fingerprint_def factsFingerprint_def facts_text_def split: option.split)

lemma WebFingerprint_number [simp]: "WebFingerprint (c\<lparr>cl_FilingNumber := n\<rparr>) = WebFingerprint c"
  by (simp add: WebFingerprint_def factsFingerprint_def facts_text_def split: option.split)

lemma WebFingerprint_channel [simp]: "WebFingerprint (c\<lparr>cr_Channel := n\<rparr>) = WebFingerprint c"
  by (simp add: WebFingerprint_def factsFingerprint_def facts_text_def split: option.split)

lemma byFilingKey_insert:
  assumes "insert_case c s = (s1, c1)"
  shows "byFilingKey s1 (cl_Subject c) (cl_FilingKey c) = Some c1"
  using insert_case_get [OF assms] by (simp add: byFilingKey_def)

text \<open>The next filing with the key of a stored mobile claim: the stored claim when the filing is
  the same, refused when it is another one or comes from the other channel.\<close>

lemma Create_again:
  assumes "Create c s = (s1, Inr (d, True))"
    and "cl_Subject c' = cl_Subject c" and "cl_FilingKey c' = cl_FilingKey c"
  shows "Create c' s1 = (s1, if Fingerprint c' = Fingerprint c then Inr (d, False) else Inl ErrFilingKeyReused)"
proof -
  obtain s2 c1 where i: "insert_case (mobile_record c) s = (s2, c1)" by fastforce
  with assms(1) have eq: "s1 = s2" "d = claim.truncate c1"
    by (auto simp: Create_def split: option.splits if_splits)
  have "Fingerprint c1 = Fingerprint c" "cr_Channel c1 = ChannelMobile"
    using insert_case_get(6) [OF i] by simp_all
  with byFilingKey_insert [OF i] eq assms(2,3) show ?thesis by (simp add: Create_def)
qed

lemma Create_then_CreateWeb:
  assumes "Create c s = (s1, Inr (d, True))"
    and "cl_Subject w = cl_Subject c" and "cl_FilingKey w = cl_FilingKey c"
  shows "CreateWeb w s1 = (s1, Inl ErrFilingKeyReused)"
proof -
  obtain s2 c1 where i: "insert_case (mobile_record c) s = (s2, c1)" by fastforce
  with assms(1) have eq: "s1 = s2" by (auto simp: Create_def split: option.splits if_splits)
  have "cr_Channel c1 = ChannelMobile" using insert_case_get(6) [OF i] by simp
  with byFilingKey_insert [OF i] eq assms(2,3) show ?thesis by (simp add: CreateWeb_def)
qed

lemma CreateWeb_again:
  assumes "CreateWeb c s = (s1, Inr (d, True))"
    and "cl_Subject c' = cl_Subject c" and "cl_FilingKey c' = cl_FilingKey c"
  shows "CreateWeb c' s1 = (s1, if WebFingerprint c' = WebFingerprint c then Inr (d, False) else Inl ErrFilingKeyReused)"
proof -
  let ?c = "c\<lparr>cr_Channel := ChannelWeb\<rparr>"
  obtain s2 c1 where i: "insert_case ?c s = (s2, c1)" by fastforce
  with assms(1) have eq: "d = c1" "cs_byID s1 = cs_byID s2" "cs_byKey s1 = cs_byKey s2"
    by (auto simp: CreateWeb_def Let_def split: option.splits if_splits)
  have "WebFingerprint c1 = WebFingerprint c" "cr_Channel c1 = ChannelWeb"
    using insert_case_get(6) [OF i] by simp_all
  moreover have "byFilingKey s1 (cl_Subject c) (cl_FilingKey c) = Some c1"
    using byFilingKey_insert [OF i] unfolding byFilingKey_def eq by simp
  ultimately show ?thesis using eq(1) assms(2,3) by (simp add: CreateWeb_def)
qed

section \<open>The lists\<close>

definition claim_pos :: "claim_record \<Rightarrow> time \<times> string" where
  "claim_pos c = (cl_FiledAt c, cl_ID c)"

lemma olderThan_pos: "olderThan c (cursor_of d) \<longleftrightarrow> claim_pos c < claim_pos d"
  by (auto simp: olderThan_def cursor_of_def claim_pos_def less_prod_def')

lemma newerThan_pos: "newerThan c (cursor_of d) \<longleftrightarrow> claim_pos d < claim_pos c"
  by (auto simp: newerThan_def cursor_of_def claim_pos_def less_prod_def')

lemma listed_sel [simp]:
  "claim_pos (listed c) = claim_pos c" "cl_Status (listed c) = cl_Status c"
  "olderThan (listed c) cur = olderThan c cur" "newerThan (listed c) cur = newerThan c cur"
  "cl_ID (listed c) = cl_ID c" "cl_FiledAt (listed c) = cl_FiledAt c"
  by (simp_all add: listed_def claim_pos_def olderThan_def newerThan_def)

lemma positions_distinct:
  assumes "case_inv s"
  shows "distinct (map claim_pos (map listed (filter P (map snd (cs_byID s)))))"
proof -
  have "map cl_ID (map snd (cs_byID s)) = map fst (cs_byID s)"
    using assms by (auto simp: case_inv_def ids_ok_def)
  moreover have "distinct (map fst (cs_byID s))"
    using assms by (simp add: case_inv_def ids_ok_def gm_ok_def)
  ultimately have "distinct (map cl_ID (map snd (cs_byID s)))" by (simp only:)
  then have "distinct (map cl_ID (filter P (map snd (cs_byID s))))" by (rule distinct_map_filter)
  then have "distinct (map snd (map claim_pos (map listed (filter P (map snd (cs_byID s))))))"
    by (simp add: comp_def claim_pos_def)
  then show ?thesis by (simp only: distinct_map)
qed

lemma filter_listed:
  "map listed (filter (\<lambda>c. P c \<and> newerThan c cur) xs) = filter (\<lambda>c. newerThan c cur) (map listed (filter P xs))"
  "map listed (filter (\<lambda>c. P c \<and> olderThan c cur) xs) = filter (\<lambda>c. olderThan c cur) (map listed (filter P xs))"
  by (induction xs) auto

text \<open>The whole list each operation serves in pages.\<close>

definition queue_list :: "claim_status list \<Rightarrow> case_store \<Rightarrow> claim_record list" where
  "queue_list statuses s = slice_sort (\<lambda>x y. olderThan x (cursor_of y))
     (map listed (filter (\<lambda>c. cl_Status c \<in> set statuses) (map snd (cs_byID s))))"

definition owner_list :: "string \<Rightarrow> claim_filter \<Rightarrow> case_store \<Rightarrow> claim_record list" where
  "owner_list subject f s = slice_sort (\<lambda>x y. \<not> olderThan x (cursor_of y))
     (map listed (filter (owner_matches subject f) (map snd (cs_byID s))))"

lemma queue_sort_sorted:
  assumes "distinct (map claim_pos xs)"
  shows "sorted_wrt (\<lambda>x y. claim_pos x < claim_pos y) (slice_sort (\<lambda>x y. olderThan x (cursor_of y)) xs)"
  by (rule slice_sort_sorted [OF assms]) (simp add: olderThan_pos)

lemma owner_sort_sorted:
  assumes "distinct (map claim_pos xs)"
  shows "sorted_wrt (\<lambda>x y. claim_pos y < claim_pos x) (slice_sort (\<lambda>x y. \<not> olderThan x (cursor_of y)) xs)"
  by (rule slice_sort_desc_sorted [OF assms]) (auto simp: olderThan_pos)

lemma queue_list_sorted: "case_inv s \<Longrightarrow> sorted_wrt (\<lambda>x y. claim_pos x < claim_pos y) (queue_list sts s)"
  unfolding queue_list_def by (rule queue_sort_sorted [OF positions_distinct])

lemma owner_list_sorted: "case_inv s \<Longrightarrow> sorted_wrt (\<lambda>x y. claim_pos y < claim_pos x) (owner_list subj f s)"
  unfolding owner_list_def by (rule owner_sort_sorted [OF positions_distinct])

lemma ListByStatus_take:
  "ListByStatus sts after (int n) s = take n (slice_sort (\<lambda>x y. olderThan x (cursor_of y))
     (map listed (filter (\<lambda>c. cl_Status c \<in> set sts \<and>
        (case after of None \<Rightarrow> True | Some cur \<Rightarrow> newerThan c cur)) (map snd (cs_byID s)))))"
  by (auto simp: ListByStatus_def Let_def)

lemma ListByOwner_take:
  "ListByOwner subj f after (int n) s = Some (take n (slice_sort (\<lambda>x y. \<not> olderThan x (cursor_of y))
     (map listed (filter (\<lambda>c. owner_matches subj f c \<and>
        (case after of None \<Rightarrow> True | Some cur \<Rightarrow> olderThan c cur)) (map snd (cs_byID s))))))"
  by (auto simp: ListByOwner_def Let_def)

lemma ListByStatus_first: "ListByStatus sts None (int n) s = take n (queue_list sts s)"
  by (simp add: ListByStatus_take queue_list_def)

lemma ListByStatus_next:
  assumes "case_inv s" and "k < length (queue_list sts s)"
  shows "ListByStatus sts (Some (cursor_of (queue_list sts s ! k))) (int n) s = take n (drop (Suc k) (queue_list sts s))"
proof -
  let ?lt = "\<lambda>x y. olderThan x (cursor_of y)" and ?R = "\<lambda>x y. claim_pos x < claim_pos y"
  let ?xs = "map listed (filter (\<lambda>c. cl_Status c \<in> set sts) (map snd (cs_byID s)))"
  let ?P = "\<lambda>c. newerThan c (cursor_of (queue_list sts s ! k))"
  have d: "distinct (map claim_pos ?xs)" by (rule positions_distinct [OF assms(1)])
  have "slice_sort ?lt (filter ?P ?xs) = filter ?P (slice_sort ?lt ?xs)"
    by (rule slice_sort_filter [of ?R, OF queue_sort_sorted [OF d] queue_sort_sorted [OF distinct_map_filter [OF d]]])
      (rule order_less_not_sym)
  also have "\<dots> = drop (Suc k) (queue_list sts s)"
    unfolding newerThan_pos queue_list_def [symmetric]
    by (rule filter_after [OF queue_list_sorted [OF assms(1)] assms(2)]) (rule order_less_not_sym)
  finally show ?thesis by (simp only: ListByStatus_take option.case filter_listed)
qed

lemma ListByOwner_first: "ListByOwner subj f None (int n) s = Some (take n (owner_list subj f s))"
  by (simp add: ListByOwner_take owner_list_def)

lemma ListByOwner_next:
  assumes "case_inv s" and "k < length (owner_list subj f s)"
  shows "ListByOwner subj f (Some (cursor_of (owner_list subj f s ! k))) (int n) s =
    Some (take n (drop (Suc k) (owner_list subj f s)))"
proof -
  let ?lt = "\<lambda>x y. \<not> olderThan x (cursor_of y)" and ?R = "\<lambda>x y. claim_pos y < claim_pos x"
  let ?xs = "map listed (filter (owner_matches subj f) (map snd (cs_byID s)))"
  let ?P = "\<lambda>c. olderThan c (cursor_of (owner_list subj f s ! k))"
  have d: "distinct (map claim_pos ?xs)" by (rule positions_distinct [OF assms(1)])
  have "slice_sort ?lt (filter ?P ?xs) = filter ?P (slice_sort ?lt ?xs)"
    by (rule slice_sort_filter [of ?R, OF owner_sort_sorted [OF d] owner_sort_sorted [OF distinct_map_filter [OF d]]])
      (rule order_less_not_sym)
  also have "\<dots> = drop (Suc k) (owner_list subj f s)"
    unfolding owner_list_def [symmetric] unfolding olderThan_pos
    by (rule filter_after [OF owner_list_sorted [OF assms(1)] assms(2)]) (rule order_less_not_sym)
  finally show ?thesis by (simp only: ListByOwner_take option.case filter_listed)
qed

interpretation queue_pages: cursor_list "\<lambda>s after n. ListByStatus sts after (int n) s" cursor_of "queue_list sts" case_inv
  for sts
  by unfold_locales (simp_all add: ListByStatus_first ListByStatus_next)

interpretation owner_pages: cursor_list "\<lambda>s after n. the (ListByOwner subj f after (int n) s)" cursor_of
  "owner_list subj f" case_inv
  for subj f
  by unfold_locales (simp_all add: ListByOwner_first ListByOwner_next)

text \<open>The order in which the map is ranged over does not show.\<close>

lemma lists_order_irrelevant:
  assumes "case_inv s" and "case_inv s'" and "set (cs_byID s) = set (cs_byID s')"
  shows "queue_list sts s = queue_list sts s'" and "owner_list subj f s = owner_list subj f s'"
proof -
  have v: "set (map snd (cs_byID s)) = set (map snd (cs_byID s'))" using assms(3) by simp
  show "queue_list sts s = queue_list sts s'"
    by (rule sorted_wrt_unique [OF queue_list_sorted [OF assms(1)] queue_list_sorted [OF assms(2)]])
      (use v in \<open>auto simp: queue_list_def\<close>)
  show "owner_list subj f s = owner_list subj f s'"
    by (rule sorted_wrt_unique [OF owner_list_sorted [OF assms(1)] owner_list_sorted [OF assms(2)]])
      (use v in \<open>auto simp: owner_list_def\<close>)
qed

section \<open>Supports: what the operations do\<close>

lemma Confirm_support_first_kept:
  assumes "Confirm_support sid t s = (s1, Inr f)" and "t \<noteq> 0"
  shows "Confirm_support sid u s1 = (s1, Inr f)"
  using assms by (auto simp: Confirm_support_def SupportFile_Confirmed_def Let_def split: option.splits if_splits)

lemma Find_supports_id: "case_inv s \<Longrightarrow> Find_supports ids s sid = Some f \<Longrightarrow> sf_ID f = sid"
  by (auto simp: Find_supports_def case_inv_support_id split: if_splits)

end
