(* ===== verification/Resilience.thy ===== *)
theory Resilience
  imports Gotime
begin

text \<open>
  \<^verbatim>\<open>pkg/resilience/retry.go\<close>: the growing wait between the attempts of an operation that must
  eventually succeed. The policy is the record of its three durations, \<^verbatim>\<open>Backoff\<close> is its loop
  with the wrap-around of \<^verbatim>\<open>wait *= 2\<close> written out, and \<^verbatim>\<open>Next\<close> places the next attempt
  inside the retry window.
\<close>

record retry_policy =
  rp_Base :: duration
  rp_Max :: duration
  rp_Window :: duration

definition DefaultRetryPolicy :: retry_policy where
  "DefaultRetryPolicy = \<lparr>rp_Base = 500 * time_Millisecond, rp_Max = time_Minute, rp_Window = 24 * time_Hour\<rparr>"

datatype policy_error =
    BaseNotPositive
  | MaxBelowBase duration duration
  | WindowNegative

definition RetryPolicy_Validate :: "retry_policy \<Rightarrow> policy_error option" where
  "RetryPolicy_Validate p =
    (if rp_Base p \<le> 0 then Some BaseNotPositive
     else if rp_Max p < rp_Base p then Some (MaxBelowBase (rp_Max p) (rp_Base p))
     else if rp_Window p < 0 then Some WindowNegative
     else None)"

text \<open>The loop \<^verbatim>\<open>for i := 1; i < failedAttempts && wait < p.Max; i++\<close>; \<open>i + 1\<close> is at most
  \<open>failedAttempts\<close>, so only the doubling of the wait could leave the range.\<close>

function Backoff_loop :: "retry_policy \<Rightarrow> int \<Rightarrow> int \<Rightarrow> duration \<Rightarrow> duration" where
  "Backoff_loop p i failedAttempts wait =
    (if i < failedAttempts \<and> wait < rp_Max p then
       if wait > quot (rp_Max p) 2 then rp_Max p
       else Backoff_loop p (i + 1) failedAttempts (i64 (wait * 2))
     else min wait (rp_Max p))"
  by pat_completeness auto
termination
  by (relation "measure (\<lambda>(p, i, n, w). nat (n - i))") auto

declare Backoff_loop.simps [simp del]

definition Backoff :: "retry_policy \<Rightarrow> int \<Rightarrow> duration" where
  "Backoff p failedAttempts = Backoff_loop p 1 failedAttempts (rp_Base p)"

definition WindowEnd :: "retry_policy \<Rightarrow> time \<Rightarrow> time" where
  "WindowEnd p start = (if rp_Window p \<le> 0 then zero_time else time_Add start (rp_Window p))"

definition Next :: "retry_policy \<Rightarrow> int \<Rightarrow> time \<Rightarrow> time \<Rightarrow> time \<times> bool" where
  "Next p failedAttempts windowEnd now =
    (let next = time_Add now (Backoff p failedAttempts) in
     if time_IsZero windowEnd then (next, False)
     else if \<not> now < windowEnd then (zero_time, True)
     else if next > windowEnd then (windowEnd, False)
     else (next, False))"

section \<open>The waits\<close>

definition policy_ok :: "retry_policy \<Rightarrow> bool" where
  "policy_ok p \<longleftrightarrow> RetryPolicy_Validate p = None \<and> in_i64 (rp_Max p)"

lemma policy_okD:
  assumes "policy_ok p"
  shows "0 < rp_Base p" "rp_Base p \<le> rp_Max p" "0 \<le> rp_Window p" "rp_Max p < 2 ^ 63"
  using assms by (auto simp: policy_ok_def RetryPolicy_Validate_def in_i64_def split: if_splits)

text \<open>The doubling never leaves the range of \<^verbatim>\<open>int64\<close>: the guard \<^verbatim>\<open>wait > p.Max/2\<close> stops it.\<close>

lemma doubling_in_range:
  assumes "0 < w" and "\<not> w > quot m 2" and "0 \<le> m" and "m < 2 ^ 63"
  shows "i64 (w * 2) = w * 2" and "w * 2 \<le> m"
proof -
  show le: "w * 2 \<le> m" using assms by (simp add: quot_nonneg)
  with assms show "i64 (w * 2) = w * 2" by (simp add: in_i64_def)
qed

lemma Backoff_loop_closed:
  assumes "policy_ok p" and "0 < w" and "w \<le> rp_Max p"
  shows "Backoff_loop p i n w = min (w * 2 ^ nat (n - i)) (rp_Max p)"
  using assms
proof (induction p i n w rule: Backoff_loop.induct)
  case (1 p i n w)
  note m = policy_okD [OF 1(2)]
  show ?case
  proof (cases "i < n \<and> w < rp_Max p")
    case False
    have "1 \<le> (2::int) ^ nat (n - i)" by simp
    then have "w \<le> w * 2 ^ nat (n - i)" using 1(3) by simp
    with False 1(4) show ?thesis
      by (subst Backoff_loop.simps) (cases "i < n", auto)
  next
    case True
    then have pow: "w * 2 ^ nat (n - i) = w * 2 * 2 ^ nat (n - (i + 1))"
      by (simp flip: power_Suc add: Suc_nat_eq_nat_zadd1)
    show ?thesis
    proof (cases "w > quot (rp_Max p) 2")
      case big: True
      have "1 \<le> (2::int) ^ nat (n - (i + 1))" by simp
      then have "w * 2 \<le> w * 2 * 2 ^ nat (n - (i + 1))" using 1(3) by simp
      moreover have "rp_Max p \<le> w * 2" using big m by (simp add: quot_nonneg)
      ultimately have "rp_Max p \<le> w * 2 * 2 ^ nat (n - (i + 1))" by linarith
      then show ?thesis
        using True big by (simp only: Backoff_loop.simps [of p i n w] if_True pow min_absorb2 simp_thms)
    next
      case small: False
      note d = doubling_in_range [OF 1(3) small _ m(4)]
      have "Backoff_loop p (i + 1) n (w * 2) = min (w * 2 * 2 ^ nat (n - (i + 1))) (rp_Max p)"
        using 1(1) [OF True small] 1(2,3) d m by simp
      then show ?thesis
        using True small d m by (simp only: Backoff_loop.simps [of p i n w] if_True if_False pow) simp
    qed
  qed
qed

lemma Backoff_closed:
  "policy_ok p \<Longrightarrow> Backoff p n = min (rp_Base p * 2 ^ nat (n - 1)) (rp_Max p)"
  unfolding Backoff_def by (rule Backoff_loop_closed) (auto dest: policy_okD)

lemma Backoff_bounds:
  assumes "policy_ok p"
  shows "rp_Base p \<le> Backoff p n" and "Backoff p n \<le> rp_Max p"
proof -
  note m = policy_okD [OF assms]
  have "rp_Base p \<le> rp_Base p * 2 ^ nat (n - 1)" using m(1) by simp
  with m show "rp_Base p \<le> Backoff p n" by (simp add: Backoff_closed [OF assms])
  show "Backoff p n \<le> rp_Max p" by (simp add: Backoff_closed [OF assms])
qed

lemma Backoff_mono:
  assumes "policy_ok p" and "m \<le> n"
  shows "Backoff p m \<le> Backoff p n"
proof -
  have "(2::int) ^ nat (m - 1) \<le> 2 ^ nat (n - 1)" using assms(2) by (intro power_increasing) auto
  then have "rp_Base p * 2 ^ nat (m - 1) \<le> rp_Base p * 2 ^ nat (n - 1)"
    using policy_okD(1) [OF assms(1)] by simp
  then show ?thesis by (auto simp: Backoff_closed [OF assms(1)])
qed

section \<open>The retry window\<close>

lemma Next_cases:
  assumes "policy_ok p" and "Next p n windowEnd now = (next, exhausted)"
  shows "windowEnd = 0 \<Longrightarrow> \<not> exhausted \<and> next = now + Backoff p n"
    and "windowEnd \<noteq> 0 \<Longrightarrow> exhausted \<longleftrightarrow> windowEnd \<le> now"
    and "windowEnd \<noteq> 0 \<Longrightarrow> \<not> exhausted \<Longrightarrow> now < next \<and> next \<le> windowEnd \<and> next \<le> now + rp_Max p"
proof -
  have b: "0 < Backoff p n" "Backoff p n \<le> rp_Max p"
    using Backoff_bounds [OF assms(1), of n] policy_okD(1) [OF assms(1)] by auto
  show "windowEnd = 0 \<Longrightarrow> \<not> exhausted \<and> next = now + Backoff p n"
    and "windowEnd \<noteq> 0 \<Longrightarrow> exhausted \<longleftrightarrow> windowEnd \<le> now"
    and "windowEnd \<noteq> 0 \<Longrightarrow> \<not> exhausted \<Longrightarrow> now < next \<and> next \<le> windowEnd \<and> next \<le> now + rp_Max p"
    using assms(2) b by (auto simp: Next_def Let_def split: if_splits)
qed

end
