(* ===== verification/Idempotency.thy ===== *)
theory Idempotency
  imports Resilience
begin

text \<open>
  \<^verbatim>\<open>pkg/idempotency\<close>: the mechanism that makes one operation happen at most once at an
  external provider although it is retried and several workers run at once (HA-D02). An
  attempt is claimed with a lease by one atomic conditional write of its store, the provider is
  called with the key of the attempt, and the result is recorded only while the claim is held.

  \<^item> \<open>attempt\<close>, \<open>status\<close>, \<open>Classify\<close> and \<open>Key\<close> are the data of the package.
  \<^item> \<open>store\<close> is the interface \<^verbatim>\<open>Store[T]\<close>: four operations on a state of type \<open>'s\<close>.
  \<^item> \<open>Runner_Process\<close> is \<^verbatim>\<open>Runner.Process\<close>. The call to the provider is a function that may
    change the state of the store too: that is what the other workers did meanwhile.
  \<^item> The locale \<open>attempt_store\<close> is the contract that the comments of \<^verbatim>\<open>Store\<close> promise; the
    theory of every store interprets it.
\<close>

section \<open>The attempt\<close>

text \<open>\<open>StatusZero\<close> is the empty string, the status of the zero value of an attempt.\<close>

datatype status = StatusZero | StatusPending | StatusInProgress | StatusConfirmed | StatusFailed

datatype failure_reason = ReasonRejected | ReasonWindowExpired

definition ErrRejected :: go_error where
  "ErrRejected = errors_New ''idempotency: the provider rejected the operation''"

definition ErrAmbiguous :: go_error where
  "ErrAmbiguous = errors_New ''idempotency: the outcome of the call is unknown''"

definition ErrNotSent :: go_error where
  "ErrNotSent = errors_New ''idempotency: the call was not sent''"

definition ErrClaimLost :: go_error where
  "ErrClaimLost = errors_New ''idempotency: the attempt is no longer held by this claim''"

record attempt =
  at_ID :: string
  at_Key :: string
  at_Status :: status
  at_FailedAttempts :: int
  at_WindowEndsAt :: time
  at_NextAttemptAt :: time
  at_ClaimedUntil :: time

record outcome =
  oc_Reference :: string

datatype call_outcome = OutcomeConfirmed | OutcomeRejected | OutcomeAmbiguous | OutcomeNotSent

definition Classify :: "go_error option \<Rightarrow> call_outcome" where
  "Classify err =
    (case err of None \<Rightarrow> OutcomeConfirmed
     | Some e \<Rightarrow> if errors_Is e ErrRejected then OutcomeRejected
                else if errors_Is e ErrNotSent then OutcomeNotSent
                else OutcomeAmbiguous)"

definition ErrEmptyKeyPart :: go_error where
  "ErrEmptyKeyPart = errors_New ''idempotency: the key prefix and the id are required''"

definition Key :: "string \<Rightarrow> string \<Rightarrow> go_error + string" where
  "Key pre ident = (if pre = '''' \<or> ident = '''' then Inl ErrEmptyKeyPart else Inr (pre @ ''-'' @ ident))"

section \<open>The store\<close>

record ('s, 'r) store =
  st_Claim :: "string \<Rightarrow> time \<Rightarrow> duration \<Rightarrow> 's \<Rightarrow> 's \<times> (go_error + 'r option)"
  st_Confirm :: "'r \<Rightarrow> time \<Rightarrow> outcome \<Rightarrow> 's \<Rightarrow> 's \<times> (go_error + 'r)"
  st_Reschedule :: "'r \<Rightarrow> time \<Rightarrow> time \<Rightarrow> string \<Rightarrow> 's \<Rightarrow> 's \<times> (go_error + 'r)"
  st_Fail :: "'r \<Rightarrow> time \<Rightarrow> failure_reason \<Rightarrow> string \<Rightarrow> 's \<Rightarrow> 's \<times> (go_error + 'r)"

text \<open>An attempt that \<^verbatim>\<open>Claim\<close> takes: pending and due, or held by an expired lease.\<close>

definition claimable :: "time \<Rightarrow> attempt \<Rightarrow> bool" where
  "claimable now a \<longleftrightarrow>
    at_Status a = StatusPending \<and> \<not> now < at_NextAttemptAt a \<or>
    at_Status a = StatusInProgress \<and> at_ClaimedUntil a < now"

definition claim_of :: "time \<Rightarrow> duration \<Rightarrow> attempt \<Rightarrow> attempt" where
  "claim_of now lease a = a\<lparr>at_Status := StatusInProgress, at_ClaimedUntil := time_Add now lease\<rparr>"

text \<open>The claim of \<open>r\<close> is still the one of the stored attempt.\<close>

definition holds_claim :: "attempt \<Rightarrow> attempt \<Rightarrow> bool" where
  "holds_claim stored r \<longleftrightarrow> at_Status stored = StatusInProgress \<and> at_ClaimedUntil stored = at_ClaimedUntil r"

section \<open>The runner\<close>

datatype runner_error =
    RunnerNoStore
  | RunnerPolicy policy_error
  | RunnerLease

record ('s, 'r) runner =
  rn_store :: "('s, 'r) store"
  rn_state :: "'r \<Rightarrow> attempt"
  rn_policy :: retry_policy
  rn_lease :: duration

definition NewRunner ::
  "('s, 'r) store option \<Rightarrow> ('r \<Rightarrow> attempt) \<Rightarrow> retry_policy \<Rightarrow> duration \<Rightarrow> runner_error + ('s, 'r) runner" where
  "NewRunner store view policy lease =
    (case store of None \<Rightarrow> Inl RunnerNoStore
     | Some st \<Rightarrow>
       (case RetryPolicy_Validate policy of Some e \<Rightarrow> Inl (RunnerPolicy e)
        | None \<Rightarrow> if lease \<le> 0 then Inl RunnerLease
                 else Inr \<lparr>rn_store = st, rn_state = view, rn_policy = policy, rn_lease = lease\<rparr>))"

record 'r report =
  rep_Claimed :: bool
  rep_Outcome :: "call_outcome option"
  rep_Status :: "status option"
  rep_Reason :: "failure_reason option"
  rep_Record :: "'r option"
  rep_CallErr :: "go_error option"

definition empty_report :: "'r report" where
  "empty_report = \<lparr>rep_Claimed = False, rep_Outcome = None, rep_Status = None, rep_Reason = None,
     rep_Record = None, rep_CallErr = None\<rparr>"

text \<open>What one call to the provider answers; its effect on the provider and on the store
  while it lasts is in the state.\<close>

type_synonym ('s, 'r) exec = "'r \<Rightarrow> 's \<Rightarrow> 's \<times> (go_error + outcome)"

definition call_error :: "go_error + outcome \<Rightarrow> go_error option" where
  "call_error res = (case res of Inl e \<Rightarrow> Some e | Inr _ \<Rightarrow> None)"

definition call_outcome_name :: "call_outcome \<Rightarrow> string" where
  "call_outcome_name o1 = (case o1 of OutcomeConfirmed \<Rightarrow> ''confirmed'' | OutcomeRejected \<Rightarrow> ''rejected''
     | OutcomeAmbiguous \<Rightarrow> ''ambiguous'' | OutcomeNotSent \<Rightarrow> ''not_sent'')"

text \<open>The \<^verbatim>\<open>switch\<close> that records the result of the call: the status and the reason it reports
  and the write of the store it does.\<close>

definition record_result ::
  "('s, 'r) runner \<Rightarrow> 'r \<Rightarrow> time \<Rightarrow> go_error + outcome \<Rightarrow> 's \<Rightarrow>
     status \<times> failure_reason option \<times> 's \<times> (go_error + 'r)" where
  "record_result rn rec now res s =
    (case res of
       Inr out \<Rightarrow> (StatusConfirmed, None, st_Confirm (rn_store rn) rec now out s)
     | Inl e \<Rightarrow>
        if Classify (Some e) = OutcomeRejected then
          (StatusFailed, Some ReasonRejected, st_Fail (rn_store rn) rec now ReasonRejected (err_text e) s)
        else
          (let st = rn_state rn rec;
               (next, exhausted) = Next (rn_policy rn) (at_FailedAttempts st + 1) (at_WindowEndsAt st) now
           in if exhausted then
                (StatusFailed, Some ReasonWindowExpired,
                 st_Fail (rn_store rn) rec now ReasonWindowExpired (err_text e) s)
              else
                (StatusPending, None, st_Reschedule (rn_store rn) rec now next (err_text e) s)))"

definition Runner_Process ::
  "('s, 'r) runner \<Rightarrow> string \<Rightarrow> ('s, 'r) exec \<Rightarrow> time \<Rightarrow> time \<Rightarrow> 's \<Rightarrow> 's \<times> 'r report \<times> go_error option" where
  "Runner_Process rn ident exec now1 now2 s =
    (case st_Claim (rn_store rn) ident now1 (rn_lease rn) s of
       (s1, Inl e) \<Rightarrow> (s1, empty_report, Some (errorf_w (''idempotency: could not claim attempt '' @ ident @ '': '') e))
     | (s1, Inr None) \<Rightarrow> (s1, empty_report, None)
     | (s1, Inr (Some rec)) \<Rightarrow>
        (let (s2, res) = exec rec s1;
             rep = empty_report\<lparr>rep_Claimed := True, rep_Record := Some rec,
                     rep_Outcome := Some (Classify (call_error res)), rep_CallErr := call_error res\<rparr>;
             (stat, reason, s3, stored) = record_result rn rec now2 res s2
         in case stored of
              Inl e \<Rightarrow> (s3, rep\<lparr>rep_Status := Some StatusInProgress, rep_Reason := None\<rparr>,
                       Some (errorf_w (''idempotency: could not record the '' @ call_outcome_name (Classify (call_error res)) @
                         '' result of attempt '' @ ident @ '': '') e))
            | Inr st \<Rightarrow> (s3, rep\<lparr>rep_Status := Some stat, rep_Reason := reason, rep_Record := Some st\<rparr>, None)))"

section \<open>Classification and keys\<close>

lemmas sentinel_defs = ErrRejected_def ErrNotSent_def ErrAmbiguous_def ErrClaimLost_def

lemma Classify_sentinels [simp]:
  "Classify None = OutcomeConfirmed"
  "Classify (Some ErrRejected) = OutcomeRejected"
  "Classify (Some ErrNotSent) = OutcomeNotSent"
  "Classify (Some ErrAmbiguous) = OutcomeAmbiguous"
  by (simp_all add: Classify_def sentinel_defs)

lemma Classify_confirmed [simp]: "Classify e = OutcomeConfirmed \<longleftrightarrow> e = None"
  by (auto simp: Classify_def split: option.splits)

lemma Key_inject:
  assumes "Key p i = Inr k" and "Key p j = Inr k"
  shows "i = j"
  using assms by (auto simp: Key_def split: if_splits)

section \<open>The contract of a store\<close>

text \<open>
  What the comments of the interface promise, over the view of an attempt by its id: a claim
  is taken only when it is claimable and moves exactly that attempt to \<open>in_progress\<close> with the
  new lease; a result is recorded exactly while the claim is held, otherwise the state does not
  change; no write changes the key of any attempt, nor anything of another attempt. The store
  may reschedule to a failed attempt instead (a bound on the automatic attempts does). A state
  and a record are in the relation \<open>carries\<close> when the record is one that \<^verbatim>\<open>Claim\<close> returned. A store may take fewer attempts than
  the claimable ones (\<open>takes\<close>): one that is not due yet has no instant to compare with.
\<close>

locale attempt_store =
  fixes S :: "('s, 'r) store"
    and view :: "'s \<Rightarrow> string \<Rightarrow> attempt option"
    and state_of :: "'r \<Rightarrow> attempt"
    and invar :: "'s \<Rightarrow> bool"
    and carries :: "'s \<Rightarrow> 'r \<Rightarrow> bool"
    and takes :: "time \<Rightarrow> attempt \<Rightarrow> bool"
  assumes takes_claimable: "takes now a \<Longrightarrow> claimable now a"
    and view_id: "invar s \<Longrightarrow> view s i = Some a \<Longrightarrow> at_ID a = i"
    and claim_some: "invar s \<Longrightarrow> st_Claim S i now lease s = (s', Inr (Some r)) \<Longrightarrow>
      \<exists>a. view s i = Some a \<and> takes now a \<and> carries s' r \<and> state_of r = claim_of now lease a \<and>
          view s' = (view s)(i \<mapsto> claim_of now lease a)"
    and claim_none: "invar s \<Longrightarrow> st_Claim S i now lease s = (s', Inr None) \<Longrightarrow>
      s' = s \<and> (case view s i of None \<Rightarrow> True | Some a \<Rightarrow> \<not> takes now a)"
    and claim_no_error: "invar s \<Longrightarrow> st_Claim S i now lease s \<noteq> (s', Inl e)"
    and claim_invar: "invar s \<Longrightarrow> invar (fst (st_Claim S i now lease s))"
    and confirm_ok: "invar s \<Longrightarrow> carries s r \<Longrightarrow> view s (at_ID (state_of r)) = Some a \<Longrightarrow> holds_claim a (state_of r) \<Longrightarrow>
      \<exists>s' r' a'. st_Confirm S r now out s = (s', Inr r') \<and> invar s' \<and>
        view s' = (view s)(at_ID a \<mapsto> a') \<and> at_Status a' = StatusConfirmed \<and> at_Key a' = at_Key a"
    and confirm_lost: "invar s \<Longrightarrow> carries s r \<Longrightarrow>
      \<not> (\<exists>a. view s (at_ID (state_of r)) = Some a \<and> holds_claim a (state_of r)) \<Longrightarrow>
      st_Confirm S r now out s = (s, Inl ErrClaimLost)"
    and reschedule_ok: "invar s \<Longrightarrow> carries s r \<Longrightarrow> view s (at_ID (state_of r)) = Some a \<Longrightarrow> holds_claim a (state_of r) \<Longrightarrow>
      \<exists>s' r' a'. st_Reschedule S r now next cause s = (s', Inr r') \<and> invar s' \<and>
        view s' = (view s)(at_ID a \<mapsto> a') \<and> at_Key a' = at_Key a \<and>
        (at_Status a' = StatusPending \<and> at_NextAttemptAt a' = next \<or> at_Status a' = StatusFailed)"
    and reschedule_lost: "invar s \<Longrightarrow> carries s r \<Longrightarrow>
      \<not> (\<exists>a. view s (at_ID (state_of r)) = Some a \<and> holds_claim a (state_of r)) \<Longrightarrow>
      st_Reschedule S r now next cause s = (s, Inl ErrClaimLost)"
    and fail_ok: "invar s \<Longrightarrow> carries s r \<Longrightarrow> view s (at_ID (state_of r)) = Some a \<Longrightarrow> holds_claim a (state_of r) \<Longrightarrow>
      \<exists>s' r' a'. st_Fail S r now reason cause s = (s', Inr r') \<and> invar s' \<and>
        view s' = (view s)(at_ID a \<mapsto> a') \<and> at_Status a' = StatusFailed \<and> at_Key a' = at_Key a"
    and fail_lost: "invar s \<Longrightarrow> carries s r \<Longrightarrow>
      \<not> (\<exists>a. view s (at_ID (state_of r)) = Some a \<and> holds_claim a (state_of r)) \<Longrightarrow>
      st_Fail S r now reason cause s = (s, Inl ErrClaimLost)"
begin

definition held_by :: "'s \<Rightarrow> 'r \<Rightarrow> bool" where
  "held_by s r \<longleftrightarrow> (\<exists>a. view s (at_ID (state_of r)) = Some a \<and> holds_claim a (state_of r))"

definition the_runner :: "retry_policy \<Rightarrow> duration \<Rightarrow> ('s, 'r) runner" where
  "the_runner p lease = \<lparr>rn_store = S, rn_state = state_of, rn_policy = p, rn_lease = lease\<rparr>"

lemma runner_sel [simp]:
  "rn_store (the_runner p l) = S" "rn_state (the_runner p l) = state_of"
  "rn_policy (the_runner p l) = p" "rn_lease (the_runner p l) = l"
  by (simp_all add: the_runner_def)

text \<open>A result that arrives after the claim was lost changes nothing.\<close>

lemma record_lost:
  assumes "invar s" and "carries s r" and "\<not> held_by s r"
  shows "\<exists>st reason. record_result (the_runner p l) r now res s = (st, reason, s, Inl ErrClaimLost)"
proof -
  have h: "\<not> (\<exists>a. view s (at_ID (state_of r)) = Some a \<and> holds_claim a (state_of r))"
    using assms(3) by (simp add: held_by_def)
  note lost = confirm_lost [OF assms(1,2) h] fail_lost [OF assms(1,2) h] reschedule_lost [OF assms(1,2) h]
  show ?thesis
    by (auto simp: record_result_def lost Let_def split: sum.split prod.split)
qed

text \<open>A result recorded while the claim is held releases it: the attempt leaves
  \<open>in_progress\<close>, keeps its key, and no other attempt changes.\<close>

lemma record_held:
  assumes "invar s" and "carries s r" and "view s (at_ID (state_of r)) = Some a" and "holds_claim a (state_of r)"
  shows "\<exists>st reason s' r' a'. record_result (the_runner p l) r now res s = (st, reason, s', Inr r') \<and>
    invar s' \<and> view s' = (view s)(at_ID a \<mapsto> a') \<and> at_Key a' = at_Key a \<and>
    at_Status a' \<noteq> StatusInProgress \<and> (at_Status a' = StatusConfirmed \<longleftrightarrow> (\<exists>out. res = Inr out))"
proof (cases res)
  case (Inr out)
  obtain s' r' a' where "st_Confirm S r now out s = (s', Inr r')" "invar s'"
    "view s' = (view s)(at_ID a \<mapsto> a')" "at_Status a' = StatusConfirmed" "at_Key a' = at_Key a"
    using confirm_ok [OF assms, of now out] by blast
  then show ?thesis by (auto simp: record_result_def Inr intro!: exI [of _ a'])
next
  case (Inl e)
  obtain nx ex where nx: "Next p (at_FailedAttempts (state_of r) + 1) (at_WindowEndsAt (state_of r)) now = (nx, ex)"
    by fastforce
  show ?thesis
    using fail_ok [OF assms, of now ReasonRejected "err_text e"]
      fail_ok [OF assms, of now ReasonWindowExpired "err_text e"]
      reschedule_ok [OF assms, of now nx "err_text e"]
    by (fastforce simp: record_result_def Inl nx Let_def)
qed

text \<open>A caller that does not win the claim calls nobody and changes nothing.\<close>

lemma process_not_claimed:
  assumes "invar s" and "\<not> (\<exists>a. view s i = Some a \<and> claimable now1 a)"
  shows "Runner_Process (the_runner p l) i exec now1 now2 s = (s, empty_report, None)"
proof (cases "st_Claim S i now1 l s")
  case (Pair s1 res)
  have "res = Inr None"
  proof (cases res)
    case (Inl e)
    with claim_no_error [OF assms(1)] Pair show ?thesis by blast
  next
    case (Inr x)
    with claim_some [OF assms(1)] takes_claimable Pair assms(2) show ?thesis by (cases x) blast+
  qed
  with claim_none [OF assms(1)] Pair have "s1 = s" by blast
  with Pair \<open>res = Inr None\<close> show ?thesis by (simp add: Runner_Process_def)
qed

lemma claimed_held:
  assumes "invar s" and "st_Claim S i now lease s = (s', Inr (Some r))"
  shows "held_by s' r" and "at_ID (state_of r) = i" and "carries s' r"
proof -
  from claim_some [OF assms] obtain a where a: "view s i = Some a" "carries s' r"
    "state_of r = claim_of now lease a" "view s' = (view s)(i \<mapsto> claim_of now lease a)" by blast
  from view_id [OF assms(1) a(1)] have "at_ID a = i" .
  with a show "held_by s' r" and "at_ID (state_of r) = i" and "carries s' r"
    by (simp_all add: held_by_def claim_of_def holds_claim_def)
qed

text \<open>While a lease is live, no other worker takes the attempt.\<close>

lemma live_lease_exclusive:
  assumes "invar s" and "view s i = Some a" and "at_Status a = StatusInProgress" and "now \<le> at_ClaimedUntil a"
  shows "st_Claim S i now lease s = (s, Inr None)"
proof (cases "st_Claim S i now lease s")
  case (Pair s1 res)
  have n: "\<not> claimable now a" using assms by (simp add: claimable_def)
  show ?thesis
  proof (cases res)
    case (Inl e)
    with claim_no_error [OF assms(1)] Pair show ?thesis by blast
  next
    case (Inr x)
    show ?thesis
    proof (cases x)
      case None
      with claim_none [OF assms(1)] Pair Inr show ?thesis by blast
    next
      case (Some r)
      with claim_some [OF assms(1)] takes_claimable Pair Inr assms(2) n show ?thesis by fastforce
    qed
  qed
qed

text \<open>A confirmed attempt is never taken again.\<close>

lemma confirmed_final:
  assumes "invar s" and "view s i = Some a" and "at_Status a = StatusConfirmed"
  shows "Runner_Process (the_runner p l) i exec now1 now2 s = (s, empty_report, None)"
  by (rule process_not_claimed [OF assms(1)]) (use assms in \<open>auto simp: claimable_def\<close>)

end

end
