(* ===== verification/Claims_Decision.thy ===== *)
theory Claims_Decision
  imports Claims_Cases Idempotency
begin

text \<open>
  How operations resolves a claim in evaluation (HU-W2.2-03): the amounts and the decision itself
  (\<^verbatim>\<open>domain/decision.go\<close>), the store of the decisions over the store of the claims
  (\<^verbatim>\<open>adapters/memory/decisions.go\<close>) and the service of the analyst (\<^verbatim>\<open>decision/service.go\<close>).
  The worker that pays is in \<open>Claims_Payout\<close>. Amounts are \<^verbatim>\<open>int64\<close> and their arithmetic wraps;
  a nil pointer that the code would dereference is an error of its own.
\<close>

section \<open>The decision\<close>

datatype decision_outcome = Outcome_Approved | Outcome_Rejected

definition MaxRejectionReasonLength :: nat where "MaxRejectionReasonLength = 1000"
definition MaxAutomaticPayoutAttempts :: int where "MaxAutomaticPayoutAttempts = 3"
definition basisPoints :: int where "basisPoints = 10000"

datatype refusal =
    ErrAmountOutOfRange | ErrAmountExceedsInsuredValue | ErrNothingToPay | ErrNoPayoutAccount
  | ErrReasonRequired | ErrReasonTooLong | ErrNoContact

definition DeductibleOf :: "int \<Rightarrow> int \<Rightarrow> int" where
  "DeductibleOf grossMinor deductibleBasisPoints =
    quot (i64 (i64 (grossMinor * deductibleBasisPoints) + quot basisPoints 2)) basisPoints"

datatype payout_failure = PayoutRejected | PayoutRetriesExhausted

definition PayoutFailureFor :: "failure_reason \<Rightarrow> payout_failure" where
  "PayoutFailureFor r = (if r = ReasonRejected then PayoutRejected else PayoutRetriesExhausted)"

record payout =
  py_Key :: string
  py_BeneficiaryID :: string
  py_AmountMinor :: int
  py_Currency :: string
  py_Destination :: payout_account
  py_Status :: status
  py_Attempts :: int
  py_NextAttemptAt :: time
  py_ClaimedUntil :: time
  py_LastAttemptAt :: time
  py_LastFailureAt :: time
  py_Failure :: "payout_failure option"
  py_LastError :: string
  py_GatewayCode :: string
  py_Reference :: string
  py_ConfirmedAt :: time
  py_ManualRetries :: int
  py_LastRetriedBy :: string
  py_LastRetriedAt :: time

record notice =
  nt_To :: string
  nt_SentAt :: time
  nt_Attempts :: int
  nt_NextAttemptAt :: time
  nt_LastError :: string

record decision =
  dn_ClaimID :: string
  dn_FilingNumber :: string
  dn_Outcome :: decision_outcome
  dn_DecidedBy :: string
  dn_DecidedAt :: time
  dn_GrossAmountMinor :: int
  dn_InsuredValueMinor :: int
  dn_DeductibleBasisPoints :: int
  dn_Currency :: string
  dn_Payout :: "payout option"
  dn_Reason :: string
  dn_Notice :: "notice option"

definition DeductibleMinor :: "decision \<Rightarrow> int" where
  "DeductibleMinor d = DeductibleOf (dn_GrossAmountMinor d) (dn_DeductibleBasisPoints d)"

definition AttemptState :: "decision \<Rightarrow> attempt" where
  "AttemptState d =
    (case dn_Payout d of
       None \<Rightarrow> \<lparr>at_ID = dn_ClaimID d, at_Key = '''', at_Status = StatusZero, at_FailedAttempts = 0,
               at_WindowEndsAt = zero_time, at_NextAttemptAt = zero_time, at_ClaimedUntil = zero_time\<rparr>
     | Some p \<Rightarrow> \<lparr>at_ID = dn_ClaimID d, at_Key = py_Key p, at_Status = py_Status p, at_FailedAttempts = py_Attempts p,
               at_WindowEndsAt = zero_time, at_NextAttemptAt = py_NextAttemptAt p, at_ClaimedUntil = py_ClaimedUntil p\<rparr>)"

definition PayoutKey :: "string \<Rightarrow> string" where "PayoutKey claimID = ''indemnizacion-'' @ claimID"

definition NoticeKey :: "string \<Rightarrow> string" where "NoticeKey claimID = ''rechazo-'' @ claimID"

definition domain_Approve ::
  "claim_record \<Rightarrow> coverage \<Rightarrow> holder \<Rightarrow> int \<Rightarrow> string \<Rightarrow> time \<Rightarrow> refusal + decision" where
  "domain_Approve c cov ho grossMinor by_whom when =
    (if grossMinor \<le> 0 then Inl ErrAmountOutOfRange
     else if grossMinor > cov_InsuredValueMinor cov then Inl ErrAmountExceedsInsuredValue
     else
       let pay = i64 (grossMinor - DeductibleOf grossMinor (cov_DeductibleBasisPoints cov)) in
       if pay \<le> 0 then Inl ErrNothingToPay
       else
         let account = ho_PayoutAccount ho in
         if TrimSpace (pa_BankCode account) = '''' \<or> TrimSpace (pa_AccountNumber account) = '''' then Inl ErrNoPayoutAccount
         else Inr \<lparr>dn_ClaimID = cl_ID c, dn_FilingNumber = cl_FilingNumber c, dn_Outcome = Outcome_Approved,
                   dn_DecidedBy = by_whom, dn_DecidedAt = when,
                   dn_GrossAmountMinor = grossMinor, dn_InsuredValueMinor = cov_InsuredValueMinor cov,
                   dn_DeductibleBasisPoints = cov_DeductibleBasisPoints cov, dn_Currency = cov_Currency cov,
                   dn_Payout = Some \<lparr>py_Key = PayoutKey (cl_ID c), py_BeneficiaryID = cl_Subject c, py_AmountMinor = pay,
                     py_Currency = cov_Currency cov, py_Destination = account, py_Status = StatusPending, py_Attempts = 0,
                     py_NextAttemptAt = when, py_ClaimedUntil = zero_time, py_LastAttemptAt = zero_time,
                     py_LastFailureAt = zero_time, py_Failure = None, py_LastError = '''', py_GatewayCode = '''',
                     py_Reference = '''', py_ConfirmedAt = zero_time, py_ManualRetries = 0, py_LastRetriedBy = '''',
                     py_LastRetriedAt = zero_time\<rparr>,
                   dn_Reason = '''', dn_Notice = None\<rparr>)"

definition RejectionReason :: "string \<Rightarrow> refusal + string" where
  "RejectionReason reason0 =
    (let reason = TrimSpace reason0 in
     if reason = '''' then Inl ErrReasonRequired
     else if rune_count reason > MaxRejectionReasonLength then Inl ErrReasonTooLong
     else Inr reason)"

definition domain_Reject :: "claim_record \<Rightarrow> string \<Rightarrow> string \<Rightarrow> string \<Rightarrow> time \<Rightarrow> refusal + decision" where
  "domain_Reject c reason0 notifyTo by_whom when =
    (case RejectionReason reason0 of
       Inl e \<Rightarrow> Inl e
     | Inr reason \<Rightarrow>
        if TrimSpace notifyTo = '''' then Inl ErrNoContact
        else Inr \<lparr>dn_ClaimID = cl_ID c, dn_FilingNumber = cl_FilingNumber c, dn_Outcome = Outcome_Rejected,
                  dn_DecidedBy = by_whom, dn_DecidedAt = when,
                  dn_GrossAmountMinor = 0, dn_InsuredValueMinor = 0, dn_DeductibleBasisPoints = 0, dn_Currency = '''',
                  dn_Payout = None, dn_Reason = reason,
                  dn_Notice = Some \<lparr>nt_To = TrimSpace notifyTo, nt_SentAt = zero_time, nt_Attempts = 0,
                    nt_NextAttemptAt = when, nt_LastError = ''''\<rparr>\<rparr>)"

text \<open>\<^verbatim>\<open>StatusOf\<close>; an approval without a payout would be a nil dereference: no value.\<close>

definition StatusOf :: "decision \<Rightarrow> claim_status option" where
  "StatusOf d =
    (if dn_Outcome d = Outcome_Rejected then Some StatusRejected
     else case dn_Payout d of
            None \<Rightarrow> None
          | Some p \<Rightarrow> Some (case py_Status p of StatusConfirmed \<Rightarrow> StatusPaid
                            | StatusFailed \<Rightarrow> StatusPaymentException | _ \<Rightarrow> StatusApproved))"

record payout_retry =
  pr_By :: string
  pr_At :: time
  pr_Destination :: "payout_account option"

section \<open>The store\<close>

datatype decision_error =
    DecisionCase case_error | ErrNotDecidable | ErrDecisionNotFound | ErrPayoutNotRetryable
  | ErrPolicyUnavailable "go_error option" | ErrNotCovered "go_error option"
  | DecisionRefused refusal | NilDereference

definition nil_panic :: go_error where
  "nil_panic = errors_New ''runtime error: invalid memory address or nil pointer dereference''"

record decision_store =
  ds_cases :: case_store
  ds_decisions :: "(string, decision) gomap"

definition NewDecisionStore :: "case_store \<Rightarrow> decision_store" where
  "NewDecisionStore cases = \<lparr>ds_cases = cases, ds_decisions = []\<rparr>"

definition setStatus :: "string \<Rightarrow> claim_status \<Rightarrow> decision_store \<Rightarrow> decision_store" where
  "setStatus claimID st s =
    (let c = (case gm_get (cs_byID (ds_cases s)) claimID of Some c \<Rightarrow> c | None \<Rightarrow> mobile_record zero_claim)
     in s\<lparr>ds_cases := (ds_cases s)\<lparr>cs_byID := gm_put claimID (c\<lparr>cl_Status := st\<rparr>) (cs_byID (ds_cases s))\<rparr>\<rparr>)"

definition put_decision :: "string \<Rightarrow> decision \<Rightarrow> decision_store \<Rightarrow> decision_store" where
  "put_decision claimID d s = s\<lparr>ds_decisions := gm_put claimID d (ds_decisions s)\<rparr>"

definition Decide :: "decision \<Rightarrow> decision_store \<Rightarrow> decision_store \<times> (decision_error + decision)" where
  "Decide d s =
    (case gm_get (cs_byID (ds_cases s)) (dn_ClaimID d) of
       None \<Rightarrow> (s, Inl (DecisionCase ErrClaimNotFound))
     | Some c \<Rightarrow>
        if \<not> Decidable (cl_Status c) then (s, Inl ErrNotDecidable)
        else if gm_get (ds_decisions s) (dn_ClaimID d) \<noteq> None then (s, Inl ErrNotDecidable)
        else
          let d1 = d\<lparr>dn_FilingNumber := cl_FilingNumber c\<rparr>;
              s1 = put_decision (dn_ClaimID d1) d1 s
          in case StatusOf d1 of
               None \<Rightarrow> (s1, Inl NilDereference)
             | Some st \<Rightarrow> (setStatus (dn_ClaimID d1) st s1, Inr d1))"

definition store_Decision :: "string \<Rightarrow> decision_store \<Rightarrow> decision_error + decision" where
  "store_Decision claimID s =
    (case gm_get (ds_decisions s) claimID of None \<Rightarrow> Inl ErrDecisionNotFound | Some d \<Rightarrow> Inr d)"

definition due :: "payout option \<Rightarrow> time \<Rightarrow> bool" where
  "due po now = (case po of None \<Rightarrow> False
     | Some p \<Rightarrow> py_Status p = StatusPending \<and> \<not> py_NextAttemptAt p > now \<or>
                py_Status p = StatusInProgress \<and> py_ClaimedUntil p < now)"

text \<open>The only callers pass a positive constant as the limit.\<close>

definition ListPayoutsDue :: "time \<Rightarrow> nat \<Rightarrow> decision_store \<Rightarrow> string list" where
  "ListPayoutsDue now limit s =
    take limit (slice_sort (<) (map fst (filter (\<lambda>(cid, d). due (dn_Payout d) now) (ds_decisions s))))"

definition Claim_payout ::
  "string \<Rightarrow> time \<Rightarrow> duration \<Rightarrow> decision_store \<Rightarrow> decision_store \<times> (go_error + decision option)" where
  "Claim_payout claimID now lease s =
    (case gm_get (ds_decisions s) claimID of
       None \<Rightarrow> (s, Inr None)
     | Some d \<Rightarrow>
        (case dn_Payout d of
           None \<Rightarrow> (s, Inr None)
         | Some p \<Rightarrow>
            if \<not> due (dn_Payout d) now then (s, Inr None)
            else
              let d1 = d\<lparr>dn_Payout := Some (p\<lparr>py_Status := StatusInProgress, py_ClaimedUntil := time_Add now lease,
                          py_LastAttemptAt := now\<rparr>)\<rparr>
              in (put_decision claimID d1 s, Inr (Some d1))))"

definition held ::
  "decision \<Rightarrow> (payout \<Rightarrow> payout) \<Rightarrow> decision_store \<Rightarrow> decision_store \<times> (go_error + decision)" where
  "held rec change s =
    (case gm_get (ds_decisions s) (dn_ClaimID rec) of
       None \<Rightarrow> (s, Inl ErrClaimLost)
     | Some d \<Rightarrow>
        (case dn_Payout d of
           None \<Rightarrow> (s, Inl ErrClaimLost)
         | Some p \<Rightarrow>
            if py_Status p \<noteq> StatusInProgress then (s, Inl ErrClaimLost)
            else case dn_Payout rec of
                   None \<Rightarrow> (s, Inl nil_panic)
                 | Some rp \<Rightarrow>
                    if py_ClaimedUntil p \<noteq> py_ClaimedUntil rp then (s, Inl ErrClaimLost)
                    else
                      let d1 = d\<lparr>dn_Payout := Some (change p)\<rparr>;
                          s1 = put_decision (dn_ClaimID rec) d1 s
                      in case StatusOf d1 of
                           None \<Rightarrow> (s1, Inl nil_panic)
                         | Some st \<Rightarrow> (setStatus (dn_ClaimID rec) st s1, Inr d1)))"

definition confirm_change :: "time \<Rightarrow> outcome \<Rightarrow> payout \<Rightarrow> payout" where
  "confirm_change now out p = p\<lparr>py_Status := StatusConfirmed, py_ConfirmedAt := now, py_Reference := oc_Reference out,
     py_NextAttemptAt := zero_time, py_ClaimedUntil := zero_time, py_Failure := None\<rparr>"

definition reschedule_change :: "time \<Rightarrow> time \<Rightarrow> string \<Rightarrow> payout \<Rightarrow> payout" where
  "reschedule_change now next cause p = p\<lparr>py_Status := StatusPending, py_Attempts := py_Attempts p + 1,
     py_NextAttemptAt := next, py_ClaimedUntil := zero_time, py_LastFailureAt := now, py_LastError := cause\<rparr>"

definition fail_change :: "time \<Rightarrow> failure_reason \<Rightarrow> string \<Rightarrow> payout \<Rightarrow> payout" where
  "fail_change now reason cause p = p\<lparr>py_Status := StatusFailed, py_Attempts := py_Attempts p + 1,
     py_NextAttemptAt := zero_time, py_ClaimedUntil := zero_time, py_Failure := Some (PayoutFailureFor reason),
     py_LastFailureAt := now, py_LastError := cause\<rparr>"

definition Confirm_payout ::
  "decision \<Rightarrow> time \<Rightarrow> outcome \<Rightarrow> decision_store \<Rightarrow> decision_store \<times> (go_error + decision)" where
  "Confirm_payout rec now out s = held rec (confirm_change now out) s"

definition Reschedule_payout ::
  "decision \<Rightarrow> time \<Rightarrow> time \<Rightarrow> string \<Rightarrow> decision_store \<Rightarrow> decision_store \<times> (go_error + decision)" where
  "Reschedule_payout rec now next cause s = held rec (reschedule_change now next cause) s"

definition Fail_payout ::
  "decision \<Rightarrow> time \<Rightarrow> failure_reason \<Rightarrow> string \<Rightarrow> decision_store \<Rightarrow> decision_store \<times> (go_error + decision)" where
  "Fail_payout rec now reason cause s = held rec (fail_change now reason cause) s"

definition RecordGatewayCode :: "string \<Rightarrow> string \<Rightarrow> decision_store \<Rightarrow> decision_store" where
  "RecordGatewayCode claimID code s =
    (case gm_get (ds_decisions s) claimID of
       None \<Rightarrow> s
     | Some d \<Rightarrow>
        (case dn_Payout d of
           None \<Rightarrow> s
         | Some p \<Rightarrow> if py_Status p = StatusFailed
                    then put_decision claimID (d\<lparr>dn_Payout := Some (p\<lparr>py_GatewayCode := code\<rparr>)\<rparr>) s else s))"

definition retry_change :: "payout_retry \<Rightarrow> payout \<Rightarrow> payout" where
  "retry_change r p =
    (let p1 = p\<lparr>py_Status := StatusPending, py_Attempts := 0, py_NextAttemptAt := pr_At r, py_ClaimedUntil := zero_time,
                py_Failure := None, py_GatewayCode := ''''\<rparr>;
         p2 = (case pr_Destination r of None \<Rightarrow> p1 | Some a \<Rightarrow> p1\<lparr>py_Destination := a\<rparr>)
     in p2\<lparr>py_ManualRetries := py_ManualRetries p2 + 1, py_LastRetriedBy := pr_By r, py_LastRetriedAt := pr_At r\<rparr>)"

definition store_RetryPayout ::
  "string \<Rightarrow> payout_retry \<Rightarrow> decision_store \<Rightarrow> decision_store \<times> (decision_error + decision)" where
  "store_RetryPayout claimID r s =
    (let refused = (s, Inl (if gm_get (cs_byID (ds_cases s)) claimID = None then DecisionCase ErrClaimNotFound
                            else ErrPayoutNotRetryable))
     in case gm_get (ds_decisions s) claimID of
          None \<Rightarrow> refused
        | Some d \<Rightarrow>
           (case dn_Payout d of
              None \<Rightarrow> refused
            | Some p \<Rightarrow>
               if py_Status p \<noteq> StatusFailed then refused
               else
                 let d1 = d\<lparr>dn_Payout := Some (retry_change r p)\<rparr>;
                     s1 = put_decision claimID d1 s
                 in case StatusOf d1 of
                      None \<Rightarrow> (s1, Inl NilDereference)
                    | Some st \<Rightarrow> (setStatus claimID st s1, Inr d1)))"

definition notice_due :: "time \<Rightarrow> decision \<Rightarrow> bool" where
  "notice_due now d = (case dn_Notice d of None \<Rightarrow> False
     | Some n \<Rightarrow> time_IsZero (nt_SentAt n) \<and> \<not> nt_NextAttemptAt n > now)"

definition ListNoticesDue :: "time \<Rightarrow> nat \<Rightarrow> decision_store \<Rightarrow> decision list" where
  "ListNoticesDue now limit s =
    take limit (slice_sort (\<lambda>x y. dn_ClaimID x < dn_ClaimID y) (filter (notice_due now) (map snd (ds_decisions s))))"

definition on_unsent :: "string \<Rightarrow> (notice \<Rightarrow> notice) \<Rightarrow> decision_store \<Rightarrow> decision_store" where
  "on_unsent claimID change s =
    (case gm_get (ds_decisions s) claimID of
       None \<Rightarrow> s
     | Some d \<Rightarrow>
        (case dn_Notice d of
           None \<Rightarrow> s
         | Some n \<Rightarrow> if time_IsZero (nt_SentAt n) then put_decision claimID (d\<lparr>dn_Notice := Some (change n)\<rparr>) s else s))"

definition NoticeSent :: "string \<Rightarrow> time \<Rightarrow> decision_store \<Rightarrow> decision_store" where
  "NoticeSent claimID when s = on_unsent claimID
     (\<lambda>n. n\<lparr>nt_SentAt := when, nt_Attempts := nt_Attempts n + 1, nt_NextAttemptAt := zero_time, nt_LastError := ''''\<rparr>) s"

definition NoticeFailed :: "string \<Rightarrow> time \<Rightarrow> string \<Rightarrow> decision_store \<Rightarrow> decision_store" where
  "NoticeFailed claimID next cause s = on_unsent claimID
     (\<lambda>n. n\<lparr>nt_Attempts := nt_Attempts n + 1, nt_NextAttemptAt := next, nt_LastError := cause\<rparr>) s"

section \<open>The service\<close>

definition ErrPolicyNotFound :: go_error where
  "ErrPolicyNotFound = errors_New ''claims: the holder has no such policy''"

definition ErrHolderNotFound :: go_error where
  "ErrHolderNotFound = errors_New ''claims: the policy core does not know the holder''"

text \<open>The policy core, a service of its own: what it answers for a holder and a policy.\<close>

record policy_terms_reader =
  ptr_PolicyTerms :: "string \<Rightarrow> string \<Rightarrow> go_error + policy_terms"
  ptr_Holder :: "string \<Rightarrow> go_error + holder"

definition coreError :: "go_error \<Rightarrow> decision_error" where
  "coreError err =
    (if errors_Is err ErrPolicyNotFound \<or> errors_Is err ErrHolderNotFound then ErrNotCovered (Some err)
     else ErrPolicyUnavailable (Some err))"

definition termsOf :: "policy_terms_reader option \<Rightarrow> claim_record \<Rightarrow> decision_error + policy_terms \<times> holder" where
  "termsOf terms c =
    (case terms of
       None \<Rightarrow> Inl (ErrPolicyUnavailable None)
     | Some core \<Rightarrow>
        (case ptr_PolicyTerms core (cl_Subject c) (cl_PolicyID c) of
           Inl err \<Rightarrow> Inl (coreError err)
         | Inr pt \<Rightarrow>
            (case ptr_Holder core (cl_Subject c) of
               Inl err \<Rightarrow> Inl (coreError err)
             | Inr ho \<Rightarrow> Inr (pt, ho))))"

definition decidable :: "string \<Rightarrow> decision_store \<Rightarrow> decision_error + claim_record" where
  "decidable claimID s =
    (case Get claimID (ds_cases s) of
       Inl e \<Rightarrow> Inl (DecisionCase e)
     | Inr c \<Rightarrow> if \<not> Decidable (cl_Status c) then Inl ErrNotDecidable else Inr c)"

definition service_Approve ::
  "policy_terms_reader option \<Rightarrow> time \<Rightarrow> string \<Rightarrow> string \<Rightarrow> int \<Rightarrow> decision_store \<Rightarrow>
     decision_store \<times> (decision_error + decision)" where
  "service_Approve terms now claimID analyst grossMinor s =
    (case decidable claimID s of
       Inl e \<Rightarrow> (s, Inl e)
     | Inr c \<Rightarrow>
        (case termsOf terms c of
           Inl e \<Rightarrow> (s, Inl e)
         | Inr (pt, ho) \<Rightarrow>
            (case PolicyTerms_CoverageOf pt (cl_IncidentType c) of
               None \<Rightarrow> (s, Inl (ErrNotCovered None))
             | Some cov \<Rightarrow>
                (case domain_Approve c cov ho grossMinor analyst now of
                   Inl e \<Rightarrow> (s, Inl (DecisionRefused e))
                 | Inr d \<Rightarrow> Decide d s))))"

definition service_Reject ::
  "policy_terms_reader option \<Rightarrow> time \<Rightarrow> string \<Rightarrow> string \<Rightarrow> string \<Rightarrow> decision_store \<Rightarrow>
     decision_store \<times> (decision_error + decision)" where
  "service_Reject terms now claimID analyst reason s =
    (case decidable claimID s of
       Inl e \<Rightarrow> (s, Inl e)
     | Inr c \<Rightarrow>
        (case RejectionReason reason of
           Inl e \<Rightarrow> (s, Inl (DecisionRefused e))
         | Inr _ \<Rightarrow>
            (case termsOf terms c of
               Inl e \<Rightarrow> (s, Inl e)
             | Inr (_, ho) \<Rightarrow>
                (case domain_Reject c reason (ho_Email ho) analyst now of
                   Inl e \<Rightarrow> (s, Inl (DecisionRefused e))
                 | Inr d \<Rightarrow> Decide d s))))"

definition service_RetryPayout ::
  "time \<Rightarrow> string \<Rightarrow> string \<Rightarrow> payout_account option \<Rightarrow> decision_store \<Rightarrow> decision_store \<times> (decision_error + decision)" where
  "service_RetryPayout now claimID analyst destination s =
    store_RetryPayout claimID \<lparr>pr_By = analyst, pr_At = now, pr_Destination = destination\<rparr> s"

section \<open>The amounts\<close>

text \<open>The bound under which the product and the sum of \<^verbatim>\<open>DeductibleOf\<close> stay in range.\<close>

definition amount_safe :: "int \<Rightarrow> int \<Rightarrow> bool" where
  "amount_safe gross bp \<longleftrightarrow> 0 < gross \<and> 0 \<le> bp \<and> bp \<le> basisPoints \<and> gross * bp + 5000 < 2 ^ 63 \<and> gross < 2 ^ 63"

lemma DeductibleOf_safe:
  assumes "amount_safe gross bp"
  shows "DeductibleOf gross bp = (gross * bp + 5000) div 10000"
proof -
  have nn: "0 \<le> gross * bp" using assms by (simp add: amount_safe_def)
  then have "in_i64 (gross * bp)" "in_i64 (gross * bp + 5000)"
    using assms unfolding in_i64_def amount_safe_def by linarith+
  then have "i64 (gross * bp) = gross * bp" "i64 (gross * bp + 5000) = gross * bp + 5000" by simp_all
  moreover have "quot basisPoints 2 = 5000" by (simp add: quot_nonneg basisPoints_def)
  ultimately show ?thesis
    using nn by (simp add: DeductibleOf_def basisPoints_def quot_nonneg)
qed

lemma DeductibleOf_bounds:
  assumes "amount_safe gross bp"
  shows "0 \<le> DeductibleOf gross bp" and "DeductibleOf gross bp \<le> gross"
    and "\<bar>10000 * DeductibleOf gross bp - gross * bp\<bar> \<le> 5000"
proof -
  have nn: "0 \<le> gross * bp" "gross * bp \<le> gross * 10000"
    using assms by (auto simp: amount_safe_def basisPoints_def)
  note eq = DeductibleOf_safe [OF assms]
  show "0 \<le> DeductibleOf gross bp" using nn by (simp add: eq)
  have "(gross * bp + 5000) div 10000 \<le> (gross * 10000 + 5000) div 10000"
    using nn by (intro zdiv_mono1) auto
  then show "DeductibleOf gross bp \<le> gross" by (simp add: eq)
  have "10000 * ((gross * bp + 5000) div 10000) = gross * bp + 5000 - (gross * bp + 5000) mod 10000"
    by (metis minus_mod_eq_mult_div)
  moreover have "0 \<le> (gross * bp + 5000) mod 10000" "(gross * bp + 5000) mod 10000 < 10000" by simp_all
  ultimately show "\<bar>10000 * DeductibleOf gross bp - gross * bp\<bar> \<le> 5000" unfolding eq by linarith
qed

definition approval_amounts_ok :: "decision \<Rightarrow> bool" where
  "approval_amounts_ok d \<longleftrightarrow>
    (case dn_Payout d of None \<Rightarrow> False
     | Some p \<Rightarrow> 0 < py_AmountMinor p \<and> py_AmountMinor p + DeductibleMinor d = dn_GrossAmountMinor d \<and>
         0 \<le> DeductibleMinor d \<and> dn_GrossAmountMinor d \<le> dn_InsuredValueMinor d \<and> py_Currency p = dn_Currency d)"

lemma domain_Approve_amounts:
  assumes "domain_Approve c cov ho gross who t = Inr d" and "amount_safe gross (cov_DeductibleBasisPoints cov)"
  shows "approval_amounts_ok d"
proof -
  note b = DeductibleOf_bounds [OF assms(2)]
  have "i64 (gross - DeductibleOf gross (cov_DeductibleBasisPoints cov)) = gross - DeductibleOf gross (cov_DeductibleBasisPoints cov)"
    using b assms(2) by (intro i64_id) (simp add: in_i64_def amount_safe_def)
  with assms(1) b show ?thesis
    by (auto simp: domain_Approve_def Let_def approval_amounts_ok_def DeductibleMinor_def split: if_splits)
qed

section \<open>The invariant of the store\<close>

definition payout_ok :: "decision \<Rightarrow> payout \<Rightarrow> bool" where
  "payout_ok d p \<longleftrightarrow> py_Key p = PayoutKey (dn_ClaimID d) \<and> py_Status p \<noteq> StatusZero \<and>
     py_AmountMinor p = i64 (dn_GrossAmountMinor d - DeductibleMinor d) \<and> 0 < py_AmountMinor p \<and>
     (py_Failure p \<noteq> None \<longleftrightarrow> py_Status p = StatusFailed)"

definition decision_ok :: "decision \<Rightarrow> bool" where
  "decision_ok d \<longleftrightarrow>
    (case dn_Outcome d of
       Outcome_Approved \<Rightarrow> (\<exists>p. dn_Payout d = Some p \<and> payout_ok d p) \<and> dn_Notice d = None
     | Outcome_Rejected \<Rightarrow> dn_Payout d = None \<and> dn_Reason d \<noteq> '''' \<and> dn_Notice d \<noteq> None)"

text \<open>
  A claim shows the status of its decision, and a claim that shows none of the decided statuses is
  the one that has no decision.
\<close>

definition decision_inv :: "decision_store \<Rightarrow> bool" where
  "decision_inv s \<longleftrightarrow> case_inv (ds_cases s) \<and> gm_ok (ds_decisions s) \<and>
    (\<forall>cid d. gm_get (ds_decisions s) cid = Some d \<longrightarrow> dn_ClaimID d = cid \<and> decision_ok d \<and>
       (\<exists>c. gm_get (cs_byID (ds_cases s)) cid = Some c \<and> StatusOf d = Some (cl_Status c) \<and>
            dn_FilingNumber d = cl_FilingNumber c)) \<and>
    (\<forall>cid c. gm_get (cs_byID (ds_cases s)) cid = Some c \<and> gm_get (ds_decisions s) cid = None \<longrightarrow> Decidable (cl_Status c))"

lemma decision_invD:
  assumes "decision_inv s" and "gm_get (ds_decisions s) cid = Some d"
  shows "dn_ClaimID d = cid" and "decision_ok d"
    and "\<exists>c. gm_get (cs_byID (ds_cases s)) cid = Some c \<and> StatusOf d = Some (cl_Status c) \<and> dn_FilingNumber d = cl_FilingNumber c"
  using assms by (auto simp: decision_inv_def)

lemma decision_inv_New: "case_inv cases \<Longrightarrow> \<forall>c \<in> snd ` set (cs_byID cases). Decidable (cl_Status c) \<Longrightarrow>
    decision_inv (NewDecisionStore cases)"
  by (fastforce simp: decision_inv_def NewDecisionStore_def dest: gm_get_SomeD)

lemma put_decision_sel [simp]:
  "ds_cases (put_decision cid d s) = ds_cases s"
  "gm_get (ds_decisions (put_decision cid d s)) = (gm_get (ds_decisions s))(cid \<mapsto> d)"
  "gm_ok (ds_decisions s) \<Longrightarrow> gm_ok (ds_decisions (put_decision cid d s))"
  by (simp_all add: put_decision_def)

lemma setStatus_sel [simp]:
  "ds_decisions (setStatus cid st s) = ds_decisions s"
  "cs_byKey (ds_cases (setStatus cid st s)) = cs_byKey (ds_cases s)"
  "cs_sequence (ds_cases (setStatus cid st s)) = cs_sequence (ds_cases s)"
  "cs_supports (ds_cases (setStatus cid st s)) = cs_supports (ds_cases s)"
  "cs_attachedTo (ds_cases (setStatus cid st s)) = cs_attachedTo (ds_cases s)"
  by (simp_all add: setStatus_def Let_def)

lemma setStatus_byID:
  "gm_get (cs_byID (ds_cases s)) cid = Some c \<Longrightarrow>
   gm_get (cs_byID (ds_cases (setStatus cid st s))) = (gm_get (cs_byID (ds_cases s)))(cid \<mapsto> c\<lparr>cl_Status := st\<rparr>)"
  by (simp add: setStatus_def Let_def)

text \<open>Moving the status of a claim that is there keeps everything the store of the claims promises.\<close>

lemma setStatus_case_inv:
  assumes inv: "case_inv (ds_cases s)" and c: "gm_get (cs_byID (ds_cases s)) cid = Some c"
  shows "case_inv (ds_cases (setStatus cid st s))"
proof -
  let ?c = "c\<lparr>cl_Status := st\<rparr>" and ?s = "setStatus cid st s" and ?m = "gm_get (cs_byID (ds_cases s))"
  have sel: "cl_ID ?c = cl_ID c" "cl_Subject ?c = cl_Subject c" "cl_FilingKey ?c = cl_FilingKey c"
    "cl_FilingNumber ?c = cl_FilingNumber c" "cl_FiledAt ?c = cl_FiledAt c" "support_ids ?c = support_ids c"
    by (simp_all add: support_ids_def)
  have b: "gm_get (cs_byID (ds_cases ?s)) = ?m(cid \<mapsto> ?c)" by (rule setStatus_byID [OF c])
  have ids: "ids_ok (ds_cases ?s)"
    using inv case_inv_id [OF inv c] c set_gm_put [of cid ?c "cs_byID (ds_cases s)"]
    by (auto simp: case_inv_def ids_ok_def setStatus_def Let_def)
  have keys: "keys_ok (ds_cases ?s)"
  proof -
    have k: "\<forall>cid c. ?m cid = Some c \<longrightarrow> cs_byKey (ds_cases s) (filing_slot (cl_Subject c) (cl_FilingKey c)) = Some cid"
      and k': "\<forall>k cid. cs_byKey (ds_cases s) k = Some cid \<longrightarrow> (\<exists>c. ?m cid = Some c \<and> k = filing_slot (cl_Subject c) (cl_FilingKey c))"
      using inv unfolding case_inv_def keys_ok_def by blast+
    show ?thesis
      unfolding keys_ok_def b using k k' c by (auto simp: sel) (metis option.inject)
  qed
  have nums: "numbers_ok (ds_cases ?s)"
  proof -
    obtain num where num: "0 \<le> cs_sequence (ds_cases s)" "inj_on num (dom ?m)"
      "\<And>cid c. ?m cid = Some c \<Longrightarrow> 1 \<le> num cid \<and> num cid \<le> cs_sequence (ds_cases s) \<and>
         cl_FilingNumber c = FilingNumber (cl_FiledAt c) (num cid)"
      using inv unfolding case_inv_def numbers_ok_def by blast
    have "dom (?m(cid \<mapsto> ?c)) = dom ?m" using c by auto
    with num(2) have "inj_on num (dom (?m(cid \<mapsto> ?c)))" by simp
    moreover have "1 \<le> num k \<and> num k \<le> cs_sequence (ds_cases s) \<and> cl_FilingNumber d = FilingNumber (cl_FiledAt d) (num k)"
      if "(?m(cid \<mapsto> ?c)) k = Some d" for k d
      using that num(3) [of k d] num(3) [OF c] by (auto split: if_splits)
    ultimately show ?thesis unfolding numbers_ok_def b setStatus_sel using num(1) by blast
  qed
  have "attached_ok (ds_cases ?s)"
    using inv c unfolding case_inv_def attached_ok_def b by (auto simp: sel)
  with ids keys nums show ?thesis by (simp add: case_inv_def)
qed

text \<open>The two shapes of a write on a decided claim: one that leaves its status as it was, and one
  that moves the claim to the new status.\<close>

lemma put_decision_inv:
  assumes inv: "decision_inv s" and d: "gm_get (ds_decisions s) cid = Some d"
    and "dn_ClaimID d' = cid" and "dn_FilingNumber d' = dn_FilingNumber d" and "decision_ok d'" and "StatusOf d' = StatusOf d"
  shows "decision_inv (put_decision cid d' s)"
  using inv decision_invD [OF inv d] assms(3-) by (auto simp: decision_inv_def)

lemma move_decision_inv:
  assumes inv: "decision_inv s" and d: "gm_get (ds_decisions s) cid = Some d"
    and d': "dn_ClaimID d' = cid" "dn_FilingNumber d' = dn_FilingNumber d" "decision_ok d'" and st: "StatusOf d' = Some st"
  shows "decision_inv (setStatus cid st (put_decision cid d' s))"
proof -
  obtain c where c: "gm_get (cs_byID (ds_cases s)) cid = Some c" "dn_FilingNumber d = cl_FilingNumber c"
    using decision_invD(3) [OF inv d] by blast
  let ?s = "setStatus cid st (put_decision cid d' s)"
  have c1: "gm_get (cs_byID (ds_cases (put_decision cid d' s))) cid = Some c" using c by simp
  note b = setStatus_byID [OF c1, of st]
  have "case_inv (ds_cases ?s)" using inv c1 by (intro setStatus_case_inv) (simp_all add: decision_inv_def)
  moreover have "gm_ok (ds_decisions ?s)" using inv by (simp add: decision_inv_def)
  moreover have "dn_ClaimID e = k \<and> decision_ok e \<and> (\<exists>c. gm_get (cs_byID (ds_cases ?s)) k = Some c \<and>
      StatusOf e = Some (cl_Status c) \<and> dn_FilingNumber e = cl_FilingNumber c)"
    if e: "gm_get (ds_decisions ?s) k = Some e" for k e
  proof (cases "k = cid")
    case True
    with e have "e = d'" by simp
    with True d' st c show ?thesis unfolding b by simp
  next
    case False
    with e decision_invD [OF inv, of k e] show ?thesis unfolding b by simp
  qed
  moreover have "Decidable (cl_Status x)"
    if "gm_get (cs_byID (ds_cases ?s)) k = Some x" "gm_get (ds_decisions ?s) k = None" for k x
    using that inv unfolding b decision_inv_def by (auto split: if_splits)
  ultimately show ?thesis unfolding decision_inv_def by blast
qed

section \<open>The operations keep the invariant\<close>

lemma domain_Approve_ok:
  assumes "domain_Approve c cov ho gross who t = Inr d"
  shows "decision_ok d" and "dn_ClaimID d = cl_ID c" and "StatusOf d = Some StatusApproved"
  using assms
  by (auto simp: domain_Approve_def Let_def decision_ok_def payout_ok_def DeductibleMinor_def StatusOf_def split: if_splits)

lemma domain_Reject_ok:
  assumes "domain_Reject c reason to who t = Inr d"
  shows "decision_ok d" and "dn_ClaimID d = cl_ID c" and "StatusOf d = Some StatusRejected"
  using assms
  by (auto simp: domain_Reject_def RejectionReason_def Let_def decision_ok_def StatusOf_def split: if_splits)

lemma decision_ok_StatusOf: "decision_ok d \<Longrightarrow> \<exists>st. StatusOf d = Some st \<and> \<not> Decidable st"
  by (auto simp: decision_ok_def StatusOf_def split: decision_outcome.splits option.splits status.splits)

lemma decision_ok_number [simp]: "decision_ok (d\<lparr>dn_FilingNumber := n\<rparr>) = decision_ok d"
  "StatusOf (d\<lparr>dn_FilingNumber := n\<rparr>) = StatusOf d"
  by (simp_all add: decision_ok_def payout_ok_def DeductibleMinor_def StatusOf_def split: decision_outcome.split)

text \<open>What \<^verbatim>\<open>Decide\<close> does: it takes effect exactly on a claim that is there, in evaluation and not
  decided yet.\<close>

lemma Decide_cases:
  assumes "decision_ok d" and "Decide d s = (s', res)"
  obtains (refused) e where "s' = s" "res = Inl e" "e = DecisionCase ErrClaimNotFound \<or> e = ErrNotDecidable"
  | (decided) c st d1 where "gm_get (cs_byID (ds_cases s)) (dn_ClaimID d) = Some c" "Decidable (cl_Status c)"
      "gm_get (ds_decisions s) (dn_ClaimID d) = None" "d1 = d\<lparr>dn_FilingNumber := cl_FilingNumber c\<rparr>"
      "StatusOf d1 = Some st" "s' = setStatus (dn_ClaimID d) st (put_decision (dn_ClaimID d) d1 s)" "res = Inr d1"
proof -
  obtain st where st: "StatusOf d = Some st" using decision_ok_StatusOf [OF assms(1)] by blast
  show thesis
  proof (cases "gm_get (cs_byID (ds_cases s)) (dn_ClaimID d)")
    case None
    with assms(2) show thesis by (intro refused) (auto simp: Decide_def)
  next
    case (Some c)
    show thesis
    proof (cases "Decidable (cl_Status c) \<and> gm_get (ds_decisions s) (dn_ClaimID d) = None")
      case True
      with assms(2) Some st show thesis
        by (intro decided [OF Some _ _ refl]) (auto simp: Decide_def Let_def)
    next
      case False
      with assms(2) Some show thesis by (intro refused) (auto simp: Decide_def split: if_splits)
    qed
  qed
qed

lemma Decide_inv [inv_intros]:
  assumes inv: "decision_inv s" and ok: "decision_ok d"
  shows "decision_inv (fst (Decide d s))"
proof (cases "Decide d s")
  case (Pair s' res)
  from ok Pair show ?thesis
  proof (cases rule: Decide_cases)
    case (decided c st d1)
    let ?cid = "dn_ClaimID d" and ?s1 = "put_decision (dn_ClaimID d) d1 s"
    have c1: "gm_get (cs_byID (ds_cases ?s1)) ?cid = Some c" using decided by simp
    note b = setStatus_byID [OF c1, of st]
    have d1: "decision_ok d1" "dn_ClaimID d1 = ?cid" "dn_FilingNumber d1 = cl_FilingNumber c"
      using ok decided(4) by simp_all
    have "case_inv (ds_cases s')" unfolding decided(6)
      using inv c1 by (intro setStatus_case_inv) (simp_all add: decision_inv_def)
    moreover have "gm_ok (ds_decisions s')" using inv decided(6) by (simp add: decision_inv_def)
    moreover have "dn_ClaimID e = k \<and> decision_ok e \<and> (\<exists>c. gm_get (cs_byID (ds_cases s')) k = Some c \<and>
        StatusOf e = Some (cl_Status c) \<and> dn_FilingNumber e = cl_FilingNumber c)"
      if e: "gm_get (ds_decisions s') k = Some e" for k e
    proof (cases "k = ?cid")
      case True
      with e decided(6) have "e = d1" by simp
      with True d1 decided(5) show ?thesis unfolding decided(6) b by simp
    next
      case False
      with e decided(6) decision_invD [OF inv, of k e] show ?thesis unfolding decided(6) b by simp
    qed
    moreover have "Decidable (cl_Status x)"
      if "gm_get (cs_byID (ds_cases s')) k = Some x" "gm_get (ds_decisions s') k = None" for k x
      using that inv unfolding decided(6) b decision_inv_def by (auto split: if_splits)
    ultimately show ?thesis unfolding Pair fst_conv decision_inv_def by blast
  qed (simp add: inv Pair)
qed

text \<open>A change of the payout that leaves what was decided as it is.\<close>

definition good_change :: "(payout \<Rightarrow> payout) \<Rightarrow> bool" where
  "good_change f \<longleftrightarrow> (\<forall>p. py_Key (f p) = py_Key p \<and> py_AmountMinor (f p) = py_AmountMinor p \<and>
     py_BeneficiaryID (f p) = py_BeneficiaryID p \<and> py_Currency (f p) = py_Currency p \<and>
     py_Status (f p) \<noteq> StatusZero \<and> (py_Failure (f p) \<noteq> None \<longleftrightarrow> py_Status (f p) = StatusFailed))"

definition what_was_decided where
  "what_was_decided d =
    (dn_ClaimID d, dn_FilingNumber d, dn_Outcome d, (dn_DecidedBy d, dn_DecidedAt d),
     (dn_GrossAmountMinor d, dn_InsuredValueMinor d, dn_DeductibleBasisPoints d, dn_Currency d), dn_Reason d,
     map_option (\<lambda>p. (py_Key p, py_BeneficiaryID p, py_AmountMinor p, py_Currency p)) (dn_Payout d),
     map_option nt_To (dn_Notice d))"

lemma good_changes [simp]:
  "good_change (confirm_change now out)" "good_change (fail_change now reason cause)" "good_change (retry_change r)"
  by (simp_all add: good_change_def confirm_change_def fail_change_def retry_change_def Let_def split: option.split)

text \<open>\<^verbatim>\<open>Reschedule\<close> leaves the failure of the payout alone: it has none while it is claimed.\<close>

definition good_on_held :: "(payout \<Rightarrow> payout) \<Rightarrow> bool" where
  "good_on_held f \<longleftrightarrow> (\<forall>p. py_Failure p = None \<longrightarrow> py_Key (f p) = py_Key p \<and> py_AmountMinor (f p) = py_AmountMinor p \<and>
     py_BeneficiaryID (f p) = py_BeneficiaryID p \<and> py_Currency (f p) = py_Currency p \<and>
     py_Status (f p) \<noteq> StatusZero \<and> (py_Failure (f p) \<noteq> None \<longleftrightarrow> py_Status (f p) = StatusFailed))"

lemma good_change_held: "good_change f \<Longrightarrow> good_on_held f"
  by (simp add: good_change_def good_on_held_def)

lemma good_reschedule [simp]: "good_on_held (reschedule_change now next cause)"
  by (simp add: good_on_held_def reschedule_change_def)

lemma decision_ok_payout:
  assumes "decision_ok d" and "dn_Payout d = Some p"
  shows "dn_Outcome d = Outcome_Approved" and "payout_ok d p" and "dn_Notice d = None"
  using assms by (auto simp: decision_ok_def split: decision_outcome.splits)

lemma change_decision_ok:
  assumes "decision_ok d" and "dn_Payout d = Some p" and "py_Key q = py_Key p" and "py_AmountMinor q = py_AmountMinor p"
    and "py_Status q \<noteq> StatusZero" and "py_Failure q \<noteq> None \<longleftrightarrow> py_Status q = StatusFailed"
  shows "decision_ok (d\<lparr>dn_Payout := Some q\<rparr>)"
  using decision_ok_payout [OF assms(1,2)] assms(3-)
  by (simp add: decision_ok_def payout_ok_def DeductibleMinor_def)

text \<open>The condition under which a result of \<open>rec\<close> is recorded.\<close>

definition holds_payout :: "decision_store \<Rightarrow> decision \<Rightarrow> decision \<Rightarrow> payout \<Rightarrow> bool" where
  "holds_payout s rec d p \<longleftrightarrow> gm_get (ds_decisions s) (dn_ClaimID rec) = Some d \<and> dn_Payout d = Some p \<and>
     py_Status p = StatusInProgress \<and> (\<exists>rp. dn_Payout rec = Some rp \<and> py_ClaimedUntil p = py_ClaimedUntil rp)"

lemma held_lost:
  assumes "\<And>d p. \<not> holds_payout s rec d p" and "dn_Payout rec \<noteq> None"
  shows "held rec f s = (s, Inl ErrClaimLost)"
  using assms by (auto simp: held_def holds_payout_def split: option.splits)

lemma held_ok:
  assumes inv: "decision_inv s" and h: "holds_payout s rec d p" and g: "good_on_held f"
  shows "\<exists>st d1. d1 = d\<lparr>dn_Payout := Some (f p)\<rparr> \<and> StatusOf d1 = Some st \<and> decision_ok d1 \<and>
    held rec f s = (setStatus (dn_ClaimID rec) st (put_decision (dn_ClaimID rec) d1 s), Inr d1) \<and>
    decision_inv (fst (held rec f s)) \<and> what_was_decided d1 = what_was_decided d"
proof -
  let ?d = "d\<lparr>dn_Payout := Some (f p)\<rparr>"
  have d: "gm_get (ds_decisions s) (dn_ClaimID rec) = Some d" "dn_Payout d = Some p" "py_Status p = StatusInProgress"
    using h by (auto simp: holds_payout_def)
  note D = decision_invD [OF inv d(1)] and P = decision_ok_payout [OF decision_invD(2) [OF inv d(1)] d(2)]
  have "py_Failure p = None" using P(2) d(3) by (auto simp: payout_ok_def)
  then have f: "py_Key (f p) = py_Key p" "py_AmountMinor (f p) = py_AmountMinor p"
    "py_BeneficiaryID (f p) = py_BeneficiaryID p" "py_Currency (f p) = py_Currency p"
    "py_Status (f p) \<noteq> StatusZero" "py_Failure (f p) \<noteq> None \<longleftrightarrow> py_Status (f p) = StatusFailed"
    using g by (auto simp: good_on_held_def)
  have ok: "decision_ok ?d" by (rule change_decision_ok [OF D(2) d(2) f(1,2,5,6)])
  obtain st where st: "StatusOf ?d = Some st" using decision_ok_StatusOf [OF ok] by blast
  have "held rec f s = (setStatus (dn_ClaimID rec) st (put_decision (dn_ClaimID rec) ?d s), Inr ?d)"
    using h st by (auto simp: held_def holds_payout_def Let_def)
  moreover have "decision_inv (setStatus (dn_ClaimID rec) st (put_decision (dn_ClaimID rec) ?d s))"
    using move_decision_inv [OF inv d(1) _ _ ok st] D(1) by simp
  moreover have "what_was_decided ?d = what_was_decided d" using f d(2) by (simp add: what_was_decided_def)
  ultimately show ?thesis using st ok by (intro exI [of _ st] exI [of _ ?d]) simp
qed

lemma held_inv [inv_intros]:
  assumes "decision_inv s" and "good_on_held f" and "dn_Payout rec \<noteq> None"
  shows "decision_inv (fst (held rec f s))"
proof (cases "\<exists>d p. holds_payout s rec d p")
  case True
  with held_ok assms(1,2) show ?thesis by blast
next
  case False
  with held_lost assms show ?thesis by (metis fst_conv)
qed

lemma Claim_payout_ok:
  assumes inv: "decision_inv s" and "Claim_payout cid now lease s = (s', Inr (Some d1))"
  shows "\<exists>d p. gm_get (ds_decisions s) cid = Some d \<and> dn_Payout d = Some p \<and> due (Some p) now \<and>
    d1 = d\<lparr>dn_Payout := Some (p\<lparr>py_Status := StatusInProgress, py_ClaimedUntil := time_Add now lease, py_LastAttemptAt := now\<rparr>)\<rparr> \<and>
    s' = put_decision cid d1 s \<and> decision_inv s' \<and> what_was_decided d1 = what_was_decided d"
proof -
  obtain d p where d: "gm_get (ds_decisions s) cid = Some d" "dn_Payout d = Some p" "due (Some p) now"
    and d1: "d1 = d\<lparr>dn_Payout := Some (p\<lparr>py_Status := StatusInProgress, py_ClaimedUntil := time_Add now lease, py_LastAttemptAt := now\<rparr>)\<rparr>"
    and s': "s' = put_decision cid d1 s"
    using assms(2) by (auto simp: Claim_payout_def Let_def split: option.splits if_splits)
  note D = decision_invD [OF inv d(1)] and P = decision_ok_payout [OF decision_invD(2) [OF inv d(1)] d(2)]
  have "py_Failure p = None" "StatusOf d1 = StatusOf d"
    using P d by (auto simp: payout_ok_def due_def StatusOf_def d1)
  moreover have "decision_ok d1"
    unfolding d1 by (rule change_decision_ok [OF D(2) d(2)]) (use calculation in simp_all)
  ultimately have "decision_inv s'"
    unfolding s' using D(1) by (intro put_decision_inv [OF inv d(1)]) (simp_all add: d1)
  with d d1 s' show ?thesis by (auto simp: what_was_decided_def)
qed

lemma Claim_payout_none:
  "Claim_payout cid now lease s = (s', Inr None) \<Longrightarrow> s' = s"
  by (auto simp: Claim_payout_def Let_def split: option.splits if_splits)

lemma Claim_payout_no_error: "Claim_payout cid now lease s \<noteq> (s', Inl e)"
  by (auto simp: Claim_payout_def Let_def split: option.splits if_splits)

lemma store_RetryPayout_inv [inv_intros]:
  assumes inv: "decision_inv s"
  shows "decision_inv (fst (store_RetryPayout cid r s))"
proof (cases "\<exists>d p. gm_get (ds_decisions s) cid = Some d \<and> dn_Payout d = Some p \<and> py_Status p = StatusFailed")
  case True
  then obtain d p where d: "gm_get (ds_decisions s) cid = Some d" "dn_Payout d = Some p" "py_Status p = StatusFailed" by blast
  let ?d = "d\<lparr>dn_Payout := Some (retry_change r p)\<rparr>"
  note D = decision_invD [OF inv d(1)]
  have ok: "decision_ok ?d"
    by (rule change_decision_ok [OF D(2) d(2)]) (use good_changes(3) [of r] in \<open>auto simp: good_change_def\<close>)
  obtain st where st: "StatusOf ?d = Some st" using decision_ok_StatusOf [OF ok] by blast
  have "fst (store_RetryPayout cid r s) = setStatus cid st (put_decision cid ?d s)"
    using d st by (simp add: store_RetryPayout_def Let_def)
  with move_decision_inv [OF inv d(1) _ _ ok st] D(1) show ?thesis by simp
qed (auto simp: store_RetryPayout_def Let_def inv split: option.splits if_splits)

lemma RecordGatewayCode_inv [inv_intros]:
  assumes inv: "decision_inv s"
  shows "decision_inv (RecordGatewayCode cid code s)"
proof (cases "\<exists>d p. gm_get (ds_decisions s) cid = Some d \<and> dn_Payout d = Some p \<and> py_Status p = StatusFailed")
  case True
  then obtain d p where d: "gm_get (ds_decisions s) cid = Some d" "dn_Payout d = Some p" "py_Status p = StatusFailed" by blast
  let ?d = "d\<lparr>dn_Payout := Some (p\<lparr>py_GatewayCode := code\<rparr>)\<rparr>"
  note D = decision_invD [OF inv d(1)] and P = decision_ok_payout [OF decision_invD(2) [OF inv d(1)] d(2)]
  have "decision_ok ?d"
    by (rule change_decision_ok [OF D(2) d(2)]) (use P(2) in \<open>auto simp: payout_ok_def\<close>)
  then have "decision_inv (put_decision cid ?d s)"
    using D(1) d(2) by (intro put_decision_inv [OF inv d(1)]) (simp_all add: StatusOf_def)
  with d show ?thesis by (simp add: RecordGatewayCode_def)
qed (auto simp: RecordGatewayCode_def inv split: option.splits)

lemma on_unsent_inv [inv_intros]:
  assumes inv: "decision_inv s"
  shows "decision_inv (on_unsent cid f s)"
proof (cases "\<exists>d n. gm_get (ds_decisions s) cid = Some d \<and> dn_Notice d = Some n \<and> time_IsZero (nt_SentAt n)")
  case True
  then obtain d n where d: "gm_get (ds_decisions s) cid = Some d" "dn_Notice d = Some n" "time_IsZero (nt_SentAt n)" by blast
  let ?d = "d\<lparr>dn_Notice := Some (f n)\<rparr>"
  note D = decision_invD [OF inv d(1)]
  have "decision_ok ?d" using D(2) d(2) by (auto simp: decision_ok_def split: decision_outcome.splits)
  then have "decision_inv (put_decision cid ?d s)"
    using D(1) by (intro put_decision_inv [OF inv d(1)]) (simp_all add: StatusOf_def)
  with d show ?thesis by (simp add: on_unsent_def)
qed (auto simp: on_unsent_def inv split: option.splits)

end
