(* ===== verification/Claims_Payout.thy ===== *)
theory Claims_Payout
  imports Claims_Decision
begin

text \<open>
  The worker that pays the approved claims and tells the insured of the rejected ones
  (\<^verbatim>\<open>decision/worker.go\<close>, \<^verbatim>\<open>adapters/payouts/gateway.go\<close>). It runs the mechanism of
  \<open>Idempotency\<close> over the store of the decisions, with the number of automatic attempts bounded
  (\<^verbatim>\<open>capped\<close>): the interpretation \<open>payouts\<close> discharges the contract of that mechanism for the
  store as it is written. The second half of the theory puts any number of workers, the analyst and
  the payment gateway side by side as a step relation, and proves what holds in every state they
  can reach. The gateway and the e-mail provider are other services: they are arguments.
\<close>

section \<open>The worker\<close>

definition DefaultPollInterval :: duration where "DefaultPollInterval = 2 * time_Second"
definition DefaultClaimLease :: duration where "DefaultClaimLease = 30 * time_Second"
definition batchSize :: nat where "batchSize = 50"

definition DefaultRetry :: retry_policy where
  "DefaultRetry = \<lparr>rp_Base = 2 * time_Second, rp_Max = 30 * time_Second, rp_Window = 0\<rparr>"

record worker_config =
  wc_PollInterval :: duration
  wc_ClaimLease :: duration
  wc_Retry :: retry_policy

definition withDefaults :: "worker_config \<Rightarrow> worker_config" where
  "withDefaults c =
    (let c1 = (if wc_PollInterval c \<le> 0 then c\<lparr>wc_PollInterval := DefaultPollInterval\<rparr> else c);
         c2 = (if wc_ClaimLease c1 \<le> 0 then c1\<lparr>wc_ClaimLease := DefaultClaimLease\<rparr> else c1)
     in if rp_Base (wc_Retry c2) \<le> 0 then c2\<lparr>wc_Retry := DefaultRetry\<rparr> else c2)"

definition capped_Reschedule ::
  "decision \<Rightarrow> time \<Rightarrow> time \<Rightarrow> string \<Rightarrow> decision_store \<Rightarrow> decision_store \<times> (go_error + decision)" where
  "capped_Reschedule d now next cause s =
    (if (case dn_Payout d of None \<Rightarrow> False | Some p \<Rightarrow> py_Attempts p + 1 \<ge> MaxAutomaticPayoutAttempts)
     then Fail_payout d now ReasonWindowExpired cause s
     else Reschedule_payout d now next cause s)"

definition capped_store :: "(decision_store, decision) store" where
  "capped_store = \<lparr>st_Claim = Claim_payout, st_Confirm = Confirm_payout, st_Reschedule = capped_Reschedule,
     st_Fail = Fail_payout\<rparr>"

definition NewWorker :: "worker_config \<Rightarrow> runner_error + (decision_store, decision) runner" where
  "NewWorker cfg0 =
    (let cfg = withDefaults cfg0
     in NewRunner (Some capped_store) AttemptState (wc_Retry cfg) (wc_ClaimLease cfg))"

text \<open>The request the gateway gets for an approval.\<close>

record payout_request =
  rq_IdempotencyKey :: string
  rq_Reference :: string
  rq_BeneficiaryID :: string
  rq_AmountMinor :: int
  rq_Currency :: string
  rq_BankCode :: string
  rq_AccountType :: string
  rq_AccountNumber :: string

definition payout_request_of :: "decision \<Rightarrow> payout \<Rightarrow> payout_request" where
  "payout_request_of d p =
    \<lparr>rq_IdempotencyKey = py_Key p, rq_Reference = dn_FilingNumber d, rq_BeneficiaryID = py_BeneficiaryID p,
     rq_AmountMinor = py_AmountMinor p, rq_Currency = py_Currency p,
     rq_BankCode = pa_BankCode (py_Destination p), rq_AccountType = pa_AccountType (py_Destination p),
     rq_AccountNumber = pa_AccountNumber (py_Destination p)\<rparr>"

text \<open>The client of the gateway: what it answers to a request, and what the other workers did to the
  store while it did.\<close>

type_synonym payout_client = "payout_request \<Rightarrow> decision_store \<Rightarrow> decision_store \<times> (go_error + string)"

definition Gateway_Payout :: "payout_client \<Rightarrow> decision \<Rightarrow> decision_store \<Rightarrow> decision_store \<times> (go_error + string)" where
  "Gateway_Payout client d s =
    (case dn_Payout d of
       None \<Rightarrow> (s, Inl nil_panic)
     | Some p \<Rightarrow> client (payout_request_of d p) s)"

text \<open>\<^verbatim>\<open>payments.RejectedError\<close>: an error that is \<^verbatim>\<open>ErrRejected\<close> and carries the code of the
  gateway, and \<^verbatim>\<open>errors.As\<close> for it.\<close>

definition rejected_prefix :: string where "rejected_prefix = ''payments.RejectedError:''"

definition RejectedError :: "string \<Rightarrow> string \<Rightarrow> go_error" where
  "RejectedError code msg = GoError (err_chain ErrRejected @ [rejected_prefix @ code]) msg"

definition as_RejectedError :: "go_error \<Rightarrow> string option" where
  "as_RejectedError e =
    map_option (drop (length rejected_prefix)) (find (prefix rejected_prefix) (err_chain e))"

definition recordGatewayCode :: "string \<Rightarrow> go_error option \<Rightarrow> decision_store \<Rightarrow> decision_store" where
  "recordGatewayCode claimID callErr s =
    (case callErr of
       None \<Rightarrow> s
     | Some e \<Rightarrow>
        (case as_RejectedError e of
           None \<Rightarrow> s
         | Some code \<Rightarrow> if code = '''' then s else RecordGatewayCode claimID code s))"

definition pay_exec :: "payout_client \<Rightarrow> (decision_store, decision) exec" where
  "pay_exec client d s =
    (case Gateway_Payout client d s of
       (s1, Inl e) \<Rightarrow> (s1, Inl e)
     | (s1, Inr ref) \<Rightarrow> (s1, Inr \<lparr>oc_Reference = ref\<rparr>))"

definition pay ::
  "(decision_store, decision) runner \<Rightarrow> payout_client \<Rightarrow> string \<Rightarrow> time \<Rightarrow> time \<Rightarrow> decision_store \<Rightarrow> decision_store" where
  "pay rn client claimID now1 now2 s =
    (case Runner_Process rn claimID (pay_exec client) now1 now2 s of
       (s1, rep, Some _) \<Rightarrow> s1
     | (s1, rep, None) \<Rightarrow>
        if \<not> rep_Claimed rep then s1
        else case Option.bind (rep_Record rep) dn_Payout of
               None \<Rightarrow> s1
             | Some p \<Rightarrow> (case py_Status p of
                           StatusFailed \<Rightarrow> recordGatewayCode claimID (rep_CallErr rep) s1
                         | _ \<Rightarrow> s1))"

type_synonym mailer = "string \<Rightarrow> string \<Rightarrow> string \<Rightarrow> string \<Rightarrow> go_error option"

definition RejectionNotice :: "decision \<Rightarrow> string \<times> string" where
  "RejectionNotice d =
    (''Tu siniestro '' @ dn_FilingNumber d @ '' fue rechazado'',
     ''Hola,'' @ nl @ nl @ ''Revisamos tu siniestro '' @ dn_FilingNumber d @ '' y no fue aprobado.'' @ nl @ nl @
     ''Motivo: '' @ dn_Reason d @ nl @ nl @
     ''Puedes ver el detalle en Mis siniestros. Si tienes preguntas, responde a este correo.'' @ nl @ nl @ ''Solventa'')"

definition notify :: "mailer \<Rightarrow> retry_policy \<Rightarrow> time \<Rightarrow> decision \<Rightarrow> decision_store \<Rightarrow> decision_store" where
  "notify send retry now d s =
    (case dn_Notice d of
       None \<Rightarrow> s
     | Some n \<Rightarrow>
        let (subject, body) = RejectionNotice d in
        case send (nt_To n) subject body (NoticeKey (dn_ClaimID d)) of
          None \<Rightarrow> NoticeSent (dn_ClaimID d) now s
        | Some err \<Rightarrow> NoticeFailed (dn_ClaimID d) (time_Add now (Backoff retry (nt_Attempts n + 1))) (err_text err) s)"

fun pay_loop ::
  "(decision_store, decision) runner \<Rightarrow> payout_client \<Rightarrow> (nat \<Rightarrow> time) \<Rightarrow> nat \<Rightarrow> string list \<Rightarrow> decision_store \<Rightarrow> decision_store" where
  "pay_loop rn client clk i [] s = s"
| "pay_loop rn client clk i (cid # ids) s = pay_loop rn client clk (i + 2) ids (pay rn client cid (clk i) (clk (i + 1)) s)"

fun notify_loop ::
  "mailer \<Rightarrow> retry_policy \<Rightarrow> (nat \<Rightarrow> time) \<Rightarrow> nat \<Rightarrow> decision list \<Rightarrow> decision_store \<Rightarrow> decision_store" where
  "notify_loop send retry clk i [] s = s"
| "notify_loop send retry clk i (d # ds) s = notify_loop send retry clk (i + 1) ds (notify send retry (clk i) d s)"

text \<open>One pass of the worker whose context does not end meanwhile; \<open>clk\<close> gives the readings of the
  clock in the order they are made.\<close>

definition ProcessDue ::
  "(decision_store, decision) runner \<Rightarrow> payout_client \<Rightarrow> mailer option \<Rightarrow> (nat \<Rightarrow> time) \<Rightarrow> decision_store \<Rightarrow> decision_store \<times> nat" where
  "ProcessDue rn client send clk s =
    (let ids = ListPayoutsDue (clk 0) batchSize s;
         s1 = pay_loop rn client clk 1 ids s;
         k = 1 + 2 * length ids
     in case send of
          None \<Rightarrow> (s1, length ids)
        | Some m \<Rightarrow>
           let notices = ListNoticesDue (clk k) batchSize s1
           in (notify_loop m (rn_policy rn) clk (k + 1) notices s1, length ids + length notices))"

section \<open>The store keeps the contract of the mechanism\<close>

definition view_payout :: "decision_store \<Rightarrow> string \<Rightarrow> attempt option" where
  "view_payout s cid =
    (case gm_get (ds_decisions s) cid of
       None \<Rightarrow> None
     | Some d \<Rightarrow> if dn_Payout d = None then None else Some (AttemptState d))"

lemma AttemptState_sel [simp]:
  "at_ID (AttemptState d) = dn_ClaimID d"
  "dn_Payout d = Some p \<Longrightarrow> at_Key (AttemptState d) = py_Key p"
  "dn_Payout d = Some p \<Longrightarrow> at_Status (AttemptState d) = py_Status p"
  "dn_Payout d = Some p \<Longrightarrow> at_ClaimedUntil (AttemptState d) = py_ClaimedUntil p"
  "dn_Payout d = Some p \<Longrightarrow> at_NextAttemptAt (AttemptState d) = py_NextAttemptAt p"
  "dn_Payout d = Some p \<Longrightarrow> at_FailedAttempts (AttemptState d) = py_Attempts p"
  "at_WindowEndsAt (AttemptState d) = 0"
  by (auto simp: AttemptState_def split: option.split)

lemma claimable_due: "dn_Payout d = Some p \<Longrightarrow> claimable now (AttemptState d) \<longleftrightarrow> due (Some p) now"
  by (auto simp: claimable_def due_def)

lemma view_payout_Some:
  "view_payout s cid = Some a \<longleftrightarrow> (\<exists>d p. gm_get (ds_decisions s) cid = Some d \<and> dn_Payout d = Some p \<and> a = AttemptState d)"
  by (auto simp: view_payout_def split: option.split)

lemma holds_iff:
  assumes "dn_Payout r \<noteq> None"
  shows "(\<exists>a. view_payout s (dn_ClaimID r) = Some a \<and> holds_claim a (AttemptState r)) \<longleftrightarrow> (\<exists>d p. holds_payout s r d p)"
  using assms by (fastforce simp: view_payout_Some holds_claim_def holds_payout_def)

lemma view_payout_put: "dn_Payout d \<noteq> None \<Longrightarrow> view_payout (put_decision cid d s) = (view_payout s)(cid \<mapsto> AttemptState d)"
  by (rule ext) (auto simp: view_payout_def)

lemma view_payout_setStatus [simp]: "view_payout (setStatus cid st s) = view_payout s"
  by (rule ext) (simp add: view_payout_def)

text \<open>A result recorded while the claim is held, seen through the view of the mechanism.\<close>

lemma held_view:
  assumes inv: "decision_inv s" and r: "dn_Payout r \<noteq> None"
    and a: "view_payout s (dn_ClaimID r) = Some a" "holds_claim a (AttemptState r)" and g: "good_on_held f"
  shows "\<exists>s' d1 p. held r f s = (s', Inr d1) \<and> decision_inv s' \<and> dn_Payout d1 = Some (f p) \<and>
    view_payout s' = (view_payout s)(at_ID a \<mapsto> AttemptState d1) \<and> at_Key (AttemptState d1) = at_Key a"
proof -
  from a(1) obtain d p where d: "gm_get (ds_decisions s) (dn_ClaimID r) = Some d" "dn_Payout d = Some p" "a = AttemptState d"
    by (auto simp: view_payout_Some)
  have h: "holds_payout s r d p" using d a(2) r by (auto simp: holds_claim_def holds_payout_def)
  from held_ok [OF inv h g] obtain st d1 where
    d1: "d1 = d\<lparr>dn_Payout := Some (f p)\<rparr>" "held r f s = (setStatus (dn_ClaimID r) st (put_decision (dn_ClaimID r) d1 s), Inr d1)"
      "decision_inv (fst (held r f s))" "what_was_decided d1 = what_was_decided d" by blast
  have "at_ID a = dn_ClaimID r" using d(3) decision_invD(1) [OF inv d(1)] by simp
  moreover have "py_Key (f p) = py_Key p" using d1(1,4) d(2) by (auto simp: what_was_decided_def)
  ultimately show ?thesis
    using d1 d by (auto simp: view_payout_put)
qed

interpretation payouts: attempt_store capped_store view_payout AttemptState decision_inv "\<lambda>_ d. dn_Payout d \<noteq> None" claimable
proof
  fix now a
  assume "claimable now a"
  then show "claimable now a" .
next
  fix s i a
  assume "decision_inv s" "view_payout s i = Some a"
  then show "at_ID a = i" using decision_invD(1) by (auto simp: view_payout_Some)
next
  fix s i now lease s' r
  assume inv: "decision_inv s" and "st_Claim capped_store i now lease s = (s', Inr (Some r))"
  then have c: "Claim_payout i now lease s = (s', Inr (Some r))" by (simp add: capped_store_def)
  obtain d p where d: "gm_get (ds_decisions s) i = Some d" "dn_Payout d = Some p" "due (Some p) now"
    "r = d\<lparr>dn_Payout := Some (p\<lparr>py_Status := StatusInProgress, py_ClaimedUntil := time_Add now lease, py_LastAttemptAt := now\<rparr>)\<rparr>"
    "s' = put_decision i r s"
    using Claim_payout_ok [OF inv c] by blast
  have "AttemptState r = claim_of now lease (AttemptState d)"
    using d(2,4) by (simp add: AttemptState_def claim_of_def)
  moreover have "view_payout s i = Some (AttemptState d)" using d(1,2) by (auto simp: view_payout_Some)
  ultimately show "\<exists>a. view_payout s i = Some a \<and> claimable now a \<and> dn_Payout r \<noteq> None \<and>
      AttemptState r = claim_of now lease a \<and> view_payout s' = (view_payout s)(i \<mapsto> claim_of now lease a)"
    using d by (auto simp: claimable_due view_payout_put)
next
  fix s i now lease s'
  assume c: "st_Claim capped_store i now lease s = (s', Inr None)"
  then show "s' = s \<and> (case view_payout s i of None \<Rightarrow> True | Some a \<Rightarrow> \<not> claimable now a)"
    by (auto simp: capped_store_def Claim_payout_def view_payout_def Let_def claimable_due split: option.splits if_splits)
next
  fix s i now lease s' e
  show "st_Claim capped_store i now lease s \<noteq> (s', Inl e)" by (simp add: capped_store_def Claim_payout_no_error)
next
  fix s i now lease
  assume inv: "decision_inv s"
  show "decision_inv (fst (st_Claim capped_store i now lease s))"
  proof (cases "st_Claim capped_store i now lease s")
    case (Pair s' res)
    then show ?thesis
      using inv Claim_payout_ok [OF inv] Claim_payout_none Claim_payout_no_error
      by (cases res; cases "projr res") (fastforce simp: capped_store_def)+
  qed
next
  fix s r a now out
  assume "decision_inv s" "dn_Payout r \<noteq> None" "view_payout s (at_ID (AttemptState r)) = Some a" "holds_claim a (AttemptState r)"
  with held_view [of s r a "confirm_change now out"]
  show "\<exists>s' r' a'. st_Confirm capped_store r now out s = (s', Inr r') \<and> decision_inv s' \<and>
      view_payout s' = (view_payout s)(at_ID a \<mapsto> a') \<and> at_Status a' = StatusConfirmed \<and> at_Key a' = at_Key a"
    by (fastforce simp: capped_store_def Confirm_payout_def confirm_change_def good_change_held)
next
  fix s r now out
  assume "decision_inv s" "dn_Payout r \<noteq> None"
    "\<not> (\<exists>a. view_payout s (at_ID (AttemptState r)) = Some a \<and> holds_claim a (AttemptState r))"
  then show "st_Confirm capped_store r now out s = (s, Inl ErrClaimLost)"
    by (simp add: capped_store_def Confirm_payout_def holds_iff held_lost)
next
  fix s r a now next_at cause
  assume a: "decision_inv s" "dn_Payout r \<noteq> None" "view_payout s (at_ID (AttemptState r)) = Some a" "holds_claim a (AttemptState r)"
  show "\<exists>s' r' a'. st_Reschedule capped_store r now next_at cause s = (s', Inr r') \<and> decision_inv s' \<and>
      view_payout s' = (view_payout s)(at_ID a \<mapsto> a') \<and> at_Key a' = at_Key a \<and>
      (at_Status a' = StatusPending \<and> at_NextAttemptAt a' = next_at \<or> at_Status a' = StatusFailed)"
    using a held_view [of s r a "reschedule_change now next_at cause"] held_view [of s r a "fail_change now ReasonWindowExpired cause"]
    by (cases "capped_Reschedule r now next_at cause s = Fail_payout r now ReasonWindowExpired cause s")
      (fastforce simp: capped_store_def capped_Reschedule_def Reschedule_payout_def Fail_payout_def
        reschedule_change_def fail_change_def good_change_held split: if_splits)+
next
  fix s r now next_at cause
  assume "decision_inv s" "dn_Payout r \<noteq> None"
    "\<not> (\<exists>a. view_payout s (at_ID (AttemptState r)) = Some a \<and> holds_claim a (AttemptState r))"
  then show "st_Reschedule capped_store r now next_at cause s = (s, Inl ErrClaimLost)"
    by (simp add: capped_store_def capped_Reschedule_def Reschedule_payout_def Fail_payout_def holds_iff held_lost)
next
  fix s r a now reason cause
  assume "decision_inv s" "dn_Payout r \<noteq> None" "view_payout s (at_ID (AttemptState r)) = Some a" "holds_claim a (AttemptState r)"
  with held_view [of s r a "fail_change now reason cause"]
  show "\<exists>s' r' a'. st_Fail capped_store r now reason cause s = (s', Inr r') \<and> decision_inv s' \<and>
      view_payout s' = (view_payout s)(at_ID a \<mapsto> a') \<and> at_Status a' = StatusFailed \<and> at_Key a' = at_Key a"
    by (fastforce simp: capped_store_def Fail_payout_def fail_change_def good_change_held)
next
  fix s r now reason cause
  assume "decision_inv s" "dn_Payout r \<noteq> None"
    "\<not> (\<exists>a. view_payout s (at_ID (AttemptState r)) = Some a \<and> holds_claim a (AttemptState r))"
  then show "st_Fail capped_store r now reason cause s = (s, Inl ErrClaimLost)"
    by (simp add: capped_store_def Fail_payout_def holds_iff held_lost)
qed

section \<open>Workers, analysts and the gateway together\<close>

text \<open>
  The whole of the payments: the store; the ledger of the gateway, the disbursement it made under
  each key; the attempts in flight, each the record a worker claimed and, once the call returned,
  its result; and the clock. A worker claims a payout, calls the gateway, records the result, or
  dies at any point. The gateway is the documented one: for a key it has executed it never executes
  again, it answers a success only for a key it has executed, and it may fail in any other way,
  before or after executing. Analysts decide and retry, the insured file claims, and the notices
  of the rejections go out, at any time.
\<close>

type_synonym disbursement = "int \<times> string \<times> string"

definition disbursement_of :: "payout \<Rightarrow> disbursement" where
  "disbursement_of p = (py_AmountMinor p, py_Currency p, py_BeneficiaryID p)"

type_synonym flight = "decision \<times> (go_error + outcome) option"

record pay_sys =
  ps_store :: decision_store
  ps_ledger :: "string \<rightharpoonup> disbursement"
  ps_flight :: "flight list"
  ps_now :: time

definition worker_runner :: "retry_policy \<Rightarrow> duration \<Rightarrow> (decision_store, decision) runner" where
  "worker_runner p lease = \<lparr>rn_store = capped_store, rn_state = AttemptState, rn_policy = p, rn_lease = lease\<rparr>"

definition recorded :: "retry_policy \<Rightarrow> duration \<Rightarrow> decision \<Rightarrow> time \<Rightarrow> go_error + outcome \<Rightarrow> decision_store \<Rightarrow> decision_store" where
  "recorded p lease r now res s = fst (snd (snd (record_result (worker_runner p lease) r now res s)))"

inductive pay_step :: "pay_sys \<Rightarrow> pay_sys \<Rightarrow> bool" where
  tick: "ps_now y \<le> t \<Longrightarrow> pay_step y (y\<lparr>ps_now := t\<rparr>)"
| approve: "domain_Approve c cov ho gross who t = Inr d \<Longrightarrow>
    pay_step y (y\<lparr>ps_store := fst (Decide d (ps_store y))\<rparr>)"
| reject: "domain_Reject c reason to who t = Inr d \<Longrightarrow>
    pay_step y (y\<lparr>ps_store := fst (Decide d (ps_store y))\<rparr>)"
| retry: "pay_step y (y\<lparr>ps_store := fst (store_RetryPayout cid r (ps_store y))\<rparr>)"
| claim: "Claim_payout cid (ps_now y) lease (ps_store y) = (s', Inr (Some r)) \<Longrightarrow> 0 < lease \<Longrightarrow>
    pay_step y (y\<lparr>ps_store := s', ps_flight := (r, None) # ps_flight y\<rparr>)"
| call_executes: "(r, None) \<in> set (ps_flight y) \<Longrightarrow> dn_Payout r = Some p \<Longrightarrow> ps_ledger y (py_Key p) = None \<Longrightarrow>
    pay_step y (y\<lparr>ps_ledger := (ps_ledger y)(py_Key p \<mapsto> disbursement_of p),
                  ps_flight := (r, Some res) # remove1 (r, None) (ps_flight y)\<rparr>)"
| call_answers: "(r, None) \<in> set (ps_flight y) \<Longrightarrow> dn_Payout r = Some p \<Longrightarrow>
    (\<forall>out. res = Inr out \<longrightarrow> ps_ledger y (py_Key p) \<noteq> None) \<Longrightarrow>
    pay_step y (y\<lparr>ps_flight := (r, Some res) # remove1 (r, None) (ps_flight y)\<rparr>)"
| write_result: "(r, Some res) \<in> set (ps_flight y) \<Longrightarrow>
    pay_step y (y\<lparr>ps_store := recorded pol lease r (ps_now y) res (ps_store y),
                  ps_flight := remove1 (r, Some res) (ps_flight y)\<rparr>)"
| crash: "pay_step y (y\<lparr>ps_flight := remove1 f (ps_flight y)\<rparr>)"
| gateway_code: "pay_step y (y\<lparr>ps_store := RecordGatewayCode cid code (ps_store y)\<rparr>)"
| notice: "(\<And>n. nt_To (f n) = nt_To n) \<Longrightarrow> pay_step y (y\<lparr>ps_store := on_unsent cid f (ps_store y)\<rparr>)"
| file_mobile: "fresh_id (ds_cases (ps_store y)) (cl_ID m) \<Longrightarrow> cl_Status m = StatusActive \<Longrightarrow>
    pay_step y (y\<lparr>ps_store := (ps_store y)\<lparr>ds_cases := fst (Create m (ds_cases (ps_store y)))\<rparr>\<rparr>)"
| file_web: "fresh_id (ds_cases (ps_store y)) (cl_ID w) \<Longrightarrow> cl_Status w = StatusActive \<Longrightarrow>
    pay_step y (y\<lparr>ps_store := (ps_store y)\<lparr>ds_cases := fst (CreateWeb w (ds_cases (ps_store y)))\<rparr>\<rparr>)"

definition pay_init :: "time \<Rightarrow> pay_sys" where
  "pay_init t = \<lparr>ps_store = NewDecisionStore NewCaseStore, ps_ledger = Map.empty, ps_flight = [], ps_now = t\<rparr>"

subsection \<open>What was decided never changes\<close>

definition evolves :: "decision_store \<Rightarrow> decision_store \<Rightarrow> bool" where
  "evolves s s' \<longleftrightarrow> (\<forall>cid d. gm_get (ds_decisions s) cid = Some d \<longrightarrow>
     (\<exists>d'. gm_get (ds_decisions s') cid = Some d' \<and> what_was_decided d' = what_was_decided d))"

lemma evolves_refl [simp]: "evolves s s"
  by (simp add: evolves_def)

lemma evolves_trans: "evolves s t \<Longrightarrow> evolves t u \<Longrightarrow> evolves s u"
  by (fastforce simp: evolves_def)

lemma evolves_cases [simp]: "evolves s (s\<lparr>ds_cases := c\<rparr>)"
  by (simp add: evolves_def)

lemma evolves_put:
  assumes "gm_get (ds_decisions s) cid = Some d" and "what_was_decided d' = what_was_decided d"
  shows "evolves s (put_decision cid d' s)" and "evolves s (setStatus cid st (put_decision cid d' s))"
  using assms by (auto simp: evolves_def)

lemma Decide_evolves:
  assumes "decision_ok d"
  shows "evolves s (fst (Decide d s))"
proof (cases "Decide d s")
  case (Pair s' res)
  from assms Pair show ?thesis
    by (cases rule: Decide_cases) (auto simp: evolves_def Pair)
qed

lemma retry_evolves: "evolves s (fst (store_RetryPayout cid r s))"
proof -
  have "what_was_decided (d\<lparr>dn_Payout := Some (retry_change r p)\<rparr>) = what_was_decided d" if "dn_Payout d = Some p" for d p
    using that good_changes(3) [of r] by (auto simp: what_was_decided_def good_change_def)
  then show ?thesis
    by (auto simp: store_RetryPayout_def Let_def intro: evolves_put split: option.splits)
qed

lemma held_evolves: "decision_inv s \<Longrightarrow> good_on_held f \<Longrightarrow> dn_Payout r \<noteq> None \<Longrightarrow> evolves s (fst (held r f s))"
proof (cases "\<exists>d p. holds_payout s r d p")
  case True
  assume a: "decision_inv s" "good_on_held f"
  from True obtain d p where h: "holds_payout s r d p" by blast
  from held_ok [OF a(1) h a(2)] show ?thesis
    using h by (auto simp: holds_payout_def intro: evolves_put)
next
  case False
  assume "decision_inv s" "dn_Payout r \<noteq> None"
  with False held_lost [of s r f] show ?thesis by auto
qed

lemma code_evolves: "evolves s (RecordGatewayCode cid code s)"
  by (auto simp: RecordGatewayCode_def what_was_decided_def intro!: evolves_put split: option.splits)

lemma on_unsent_evolves: "(\<And>n. nt_To (f n) = nt_To n) \<Longrightarrow> evolves s (on_unsent cid f s)"
  by (auto simp: on_unsent_def what_was_decided_def intro!: evolves_put split: option.splits)

lemma recorded_held:
  "\<exists>f. good_on_held f \<and> recorded pol lease r now res s = fst (held r f s) \<and>
     (f = fail_change now (if \<exists>e. res = Inl e \<and> errors_Is e ErrRejected then ReasonRejected else ReasonWindowExpired)
            (case res of Inl e \<Rightarrow> err_text e | Inr _ \<Rightarrow> '''') \<or>
      (\<exists>next cause. f = reschedule_change now next cause \<and>
         \<not> (case dn_Payout r of None \<Rightarrow> False | Some p \<Rightarrow> py_Attempts p + 1 \<ge> MaxAutomaticPayoutAttempts)) \<or>
      (\<exists>out. res = Inr out \<and> f = confirm_change now out))"
proof (cases res)
  case (Inr out)
  then have "recorded pol lease r now res s = fst (held r (confirm_change now out) s)"
    by (simp add: recorded_def record_result_def worker_runner_def capped_store_def Confirm_payout_def case_prod_beta)
  with Inr show ?thesis by (auto intro!: exI [of _ "confirm_change now out"] simp: good_change_held)
next
  case (Inl e)
  have nx: "snd (Next pol n 0 now) = False" for n by (simp add: Next_def Let_def)
  let ?r = "errors_Is e ErrRejected" and ?cap = "case dn_Payout r of None \<Rightarrow> False | Some p \<Rightarrow> py_Attempts p + 1 \<ge> MaxAutomaticPayoutAttempts"
  let ?next = "fst (Next pol (at_FailedAttempts (AttemptState r) + 1) 0 now)"
  have cl: "Classify (Some e) = OutcomeRejected \<longleftrightarrow> ?r" by (simp add: Classify_def)
  have "recorded pol lease r now res s =
     fst (if ?r then Fail_payout r now ReasonRejected (err_text e) s
          else capped_Reschedule r now ?next (err_text e) s)"
    using nx by (simp add: recorded_def record_result_def worker_runner_def capped_store_def Inl cl case_prod_beta Let_def)
  moreover have "good_on_held (fail_change now (if ?r then ReasonRejected else ReasonWindowExpired) (err_text e))"
    by (simp add: good_change_held)
  ultimately show ?thesis
  proof (cases "?r \<or> ?cap")
    case True
    assume "recorded pol lease r now res s = fst (if ?r then Fail_payout r now ReasonRejected (err_text e) s
          else capped_Reschedule r now ?next (err_text e) s)"
      and "good_on_held (fail_change now (if ?r then ReasonRejected else ReasonWindowExpired) (err_text e))"
    with True Inl show ?thesis
      by (intro exI [of _ "fail_change now (if ?r then ReasonRejected else ReasonWindowExpired) (err_text e)"])
        (auto simp: capped_Reschedule_def Fail_payout_def)
  next
    case False
    assume "recorded pol lease r now res s = fst (if ?r then Fail_payout r now ReasonRejected (err_text e) s
          else capped_Reschedule r now ?next (err_text e) s)"
    with False Inl show ?thesis
      by (intro exI [of _ "reschedule_change now ?next (err_text e)"])
        (auto simp: capped_Reschedule_def Reschedule_payout_def)
  qed
qed

subsection \<open>The invariant\<close>

text \<open>Every disbursement is the one of a decided payout; a paid claim has its disbursement; what is
  in flight is a version of what is stored, and a success in flight has its disbursement.\<close>

definition ledger_ok :: "decision_store \<Rightarrow> (string \<rightharpoonup> disbursement) \<Rightarrow> bool" where
  "ledger_ok s L \<longleftrightarrow> (\<forall>k b. L k = Some b \<longrightarrow>
     (\<exists>cid d p. gm_get (ds_decisions s) cid = Some d \<and> dn_Payout d = Some p \<and> py_Key p = k \<and> disbursement_of p = b))"

definition paid_ok :: "decision_store \<Rightarrow> (string \<rightharpoonup> disbursement) \<Rightarrow> bool" where
  "paid_ok s L \<longleftrightarrow> (\<forall>cid d p. gm_get (ds_decisions s) cid = Some d \<and> dn_Payout d = Some p \<and>
     py_Status p = StatusConfirmed \<longrightarrow> L (py_Key p) \<noteq> None)"

definition flight_ok :: "decision_store \<Rightarrow> (string \<rightharpoonup> disbursement) \<Rightarrow> flight list \<Rightarrow> bool" where
  "flight_ok s L F \<longleftrightarrow> (\<forall>(r, res) \<in> set F. \<exists>rp d. dn_Payout r = Some rp \<and>
     gm_get (ds_decisions s) (dn_ClaimID r) = Some d \<and> what_was_decided d = what_was_decided r \<and>
     (\<forall>out. res = Some (Inr out) \<longrightarrow> L (py_Key rp) \<noteq> None))"

text \<open>The automatic attempts: at most two failures while the payout can still be sent, and the third
  makes it an exception.\<close>

definition attempts_fine :: "payout \<Rightarrow> bool" where
  "attempts_fine p \<longleftrightarrow> 0 \<le> py_Attempts p \<and>
     (if py_Status p = StatusFailed then py_Attempts p \<le> MaxAutomaticPayoutAttempts
      else py_Attempts p < MaxAutomaticPayoutAttempts)"

definition attempts_ok :: "decision_store \<Rightarrow> bool" where
  "attempts_ok s \<longleftrightarrow> (\<forall>cid d p. gm_get (ds_decisions s) cid = Some d \<and> dn_Payout d = Some p \<longrightarrow> attempts_fine p)"

text \<open>At most one attempt in flight holds each payout; it has the count the store has, and every
  other one has a lease that ended.\<close>

definition lease_state :: "decision_store \<Rightarrow> time \<Rightarrow> decision \<Rightarrow> bool" where
  "lease_state s now r \<longleftrightarrow>
     (\<exists>d p. holds_payout s r d p \<and> (\<forall>rp. dn_Payout r = Some rp \<longrightarrow> py_Attempts p = py_Attempts rp)) \<or>
     (\<forall>d p. \<not> holds_payout s r d p) \<and> at_ClaimedUntil (AttemptState r) < now"

definition lease_id :: "flight \<Rightarrow> string \<times> time" where
  "lease_id f = (dn_ClaimID (fst f), at_ClaimedUntil (AttemptState (fst f)))"

definition lease_ok :: "decision_store \<Rightarrow> flight list \<Rightarrow> time \<Rightarrow> bool" where
  "lease_ok s F now \<longleftrightarrow> distinct (map lease_id F) \<and> (\<forall>f \<in> set F. lease_state s now (fst f))"

definition pay_inv :: "pay_sys \<Rightarrow> bool" where
  "pay_inv y \<longleftrightarrow> decision_inv (ps_store y) \<and> ledger_ok (ps_store y) (ps_ledger y) \<and>
     paid_ok (ps_store y) (ps_ledger y) \<and> flight_ok (ps_store y) (ps_ledger y) (ps_flight y) \<and>
     attempts_ok (ps_store y) \<and> lease_ok (ps_store y) (ps_flight y) (ps_now y)"

lemma what_was_decided_payout:
  assumes "what_was_decided d' = what_was_decided d" and "dn_Payout d = Some p"
  shows "\<exists>p'. dn_Payout d' = Some p' \<and> py_Key p' = py_Key p \<and> disbursement_of p' = disbursement_of p"
  using assms by (auto simp: what_was_decided_def disbursement_of_def)

lemma ledger_ok_evolves: "ledger_ok s L \<Longrightarrow> evolves s s' \<Longrightarrow> ledger_ok s' L"
  unfolding ledger_ok_def evolves_def by (metis what_was_decided_payout)

lemma flight_ok_evolves: "flight_ok s L F \<Longrightarrow> evolves s s' \<Longrightarrow> flight_ok s' L F"
  unfolding flight_ok_def evolves_def by (fastforce split: prod.splits)

lemma same_decisions:
  assumes "ds_decisions s' = ds_decisions s"
  shows "ledger_ok s' = ledger_ok s" "paid_ok s' = paid_ok s" "flight_ok s' = flight_ok s"
    "attempts_ok s' = attempts_ok s" "lease_ok s' = lease_ok s" "holds_payout s' = holds_payout s"
proof -
  show h: "holds_payout s' = holds_payout s" by (intro ext) (simp add: holds_payout_def assms)
  show "ledger_ok s' = ledger_ok s" "paid_ok s' = paid_ok s" "flight_ok s' = flight_ok s" "attempts_ok s' = attempts_ok s"
    "lease_ok s' = lease_ok s"
    by (intro ext iffI; simp add: ledger_ok_def paid_ok_def flight_ok_def attempts_ok_def lease_ok_def lease_state_def h assms)+
qed

lemma lease_ok_later: "lease_ok s F now \<Longrightarrow> now \<le> t \<Longrightarrow> lease_ok s F t"
  by (force simp: lease_ok_def lease_state_def)

text \<open>A write on a payout that nobody holds, before or after.\<close>

definition at_rest :: "decision option \<Rightarrow> bool" where
  "at_rest o1 \<longleftrightarrow> (\<forall>d p. o1 = Some d \<and> dn_Payout d = Some p \<longrightarrow> py_Status p \<noteq> StatusInProgress)"

lemma rest_write:
  assumes upd: "gm_get (ds_decisions s') = (gm_get (ds_decisions s))(cid \<mapsto> d1)"
    and rest: "at_rest (gm_get (ds_decisions s) cid)" "at_rest (Some d1)"
    and fine: "\<And>p. dn_Payout d1 = Some p \<Longrightarrow> attempts_fine p \<and> py_Status p \<noteq> StatusConfirmed"
  shows "attempts_ok s \<Longrightarrow> attempts_ok s'" and "paid_ok s L \<Longrightarrow> paid_ok s' L" and "lease_ok s F now \<Longrightarrow> lease_ok s' F now"
proof -
  show "attempts_ok s \<Longrightarrow> attempts_ok s'"
    using fine by (auto simp: attempts_ok_def upd)
  show "paid_ok s L \<Longrightarrow> paid_ok s' L"
    using fine by (auto simp: paid_ok_def upd)
  have h: "holds_payout s' r d p \<longleftrightarrow> holds_payout s r d p" for r d p
    using rest by (auto simp: holds_payout_def upd at_rest_def)
  show "lease_ok s F now \<Longrightarrow> lease_ok s' F now"
    by (simp add: lease_ok_def lease_state_def h)
qed

subsection \<open>Every step keeps it\<close>

text \<open>The parts of the invariant that a write of the store has to show, once it keeps what was decided.\<close>

lemma pay_inv_store:
  assumes "pay_inv y" and "decision_inv s'" and "evolves (ps_store y) s'"
    and "attempts_ok (ps_store y) \<Longrightarrow> attempts_ok s'"
    and "paid_ok (ps_store y) (ps_ledger y) \<Longrightarrow> paid_ok s' (ps_ledger y)"
    and "lease_ok (ps_store y) (ps_flight y) (ps_now y) \<Longrightarrow> lease_ok s' (ps_flight y) (ps_now y)"
  shows "pay_inv (y\<lparr>ps_store := s'\<rparr>)"
  using assms by (auto simp: pay_inv_def intro: ledger_ok_evolves flight_ok_evolves)

lemma pay_inv_decide:
  assumes inv: "pay_inv y" and ok: "decision_ok d"
    and new: "\<And>p. dn_Payout d = Some p \<Longrightarrow> py_Status p = StatusPending \<and> py_Attempts p = 0"
  shows "pay_inv (y\<lparr>ps_store := fst (Decide d (ps_store y))\<rparr>)"
proof (cases "Decide d (ps_store y)")
  case (Pair s' res)
  have D: "decision_inv (ps_store y)" using inv by (simp add: pay_inv_def)
  from ok Pair show ?thesis
  proof (cases rule: Decide_cases)
    case (decided c st d1)
    have upd: "gm_get (ds_decisions s') = (gm_get (ds_decisions (ps_store y)))(dn_ClaimID d \<mapsto> d1)"
      using decided(6) by simp
    have "at_rest (gm_get (ds_decisions (ps_store y)) (dn_ClaimID d))" "at_rest (Some d1)"
      using decided(3,4) new by (auto simp: at_rest_def)
    moreover have "attempts_fine p \<and> py_Status p \<noteq> StatusConfirmed" if "dn_Payout d1 = Some p" for p
      using that new decided(4) by (auto simp: attempts_fine_def MaxAutomaticPayoutAttempts_def)
    ultimately show ?thesis
      using Decide_inv [OF D ok] Decide_evolves [OF ok, of "ps_store y"] rest_write [OF upd] Pair
      by (intro pay_inv_store [OF inv]) auto
  qed (simp add: Pair inv)
qed

lemma pay_inv_retry:
  assumes inv: "pay_inv y"
  shows "pay_inv (y\<lparr>ps_store := fst (store_RetryPayout cid r (ps_store y))\<rparr>)"
proof (cases "\<exists>d p. gm_get (ds_decisions (ps_store y)) cid = Some d \<and> dn_Payout d = Some p \<and> py_Status p = StatusFailed")
  case True
  let ?s = "ps_store y" and ?s' = "fst (store_RetryPayout cid r (ps_store y))"
  have D: "decision_inv ?s" using inv by (simp add: pay_inv_def)
  from True obtain d p where d: "gm_get (ds_decisions ?s) cid = Some d" "dn_Payout d = Some p" "py_Status p = StatusFailed" by blast
  let ?d = "d\<lparr>dn_Payout := Some (retry_change r p)\<rparr>"
  have "decision_ok ?d"
    by (rule change_decision_ok [OF decision_invD(2) [OF D d(1)] d(2)])
      (use good_changes(3) [of r] in \<open>auto simp: good_change_def\<close>)
  then have upd: "gm_get (ds_decisions ?s') = (gm_get (ds_decisions ?s))(cid \<mapsto> ?d)"
    using decision_ok_StatusOf d by (fastforce simp: store_RetryPayout_def Let_def)
  have p': "py_Status (retry_change r p) = StatusPending" "py_Attempts (retry_change r p) = 0"
    by (simp_all add: retry_change_def Let_def split: option.split)
  have "at_rest (gm_get (ds_decisions ?s) cid)" "at_rest (Some ?d)" using d p' by (auto simp: at_rest_def)
  moreover have "attempts_fine q \<and> py_Status q \<noteq> StatusConfirmed" if "dn_Payout ?d = Some q" for q
    using that p' by (auto simp: attempts_fine_def MaxAutomaticPayoutAttempts_def)
  ultimately show ?thesis
    using store_RetryPayout_inv [OF D] retry_evolves rest_write [OF upd] by (intro pay_inv_store [OF inv]) auto
next
  case False
  then have "fst (store_RetryPayout cid r (ps_store y)) = ps_store y"
    by (auto simp: store_RetryPayout_def Let_def split: option.splits)
  with inv show ?thesis by simp
qed

lemma pay_inv_code:
  assumes inv: "pay_inv y"
  shows "pay_inv (y\<lparr>ps_store := RecordGatewayCode cid code (ps_store y)\<rparr>)"
proof (cases "\<exists>d p. gm_get (ds_decisions (ps_store y)) cid = Some d \<and> dn_Payout d = Some p \<and> py_Status p = StatusFailed")
  case True
  let ?s = "ps_store y"
  have D: "decision_inv ?s" and A: "attempts_ok ?s" using inv by (simp_all add: pay_inv_def)
  from True obtain d p where d: "gm_get (ds_decisions ?s) cid = Some d" "dn_Payout d = Some p" "py_Status p = StatusFailed" by blast
  let ?d = "d\<lparr>dn_Payout := Some (p\<lparr>py_GatewayCode := code\<rparr>)\<rparr>"
  have upd: "gm_get (ds_decisions (RecordGatewayCode cid code ?s)) = (gm_get (ds_decisions ?s))(cid \<mapsto> ?d)"
    using d by (simp add: RecordGatewayCode_def)
  have "at_rest (gm_get (ds_decisions ?s) cid)" "at_rest (Some ?d)" using d by (auto simp: at_rest_def)
  moreover have "attempts_fine q \<and> py_Status q \<noteq> StatusConfirmed" if "dn_Payout ?d = Some q" for q
    using that A d by (auto simp: attempts_fine_def attempts_ok_def)
  ultimately show ?thesis
    using RecordGatewayCode_inv [OF D] code_evolves rest_write [OF upd] by (intro pay_inv_store [OF inv]) auto
next
  case False
  then have "RecordGatewayCode cid code (ps_store y) = ps_store y"
    by (auto simp: RecordGatewayCode_def split: option.splits)
  with inv show ?thesis by simp
qed

lemma pay_inv_notice:
  assumes inv: "pay_inv y" and f: "\<And>n. nt_To (f n) = nt_To n"
  shows "pay_inv (y\<lparr>ps_store := on_unsent cid f (ps_store y)\<rparr>)"
proof (cases "on_unsent cid f (ps_store y) = ps_store y")
  case False
  let ?s = "ps_store y"
  have D: "decision_inv ?s" using inv by (simp add: pay_inv_def)
  from False obtain d n where d: "gm_get (ds_decisions ?s) cid = Some d" "dn_Notice d = Some n"
    and eq: "on_unsent cid f ?s = put_decision cid (d\<lparr>dn_Notice := Some (f n)\<rparr>) ?s"
    by (auto simp: on_unsent_def split: option.splits if_splits)
  have none: "dn_Payout d = None"
    using decision_invD(2) [OF D d(1)] d(2) by (auto simp: decision_ok_def split: decision_outcome.splits)
  have upd: "gm_get (ds_decisions (on_unsent cid f ?s)) = (gm_get (ds_decisions ?s))(cid \<mapsto> d\<lparr>dn_Notice := Some (f n)\<rparr>)"
    by (simp add: eq)
  have "at_rest (gm_get (ds_decisions ?s) cid)" "at_rest (Some (d\<lparr>dn_Notice := Some (f n)\<rparr>))"
    using d(1) none by (auto simp: at_rest_def)
  with none show ?thesis
    using on_unsent_inv [OF D] on_unsent_evolves [OF f] rest_write [OF upd] by (intro pay_inv_store [OF inv]) auto
qed (simp add: inv)

text \<open>Filing a claim does not touch the decisions.\<close>

lemma file_decision_inv:
  assumes inv: "decision_inv s" and case_inv': "case_inv cases'"
    and ext: "\<And>cid c. gm_get (cs_byID (ds_cases s)) cid = Some c \<Longrightarrow> gm_get (cs_byID cases') cid = Some c"
    and new: "\<And>cid c. gm_get (cs_byID cases') cid = Some c \<Longrightarrow> gm_get (cs_byID (ds_cases s)) cid = Some c \<or> cl_Status c = StatusActive"
  shows "decision_inv (s\<lparr>ds_cases := cases'\<rparr>)"
proof -
  have "\<exists>c. gm_get (cs_byID cases') cid = Some c \<and> StatusOf d = Some (cl_Status c) \<and> dn_FilingNumber d = cl_FilingNumber c"
    if "gm_get (ds_decisions s) cid = Some d" for cid d
    using decision_invD(3) [OF inv that] ext by blast
  moreover have "Decidable (cl_Status c)" if "gm_get (cs_byID cases') cid = Some c" "gm_get (ds_decisions s) cid = None" for cid c
    using new [OF that(1)] that(2) inv by (auto simp: decision_inv_def)
  ultimately show ?thesis
    using inv case_inv' unfolding decision_inv_def by auto
qed

lemma Create_grows:
  assumes "fresh_id s (cl_ID m)" and "cl_Status m = StatusActive"
  shows "gm_get (cs_byID s) cid = Some c \<Longrightarrow> gm_get (cs_byID (fst (Create m s))) cid = Some c"
    and "gm_get (cs_byID (fst (Create m s))) cid = Some c \<Longrightarrow> gm_get (cs_byID s) cid = Some c \<or> cl_Status c = StatusActive"
  using assms
  by (auto simp: Create_def insert_case_def Let_def fresh_id_def split: option.splits if_splits)

lemma CreateWeb_grows:
  assumes "fresh_id s (cl_ID w)" and "cl_Status w = StatusActive"
  shows "gm_get (cs_byID s) cid = Some c \<Longrightarrow> gm_get (cs_byID (fst (CreateWeb w s))) cid = Some c"
    and "gm_get (cs_byID (fst (CreateWeb w s))) cid = Some c \<Longrightarrow> gm_get (cs_byID s) cid = Some c \<or> cl_Status c = StatusActive"
  using assms
  by (auto simp: CreateWeb_def insert_case_def Let_def fresh_id_def split: option.splits if_splits)

lemma pay_inv_file:
  assumes inv: "pay_inv y" and "decision_inv ((ps_store y)\<lparr>ds_cases := cases'\<rparr>)"
  shows "pay_inv (y\<lparr>ps_store := (ps_store y)\<lparr>ds_cases := cases'\<rparr>\<rparr>)"
  using assms by (intro pay_inv_store [OF inv]) (simp_all add: same_decisions [of "(ps_store y)\<lparr>ds_cases := cases'\<rparr>" "ps_store y"])

text \<open>A claim takes the payout from whoever held it before, whose lease is over.\<close>

lemma pay_inv_claim:
  assumes inv: "pay_inv y" and c: "Claim_payout cid (ps_now y) lease (ps_store y) = (s', Inr (Some r))" and lease: "0 < lease"
  shows "pay_inv (y\<lparr>ps_store := s', ps_flight := (r, None) # ps_flight y\<rparr>)"
proof -
  let ?s = "ps_store y" and ?now = "ps_now y" and ?F = "ps_flight y"
  have D: "decision_inv ?s" and A: "attempts_ok ?s" and Lo: "lease_ok ?s ?F ?now" and Fo: "flight_ok ?s (ps_ledger y) ?F"
    using inv by (simp_all add: pay_inv_def)
  obtain d p where d: "gm_get (ds_decisions ?s) cid = Some d" "dn_Payout d = Some p" "due (Some p) ?now"
    and r: "r = d\<lparr>dn_Payout := Some (p\<lparr>py_Status := StatusInProgress, py_ClaimedUntil := time_Add ?now lease, py_LastAttemptAt := ?now\<rparr>)\<rparr>"
    and s': "s' = put_decision cid r ?s" "decision_inv s'" "what_was_decided r = what_was_decided d"
    using Claim_payout_ok [OF D c] by blast
  have cid: "dn_ClaimID d = cid" "dn_ClaimID r = cid" using decision_invD(1) [OF D d(1)] r by simp_all
  have upd: "gm_get (ds_decisions s') = (gm_get (ds_decisions ?s))(cid \<mapsto> r)" using s'(1) by simp
  have ev: "evolves ?s s'" unfolding s'(1) by (rule evolves_put(1) [OF d(1) s'(3)])
  have until: "at_ClaimedUntil (AttemptState r) = ?now + lease" by (simp add: AttemptState_def r)
  have fine: "attempts_fine p" using A d by (auto simp: attempts_ok_def)
  have notf: "py_Status p \<noteq> StatusFailed" "py_Status p \<noteq> StatusConfirmed" using d(3) by (auto simp: due_def)
  have A': "attempts_ok s'" using A fine notf by (auto simp: attempts_ok_def upd r attempts_fine_def)
  have P': "paid_ok s' (ps_ledger y)" using inv by (auto simp: pay_inv_def paid_ok_def upd r)
  have F': "flight_ok s' (ps_ledger y) ((r, None) # ?F)"
    using flight_ok_evolves [OF Fo ev] by (auto simp: flight_ok_def upd cid r)
  have old: "dn_ClaimID (fst f) = cid \<Longrightarrow> at_ClaimedUntil (AttemptState (fst f)) < ?now" if f: "f \<in> set ?F" for f
  proof -
    assume fc: "dn_ClaimID (fst f) = cid"
    from f Lo have "lease_state ?s ?now (fst f)" by (simp add: lease_ok_def)
    then show ?thesis
    proof (cases "\<exists>d p. holds_payout ?s (fst f) d p")
      case True
      then have "py_Status p = StatusInProgress" "at_ClaimedUntil (AttemptState (fst f)) = py_ClaimedUntil p"
        using d fc by (auto simp: holds_payout_def)
      with d(3) show ?thesis by (simp add: due_def)
    qed (auto simp: lease_state_def)
  qed
  have st: "lease_state s' ?now (fst f)" if f: "f \<in> set ?F" for f
  proof (cases "dn_ClaimID (fst f) = cid")
    case True
    have "\<not> holds_payout s' (fst f) d' p'" for d' p'
      using old [OF f True] lease True by (auto simp: holds_payout_def upd r)
    with old [OF f True] show ?thesis by (simp add: lease_state_def)
  next
    case False
    then have "holds_payout s' (fst f) = holds_payout ?s (fst f)" by (intro ext) (simp add: holds_payout_def upd)
    with f Lo show ?thesis by (simp add: lease_ok_def lease_state_def)
  qed
  have "lease_state s' ?now r" by (auto simp: lease_state_def holds_payout_def upd cid r)
  moreover have "lease_id (r, None) \<notin> lease_id ` set ?F"
  proof
    assume "lease_id (r, None) \<in> lease_id ` set ?F"
    then obtain x where x: "x \<in> set ?F" "lease_id x = (cid, ?now + lease)"
      by (auto simp: lease_id_def until cid)
    with old [OF x(1)] lease show False by (simp add: lease_id_def)
  qed
  ultimately have "lease_ok s' ((r, None) # ?F) ?now" using Lo st by (simp add: lease_ok_def)
  with s'(2) A' P' F' ledger_ok_evolves [OF _ ev] inv show ?thesis by (simp add: pay_inv_def)
qed

text \<open>A result: recorded when its attempt holds the payout, and otherwise lost.\<close>

lemma ball_subset: "A \<subseteq> B \<Longrightarrow> \<forall>x \<in> B. P x \<Longrightarrow> \<forall>x \<in> A. P x"
  by blast

lemma lease_ok_remove: "lease_ok s F now \<Longrightarrow> lease_ok s (remove1 f F) now"
  using set_remove1_subset [of f F] by (auto simp: lease_ok_def distinct_map distinct_remove1 intro: inj_on_subset)

lemma flight_ok_remove: "flight_ok s L F \<Longrightarrow> flight_ok s L (remove1 f F)"
  unfolding flight_ok_def by (rule ball_subset [OF set_remove1_subset])

lemma pay_inv_crash: "pay_inv y \<Longrightarrow> pay_inv (y\<lparr>ps_flight := remove1 f (ps_flight y)\<rparr>)"
  by (simp add: pay_inv_def lease_ok_remove flight_ok_remove)

lemma pay_inv_record:
  assumes inv: "pay_inv y" and f: "(r, Some res) \<in> set (ps_flight y)"
  shows "pay_inv (y\<lparr>ps_store := recorded pol lease r (ps_now y) res (ps_store y), ps_flight := remove1 (r, Some res) (ps_flight y)\<rparr>)"
proof -
  let ?s = "ps_store y" and ?now = "ps_now y" and ?F = "ps_flight y" and ?F' = "remove1 (r, Some res) (ps_flight y)"
  have D: "decision_inv ?s" and A: "attempts_ok ?s" and Lo: "lease_ok ?s ?F ?now" and Fo: "flight_ok ?s (ps_ledger y) ?F"
    and P: "paid_ok ?s (ps_ledger y)" using inv by (simp_all add: pay_inv_def)
  from Fo f obtain rp d0 where rp: "dn_Payout r = Some rp" "gm_get (ds_decisions ?s) (dn_ClaimID r) = Some d0"
    "what_was_decided d0 = what_was_decided r" "\<forall>out. Some res = Some (Inr out) \<longrightarrow> ps_ledger y (py_Key rp) \<noteq> None"
    unfolding flight_ok_def by fastforce
  obtain g where g: "good_on_held g" "recorded pol lease r ?now res ?s = fst (held r g ?s)"
    "(g = fail_change ?now (if \<exists>e. res = Inl e \<and> errors_Is e ErrRejected then ReasonRejected else ReasonWindowExpired)
            (case res of Inl e \<Rightarrow> err_text e | Inr _ \<Rightarrow> '''') \<or>
      (\<exists>next cause. g = reschedule_change ?now next cause \<and>
         \<not> (case dn_Payout r of None \<Rightarrow> False | Some p \<Rightarrow> py_Attempts p + 1 \<ge> MaxAutomaticPayoutAttempts)) \<or>
      (\<exists>out. res = Inr out \<and> g = confirm_change ?now out))"
    using recorded_held [of pol lease r ?now res ?s] by blast
  show ?thesis
  proof (cases "\<exists>d p. holds_payout ?s r d p")
    case False
    with held_lost rp(1) have "fst (held r g ?s) = ?s" by auto
    with pay_inv_crash [OF inv] g(2) show ?thesis by simp
  next
    case True
    then obtain d p where h: "holds_payout ?s r d p" by blast
    from Lo f h have att: "py_Attempts p = py_Attempts rp"
      using rp(1) by (fastforce simp: lease_ok_def lease_state_def holds_payout_def)
    have d: "gm_get (ds_decisions ?s) (dn_ClaimID r) = Some d" "dn_Payout d = Some p" "py_Status p = StatusInProgress"
      "py_ClaimedUntil p = py_ClaimedUntil rp" using h rp(1) by (auto simp: holds_payout_def)
    from held_ok [OF D h g(1)] obtain st d1 where d1: "d1 = d\<lparr>dn_Payout := Some (g p)\<rparr>"
      "held r g ?s = (setStatus (dn_ClaimID r) st (put_decision (dn_ClaimID r) d1 ?s), Inr d1)"
      "decision_inv (fst (held r g ?s))" "what_was_decided d1 = what_was_decided d" by blast
    let ?s' = "fst (held r g ?s)"
    have upd: "gm_get (ds_decisions ?s') = (gm_get (ds_decisions ?s))(dn_ClaimID r \<mapsto> d1)" using d1(2) by simp
    have ev: "evolves ?s ?s'" using held_evolves [OF D g(1)] rp(1) by simp
    have fine: "attempts_fine p" using A d by (auto simp: attempts_ok_def)
    have gp: "attempts_fine (g p)" "py_Status (g p) \<noteq> StatusInProgress"
      using g(3) fine d(3) att rp(1)
      by (auto simp: attempts_fine_def fail_change_def reschedule_change_def confirm_change_def MaxAutomaticPayoutAttempts_def)
    have "attempts_ok ?s'" using A gp by (auto simp: attempts_ok_def upd d1(1))
    moreover have "paid_ok ?s' (ps_ledger y)"
    proof -
      have "ps_ledger y (py_Key (g p)) \<noteq> None" if "py_Status (g p) = StatusConfirmed"
      proof -
        from that g(3) obtain out where "res = Inr out" "py_Key (g p) = py_Key p"
          by (auto simp: fail_change_def reschedule_change_def confirm_change_def)
        moreover have "py_Key p = py_Key rp" using rp(1,2,3) d(1,2) by (auto simp: what_was_decided_def)
        ultimately show ?thesis using rp(4) by auto
      qed
      with P show ?thesis by (auto simp: paid_ok_def upd d1(1))
    qed
    moreover have "lease_ok ?s' ?F' ?now"
    proof -
      have dist: "distinct (map lease_id ?F)" using Lo by (simp add: lease_ok_def)
      have "lease_state ?s' ?now (fst x)" if x: "x \<in> set ?F'" for x
      proof (cases "dn_ClaimID (fst x) = dn_ClaimID r")
        case True
        have "x \<in> set ?F" and "x \<noteq> (r, Some res)"
          using x dist by (auto simp: distinct_map dest: notin_set_remove1 [rotated])
        then have "lease_id x \<noteq> lease_id (r, Some res)" using dist f by (auto simp: distinct_map dest: inj_onD)
        then have "\<not> holds_payout ?s (fst x) d' p'" for d' p'
          using True d rp(1) by (auto simp: lease_id_def holds_payout_def)
        then have "at_ClaimedUntil (AttemptState (fst x)) < ?now"
          using Lo \<open>x \<in> set ?F\<close> by (auto simp: lease_ok_def lease_state_def)
        moreover have "\<not> holds_payout ?s' (fst x) d' p'" for d' p'
          using gp(2) True by (auto simp: holds_payout_def upd d1(1))
        ultimately show ?thesis by (simp add: lease_state_def)
      next
        case False
        then have "holds_payout ?s' (fst x) = holds_payout ?s (fst x)" by (intro ext) (simp add: holds_payout_def upd)
        moreover have "x \<in> set ?F" using x by (metis notin_set_remove1)
        ultimately show ?thesis using Lo by (simp add: lease_ok_def lease_state_def)
      qed
      with lease_ok_remove [OF Lo, of "(r, Some res)"] show ?thesis by (simp add: lease_ok_def)
    qed
    moreover have "flight_ok ?s' (ps_ledger y) ?F'" by (rule flight_ok_remove [OF flight_ok_evolves [OF Fo ev]])
    ultimately show ?thesis
      using d1(3) inv ledger_ok_evolves [OF _ ev] g(2) by (simp add: pay_inv_def)
  qed
qed

text \<open>A call returns: the attempt stays in flight with its result.\<close>

lemma flight_replace:
  assumes "lease_ok s F now" and "(r, None) \<in> set F"
  shows "lease_ok s ((r, x) # remove1 (r, None) F) now"
proof -
  have d: "distinct F" "inj_on lease_id (set F)" using assms(1) by (auto simp: lease_ok_def distinct_map)
  have "lease_id (r, x) \<notin> lease_id ` (set F - {(r, None)})"
  proof
    assume "lease_id (r, x) \<in> lease_id ` (set F - {(r, None)})"
    then obtain g where g: "g \<in> set F - {(r, None)}" "lease_id (r, x) = lease_id g" by (rule imageE) auto
    have "lease_id (r, None) = lease_id (r, x)" by (simp add: lease_id_def)
    then have "lease_id (r, None) = lease_id g" using g(2) by simp
    then have "(r, None) = g" using inj_onD [OF d(2), of "(r, None)" g] assms(2) g(1) by simp
    with g(1) show False by simp
  qed
  moreover have "lease_state s now r" using assms by (auto simp: lease_ok_def)
  ultimately show ?thesis
    using lease_ok_remove [OF assms(1), of "(r, None)"] d(1) by (simp add: lease_ok_def)
qed

lemma flight_okD:
  assumes "flight_ok s L F" and "(q, x) \<in> set F"
  shows "\<exists>rp d. dn_Payout q = Some rp \<and> gm_get (ds_decisions s) (dn_ClaimID q) = Some d \<and>
    what_was_decided d = what_was_decided q \<and> (\<forall>out. x = Some (Inr out) \<longrightarrow> L (py_Key rp) \<noteq> None)"
  using bspec [OF assms(1) [unfolded flight_ok_def] assms(2)] by (simp only: prod.case)

lemma flight_ok_call:
  assumes "flight_ok s L F" and "(r, None) \<in> set F" and "dn_Payout r = Some p"
    and "\<And>k. L k \<noteq> None \<Longrightarrow> L' k \<noteq> None" and "\<And>out. res = Inr out \<Longrightarrow> L' (py_Key p) \<noteq> None"
  shows "flight_ok s L' ((r, Some res) # remove1 (r, None) F)"
proof -
  have each: "\<exists>rp d. dn_Payout q = Some rp \<and> gm_get (ds_decisions s) (dn_ClaimID q) = Some d \<and>
      what_was_decided d = what_was_decided q \<and> (\<forall>out. x = Some (Inr out) \<longrightarrow> L' (py_Key rp) \<noteq> None)"
    if qx: "(q, x) \<in> set F" for q x
  proof -
    obtain rp d where "dn_Payout q = Some rp" "gm_get (ds_decisions s) (dn_ClaimID q) = Some d"
      "what_was_decided d = what_was_decided q" "\<forall>out. x = Some (Inr out) \<longrightarrow> L (py_Key rp) \<noteq> None"
      using flight_okD [OF assms(1) qx] by blast
    with assms(4) show ?thesis by (intro exI [of _ rp] exI [of _ d]) metis
  qed
  have "flight_ok s L' F"
    unfolding flight_ok_def
  proof (rule ballI)
    fix f
    assume "f \<in> set F"
    then have "(fst f, snd f) \<in> set F" by simp
    from each [OF this] show "case f of (r, res) \<Rightarrow> \<exists>rp d. dn_Payout r = Some rp \<and> gm_get (ds_decisions s) (dn_ClaimID r) = Some d \<and>
      what_was_decided d = what_was_decided r \<and> (\<forall>out. res = Some (Inr out) \<longrightarrow> L' (py_Key rp) \<noteq> None)"
      unfolding case_prod_beta .
  qed
  then have "flight_ok s L' (remove1 (r, None) F)" by (rule flight_ok_remove)
  moreover obtain d where "gm_get (ds_decisions s) (dn_ClaimID r) = Some d" "what_was_decided d = what_was_decided r"
    using assms(1,2) by (fastforce simp: flight_ok_def)
  ultimately show ?thesis using assms(3,5) by (simp add: flight_ok_def) metis
qed

lemma paid_ok_mono: "paid_ok s L \<Longrightarrow> (\<And>k. L k \<noteq> None \<Longrightarrow> L' k \<noteq> None) \<Longrightarrow> paid_ok s L'"
  unfolding paid_ok_def by blast

lemma pay_inv_executes:
  assumes inv: "pay_inv y" and f: "(r, None) \<in> set (ps_flight y)" and p: "dn_Payout r = Some p" and "ps_ledger y (py_Key p) = None"
  shows "pay_inv (y\<lparr>ps_ledger := (ps_ledger y)(py_Key p \<mapsto> disbursement_of p),
                   ps_flight := (r, Some res) # remove1 (r, None) (ps_flight y)\<rparr>)"
proof -
  let ?L = "(ps_ledger y)(py_Key p \<mapsto> disbursement_of p)"
  have Fo: "flight_ok (ps_store y) (ps_ledger y) (ps_flight y)" using inv by (simp add: pay_inv_def)
  then obtain d where d: "gm_get (ds_decisions (ps_store y)) (dn_ClaimID r) = Some d" "what_was_decided d = what_was_decided r"
    using f by (fastforce simp: flight_ok_def)
  from what_was_decided_payout [OF d(2) p] obtain p' where
    "dn_Payout d = Some p'" "py_Key p' = py_Key p" "disbursement_of p' = disbursement_of p" by blast
  with d(1) have "\<exists>cid d q. gm_get (ds_decisions (ps_store y)) cid = Some d \<and> dn_Payout d = Some q \<and>
      py_Key q = py_Key p \<and> disbursement_of q = disbursement_of p" by blast
  with inv have "ledger_ok (ps_store y) ?L"
    unfolding pay_inv_def ledger_ok_def by (metis fun_upd_apply option.inject)
  moreover have "paid_ok (ps_store y) ?L"
    by (rule paid_ok_mono [of _ "ps_ledger y"]) (use inv in \<open>simp_all add: pay_inv_def del: not_None_eq split_paired_Ex\<close>)
  moreover have "flight_ok (ps_store y) ?L ((r, Some res) # remove1 (r, None) (ps_flight y))"
    by (rule flight_ok_call [OF Fo f p]) (simp_all del: not_None_eq split_paired_Ex)
  ultimately show ?thesis using inv flight_replace f by (auto simp: pay_inv_def)
qed

lemma pay_inv_step:
  assumes inv: "pay_inv y" and "pay_step y y'"
  shows "pay_inv y'"
  using assms(2)
proof cases
  case (tick t)
  with inv lease_ok_later [of "ps_store y" "ps_flight y" "ps_now y" t] show ?thesis by (simp add: pay_inv_def)
next
  case (approve c cov ho gross who t d)
  have "py_Status p = StatusPending \<and> py_Attempts p = 0" if "dn_Payout d = Some p" for p
    using approve(2) that by (auto simp: domain_Approve_def Let_def split: if_splits)
  with approve domain_Approve_ok(1) show ?thesis by (auto intro!: pay_inv_decide [OF inv])
next
  case (reject c reason to who t d)
  have "dn_Payout d = None" using reject(2) by (auto simp: domain_Reject_def split: sum.splits if_splits)
  with reject domain_Reject_ok(1) show ?thesis by (auto intro!: pay_inv_decide [OF inv])
next
  case (retry cid r)
  with pay_inv_retry [OF inv] show ?thesis by simp
next
  case (claim cid lease s' r)
  with pay_inv_claim [OF inv] show ?thesis by simp
next
  case (call_executes r p res)
  with pay_inv_executes [OF inv] show ?thesis by simp
next
  case (call_answers r p res)
  with inv flight_ok_call [of "ps_store y" "ps_ledger y" "ps_flight y" r p "ps_ledger y" res] flight_replace
  show ?thesis by (auto simp: pay_inv_def)
next
  case (write_result r res pol lease)
  with pay_inv_record [OF inv] show ?thesis by simp
next
  case (crash f)
  with pay_inv_crash [OF inv] show ?thesis by simp
next
  case (gateway_code cid code)
  with pay_inv_code [OF inv] show ?thesis by simp
next
  case (notice f cid)
  with pay_inv_notice [OF inv] show ?thesis by simp
next
  case (file_mobile m)
  have D: "decision_inv (ps_store y)" using inv by (simp add: pay_inv_def)
  then have "decision_inv ((ps_store y)\<lparr>ds_cases := fst (Create m (ds_cases (ps_store y)))\<rparr>)"
    using file_mobile Create_grows [OF file_mobile(2,3)]
    by (intro file_decision_inv) (auto simp: decision_inv_def intro: Create_inv)
  with file_mobile pay_inv_file [OF inv] show ?thesis by simp
next
  case (file_web w)
  have D: "decision_inv (ps_store y)" using inv by (simp add: pay_inv_def)
  then have "decision_inv ((ps_store y)\<lparr>ds_cases := fst (CreateWeb w (ds_cases (ps_store y)))\<rparr>)"
    using file_web CreateWeb_grows [OF file_web(2,3)]
    by (intro file_decision_inv) (auto simp: decision_inv_def intro: CreateWeb_inv)
  with file_web pay_inv_file [OF inv] show ?thesis by simp
qed

lemma pay_inv_init: "pay_inv (pay_init t)"
proof -
  have "decision_inv (NewDecisionStore NewCaseStore)"
    by (rule decision_inv_New [OF case_inv_New]) (simp add: NewCaseStore_def)
  then show ?thesis
    by (simp add: pay_inv_def pay_init_def ledger_ok_def paid_ok_def flight_ok_def attempts_ok_def lease_ok_def NewDecisionStore_def)
qed

lemma pay_inv_reachable: "pay_step\<^sup>*\<^sup>* (pay_init t) y \<Longrightarrow> pay_inv y"
  by (induction rule: rtranclp_induct) (auto intro: pay_inv_init pay_inv_step)

lemma pay_step_evolves:
  assumes inv: "pay_inv y" and "pay_step y y'"
  shows "evolves (ps_store y) (ps_store y')"
  using assms(2)
proof cases
  case (claim cid lease s' r)
  have D: "decision_inv (ps_store y)" using inv by (simp add: pay_inv_def)
  from Claim_payout_ok [OF D claim(2)] claim(1) show ?thesis by (auto intro: evolves_put)
next
  case (write_result r res pol lease)
  have D: "decision_inv (ps_store y)" and "dn_Payout r \<noteq> None"
    using inv write_result(2) by (auto simp: pay_inv_def flight_ok_def)
  with recorded_held [of pol lease r "ps_now y" res "ps_store y"] held_evolves write_result(1) show ?thesis by auto
qed (auto intro: Decide_evolves domain_Approve_ok(1) domain_Reject_ok(1) retry_evolves code_evolves on_unsent_evolves)

lemma pay_steps_evolve:
  assumes "pay_step\<^sup>*\<^sup>* y y'" and "pay_inv y"
  shows "pay_inv y' \<and> evolves (ps_store y) (ps_store y')"
  using assms
proof (induction rule: rtranclp_induct)
  case (step z z')
  with pay_inv_step [of z z'] pay_step_evolves [of z z'] evolves_trans show ?case by blast
qed simp

end
