(* ===== verification/Security.thy ===== *)
theory Security
  imports Gotime
begin

text \<open>
  \<^verbatim>\<open>pkg/security\<close>: the verified caller of a human route, its roles and the three
  authorization checks of the services. A request context either carries the claims of a
  verified token or carries none.
\<close>

section \<open>Roles\<close>

datatype role = RoleInsured | RoleAdvisor | RoleOperations | RolePartner

definition ParseRole :: "string \<Rightarrow> role option" where
  "ParseRole grp =
    (if grp = ''insured'' then Some RoleInsured
     else if grp = ''advisor'' then Some RoleAdvisor
     else if grp = ''operations'' then Some RoleOperations
     else if grp = ''partner'' then Some RolePartner
     else None)"

definition role_name :: "role \<Rightarrow> string" where
  "role_name r = (case r of RoleInsured \<Rightarrow> ''insured'' | RoleAdvisor \<Rightarrow> ''advisor''
     | RoleOperations \<Rightarrow> ''operations'' | RolePartner \<Rightarrow> ''partner'')"

lemma ParseRole_role_name [simp]: "ParseRole (role_name r) = Some r"
  by (cases r) (simp_all add: ParseRole_def role_name_def)

lemma ParseRole_Some: "ParseRole g = Some r \<longleftrightarrow> g = role_name r"
  by (cases r) (auto simp: ParseRole_def role_name_def)

lemma role_name_inject [simp]: "role_name r = role_name q \<longleftrightarrow> r = q"
  by (metis ParseRole_role_name option.inject)

section \<open>The verified caller\<close>

record claims =
  sc_Subject :: string
  sc_Username :: string
  sc_Email :: string
  sc_PartnerID :: string
  sc_TokenUse :: string
  sc_ClientID :: string
  sc_Roles :: "role list"
  sc_IssuedAt :: time
  sc_ExpiresAt :: time

type_synonym sec_context = "claims option"

text \<open>The values a decoded token payload holds under \<^verbatim>\<open>cognito:groups\<close>.\<close>

datatype payload_value = PString string | PStrings "string list" | PList "payload_value list" | POther

fun string_items :: "payload_value list \<Rightarrow> string list" where
  "string_items [] = []"
| "string_items (PString s # vs) = s # string_items vs"
| "string_items (_ # vs) = string_items vs"

definition groups_of :: "payload_value option \<Rightarrow> string list" where
  "groups_of v = (case v of Some (PString g) \<Rightarrow> [g] | Some (PStrings gs) \<Rightarrow> gs
     | Some (PList items) \<Rightarrow> string_items items | _ \<Rightarrow> [])"

text \<open>The loop over the groups, with the roles already \<^verbatim>\<open>seen\<close>.\<close>

fun collect_roles :: "role list \<Rightarrow> string list \<Rightarrow> role list" where
  "collect_roles seen [] = []"
| "collect_roles seen (g # gs) =
    (case ParseRole g of
       None \<Rightarrow> collect_roles seen gs
     | Some r \<Rightarrow> if r \<in> set seen then collect_roles seen gs else r # collect_roles (r # seen) gs)"

definition rolesFromGroups :: "payload_value option \<Rightarrow> role list" where
  "rolesFromGroups v = collect_roles [] (groups_of v)"

definition HasAnyRole :: "claims \<Rightarrow> role list \<Rightarrow> bool" where
  "HasAnyRole c roles = list_ex (\<lambda>have. list_ex (\<lambda>want. have = want) roles) (sc_Roles c)"

section \<open>Authorization\<close>

datatype auth_error = ErrUnauthenticated | ErrForbidden

definition RequireAnyRole :: "sec_context \<Rightarrow> role list \<Rightarrow> auth_error option" where
  "RequireAnyRole ctx roles =
    (case ctx of None \<Rightarrow> Some ErrUnauthenticated
     | Some c \<Rightarrow> if \<not> HasAnyRole c roles then Some ErrForbidden else None)"

definition RequireOwnerOrRole :: "sec_context \<Rightarrow> string \<Rightarrow> role list \<Rightarrow> auth_error option" where
  "RequireOwnerOrRole ctx ownerSubject privileged =
    (case ctx of None \<Rightarrow> Some ErrUnauthenticated
     | Some c \<Rightarrow>
        if ownerSubject \<noteq> '''' \<and> sc_Subject c = ownerSubject then None
        else if HasAnyRole c privileged then None
        else Some ErrForbidden)"

definition RequireSamePartner :: "sec_context \<Rightarrow> string \<Rightarrow> auth_error option" where
  "RequireSamePartner ctx partnerID =
    (case ctx of None \<Rightarrow> Some ErrUnauthenticated
     | Some c \<Rightarrow>
        if \<not> HasAnyRole c [RolePartner] \<or> partnerID = '''' \<or> sc_PartnerID c \<noteq> partnerID
        then Some ErrForbidden else None)"

section \<open>What the checks grant\<close>

lemma HasAnyRole_iff: "HasAnyRole c roles \<longleftrightarrow> set (sc_Roles c) \<inter> set roles \<noteq> {}"
  by (auto simp: HasAnyRole_def list_ex_iff)

lemma collect_roles_set:
  "set (collect_roles seen gs) = {r. role_name r \<in> set gs} - set seen"
proof (induction gs arbitrary: seen)
  case (Cons g gs)
  then show ?case
    by (cases "ParseRole g") (auto simp: ParseRole_Some)
qed simp

lemma collect_roles_distinct: "distinct (collect_roles seen gs)"
  by (induction gs arbitrary: seen) (auto simp: collect_roles_set split: option.split)

text \<open>The roles of a token are exactly the human roles among its groups, each once: a group
  that is no human role grants nothing.\<close>

lemma rolesFromGroups_exact:
  "set (rolesFromGroups v) = {r. role_name r \<in> set (groups_of v)}" "distinct (rolesFromGroups v)"
  by (simp_all add: rolesFromGroups_def collect_roles_set collect_roles_distinct)

lemma RequireOwnerOrRole_None:
  "RequireOwnerOrRole ctx owner privileged = None \<longleftrightarrow>
    (\<exists>c. ctx = Some c \<and> (owner \<noteq> [] \<and> sc_Subject c = owner \<or> HasAnyRole c privileged))"
  by (auto simp: RequireOwnerOrRole_def split: option.splits)

end
