(* ===== verification/Claims_Triage.thy ===== *)
theory Claims_Triage
  imports Claims_Cases Security
begin

text \<open>
  The automatic priority of a claim (HU-W2.2-01): the rule of the level and the versioned policy
  (\<^verbatim>\<open>domain/triage.go\<close>, \<^verbatim>\<open>domain/triage_policy.go\<close>), the store of the calculations
  (\<^verbatim>\<open>adapters/memory/triage.go\<close>) and the service that calculates, sweeps and reads them
  (\<^verbatim>\<open>triage/service.go\<close>). Several tasks of the service sweep at once: a calculation is made from
  a candidate that was read earlier, and the step relation at the end of the theory lets the claims
  and the calculations change in between.
\<close>

section \<open>The level\<close>

datatype severity = SeverityHigh | SeverityMedium | SeverityLow

datatype amount_band = AmountHigh | AmountMedium | AmountLow | AmountUnknown

type_synonym priority_level = int

definition Triage1 :: priority_level where "Triage1 = 1"
definition Triage2 :: priority_level where "Triage2 = 2"
definition Triage3 :: priority_level where "Triage3 = 3"

lemmas level_defs [simp, go_defs] = Triage1_def Triage2_def Triage3_def

definition PriorityLevel_Valid :: "priority_level \<Rightarrow> bool" where
  "PriorityLevel_Valid l \<longleftrightarrow> l \<ge> Triage1 \<and> l \<le> Triage3"

definition LevelOf :: "severity \<Rightarrow> amount_band \<Rightarrow> priority_level" where
  "LevelOf s b =
    (if s = SeverityHigh \<or> b = AmountHigh then Triage1
     else if s = SeverityLow \<and> b = AmountLow then Triage3
     else Triage2)"

datatype triage_cause =
    CauseEnteredEvaluation | CauseEstimatedAmountChanged | CauseIncidentTypeChanged
  | CauseCoverageChanged | CauseProviderReportReceived | CausePolicyUpdated

record triage_input =
  ti_IncidentType :: incident_type
  ti_Line :: policy_line
  ti_Coverage :: string
  ti_EstimatedAmountMinor :: "int option"
  ti_PolicyVersion :: string

definition TriageInput_Fingerprint :: "triage_input \<Rightarrow> string" where
  "TriageInput_Fingerprint i =
    (let amount = (case ti_EstimatedAmountMinor i of None \<Rightarrow> ''-'' | Some m \<Rightarrow> FormatInt m)
     in sha256_hex (concat (map (\<lambda>part. part @ nl)
          [ti_IncidentType i, ti_Line i, ti_Coverage i, amount, ti_PolicyVersion i])))"

definition sameAmount :: "int option \<Rightarrow> int option \<Rightarrow> bool" where
  "sameAmount a b = (case (a, b) of (Some x, Some y) \<Rightarrow> x = y | _ \<Rightarrow> a = None \<and> b = None)"

definition Diff :: "triage_input \<Rightarrow> triage_input \<Rightarrow> triage_cause list" where
  "Diff i previous =
    (if \<not> sameAmount (ti_EstimatedAmountMinor i) (ti_EstimatedAmountMinor previous)
     then [CauseEstimatedAmountChanged] else []) @
    (if ti_IncidentType i \<noteq> ti_IncidentType previous then [CauseIncidentTypeChanged] else []) @
    (if ti_Coverage i \<noteq> ti_Coverage previous \<or> ti_Line i \<noteq> ti_Line previous then [CauseCoverageChanged] else []) @
    (if ti_PolicyVersion i \<noteq> ti_PolicyVersion previous then [CausePolicyUpdated] else [])"

type_synonym target_kind = string

definition TargetImmediate :: target_kind where "TargetImmediate = ''immediate''"
definition TargetBusinessDays :: target_kind where "TargetBusinessDays = ''business_days''"

record triage_target =
  tt_Kind :: target_kind
  tt_BusinessDays :: int
  tt_ResolutionBusinessDays :: int

record triage_assessment =
  ta_Level :: priority_level
  ta_Severity :: severity
  ta_AmountBand :: amount_band
  ta_Input :: triage_input
  ta_Target :: triage_target

definition TriageActorSystem :: string where "TriageActorSystem = ''system''"

record triage_record =
  tr_ClaimID :: string
  tr_Seq :: int
  tr_Assessment :: triage_assessment
  tr_Causes :: "triage_cause list"
  tr_PreviousLevel :: "priority_level option"
  tr_Actor :: string
  tr_AssessedAt :: time

definition NextTriage ::
  "string \<Rightarrow> triage_assessment \<Rightarrow> triage_record option \<Rightarrow> time \<Rightarrow> triage_record option" where
  "NextTriage claimID a lastr when =
    (let r = \<lparr>tr_ClaimID = claimID, tr_Seq = 1, tr_Assessment = a, tr_Causes = [], tr_PreviousLevel = None,
              tr_Actor = TriageActorSystem, tr_AssessedAt = when\<rparr>
     in case lastr of
          None \<Rightarrow> Some (r\<lparr>tr_Causes := [CauseEnteredEvaluation]\<rparr>)
        | Some l \<Rightarrow>
           let causes = Diff (ta_Input a) (ta_Input (tr_Assessment l)) in
           if causes = [] then None
           else Some (r\<lparr>tr_Seq := tr_Seq l + 1, tr_Causes := causes,
                        tr_PreviousLevel := Some (ta_Level (tr_Assessment l))\<rparr>))"

datatype triage_state = TriagePending | TriageAssessed | TriageNotApplicable | TriageNotFound

definition TriageStateOf :: "claim_status \<Rightarrow> triage_record option \<Rightarrow> triage_state" where
  "TriageStateOf status lastr =
    (if lastr \<noteq> None then TriageAssessed else if Triageable status then TriagePending else TriageNotApplicable)"

section \<open>The policy\<close>

record severity_rule =
  sr_Line :: policy_line
  sr_Incident :: incident_type
  sr_Severity :: severity

record level_target =
  lt_Level :: priority_level
  lt_Target :: triage_target

record triage_policy =
  tp_Version :: string
  tp_Severity :: "severity_rule list"
  tp_LowBelowMinor :: int
  tp_HighAboveMinor :: int
  tp_Targets :: "level_target list"

definition sr_of :: "policy_line \<Rightarrow> incident_type \<Rightarrow> severity \<Rightarrow> severity_rule" where
  "sr_of l i s = \<lparr>sr_Line = l, sr_Incident = i, sr_Severity = s\<rparr>"

definition target_of :: "priority_level \<Rightarrow> target_kind \<Rightarrow> int \<Rightarrow> int \<Rightarrow> level_target" where
  "target_of l k days resolution = \<lparr>lt_Level = l,
     lt_Target = \<lparr>tt_Kind = k, tt_BusinessDays = days, tt_ResolutionBusinessDays = resolution\<rparr>\<rparr>"

definition TriagePolicyVersionV1 :: string where "TriagePolicyVersionV1 = ''triage-policy-v1''"

definition TriagePolicyV1 :: triage_policy where
  "TriagePolicyV1 = \<lparr>tp_Version = TriagePolicyVersionV1,
     tp_Severity = [sr_of LineAuto IncidentCollision SeverityMedium, sr_of LineAuto IncidentTheft SeverityHigh,
       sr_of LineAuto IncidentThirdPartyDamage SeverityHigh, sr_of LineAuto IncidentGlass SeverityLow,
       sr_of LineAuto IncidentOther SeverityMedium, sr_of LineHome IncidentWaterDamage SeverityMedium],
     tp_LowBelowMinor = 500000000, tp_HighAboveMinor = 3000000000,
     tp_Targets = [target_of Triage1 TargetImmediate 0 2, target_of Triage2 TargetBusinessDays 5 5,
       target_of Triage3 TargetBusinessDays 10 10]\<rparr>"

definition SeverityOf :: "triage_policy \<Rightarrow> policy_line \<Rightarrow> incident_type \<Rightarrow> severity \<times> bool" where
  "SeverityOf p line incident =
    (case find (\<lambda>r. sr_Line r = line \<and> sr_Incident r = incident) (tp_Severity p) of
       Some r \<Rightarrow> (sr_Severity r, True) | None \<Rightarrow> (SeverityMedium, False))"

definition BandOf :: "triage_policy \<Rightarrow> int option \<Rightarrow> amount_band" where
  "BandOf p amountMinor =
    (case amountMinor of None \<Rightarrow> AmountUnknown
     | Some m \<Rightarrow> if m < tp_LowBelowMinor p then AmountLow
                else if m > tp_HighAboveMinor p then AmountHigh else AmountMedium)"

definition TargetOf :: "triage_policy \<Rightarrow> priority_level \<Rightarrow> triage_target" where
  "TargetOf p l =
    (case find (\<lambda>t. lt_Level t = l) (tp_Targets p) of
       Some t \<Rightarrow> lt_Target t
     | None \<Rightarrow> \<lparr>tt_Kind = '''', tt_BusinessDays = 0, tt_ResolutionBusinessDays = 0\<rparr>)"

definition InputOf :: "triage_policy \<Rightarrow> claim_record \<Rightarrow> triage_input" where
  "InputOf p c =
    \<lparr>ti_IncidentType = cl_IncidentType c,
     ti_Line = (case Catalog_Incident (CatalogFor (cr_CatalogVersion c)) (cl_IncidentType c) of
                  Some opt \<Rightarrow> io_Line opt | None \<Rightarrow> ''''),
     ti_Coverage = cl_IncidentType c, ti_EstimatedAmountMinor = cl_EstimatedAmountMinor c,
     ti_PolicyVersion = tp_Version p\<rparr>"

definition TriagePolicy_Assess :: "triage_policy \<Rightarrow> triage_input \<Rightarrow> triage_assessment \<times> bool" where
  "TriagePolicy_Assess p i0 =
    (let i = i0\<lparr>ti_PolicyVersion := tp_Version p\<rparr>;
         (sev, known) = SeverityOf p (ti_Line i) (ti_IncidentType i);
         band = BandOf p (ti_EstimatedAmountMinor i);
         level = LevelOf sev band
     in (\<lparr>ta_Level = level, ta_Severity = sev, ta_AmountBand = band, ta_Input = i, ta_Target = TargetOf p level\<rparr>, known))"

section \<open>The store of the calculations\<close>

datatype triage_error = ErrTriageConflict

record triage_store =
  ts_records :: "string \<rightharpoonup> triage_record list"

definition NewTriageStore :: triage_store where
  "NewTriageStore = \<lparr>ts_records = Map.empty\<rparr>"

definition records_of :: "triage_store \<Rightarrow> string \<Rightarrow> triage_record list" where
  "records_of s claimID = (case ts_records s claimID of None \<Rightarrow> [] | Some rs \<Rightarrow> rs)"

definition last_record :: "triage_store \<Rightarrow> string \<Rightarrow> triage_record option" where
  "last_record s claimID =
    (let records = records_of s claimID in if records = [] then None else Some (last records))"

record triage_candidate =
  tc_Claim :: claim_record
  tc_Last :: "triage_record option"

definition snapshot :: "(claim_record \<Rightarrow> bool) \<Rightarrow> case_store \<Rightarrow> claim_record list" where
  "snapshot match cases = map listed (filter match (map snd (cs_byID cases)))"

definition filed_before :: "claim_record \<Rightarrow> claim_record \<Rightarrow> bool" where
  "filed_before x y = (if cl_FiledAt x \<noteq> cl_FiledAt y then cl_FiledAt x < cl_FiledAt y else cl_ID x < cl_ID y)"

definition changed :: "claim_record \<Rightarrow> triage_record \<Rightarrow> string \<Rightarrow> bool" where
  "changed c lastr policyVersion =
    (let i = ta_Input (tr_Assessment lastr) in
     if ti_PolicyVersion i \<noteq> policyVersion \<or> ti_IncidentType i \<noteq> cl_IncidentType c then True
     else if ti_EstimatedAmountMinor i = None \<or> cl_EstimatedAmountMinor c = None
     then ti_EstimatedAmountMinor i \<noteq> cl_EstimatedAmountMinor c
     else the (ti_EstimatedAmountMinor i) \<noteq> the (cl_EstimatedAmountMinor c))"

text \<open>The loop over the sorted claims, with what it has put out so far.\<close>

fun pending_loop ::
  "triage_store \<Rightarrow> string \<Rightarrow> int \<Rightarrow> claim_record list \<Rightarrow> triage_candidate list \<Rightarrow> triage_candidate list" where
  "pending_loop s policyVersion limit [] out = out"
| "pending_loop s policyVersion limit (c # cs) out =
    (let lastr = last_record s (cl_ID c) in
     if (case lastr of None \<Rightarrow> False | Some l \<Rightarrow> \<not> changed c l policyVersion)
     then pending_loop s policyVersion limit cs out
     else let out1 = out @ [\<lparr>tc_Claim = c, tc_Last = lastr\<rparr>] in
          if int (length out1) = limit then out1 else pending_loop s policyVersion limit cs out1)"

definition Pending ::
  "claim_status list \<Rightarrow> string \<Rightarrow> int \<Rightarrow> case_store \<Rightarrow> triage_store \<Rightarrow> triage_candidate list" where
  "Pending statuses policyVersion limit cases s =
    (let claims = slice_sort filed_before (snapshot (\<lambda>c. cl_Status c \<in> set statuses) cases)
     in pending_loop s policyVersion limit claims [])"

definition Candidate :: "string \<Rightarrow> case_store \<Rightarrow> triage_store \<Rightarrow> case_error + triage_candidate" where
  "Candidate claimID cases s =
    (case snapshot (\<lambda>c. cl_ID c = claimID) cases of
       [] \<Rightarrow> Inl ErrClaimNotFound
     | c # _ \<Rightarrow> Inr \<lparr>tc_Claim = c, tc_Last = last_record s claimID\<rparr>)"

definition Record :: "triage_record \<Rightarrow> triage_store \<Rightarrow> triage_store \<times> triage_error option" where
  "Record r s =
    (if tr_Seq r \<noteq> int (length (records_of s (tr_ClaimID r))) + 1 then (s, Some ErrTriageConflict)
     else (s\<lparr>ts_records := (ts_records s)(tr_ClaimID r \<mapsto> records_of s (tr_ClaimID r) @ [r])\<rparr>, None))"

definition History :: "string \<Rightarrow> triage_store \<Rightarrow> triage_record list" where
  "History claimID s = rev (records_of s claimID)"

definition status_only :: "claim_record \<Rightarrow> claim_record" where
  "status_only c = (mobile_record zero_claim)\<lparr>cl_ID := cl_ID c, cl_Status := cl_Status c\<rparr>"

definition Current :: "string list \<Rightarrow> case_store \<Rightarrow> triage_store \<Rightarrow> (string \<rightharpoonup> triage_candidate)" where
  "Current ids cases s =
    map_of (map (\<lambda>c. (cl_ID c, \<lparr>tc_Claim = status_only c, tc_Last = last_record s (cl_ID c)\<rparr>))
      (snapshot (\<lambda>c. cl_ID c \<in> set ids) cases))"

section \<open>The service\<close>

definition Assess ::
  "triage_policy \<Rightarrow> triage_candidate \<Rightarrow> time \<Rightarrow> triage_store \<Rightarrow> triage_store \<times> triage_record option" where
  "Assess p c now s =
    (if \<not> Triageable (cl_Status (tc_Claim c)) then (s, None)
     else
       let (a, known) = TriagePolicy_Assess p (InputOf p (tc_Claim c)) in
       case NextTriage (cl_ID (tc_Claim c)) a (tc_Last c) (time_Truncate now time_Microsecond) of
         None \<Rightarrow> (s, None)
       | Some r \<Rightarrow>
          (case Record r s of
             (s1, Some ErrTriageConflict) \<Rightarrow> (s1, None)
           | (s1, None) \<Rightarrow> (s1, Some r)))"

text \<open>The loop of \<^verbatim>\<open>Sweep\<close>; \<open>now\<close> gives the instant each candidate is assessed at.\<close>

fun sweep_loop :: "triage_policy \<Rightarrow> (nat \<Rightarrow> time) \<Rightarrow> nat \<Rightarrow> triage_candidate list \<Rightarrow> triage_store \<Rightarrow> triage_store \<times> nat" where
  "sweep_loop p now i [] s = (s, 0)"
| "sweep_loop p now i (c # cs) s =
    (let (s1, r) = Assess p c (now i) s;
         (s2, n) = sweep_loop p now (Suc i) cs s1
     in (s2, case r of None \<Rightarrow> n | Some _ \<Rightarrow> n + 1))"

definition Sweep :: "triage_policy \<Rightarrow> (nat \<Rightarrow> time) \<Rightarrow> int \<Rightarrow> case_store \<Rightarrow> triage_store \<Rightarrow> triage_store \<times> nat" where
  "Sweep p now limit cases s =
    sweep_loop p now 0 (Pending triageableStatuses (tp_Version p) limit cases s) s"

record triage_view =
  tv_ClaimID :: string
  tv_State :: triage_state
  tv_Current :: "triage_record option"
  tv_History :: "triage_record list"

datatype view_error = ViewClaim case_error | ViewAuth auth_error

definition View :: "sec_context \<Rightarrow> string \<Rightarrow> case_store \<Rightarrow> triage_store \<Rightarrow> view_error + triage_view" where
  "View ctx claimID cases s =
    (case Candidate claimID cases s of
       Inl e \<Rightarrow> Inl (ViewClaim e)
     | Inr c \<Rightarrow>
        (case RequireOwnerOrRole ctx (cl_Subject (tc_Claim c)) [RoleOperations] of
           Some e \<Rightarrow> Inl (ViewAuth e)
         | None \<Rightarrow>
            let history = History claimID s in
            Inr \<lparr>tv_ClaimID = claimID, tv_State = TriageStateOf (cl_Status (tc_Claim c)) (tc_Last c),
                 tv_Current = (case history of [] \<Rightarrow> None | r # _ \<Rightarrow> Some r), tv_History = history\<rparr>))"

record triage_summary =
  sm_ClaimID :: string
  sm_State :: triage_state
  sm_Current :: "triage_record option"

definition Summaries :: "string list \<Rightarrow> case_store \<Rightarrow> triage_store \<Rightarrow> triage_summary list" where
  "Summaries ids cases s =
    (let found = Current ids cases s in
     map (\<lambda>cid. case found cid of
            None \<Rightarrow> \<lparr>sm_ClaimID = cid, sm_State = TriageNotFound, sm_Current = None\<rparr>
          | Some c \<Rightarrow> \<lparr>sm_ClaimID = cid, sm_State = TriageStateOf (cl_Status (tc_Claim c)) (tc_Last c),
                       sm_Current = tc_Last c\<rparr>) ids)"

section \<open>The rule of the level\<close>

lemma LevelOf_valid: "PriorityLevel_Valid (LevelOf s b)"
  by (simp add: PriorityLevel_Valid_def LevelOf_def)

definition band_rank :: "amount_band \<Rightarrow> int" where
  "band_rank b = (case b of AmountLow \<Rightarrow> 0 | AmountMedium \<Rightarrow> 1 | AmountUnknown \<Rightarrow> 1 | AmountHigh \<Rightarrow> 2)"

lemma LevelOf_band_mono: "band_rank b \<le> band_rank b' \<Longrightarrow> LevelOf s b' \<le> LevelOf s b"
  by (cases b; cases b'; cases s) (simp_all add: LevelOf_def band_rank_def)

lemma BandOf_mono:
  "tp_LowBelowMinor p \<le> tp_HighAboveMinor p \<Longrightarrow> m \<le> n \<Longrightarrow>
     band_rank (BandOf p (Some m)) \<le> band_rank (BandOf p (Some n))"
  by (auto simp: BandOf_def band_rank_def)

lemma sameAmount_iff [simp]: "sameAmount a b \<longleftrightarrow> a = b"
  by (cases a; cases b) (simp_all add: sameAmount_def)

lemma Diff_Nil: "Diff i j = [] \<longleftrightarrow> i = j"
  by (auto simp: Diff_def)

section \<open>The history of a claim\<close>

text \<open>
  What the calculations of a claim look like, oldest first: numbered from one; the first one made
  when the claim entered evaluation; every other one for a difference with the one before, which
  its causes name, with the level it replaced; each level the one the rule gives.
\<close>

definition record_follows :: "triage_record option \<Rightarrow> triage_record \<Rightarrow> bool" where
  "record_follows prev r \<longleftrightarrow>
    ta_Level (tr_Assessment r) = LevelOf (ta_Severity (tr_Assessment r)) (ta_AmountBand (tr_Assessment r)) \<and>
    tr_Actor r = TriageActorSystem \<and>
    (case prev of
       None \<Rightarrow> tr_Seq r = 1 \<and> tr_Causes r = [CauseEnteredEvaluation] \<and> tr_PreviousLevel r = None
     | Some l \<Rightarrow> tr_Seq r = tr_Seq l + 1 \<and> tr_Causes r \<noteq> [] \<and>
         tr_Causes r = Diff (ta_Input (tr_Assessment r)) (ta_Input (tr_Assessment l)) \<and>
         tr_PreviousLevel r = Some (ta_Level (tr_Assessment l)))"

fun chain_from :: "triage_record option \<Rightarrow> triage_record list \<Rightarrow> bool" where
  "chain_from prev [] = True"
| "chain_from prev (r # rs) = (record_follows prev r \<and> chain_from (Some r) rs)"

definition history_ok :: "string \<Rightarrow> triage_record list \<Rightarrow> bool" where
  "history_ok claimID rs \<longleftrightarrow> chain_from None rs \<and> list_all (\<lambda>r. tr_ClaimID r = claimID) rs"

definition triage_inv :: "triage_store \<Rightarrow> bool" where
  "triage_inv s \<longleftrightarrow> (\<forall>claimID. history_ok claimID (records_of s claimID))"

lemma chain_from_snoc:
  "chain_from prev (rs @ [r]) \<longleftrightarrow>
    chain_from prev rs \<and> record_follows (if rs = [] then prev else Some (last rs)) r"
  by (induction rs arbitrary: prev) auto

lemma chain_from_seq:
  "chain_from prev rs \<Longrightarrow> k < length rs \<Longrightarrow>
     tr_Seq (rs ! k) = (case prev of None \<Rightarrow> 0 | Some l \<Rightarrow> tr_Seq l) + int k + 1"
proof (induction rs arbitrary: prev k)
  case (Cons r rs)
  then show ?case
    by (cases k) (auto simp: record_follows_def split: option.splits)
qed simp

lemma history_seq: "history_ok cid rs \<Longrightarrow> k < length rs \<Longrightarrow> tr_Seq (rs ! k) = int k + 1"
  using chain_from_seq [of None rs k] by (simp add: history_ok_def)

text \<open>A candidate is consistent with the store when its last calculation is the one the store has in
  that place: it is, from the moment it is read, because calculations are only added.\<close>

definition candidate_ok :: "triage_store \<Rightarrow> triage_candidate \<Rightarrow> bool" where
  "candidate_ok s c \<longleftrightarrow> (case tc_Last c of None \<Rightarrow> True
     | Some l \<Rightarrow> \<exists>k < length (records_of s (cl_ID (tc_Claim c))). l = records_of s (cl_ID (tc_Claim c)) ! k)"

lemma records_of_Record:
  "records_of (fst (Record r s)) cid =
    (if cid = tr_ClaimID r \<and> tr_Seq r = int (length (records_of s (tr_ClaimID r))) + 1
     then records_of s cid @ [r] else records_of s cid)"
  by (auto simp: Record_def records_of_def)

lemma last_record_eq: "last_record s cid = (if records_of s cid = [] then None else Some (last (records_of s cid)))"
  by (simp add: last_record_def Let_def)

lemma candidate_last_ok: "tc_Last c = last_record s (cl_ID (tc_Claim c)) \<Longrightarrow> candidate_ok s c"
  by (auto simp: candidate_ok_def last_record_eq last_conv_nth intro!: exI [of _ "length (records_of s (cl_ID (tc_Claim c))) - 1"]
      split: option.split)

text \<open>The calculation made from a consistent candidate goes in the place after its last one, so it is
  recorded exactly when that one is still the last.\<close>

lemma Assess_record:
  "Assess p c now s =
    (if \<not> Triageable (cl_Status (tc_Claim c)) then (s, None)
     else case NextTriage (cl_ID (tc_Claim c)) (fst (TriagePolicy_Assess p (InputOf p (tc_Claim c)))) (tc_Last c)
                 (time_Truncate now time_Microsecond) of
            None \<Rightarrow> (s, None)
          | Some r \<Rightarrow> if tr_Seq r = int (length (records_of s (tr_ClaimID r))) + 1 then (fst (Record r s), Some r) else (s, None))"
  by (auto simp: Assess_def Record_def case_prod_beta Let_def split: option.splits)

lemma NextTriage_follows:
  assumes "NextTriage cid a lastr when = Some r" and "ta_Level a = LevelOf (ta_Severity a) (ta_AmountBand a)"
  shows "record_follows lastr r" and "tr_ClaimID r = cid" and "tr_Assessment r = a"
  using assms by (auto simp: NextTriage_def record_follows_def Let_def split: option.splits if_splits)

lemma TriagePolicy_Assess_level:
  "ta_Level (fst (TriagePolicy_Assess p i)) =
     LevelOf (ta_Severity (fst (TriagePolicy_Assess p i))) (ta_AmountBand (fst (TriagePolicy_Assess p i)))"
  "ta_Input (fst (TriagePolicy_Assess p i)) = i\<lparr>ti_PolicyVersion := tp_Version p\<rparr>"
  by (simp_all add: TriagePolicy_Assess_def case_prod_beta Let_def)

lemma Assess_inv:
  assumes "triage_inv s" and "candidate_ok s c"
  shows "triage_inv (fst (Assess p c now s))"
proof (cases "snd (Assess p c now s)")
  case None
  then have "fst (Assess p c now s) = s" by (auto simp: Assess_record split: option.splits)
  with assms show ?thesis by simp
next
  case (Some r)
  let ?cid = "cl_ID (tc_Claim c)" and ?a = "fst (TriagePolicy_Assess p (InputOf p (tc_Claim c)))"
  from Some have n: "NextTriage ?cid ?a (tc_Last c) (time_Truncate now time_Microsecond) = Some r"
    and sq: "tr_Seq r = int (length (records_of s (tr_ClaimID r))) + 1"
    and s1: "fst (Assess p c now s) = fst (Record r s)"
    by (auto simp: Assess_record split: option.splits if_splits)
  note f = NextTriage_follows [OF n TriagePolicy_Assess_level(1)]
  have h: "history_ok ?cid (records_of s ?cid)" using assms(1) by (simp add: triage_inv_def)
  have "tc_Last c = last_record s ?cid"
  proof (cases "tc_Last c")
    case None
    with f have "tr_Seq r = 1" by (simp add: record_follows_def)
    with sq f None show ?thesis by (simp add: last_record_eq)
  next
    case (Some l)
    then obtain k where k: "k < length (records_of s ?cid)" "l = records_of s ?cid ! k"
      using assms(2) by (auto simp: candidate_ok_def)
    from Some f have "tr_Seq r = tr_Seq l + 1" by (simp add: record_follows_def)
    with sq k history_seq [OF h k(1)] f have "int k + 1 = int (length (records_of s ?cid))" by simp
    then have "k = length (records_of s ?cid) - 1" by linarith
    with k Some show ?thesis by (auto simp: last_record_eq last_conv_nth)
  qed
  then have "history_ok ?cid (records_of s ?cid @ [r])"
    using h f by (auto simp: history_ok_def chain_from_snoc last_record_eq split: if_splits)
  with assms(1) sq f show ?thesis
    by (auto simp: s1 triage_inv_def records_of_Record)
qed

lemma Assess_append: "\<exists>new. records_of (fst (Assess p c now s)) cid = records_of s cid @ new"
  by (auto simp: Assess_record records_of_Record split: option.split)

section \<open>Several tasks at once\<close>

text \<open>
  The state of the service seen by its tasks: the claims, the calculations and the candidates some
  task read and has not assessed yet. A task reads a candidate, by its id or in a sweep; it
  assesses one it read, with the policy of its own version of the code; and any other story changes
  the claims.
\<close>

record triage_sys =
  sy_cases :: case_store
  sy_triage :: triage_store
  sy_flight :: "triage_candidate list"

inductive triage_step :: "triage_sys \<Rightarrow> triage_sys \<Rightarrow> bool" where
  read_one: "Candidate cid (sy_cases y) (sy_triage y) = Inr c \<Longrightarrow>
    triage_step y (y\<lparr>sy_flight := c # sy_flight y\<rparr>)"
| read_sweep: "triage_step y (y\<lparr>sy_flight := Pending triageableStatuses (tp_Version (p :: triage_policy)) limit (sy_cases y) (sy_triage y) @ sy_flight y\<rparr>)"
| assess: "c \<in> set (sy_flight y) \<Longrightarrow>
    triage_step y (y\<lparr>sy_triage := fst (Assess p c now (sy_triage y)), sy_flight := remove1 c (sy_flight y)\<rparr>)"
| claims_change: "triage_step y (y\<lparr>sy_cases := cases'\<rparr>)"

inductive_cases triage_stepE: "triage_step u v"

definition triage_init :: "case_store \<Rightarrow> triage_sys" where
  "triage_init cases = \<lparr>sy_cases = cases, sy_triage = NewTriageStore, sy_flight = []\<rparr>"

definition sys_inv :: "triage_sys \<Rightarrow> bool" where
  "sys_inv y \<longleftrightarrow> triage_inv (sy_triage y) \<and> (\<forall>c \<in> set (sy_flight y). candidate_ok (sy_triage y) c)"

lemma candidate_ok_append:
  assumes "candidate_ok s c" and "\<And>cid. \<exists>new. records_of s' cid = records_of s cid @ new"
  shows "candidate_ok s' c"
proof -
  obtain new where "records_of s' (cl_ID (tc_Claim c)) = records_of s (cl_ID (tc_Claim c)) @ new"
    using assms(2) by blast
  with assms(1) show ?thesis
    by (fastforce simp: candidate_ok_def nth_append split: option.splits)
qed

definition needs :: "triage_store \<Rightarrow> string \<Rightarrow> claim_record \<Rightarrow> bool" where
  "needs s v c = (case last_record s (cl_ID c) of None \<Rightarrow> True | Some l \<Rightarrow> changed c l v)"

lemma pending_loop_eq:
  "limit \<le> 0 \<or> int (length out) < limit \<Longrightarrow>
   pending_loop s v limit cs out = out @
     (let found = map (\<lambda>c. \<lparr>tc_Claim = c, tc_Last = last_record s (cl_ID c)\<rparr>) (filter (needs s v) cs)
      in if limit \<le> 0 then found else take (nat (limit - int (length out))) found)"
proof (induction cs arbitrary: out)
  case (Cons c cs)
  have nat1: "nat (limit - int (length out)) = Suc (nat (limit - int (length out) - 1))" if "int (length out) < limit"
    using that by simp
  show ?case
  proof (cases "needs s v c")
    case False
    with Cons show ?thesis by (auto simp: needs_def Let_def split: option.splits)
  next
    case True
    let ?out1 = "out @ [\<lparr>tc_Claim = c, tc_Last = last_record s (cl_ID c)\<rparr>]"
    from True have step: "pending_loop s v limit (c # cs) out =
      (if int (length ?out1) = limit then ?out1 else pending_loop s v limit cs ?out1)"
      by (auto simp: needs_def Let_def split: option.splits)
    show ?thesis
    proof (cases "int (length ?out1) = limit")
      case eq: True
      then have "nat (limit - int (length out)) = 1" "\<not> limit \<le> 0" by auto
      with step eq True show ?thesis by (simp add: Let_def)
    next
      case False
      with Cons.prems have pre: "limit \<le> 0 \<or> int (length ?out1) < limit" by auto
      from Cons.IH [OF pre] step False True Cons.prems show ?thesis
        by (auto simp: Let_def nat1 diff_diff_eq add.commute)
    qed
  qed
qed (simp add: Let_def)

text \<open>The claims that wait for a calculation, oldest first: what \<^verbatim>\<open>Pending\<close> cuts at its limit.\<close>

definition waiting :: "triage_policy \<Rightarrow> case_store \<Rightarrow> triage_store \<Rightarrow> claim_record list" where
  "waiting p cases s = filter (needs s (tp_Version p))
     (slice_sort filed_before (snapshot (\<lambda>c. cl_Status c \<in> set triageableStatuses) cases))"

lemma Pending_eq:
  "0 < limit \<Longrightarrow> Pending triageableStatuses (tp_Version p) limit cases s =
     map (\<lambda>c. \<lparr>tc_Claim = c, tc_Last = last_record s (cl_ID c)\<rparr>) (take (nat limit) (waiting p cases s))"
  by (simp add: Pending_def waiting_def pending_loop_eq Let_def take_map)

lemma Pending_candidates:
  "c \<in> set (Pending sts v limit cases s) \<Longrightarrow> tc_Last c = last_record s (cl_ID (tc_Claim c))"
  by (cases "limit \<le> 0") (auto simp: Pending_def pending_loop_eq Let_def dest!: in_set_takeD)

lemma Candidate_last: "Candidate cid cases s = Inr c \<Longrightarrow> tc_Last c = last_record s (cl_ID (tc_Claim c))"
  by (auto simp: Candidate_def snapshot_def Cons_eq_map_conv dest!: filter_eq_ConsD split: list.splits)

lemma sys_inv_step:
  assumes "sys_inv y" and "triage_step y y'"
  shows "sys_inv y'"
  using assms(2)
proof cases
  case (read_one cid c)
  with assms(1) Candidate_last candidate_last_ok show ?thesis by (auto simp: sys_inv_def)
next
  case (read_sweep p limit)
  with assms(1) Pending_candidates candidate_last_ok show ?thesis by (auto simp: sys_inv_def)
next
  case (assess c p now)
  have "candidate_ok (fst (Assess p c now (sy_triage y))) d" if "d \<in> set (sy_flight y)" for d
    using assms(1) that by (intro candidate_ok_append [OF _ Assess_append]) (auto simp: sys_inv_def)
  with assms(1) assess Assess_inv show ?thesis
    by (auto simp: sys_inv_def dest: notin_set_remove1 [rotated] in_set_remove1)
      (meson notin_set_remove1)
next
  case (claims_change cases')
  with assms(1) show ?thesis by (simp add: sys_inv_def)
qed

lemma sys_inv_init: "sys_inv (triage_init cases)"
  by (simp add: sys_inv_def triage_init_def triage_inv_def history_ok_def NewTriageStore_def records_of_def)

lemma sys_inv_steps: "triage_step\<^sup>*\<^sup>* y y' \<Longrightarrow> sys_inv y \<Longrightarrow> sys_inv y'"
  by (induction rule: rtranclp_induct) (auto intro: sys_inv_step)

lemma step_appends:
  assumes "triage_step y y'"
  shows "prefix (records_of (sy_triage y) cid) (records_of (sy_triage y') cid)"
  using assms
proof cases
  case (assess c p now)
  with Assess_append [of p c now "sy_triage y" cid] show ?thesis by (auto simp: prefix_def)
qed auto

lemma steps_append:
  "triage_step\<^sup>*\<^sup>* y y' \<Longrightarrow> prefix (records_of (sy_triage y) cid) (records_of (sy_triage y') cid)"
  by (induction rule: rtranclp_induct) (auto intro: prefix_order.trans step_appends)

section \<open>A sweep\<close>

text \<open>The test of the store and the one of the calculation agree: a claim that \<^verbatim>\<open>Pending\<close> returns
  has a difference to record, and a claim just calculated has none.\<close>

lemma changed_eq:
  "changed c l v \<longleftrightarrow> ti_PolicyVersion (ta_Input (tr_Assessment l)) \<noteq> v \<or>
     ti_IncidentType (ta_Input (tr_Assessment l)) \<noteq> cl_IncidentType c \<or>
     ti_EstimatedAmountMinor (ta_Input (tr_Assessment l)) \<noteq> cl_EstimatedAmountMinor c"
  by (cases "ti_EstimatedAmountMinor (ta_Input (tr_Assessment l))"; cases "cl_EstimatedAmountMinor c")
    (auto simp: changed_def Let_def)

lemma InputOf_sel [simp]:
  "ti_PolicyVersion (InputOf p c) = tp_Version p" "ti_IncidentType (InputOf p c) = cl_IncidentType c"
  "ti_EstimatedAmountMinor (InputOf p c) = cl_EstimatedAmountMinor c"
  by (simp_all add: InputOf_def)

lemma changed_Diff: "changed c l (tp_Version p) \<Longrightarrow> Diff (InputOf p c) (ta_Input (tr_Assessment l)) \<noteq> []"
  unfolding changed_eq Diff_Nil using InputOf_sel [of p c] by metis

lemma changed_iff_Diff:
  assumes "ti_Coverage (ta_Input (tr_Assessment l)) = ti_IncidentType (ta_Input (tr_Assessment l))"
    and "ti_Line (ta_Input (tr_Assessment l)) =
      (case Catalog_Incident CatalogV1 (ti_IncidentType (ta_Input (tr_Assessment l))) of Some opt \<Rightarrow> io_Line opt | None \<Rightarrow> '''')"
  shows "changed c l (tp_Version p) \<longleftrightarrow> Diff (InputOf p c) (ta_Input (tr_Assessment l)) \<noteq> []"
proof
  assume "Diff (InputOf p c) (ta_Input (tr_Assessment l)) \<noteq> []"
  with assms show "changed c l (tp_Version p)"
    unfolding Diff_Nil changed_eq by (cases "ta_Input (tr_Assessment l)") (auto simp: InputOf_def CatalogFor_def)
qed (rule changed_Diff)

lemma not_changed_after: "ta_Input (tr_Assessment r) = InputOf p c \<Longrightarrow> \<not> changed c r (tp_Version p)"
  by (simp add: changed_eq)

lemma InputOf_version [simp]: "InputOf p c\<lparr>ti_PolicyVersion := tp_Version p\<rparr> = InputOf p c"
  by (simp add: InputOf_def)

text \<open>One waiting claim: its calculation is recorded, at the end of its own history only.\<close>

lemma Assess_waiting:
  assumes "triage_inv s" and "Triageable (cl_Status c)" and "needs s (tp_Version p) c"
  shows "\<exists>r. Assess p \<lparr>tc_Claim = c, tc_Last = last_record s (cl_ID c)\<rparr> now s = (fst (Record r s), Some r) \<and>
    tr_ClaimID r = cl_ID c \<and> ta_Input (tr_Assessment r) = InputOf p c \<and>
    records_of (fst (Record r s)) = (records_of s)(cl_ID c := records_of s (cl_ID c) @ [r])"
proof -
  let ?a = "fst (TriagePolicy_Assess p (InputOf p c))" and ?t = "time_Truncate now time_Microsecond"
  have i: "ta_Input ?a = InputOf p c" by (simp add: TriagePolicy_Assess_level)
  have "\<exists>r. NextTriage (cl_ID c) ?a (last_record s (cl_ID c)) ?t = Some r"
    using assms(3) changed_Diff [of c _ p]
    by (auto simp: NextTriage_def Let_def needs_def i split: option.splits)
  then obtain r where n: "NextTriage (cl_ID c) ?a (last_record s (cl_ID c)) ?t = Some r" by blast
  note f = NextTriage_follows [OF n TriagePolicy_Assess_level(1)]
  have "tr_Seq r = int (length (records_of s (cl_ID c))) + 1"
  proof (cases "records_of s (cl_ID c) = []")
    case True
    with f show ?thesis by (simp add: last_record_eq record_follows_def)
  next
    case False
    have "tr_Seq (last (records_of s (cl_ID c))) = int (length (records_of s (cl_ID c)))"
      using history_seq [of "cl_ID c" "records_of s (cl_ID c)" "length (records_of s (cl_ID c)) - 1"] assms(1) False
      by (simp add: triage_inv_def last_conv_nth of_nat_diff Suc_le_eq)
    with False f show ?thesis by (simp add: last_record_eq record_follows_def)
  qed
  with n f i assms(2) show ?thesis
    by (intro exI [of _ r]) (auto simp: Assess_record records_of_Record)
qed

lemma last_record_cong: "records_of s cid = records_of s' cid \<Longrightarrow> last_record s cid = last_record s' cid"
  by (simp add: last_record_eq)

lemma sweep_loop_records:
  assumes "triage_inv s" and "distinct (map cl_ID cs)"
    and "list_all (\<lambda>c. Triageable (cl_Status c) \<and> needs s (tp_Version p) c) cs"
    and "sweep_loop p now i (map (\<lambda>c. \<lparr>tc_Claim = c, tc_Last = last_record s (cl_ID c)\<rparr>) cs) s = (s', n)"
  shows "n = length cs \<and> triage_inv s' \<and>
    (\<forall>cid. cid \<notin> cl_ID ` set cs \<longrightarrow> records_of s' cid = records_of s cid) \<and>
    (\<forall>c \<in> set cs. \<exists>r. records_of s' (cl_ID c) = records_of s (cl_ID c) @ [r] \<and> ta_Input (tr_Assessment r) = InputOf p c)"
  using assms
proof (induction cs arbitrary: s i n)
  case (Cons c cs)
  let ?cand = "\<lambda>s c. \<lparr>tc_Claim = c, tc_Last = last_record s (cl_ID c)\<rparr>"
  from Assess_waiting [OF Cons.prems(1), of c p "now i"] Cons.prems(3) obtain r where
    a: "Assess p (?cand s c) (now i) s = (fst (Record r s), Some r)" "ta_Input (tr_Assessment r) = InputOf p c"
    and rec: "records_of (fst (Record r s)) = (records_of s)(cl_ID c := records_of s (cl_ID c) @ [r])"
    by auto
  let ?s1 = "fst (Record r s)"
  have inv1: "triage_inv ?s1"
    using Assess_inv [OF Cons.prems(1), of "?cand s c" p "now i"] candidate_last_ok [of "?cand s c" s] a(1) by simp
  have "cl_ID c \<notin> cl_ID ` set cs" using Cons.prems(2) by simp
  then have ne: "cl_ID d \<noteq> cl_ID c" if "d \<in> set cs" for d using that by (metis image_eqI)
  have other: "last_record ?s1 (cl_ID d) = last_record s (cl_ID d)" if "d \<in> set cs" for d
    using ne [OF that] by (intro last_record_cong) (simp add: rec)
  then have map_eq: "map (?cand s) cs = map (?cand ?s1) cs" by auto
  have all1: "list_all (\<lambda>c. Triageable (cl_Status c) \<and> needs ?s1 (tp_Version p) c) cs"
    using Cons.prems(3) other by (auto simp: list_all_iff needs_def)
  obtain m where m: "sweep_loop p now (Suc i) (map (?cand ?s1) cs) ?s1 = (s', m)" "n = m + 1"
    using Cons.prems(4) a(1) unfolding map_eq by (auto simp: map_eq split: prod.splits)
  from Cons.IH [OF inv1 _ all1 m(1)] Cons.prems(2) a(2) m(2) show ?case
    by (auto simp: rec ne)
qed simp

lemma stored_by_id: "case_inv cases \<Longrightarrow> c \<in> snd ` set (cs_byID cases) \<Longrightarrow> gm_get (cs_byID cases) (cl_ID c) = Some c"
  using gm_in_set_iff [of "cs_byID cases"] by (auto simp: case_inv_def ids_ok_def)

lemma ids_where:
  assumes "case_inv cases"
  shows "cl_ID ` {c \<in> snd ` set (cs_byID cases). P c} = {cid. \<exists>c. gm_get (cs_byID cases) cid = Some c \<and> P c}" (is "?l = ?r")
proof (intro equalityI subsetI)
  fix cid assume "cid \<in> ?l"
  then obtain c where "c \<in> snd ` set (cs_byID cases)" "P c" "cid = cl_ID c" by blast
  with stored_by_id [OF assms] show "cid \<in> ?r" by blast
next
  fix cid assume "cid \<in> ?r"
  then obtain c where c: "gm_get (cs_byID cases) cid = Some c" "P c" by blast
  then have "c \<in> snd ` set (cs_byID cases)" using gm_get_SomeD by force
  with c case_inv_id [OF assms c(1)] show "cid \<in> ?l" by blast
qed

lemma set_snapshot: "set (snapshot match cases) = listed ` {c \<in> snd ` set (cs_byID cases). match c}"
  by (simp add: snapshot_def)

lemma snapshot_ids_distinct:
  assumes "case_inv cases"
  shows "distinct (map cl_ID (slice_sort filed_before (snapshot match cases)))"
proof -
  have d: "distinct (map claim_pos (snapshot match cases))"
    unfolding snapshot_def by (rule positions_distinct [OF assms])
  have "sorted_wrt (\<lambda>x y. claim_pos x < claim_pos y) (slice_sort filed_before (snapshot match cases))"
    by (rule slice_sort_sorted [OF d]) (auto simp: filed_before_def claim_pos_def less_prod_def')
  then have "distinct (slice_sort filed_before (snapshot match cases))"
    by (rule sorted_wrt_irrefl_distinct) simp
  moreover have "inj_on cl_ID (set (snapshot match cases))"
    unfolding set_snapshot inj_on_def ball_simps using stored_by_id [OF assms]
    by (metis (no_types, lifting) listed_sel(5) mem_Collect_eq option.inject)
  ultimately show ?thesis by (simp add: distinct_map)
qed

lemma filter_drop_prefix:
  assumes "distinct xs"
  shows "filter (\<lambda>x. P x \<and> x \<notin> set (take n (filter P xs))) xs = drop n (filter P xs)"
proof -
  have d: "distinct (filter P xs)" using assms by simp
  have "filter (\<lambda>x. P x \<and> x \<notin> set (take n (filter P xs))) xs =
      filter (\<lambda>x. x \<notin> set (take n (filter P xs))) (filter P xs)"
    by (simp add: conj_commute)
  also have "\<dots> = filter (\<lambda>x. x \<notin> set (take n (filter P xs))) (take n (filter P xs) @ drop n (filter P xs))"
    by (simp only: append_take_drop_id)
  also have "\<dots> = drop n (filter P xs)"
  proof -
    have "filter (\<lambda>x. x \<notin> set (take n (filter P xs))) (take n (filter P xs)) = []"
      by (simp add: filter_empty_conv)
    moreover have "filter (\<lambda>x. x \<notin> set (take n (filter P xs))) (drop n (filter P xs)) = drop n (filter P xs)"
      using set_take_disj_set_drop_if_distinct [OF d, of n n] by (intro filter_True) blast
    ultimately show ?thesis by (simp only: filter_append append_Nil)
  qed
  finally show ?thesis .
qed

text \<open>
  A sweep with nobody else at work records one calculation for each of the first claims that wait,
  up to the limit, and what waits afterwards is the rest.
\<close>

lemma Sweep_waiting:
  assumes "case_inv cases" and "triage_inv s" and "0 < limit" and "Sweep p now limit cases s = (s', n)"
  shows "waiting p cases s' = drop (nat limit) (waiting p cases s)"
    and "n = min (nat limit) (length (waiting p cases s))" and "triage_inv s'"
proof -
  let ?sorted = "slice_sort filed_before (snapshot (\<lambda>c. cl_Status c \<in> set triageableStatuses) cases)"
  let ?cs = "take (nat limit) (waiting p cases s)"
  have d: "distinct (map cl_ID ?sorted)" by (rule snapshot_ids_distinct [OF assms(1)])
  have dcs: "distinct (map cl_ID ?cs)"
    using distinct_map_filter [OF d] unfolding waiting_def take_map [symmetric] by (rule distinct_take)
  have sub: "set ?cs \<subseteq> set ?sorted" by (auto simp: waiting_def dest: in_set_takeD)
  have all: "list_all (\<lambda>c. Triageable (cl_Status c) \<and> needs s (tp_Version p) c) ?cs"
    by (auto simp: list_all_iff waiting_def snapshot_def triageableStatuses_def dest!: in_set_takeD)
  note r = sweep_loop_records [OF assms(2) dcs all, of now 0 s' n]
  have loop: "sweep_loop p now 0 (map (\<lambda>c. \<lparr>tc_Claim = c, tc_Last = last_record s (cl_ID c)\<rparr>) ?cs) s = (s', n)"
    using assms(4) by (simp add: Sweep_def Pending_eq [OF assms(3)])
  from r [OF loop] show "n = min (nat limit) (length (waiting p cases s))" and "triage_inv s'"
    by (auto simp: min.commute)
  have nd: "needs s' (tp_Version p) c \<longleftrightarrow> needs s (tp_Version p) c \<and> c \<notin> set ?cs" if c: "c \<in> set ?sorted" for c
  proof (cases "c \<in> set ?cs")
    case True
    with r [OF loop] not_changed_after show ?thesis by (fastforce simp: needs_def last_record_eq)
  next
    case False
    then have "cl_ID c \<notin> cl_ID ` set ?cs"
      using inj_on_image_mem_iff [of cl_ID, OF _ c sub] d by (simp add: distinct_map)
    then have "records_of s' (cl_ID c) = records_of s (cl_ID c)" using r [OF loop] by blast
    with False show ?thesis by (simp add: needs_def last_record_eq)
  qed
  have "waiting p cases s' = filter (\<lambda>c. needs s (tp_Version p) c \<and> c \<notin> set ?cs) ?sorted"
    unfolding waiting_def [of p cases s'] by (rule filter_cong [OF refl nd])
  also have "\<dots> = drop (nat limit) (waiting p cases s)"
    unfolding waiting_def by (rule filter_drop_prefix) (use d in \<open>simp add: distinct_map\<close>)
  finally show "waiting p cases s' = drop (nat limit) (waiting p cases s)" .
qed

fun sweeps :: "triage_policy \<Rightarrow> (nat \<Rightarrow> nat \<Rightarrow> time) \<Rightarrow> int \<Rightarrow> case_store \<Rightarrow> nat \<Rightarrow> triage_store \<Rightarrow> triage_store" where
  "sweeps p now limit cases 0 s = s"
| "sweeps p now limit cases (Suc k) s = sweeps p now limit cases k (fst (Sweep p (now k) limit cases s))"

lemma sweeps_waiting:
  assumes "case_inv cases" and "0 < limit" and "triage_inv s"
  shows "waiting p cases (sweeps p now limit cases k s) = drop (k * nat limit) (waiting p cases s)"
  using assms(3)
proof (induction k arbitrary: s)
  case (Suc k)
  obtain s1 n where sw: "Sweep p (now k) limit cases s = (s1, n)" by fastforce
  note w = Sweep_waiting [OF assms(1) Suc.prems assms(2) sw]
  from Suc.IH [OF w(3)] w(1) sw show ?case by (simp add: add.commute)
qed simp

section \<open>Reading the priority\<close>

lemma Current_Some:
  assumes "case_inv cases"
  shows "Current ids cases s cid =
    (if cid \<in> set ids
     then map_option (\<lambda>c. \<lparr>tc_Claim = status_only c, tc_Last = last_record s cid\<rparr>) (gm_get (cs_byID cases) cid) else None)"
proof -
  let ?f = "\<lambda>c. (cl_ID c, \<lparr>tc_Claim = status_only c, tc_Last = last_record s (cl_ID c)\<rparr>)"
  have ids: "\<forall>(k, c) \<in> set m. cl_ID c = k \<Longrightarrow>
    map_of (map ?f (map listed (filter (\<lambda>c. cl_ID c \<in> set ids) (map snd m)))) cid =
    (if cid \<in> set ids
     then map_option (\<lambda>c. \<lparr>tc_Claim = status_only c, tc_Last = last_record s cid\<rparr>) (map_of m cid) else None)" for m
    by (induction m) (auto simp: status_only_def)
  show ?thesis
    using assms ids [of "cs_byID cases"] by (simp add: Current_def snapshot_def gm_get_def case_inv_def ids_ok_def)
qed

end
