(* ===== verification/Scenario.thy ===== *)
theory Scenario
  imports Claims_Payout Claims_Triage
begin

text \<open>
  One claim from its filing to its payment, evaluated: the run shows that the states the theorems
  about the payments speak of are reached, with an approval, a disbursement and a paid claim in
  them. Each state is the value of the step of the model from the one before it.
\<close>

definition run_claim :: claim where
  "run_claim = zero_claim\<lparr>cl_ID := ''c1'', cl_Subject := ''ana'', cl_FilingKey := ''k1'', cl_PolicyID := ''p1'',
     cl_IncidentType := IncidentTheft, cl_FiledAt := 100, cl_OccurredAt := 50, cl_Place := ''Calle 1'', cl_Description := ''Robo''\<rparr>"

definition run_coverage :: coverage where
  "run_coverage = \<lparr>cov_Incident = IncidentTheft, cov_InsuredValueMinor = 5000000, cov_Currency = ''COP'',
     cov_DeductibleBasisPoints = 1000\<rparr>"

definition run_account :: payout_account where
  "run_account = \<lparr>pa_BankCode = ''007'', pa_BankName = ''Banco'', pa_AccountType = ''ahorros'', pa_AccountNumber = ''123456''\<rparr>"

definition run_holder :: holder where
  "run_holder = \<lparr>ho_FullName = ''Ana'', ho_DocumentType = ''CC'', ho_DocumentID = ''1'', ho_Email = ''ana at example'',
     ho_Phone = ''300'', ho_PayoutAccount = run_account\<rparr>"

definition run_filed :: pay_sys where
  "run_filed = (let y = pay_init 100 in
     y\<lparr>ps_store := (ps_store y)\<lparr>ds_cases := fst (Create run_claim (ds_cases (ps_store y)))\<rparr>\<rparr>)"

definition run_record :: claim_record where
  "run_record = projr (Get ''c1'' (ds_cases (ps_store run_filed)))"

definition run_decision :: decision where
  "run_decision = projr (domain_Approve run_record run_coverage run_holder 1000005 ''analyst'' 110)"

definition run_approved :: pay_sys where
  "run_approved = run_filed\<lparr>ps_store := fst (Decide run_decision (ps_store run_filed))\<rparr>"

definition run_now :: pay_sys where
  "run_now = run_approved\<lparr>ps_now := 120\<rparr>"

definition run_lease :: "decision_store \<times> (go_error + decision option)" where
  "run_lease = Claim_payout ''c1'' 120 30 (ps_store run_now)"

definition run_attempt :: decision where
  "run_attempt = the (projr (snd run_lease))"

definition run_claimed :: pay_sys where
  "run_claimed = run_now\<lparr>ps_store := fst run_lease, ps_flight := [(run_attempt, None)]\<rparr>"

definition run_payout :: payout where
  "run_payout = the (dn_Payout run_attempt)"

definition run_outcome :: outcome where
  "run_outcome = \<lparr>oc_Reference = ''ref-1''\<rparr>"

definition run_called :: pay_sys where
  "run_called = run_claimed\<lparr>ps_ledger := (ps_ledger run_claimed)(py_Key run_payout \<mapsto> disbursement_of run_payout),
     ps_flight := [(run_attempt, Some (Inr run_outcome))]\<rparr>"

definition run_paid :: pay_sys where
  "run_paid = run_called\<lparr>ps_store := recorded DefaultRetry 30 run_attempt 120 (Inr run_outcome) (ps_store run_called),
     ps_flight := []\<rparr>"

text \<open>The steps, evaluated one after the other.\<close>

lemma run_terms: "DeductibleOf 1000005 1000 = 100001" "TrimSpace ''007'' = ''007''" "TrimSpace ''123456'' = ''123456''"
  by (simp_all add: DeductibleOf_safe amount_safe_def basisPoints_def TrimSpace_graphic graphic_def byte_def)

lemmas run_filing = run_record_def Get_def run_filed_def Create_def insert_case_def Let_def run_claim_def pay_init_def
  NewDecisionStore_def NewCaseStore_def byFilingKey_def

lemma run_filed_sel: "gm_get (cs_byID (ds_cases (ps_store run_filed))) ''c1'' = Some run_record"
  "gm_get (ds_decisions (ps_store run_filed)) ''c1'' = None" "ps_flight run_filed = []" "ps_ledger run_filed = Map.empty"
  "ps_now run_filed = 100"
  by (simp_all add: run_filing)

lemma run_record_sel: "cl_ID run_record = ''c1''" "cl_Subject run_record = ''ana''" "cl_Status run_record = StatusActive"
  by (simp_all add: run_filing zero_claim_def)

lemmas run_approving = domain_Approve_def run_coverage_def run_holder_def run_account_def run_terms Let_def
  in_i64_def run_record_sel

lemma run_approval: "domain_Approve run_record run_coverage run_holder 1000005 ''analyst'' 110 = Inr run_decision"
  by (simp add: run_decision_def run_approving)

lemma run_decision_sel:
  "dn_ClaimID run_decision = ''c1''" "dn_Outcome run_decision = Outcome_Approved" "dn_DecidedBy run_decision = ''analyst''"
  "\<exists>p. dn_Payout run_decision = Some p \<and> py_Status p = StatusPending \<and> py_NextAttemptAt p = 110 \<and> py_Attempts p = 0 \<and>
     py_Key p = PayoutKey ''c1'' \<and> disbursement_of p = (900004, ''COP'', ''ana'')"
  by (simp_all add: run_decision_def run_approving disbursement_of_def)

lemma run_approved_sel:
  "\<exists>d p. gm_get (ds_decisions (ps_store run_approved)) ''c1'' = Some d \<and> dn_Outcome d = Outcome_Approved \<and>
     dn_ClaimID d = ''c1'' \<and>
     dn_Payout d = Some p \<and> py_Status p = StatusPending \<and> py_NextAttemptAt p = 110 \<and> py_Attempts p = 0 \<and>
     py_Key p = PayoutKey ''c1'' \<and> disbursement_of p = (900004, ''COP'', ''ana'')"
  "ps_flight run_approved = []" "ps_ledger run_approved = Map.empty" "ps_now run_approved = 100"
  "\<exists>c. gm_get (cs_byID (ds_cases (ps_store run_approved))) ''c1'' = Some c"
proof -
  obtain p where p: "dn_Payout run_decision = Some p" "py_Status p = StatusPending" "py_NextAttemptAt p = 110" "py_Attempts p = 0"
    "py_Key p = PayoutKey ''c1''" "disbursement_of p = (900004, ''COP'', ''ana'')"
    using run_decision_sel(4) by blast
  have "Decidable StatusActive" by (simp add: Decidable_def)
  then have "fst (Decide run_decision (ps_store run_filed)) =
      setStatus ''c1'' StatusApproved (put_decision ''c1'' (run_decision\<lparr>dn_FilingNumber := cl_FilingNumber run_record\<rparr>) (ps_store run_filed))"
    using p by (simp add: Decide_def run_decision_sel(1,2) run_filed_sel run_record_sel Let_def StatusOf_def)
  then have st: "ps_store run_approved =
      setStatus ''c1'' StatusApproved (put_decision ''c1'' (run_decision\<lparr>dn_FilingNumber := cl_FilingNumber run_record\<rparr>) (ps_store run_filed))"
    by (simp add: run_approved_def)
  show "\<exists>d p. gm_get (ds_decisions (ps_store run_approved)) ''c1'' = Some d \<and> dn_Outcome d = Outcome_Approved \<and>
     dn_ClaimID d = ''c1'' \<and>
     dn_Payout d = Some p \<and> py_Status p = StatusPending \<and> py_NextAttemptAt p = 110 \<and> py_Attempts p = 0 \<and>
     py_Key p = PayoutKey ''c1'' \<and> disbursement_of p = (900004, ''COP'', ''ana'')"
    using p by (simp add: st run_decision_sel)
  show "ps_flight run_approved = []" "ps_ledger run_approved = Map.empty" "ps_now run_approved = 100"
    by (simp_all add: run_approved_def run_filed_sel)
  show "\<exists>c. gm_get (cs_byID (ds_cases (ps_store run_approved))) ''c1'' = Some c"
    by (simp add: st setStatus_def put_decision_def Let_def)
qed

lemma run_leasing:
  "Claim_payout ''c1'' 120 30 (ps_store run_now) = (fst run_lease, Inr (Some run_attempt))"
  "gm_get (ds_decisions (fst run_lease)) ''c1'' = Some run_attempt" "dn_Payout run_attempt = Some run_payout"
  "dn_ClaimID run_attempt = ''c1''" "dn_Outcome run_attempt = Outcome_Approved"
  "py_Status run_payout = StatusInProgress" "py_ClaimedUntil run_payout = 150" "py_Attempts run_payout = 0"
  "py_Key run_payout = PayoutKey ''c1''" "disbursement_of run_payout = (900004, ''COP'', ''ana'')"
  using run_approved_sel(1)
  by (auto simp: run_lease_def run_attempt_def run_payout_def run_now_def Claim_payout_def due_def Let_def time_Add_def
      disbursement_of_def)

lemma run_paid_sel:
  "\<exists>d p. gm_get (ds_decisions (ps_store run_paid)) ''c1'' = Some d \<and> dn_Payout d = Some p \<and> py_Status p = StatusConfirmed"
  "ps_ledger run_paid (PayoutKey ''c1'') = Some (900004, ''COP'', ''ana'')"
  "\<exists>c. gm_get (cs_byID (ds_cases (ps_store run_paid))) ''c1'' = Some c \<and> cl_Status c = StatusPaid"
proof -
  have "ps_store run_called = fst run_lease" by (simp add: run_called_def run_claimed_def)
  then have "ps_store run_paid = setStatus ''c1'' StatusPaid
      (put_decision ''c1'' (run_attempt\<lparr>dn_Payout := Some (confirm_change 120 run_outcome run_payout)\<rparr>) (fst run_lease))"
    using run_leasing
    by (simp add: run_paid_def recorded_def record_result_def worker_runner_def capped_store_def Confirm_payout_def
        held_def Let_def StatusOf_def confirm_change_def)
  then show "\<exists>d p. gm_get (ds_decisions (ps_store run_paid)) ''c1'' = Some d \<and> dn_Payout d = Some p \<and> py_Status p = StatusConfirmed"
    and "\<exists>c. gm_get (cs_byID (ds_cases (ps_store run_paid))) ''c1'' = Some c \<and> cl_Status c = StatusPaid"
    by (simp_all add: confirm_change_def setStatus_def put_decision_def Let_def)
  show "ps_ledger run_paid (PayoutKey ''c1'') = Some (900004, ''COP'', ''ana'')"
    using run_leasing by (simp add: run_paid_def run_called_def)
qed

lemma run_approved_reached: "pay_step\<^sup>*\<^sup>* (pay_init 100) run_approved"
proof -
  have "pay_step (pay_init 100) run_filed"
    unfolding run_filed_def Let_def
    by (rule file_mobile) (simp_all add: fresh_id_def run_claim_def zero_claim_def pay_init_def NewDecisionStore_def NewCaseStore_def)
  moreover have "pay_step run_filed run_approved"
    unfolding run_approved_def by (rule approve [OF run_approval])
  ultimately show ?thesis by (meson converse_rtranclp_into_rtranclp r_into_rtranclp)
qed

lemma run_claimed_steps: "pay_step\<^sup>*\<^sup>* run_approved run_claimed"
proof -
  have "pay_step run_approved run_now"
    unfolding run_now_def by (rule tick) (simp add: run_approved_sel)
  moreover have "run_claimed = run_now\<lparr>ps_store := fst run_lease, ps_flight := (run_attempt, None) # ps_flight run_now\<rparr>"
    by (simp add: run_claimed_def run_now_def run_approved_sel)
  then have "pay_step run_now run_claimed"
    using claim [of "''c1''" run_now 30 "fst run_lease" run_attempt] run_leasing(1) by (simp add: run_now_def)
  ultimately show ?thesis by (meson converse_rtranclp_into_rtranclp r_into_rtranclp)
qed

lemma run_paid_steps: "pay_step\<^sup>*\<^sup>* run_claimed run_paid"
proof -
  have f: "ps_flight run_claimed = [(run_attempt, None)]" "ps_ledger run_claimed = Map.empty" "ps_now run_called = 120"
    by (simp_all add: run_claimed_def run_called_def run_now_def run_approved_sel)
  have "pay_step run_claimed run_called"
    using call_executes [of run_attempt run_claimed run_payout "Inr run_outcome"] f run_leasing(3)
    by (simp add: run_called_def)
  moreover have "pay_step run_called run_paid"
    using write_result [of run_attempt "Inr run_outcome" run_called DefaultRetry 30] f
    by (simp add: run_paid_def run_called_def)
  ultimately show ?thesis by (meson converse_rtranclp_into_rtranclp r_into_rtranclp)
qed

lemma run_paid_reached: "pay_step\<^sup>*\<^sup>* (pay_init 100) run_paid" "pay_step\<^sup>*\<^sup>* (pay_init 100) run_claimed"
  using run_approved_reached run_claimed_steps run_paid_steps by (meson rtranclp_trans)+

text \<open>The same approval through the service of the analyst.\<close>

definition run_core :: policy_terms_reader where
  "run_core = \<lparr>ptr_PolicyTerms = (\<lambda>_ _. Inr \<lparr>pt_Policy = \<lparr>pol_ID = ''p1'', pol_Line = LineAuto, pol_Product = ''auto'',
       pol_InsuredObject = ''carro'', pol_Status = PolicyActive, pol_ValidFrom = 1, pol_ValidTo = 1000,
       pol_CoveredIncidents = [IncidentTheft]\<rparr>, pt_Coverages = [run_coverage]\<rparr>),
     ptr_Holder = (\<lambda>_. Inr run_holder)\<rparr>"

definition run_stored :: decision where
  "run_stored = run_decision\<lparr>dn_FilingNumber := cl_FilingNumber run_record\<rparr>"

lemma run_service:
  "service_Approve (Some run_core) 110 ''c1'' ''analyst'' 1000005 (ps_store run_filed) = (ps_store run_approved, Inr run_stored)"
proof -
  have i: "cl_IncidentType run_record = IncidentTheft"
    by (simp add: run_filing zero_claim_def mobile_record_def claim.defs claim_record.defs)
  have dec: "decidable ''c1'' (ps_store run_filed) = Inr run_record"
    by (simp add: decidable_def Get_def run_filed_sel run_record_sel)
  have st: "StatusOf run_stored = Some StatusApproved"
    using domain_Approve_ok(3) [OF run_approval] by (simp add: run_stored_def)
  have "Decide run_decision (ps_store run_filed) = (ps_store run_approved, Inr run_stored)"
    using st by (simp add: run_approved_def Decide_def run_decision_sel(1) run_filed_sel run_record_sel Let_def run_stored_def)
  with dec show ?thesis
    by (simp add: service_Approve_def termsOf_def run_core_def PolicyTerms_CoverageOf_def i run_coverage_def [THEN arg_cong, of cov_Incident]
        run_approval)
qed

end
