(* ===== verification/Claims_Filing.thy ===== *)
theory Claims_Filing
  imports Claims_Cases
begin

text \<open>
  The use cases that file a claim: the mobile filing (\<^verbatim>\<open>filing/service.go\<close>), the supports of the
  web filing (\<^verbatim>\<open>filing/supports.go\<close>), the web filing (\<^verbatim>\<open>filing/web.go\<close>) and the uploads of the
  phone (\<^verbatim>\<open>evidence/service.go\<close>). They work on the store of \<open>Claims_Cases\<close>. The object storage
  and the policy core are other services, and the random bytes come from the system: they are
  arguments. Each reading of the clock is an argument too.
\<close>

section \<open>What the services call\<close>

definition ErrEvidenceNotFound :: go_error where
  "ErrEvidenceNotFound = errors_New ''claims: the evidence is not in the store''"

record stored_evidence =
  se_ByteSize :: int
  se_SHA256 :: string

record signed_upload =
  sgu_URL :: string
  sgu_Headers :: "(string, string) gomap"
  sgu_ExpiresAt :: time

text \<open>The object storage: what it holds under a key, the first bytes of an object and a signed upload
  for a key, a content type, a size and a digest.\<close>

record object_store =
  os_Stat :: "string \<Rightarrow> go_error + stored_evidence"
  os_Head :: "string \<Rightarrow> nat \<Rightarrow> go_error + string"
  os_SignUpload :: "string \<Rightarrow> string \<Rightarrow> int \<Rightarrow> string \<Rightarrow> duration \<Rightarrow> go_error + signed_upload"
  os_SignDownload :: "string \<Rightarrow> duration \<Rightarrow> go_error + string \<times> time"

text \<open>The random bytes of one call to \<^verbatim>\<open>rand.Read\<close>.\<close>

type_synonym random16 = "go_error + nat list"

datatype filing_error =
    FilingInvalid validation_error
  | FilingCase case_error
  | FilingRead string go_error
  | FilingNoID go_error
  | FilingDirectory go_error
  | PolicyNotEligibleError string "policy option"

definition ReasonPolicyNotFound :: string where "ReasonPolicyNotFound = ''policy_not_found''"
definition ReasonPolicyNotActive :: string where "ReasonPolicyNotActive = ''policy_not_active''"
definition ReasonIncidentNotCovered :: string where "ReasonIncidentNotCovered = ''incident_not_covered''"
definition ReasonOccurredOutsideValidity :: string where "ReasonOccurredOutsideValidity = ''occurred_outside_validity''"

section \<open>Identifiers\<close>

text \<open>A random UUID, version 4: the fixed bits of bytes 6 and 8, and the dashes.\<close>

definition uuid_bytes :: "nat list \<Rightarrow> nat list" where
  "uuid_bytes b = b[6 := (b ! 6) mod 16 + 64, 8 := (b ! 8) mod 64 + 128]"

definition newID :: "random16 \<Rightarrow> go_error + string" where
  "newID rnd =
    (case rnd of
       Inl e \<Rightarrow> Inl (errorf_w ''could not generate an id: '' e)
     | Inr b0 \<Rightarrow>
        let b = uuid_bytes b0 in
        Inr (hex_encode (take 4 b) @ ''-'' @ hex_encode (take 2 (drop 4 b)) @ ''-'' @ hex_encode (take 2 (drop 6 b)) @ ''-'' @
             hex_encode (take 2 (drop 8 b)) @ ''-'' @ hex_encode (take 6 (drop 10 b))))"

definition newSupportID :: "random16 \<Rightarrow> go_error + string" where
  "newSupportID rnd =
    (case rnd of
       Inl e \<Rightarrow> Inl (errorf_w ''could not generate the support id: '' e)
     | Inr b \<Rightarrow> Inr (SupportIDPrefix @ hex_encode b))"

section \<open>The mobile filing\<close>

text \<open>One piece of evidence against the store: an error of the store stops the check, a piece that is
  not what was declared is one more field.\<close>

definition evidence_key_field :: "nat \<Rightarrow> field_error" where
  "evidence_key_field i = fe (''evidence.'' @ FormatInt (int i) @ ''.object_key'') CodeNotStored"

fun check_evidence_loop ::
  "object_store \<Rightarrow> string \<Rightarrow> nat \<Rightarrow> evidence list \<Rightarrow> go_error + field_error list" where
  "check_evidence_loop st subject i [] = Inr []"
| "check_evidence_loop st subject i (e # es) =
    (let rest = (\<lambda>bads. case check_evidence_loop st subject (i + 1) es of Inl err \<Rightarrow> Inl err | Inr fs \<Rightarrow> Inr (bads @ fs)) in
     if \<not> OwnedBy (ev_ObjectKey e) subject then rest [evidence_key_field i]
     else case os_Stat st (ev_ObjectKey e) of
            Inl err \<Rightarrow> if errors_Is err ErrEvidenceNotFound then rest [evidence_key_field i]
                      else Inl (errorf_w (''read the evidence '' @ ev_ObjectKey e @ '': '') err)
          | Inr stored \<Rightarrow>
             if se_ByteSize stored \<noteq> ev_ByteSize e then rest [evidence_key_field i]
             else if se_SHA256 stored \<noteq> '''' \<and> se_SHA256 stored \<noteq> ev_SHA256 e then rest [evidence_key_field i]
             else rest [])"

definition checkEvidence :: "object_store option \<Rightarrow> string \<Rightarrow> evidence list \<Rightarrow> filing_error option" where
  "checkEvidence st subject evidence =
    (if evidence = [] then None
     else case st of
            None \<Rightarrow> Some (FilingInvalid [fe ''evidence'' CodeNotStored])
          | Some o1 \<Rightarrow>
             (case check_evidence_loop o1 subject 0 evidence of
                Inl err \<Rightarrow> Some (FilingRead ''evidence'' err)
              | Inr fs \<Rightarrow> if fs \<noteq> [] then Some (FilingInvalid fs) else None))"

definition File ::
  "object_store option \<Rightarrow> time \<Rightarrow> time \<Rightarrow> random16 \<Rightarrow> string \<Rightarrow> string \<Rightarrow> filing_request \<Rightarrow> case_store \<Rightarrow>
     case_store \<times> (filing_error + claim \<times> bool)" where
  "File st now1 now2 rnd subject key r s =
    (case FilingRequest_Validate r now1 of
       Inl bads \<Rightarrow> (s, Inl (FilingInvalid bads))
     | Inr c0 \<Rightarrow>
        (case checkEvidence st subject (cl_Evidence c0) of
           Some e \<Rightarrow> (s, Inl e)
         | None \<Rightarrow>
            (case newID rnd of
               Inl e \<Rightarrow> (s, Inl (FilingNoID e))
             | Inr cid \<Rightarrow>
                let c = c0\<lparr>cl_Subject := subject, cl_FilingKey := key, cl_FiledAt := now2, cl_ID := cid\<rparr>;
                    (s1, res) = Create c s
                in (s1, case res of Inl e \<Rightarrow> Inl (FilingCase e) | Inr x \<Rightarrow> Inr x))))"

section \<open>The supports\<close>

definition SupportUploadTTL :: duration where "SupportUploadTTL = 10 * time_Minute"
definition signatureBytes :: nat where "signatureBytes = 8"

datatype declare_error = DeclareSupport support_error | DeclareSign go_error | DeclareNoID go_error

record declared_support =
  dc_File :: support_file
  dc_URL :: string
  dc_Headers :: "(string, string) gomap"
  dc_ExpiresAt :: time

definition Declare ::
  "object_store \<Rightarrow> time \<Rightarrow> random16 \<Rightarrow> string \<Rightarrow> support_upload_request \<Rightarrow> case_store \<Rightarrow>
     case_store \<times> (declare_error + declared_support)" where
  "Declare st now rnd subject r s =
    (case SupportUploadRequest_Validate r of
       Inl e \<Rightarrow> (s, Inl (DeclareSupport e))
     | Inr u \<Rightarrow>
        if CountPending subject s \<ge> MaxPendingSupports then (s, Inl (DeclareSupport ErrTooManyPendingSupports))
        else case newSupportID rnd of
               Inl e \<Rightarrow> (s, Inl (DeclareNoID e))
             | Inr sid \<Rightarrow>
                let f = \<lparr>sf_ID = sid, sf_OwnerSubject = subject, sf_FileName = su_FileName u, sf_Format = su_Format u,
                         sf_ByteSize = su_ByteSize u, sf_SHA256 = su_SHA256 u,
                         sf_UploadedAt = time_Truncate now time_Microsecond, sf_ConfirmedAt = zero_time\<rparr>
                in case os_SignUpload st (SupportFile_ObjectKey f) (FileFormat_ContentType (sf_Format f)) (sf_ByteSize f)
                          (sf_SHA256 f) SupportUploadTTL of
                     Inl e \<Rightarrow> (s, Inl (DeclareSign (errorf_w ''sign the upload of the support: '' e)))
                   | Inr sgn_up \<Rightarrow>
                      (Save_support f s,
                       Inr \<lparr>dc_File = f, dc_URL = sgu_URL sgn_up, dc_Headers = sgu_Headers sgn_up, dc_ExpiresAt = sgu_ExpiresAt sgn_up\<rparr>))"

datatype confirm_error = ConfirmSupport support_error | ConfirmRead go_error

definition service_Confirm ::
  "object_store \<Rightarrow> time \<Rightarrow> string \<Rightarrow> string \<Rightarrow> case_store \<Rightarrow> case_store \<times> (confirm_error + support_file)" where
  "service_Confirm st now subject sid s =
    (case Find_supports [sid] s sid of
       None \<Rightarrow> (s, Inl (ConfirmSupport ErrSupportNotFound))
     | Some f \<Rightarrow>
        if sf_OwnerSubject f \<noteq> subject then (s, Inl (ConfirmSupport ErrSupportNotFound))
        else if SupportFile_Confirmed f then (s, Inr f)
        else case os_Stat st (SupportFile_ObjectKey f) of
               Inl err \<Rightarrow> (s, Inl (if errors_Is err ErrEvidenceNotFound then ConfirmSupport ErrSupportNotUploaded
                                 else ConfirmRead (errorf_w ''read the file of the support: '' err)))
             | Inr stored \<Rightarrow>
                if se_ByteSize stored \<noteq> sf_ByteSize f \<or> se_SHA256 stored \<noteq> '''' \<and> se_SHA256 stored \<noteq> sf_SHA256 f
                then (s, Inl (ConfirmSupport ErrSupportMismatch))
                else case os_Head st (SupportFile_ObjectKey f) signatureBytes of
                       Inl err \<Rightarrow> (s, Inl (if errors_Is err ErrEvidenceNotFound then ConfirmSupport ErrSupportNotUploaded
                                         else ConfirmRead (errorf_w ''read the start of the file of the support: '' err)))
                     | Inr head \<Rightarrow>
                        if DetectFormat head \<noteq> Some (sf_Format f) then (s, Inl (ConfirmSupport ErrUnsupportedFileType))
                        else case Confirm_support sid (time_Truncate now time_Microsecond) s of
                               (s1, Inl e) \<Rightarrow> (s1, Inl (ConfirmSupport e))
                             | (s1, Inr g) \<Rightarrow> (s1, Inr g))"

section \<open>The web filing\<close>

text \<open>The policy core: every policy of a holder.\<close>

type_synonym policy_directory = "string \<Rightarrow> go_error + policy list"

record policy_options =
  po_Policy :: policy
  po_Incidents :: "incident_option list"

record filing_options =
  fo_CatalogVersion :: string
  fo_Policies :: "policy_options list"

definition Options :: "policy_directory \<Rightarrow> catalog \<Rightarrow> time \<Rightarrow> string \<Rightarrow> go_error + filing_options" where
  "Options dir cat now subject =
    (case dir subject of
       Inl e \<Rightarrow> Inl e
     | Inr policies \<Rightarrow>
        Inr \<lparr>fo_CatalogVersion = cat_Version cat,
             fo_Policies = concat (map (\<lambda>p.
               if \<not> Policy_ActiveAt p now then []
               else let incidents = Catalog_OptionsFor cat p
                    in if length incidents > 0 then [\<lparr>po_Policy = p, po_Incidents = incidents\<rparr>] else []) policies)\<rparr>)"

definition eligibility_reason :: "eligibility_error \<Rightarrow> string" where
  "eligibility_reason e = (case e of ErrPolicyNotActive \<Rightarrow> ReasonPolicyNotActive
     | ErrIncidentNotCovered \<Rightarrow> ReasonIncidentNotCovered | ErrOccurredOutsideValidity \<Rightarrow> ReasonOccurredOutsideValidity)"

definition eligiblePolicy ::
  "policy_directory \<Rightarrow> catalog \<Rightarrow> string \<Rightarrow> claim_record \<Rightarrow> time \<Rightarrow> filing_error + policy" where
  "eligiblePolicy dir cat subject c now =
    (case dir subject of
       Inl e \<Rightarrow> Inl (FilingDirectory e)
     | Inr policies \<Rightarrow>
        (case find (\<lambda>p. pol_ID p = cl_PolicyID c) policies of
           None \<Rightarrow> Inl (PolicyNotEligibleError ReasonPolicyNotFound None)
         | Some p \<Rightarrow>
            (case Policy_EligibleFor p cat (cl_IncidentType c) (cl_OccurredAt c) now of
               Some e \<Rightarrow> Inl (PolicyNotEligibleError (eligibility_reason e) (Some p))
             | None \<Rightarrow> Inr p)))"

definition sameFiling :: "claim_record \<Rightarrow> claim_record \<Rightarrow> filing_error + claim_record \<times> bool" where
  "sameFiling stored candidate =
    (if cr_Channel stored \<noteq> ChannelWeb \<or> WebFingerprint stored \<noteq> WebFingerprint candidate
     then Inl (FilingCase ErrFilingKeyReused) else Inr (stored, False))"

fun collect_ids :: "string list \<Rightarrow> string list \<Rightarrow> string list" where
  "collect_ids seen [] = []"
| "collect_ids seen (i # is) =
    (let sid = TrimSpace i in
     if ValidSupportID sid \<and> sid \<notin> set seen then sid # collect_ids (sid # seen) is else collect_ids seen is)"

definition supportIDs :: "web_filing_request \<Rightarrow> string list" where
  "supportIDs r = collect_ids [] (concat (map sg_SupportIDs (wr_Supports r)))"

definition web_File ::
  "policy_directory \<Rightarrow> catalog \<Rightarrow> time \<Rightarrow> random16 \<Rightarrow> string \<Rightarrow> string \<Rightarrow> web_filing_request \<Rightarrow> case_store \<Rightarrow>
     case_store \<times> (filing_error + claim_record \<times> bool)" where
  "web_File dir cat now rnd subject key r s =
    (let uploaded = Find_supports (supportIDs r) s in
     case WebFilingRequest_Validate r now cat subject uploaded of
       Inl bads \<Rightarrow> (s, Inl (FilingInvalid bads))
     | Inr c0 \<Rightarrow>
        (case FindByKey subject key s of
           Inr existing \<Rightarrow> (s, sameFiling existing c0)
         | Inl e0 \<Rightarrow>
            if e0 \<noteq> ErrClaimNotFound then (s, Inl (FilingCase e0))
            else (case eligiblePolicy dir cat subject c0 now of
               Inl e \<Rightarrow> (s, Inl e)
             | Inr p \<Rightarrow>
                (case newID rnd of
                   Inl e \<Rightarrow> (s, Inl (FilingNoID e))
                 | Inr cid \<Rightarrow>
                    let c = c0\<lparr>cl_Subject := subject, cl_FilingKey := key, cl_FiledAt := time_Truncate now time_Microsecond,
                               cr_Policy := Some p, cl_ID := cid\<rparr>
                    in case CreateWeb c s of
                         (s1, Inl ErrSupportAlreadyAttached) \<Rightarrow> (s1, Inl (FilingInvalid [fe ''supports'' CodeNotFound]))
                       | (s1, Inl e) \<Rightarrow> (s1, Inl (FilingCase e))
                       | (s1, Inr x) \<Rightarrow> (s1, Inr x)))))"

section \<open>The uploads of the phone\<close>

definition UploadTTL :: duration where "UploadTTL = 10 * time_Minute"

record signed_evidence =
  sev_ObjectKey :: string
  sev_URL :: string
  sev_Headers :: "(string, string) gomap"
  sev_ExpiresAt :: time

datatype upload_error = UploadInvalid validation_error | UploadSign go_error

definition SignUpload :: "object_store \<Rightarrow> string \<Rightarrow> upload_request \<Rightarrow> upload_error + signed_evidence" where
  "SignUpload st subject r =
    (case UploadRequest_Validate r of
       Inl bads \<Rightarrow> Inl (UploadInvalid bads)
     | Inr u \<Rightarrow>
        let key = Upload_Key u subject in
        case os_SignUpload st key (up_ContentType u) (up_ByteSize u) (up_SHA256 u) UploadTTL of
          Inl e \<Rightarrow> Inl (UploadSign (errorf_w ''sign the upload of the evidence: '' e))
        | Inr sgn_up \<Rightarrow> Inr \<lparr>sev_ObjectKey = key, sev_URL = sgu_URL sgn_up, sev_Headers = sgu_Headers sgn_up,
                            sev_ExpiresAt = sgu_ExpiresAt sgn_up\<rparr>)"

section \<open>Identifiers: what they look like\<close>

text \<open>Every id the service gives a support is one the filing form accepts.\<close>

lemma newSupportID_valid:
  assumes "length b = 16" and "list_all (\<lambda>x. x < 256) b"
  shows "\<exists>sid. newSupportID (Inr b) = Inr sid \<and> ValidSupportID sid"
  using hex_encode_lower_hex [OF assms(2)] assms(1)
  by (simp add: newSupportID_def ValidSupportID_def SupportIDPrefix_def class_match_def)

section \<open>Validation does not depend on when it is done\<close>

lemma occurred_same: "occurred v t = (i, []) \<Longrightarrow> occurred v u = (j, []) \<Longrightarrow> i = j"
  by (auto simp: occurred_def split: if_splits option.splits)

lemma capturedAt_same: "fst (capturedAt v occ t i) = fst (capturedAt v occ u i)"
  by (auto simp: capturedAt_def Let_def split: option.split)

lemma check_evidence_item_same:
  "fst (check_evidence_item i e k occ t) = fst (check_evidence_item i e k occ u)"
  using capturedAt_same [of "er_CapturedAt e" occ t i u]
  by (simp add: check_evidence_item_def Let_def case_prod_beta)

lemma evidence_loop_same:
  "fst (snd (snd (evidence_loop i es occ t))) = fst (snd (snd (evidence_loop i es occ u)))"
proof (induction es arbitrary: i)
  case (Cons e es)
  from Cons.IH [of "i + 1"] check_evidence_item_same [of i e _ occ t u] show ?case
    by (simp add: Let_def case_prod_beta split: option.split)
qed simp

lemma validateEvidence_same:
  "validateEvidence ins occ t = (out, []) \<Longrightarrow> validateEvidence ins occ u = (out', []) \<Longrightarrow> out = out'"
  using evidence_loop_same [of 0 ins occ t u]
  by (auto simp: validateEvidence_def Let_def case_prod_beta split: if_splits)

lemma FilingRequest_Validate_same:
  assumes "FilingRequest_Validate r t = Inr c" and "FilingRequest_Validate r u = Inr c'"
  shows "c = c'"
proof -
  obtain i e3 where o: "occurred (TrimSpace (fr_OccurredAt r)) t = (i, e3)" by fastforce
  obtain j f3 where o': "occurred (TrimSpace (fr_OccurredAt r)) u = (j, f3)" by fastforce
  obtain d e6 where d: "normalizeDetails (fr_Details r) = (d, e6)" by fastforce
  obtain m e8 where m: "estimatedAmount (TrimSpace (fr_EstimatedAmountMinor r)) = (m, e8)" by fastforce
  obtain ev e7 where v: "validateEvidence (fr_Evidence r) i t = (ev, e7)" by fastforce
  obtain ev' f7 where v': "validateEvidence (fr_Evidence r) j u = (ev', f7)" by fastforce
  note all = assms(1) [simplified FilingRequest_Validate_def Let_def o d v m prod.case]
  note all' = assms(2) [simplified FilingRequest_Validate_def Let_def o' d v' m prod.case]
  have nil: "e3 = []" "e7 = []" "f3 = []" "f7 = []" using all all' by (auto split: if_splits)
  have "i = j" using occurred_same o o' nil by blast
  moreover from this have "ev = ev'" using validateEvidence_same v v' nil by blast
  ultimately show ?thesis using all all' by (simp split: if_splits)
qed

lemma WebFilingRequest_Validate_same:
  assumes "WebFilingRequest_Validate r t cat subject up = Inr c" and "WebFilingRequest_Validate r u cat subject up = Inr c'"
  shows "c = c'"
proof -
  obtain i e3 where o: "occurred (TrimSpace (wr_OccurredAt r)) t = (i, e3)" by fastforce
  obtain j f3 where o': "occurred (TrimSpace (wr_OccurredAt r)) u = (j, f3)" by fastforce
  obtain m e6 where m: "estimatedAmount (TrimSpace (wr_EstimatedAmountMinor r)) = (m, e6)" by fastforce
  obtain sups e7 where sp: "(case Catalog_Incident cat (TrimSpace (wr_IncidentType r)) of
      Some opt1 \<Rightarrow> checkSupports (wr_Supports r) opt1 subject up
    | None \<Rightarrow> ([], if countIDs (wr_Supports r) > MaxSupportsPerClaim then [fe ''supports'' CodeTooMany] else [])) = (sups, e7)"
    by fastforce
  note all = assms(1) [simplified WebFilingRequest_Validate_def Let_def o m sp prod.case]
  note all' = assms(2) [simplified WebFilingRequest_Validate_def Let_def o' m sp prod.case]
  have "e3 = []" "f3 = []" using all all' by (auto split: if_splits)
  then have "i = j" using occurred_same o o' by blast
  with all all' show ?thesis by (simp split: if_splits)
qed

section \<open>What the filings guarantee\<close>

text \<open>The check of the evidence passes exactly when every piece is the insured person's and is stored
  as it was declared.\<close>

definition evidence_stored :: "object_store \<Rightarrow> string \<Rightarrow> evidence \<Rightarrow> bool" where
  "evidence_stored st subject e \<longleftrightarrow> OwnedBy (ev_ObjectKey e) subject \<and>
     (\<exists>stored. os_Stat st (ev_ObjectKey e) = Inr stored \<and> se_ByteSize stored = ev_ByteSize e \<and>
        (se_SHA256 stored = '''' \<or> se_SHA256 stored = ev_SHA256 e))"

lemma check_evidence_loop_Nil:
  "check_evidence_loop st subject i es = Inr [] \<longleftrightarrow> list_all (evidence_stored st subject) es"
proof (induction es arbitrary: i)
  case (Cons e es)
  then show ?case
    by (cases "os_Stat st (ev_ObjectKey e)"; cases "check_evidence_loop st subject (i + 1) es")
      (auto simp: evidence_stored_def Let_def)
qed simp

lemma checkEvidence_None:
  "checkEvidence st subject es = None \<longleftrightarrow>
    es = [] \<or> (\<exists>o1. st = Some o1 \<and> list_all (evidence_stored o1 subject) es)"
  by (auto simp: checkEvidence_def check_evidence_loop_Nil [of _ _ 0, symmetric] split: option.splits sum.splits)

text \<open>The branches of a mobile filing: refused, with nothing written, or handed to the store.\<close>

lemma File_cases:
  obtains (refused) e where "File st now1 now2 rnd subject key r s = (s, Inl e)" "\<And>x. e \<noteq> FilingCase x"
  | (filed) c0 cid where "FilingRequest_Validate r now1 = Inr c0" "checkEvidence st subject (cl_Evidence c0) = None"
      "newID rnd = Inr cid"
      "File st now1 now2 rnd subject key r s =
        map_prod id (map_sum FilingCase id)
          (Create (c0\<lparr>cl_Subject := subject, cl_FilingKey := key, cl_FiledAt := now2, cl_ID := cid\<rparr>) s)"
proof (cases "FilingRequest_Validate r now1")
  case (Inl a)
  then show thesis by (intro refused [of "FilingInvalid a"]) (simp_all add: File_def)
next
  case (Inr c0)
  show thesis
  proof (cases "checkEvidence st subject (cl_Evidence c0)")
    case (Some e)
    then show thesis
      by (intro refused [of e])
        (auto simp: File_def Inr checkEvidence_def split: if_splits option.splits sum.splits)
  next
    case None
    show thesis
    proof (cases "newID rnd")
      case (Inl e)
      then show thesis by (intro refused [of "FilingNoID e"]) (simp_all add: File_def Inr None)
    next
      case (Inr cid)
      obtain s1 res where cr: "Create (c0\<lparr>cl_Subject := subject, cl_FilingKey := key, cl_FiledAt := now2, cl_ID := cid\<rparr>) s = (s1, res)"
        by fastforce
      show thesis
        by (rule filed [OF \<open>FilingRequest_Validate r now1 = Inr c0\<close> None Inr])
          (simp add: File_def \<open>FilingRequest_Validate r now1 = Inr c0\<close> None Inr Let_def cr split: sum.split)
    qed
  qed
qed

lemma Create_True:
  assumes "Create c s = (s1, Inr (d, True))"
  shows "d = c\<lparr>cl_FilingNumber := FilingNumber (cl_FiledAt c) (cs_sequence s + 1)\<rparr>"
    and "gm_get (cs_byID s1) (cl_ID c) = Some (mobile_record d)"
proof -
  obtain s2 c1 where i: "insert_case (mobile_record c) s = (s2, c1)" by fastforce
  with assms have eq: "s1 = s2" "d = claim.truncate c1" by (auto simp: Create_def split: option.splits if_splits)
  have "c1 = (mobile_record c)\<lparr>cl_FilingNumber := FilingNumber (cl_FiledAt c) (cs_sequence s + 1)\<rparr>"
    using insert_case_get(6) [OF i] by simp
  then have "c1 = mobile_record (c\<lparr>cl_FilingNumber := FilingNumber (cl_FiledAt c) (cs_sequence s + 1)\<rparr>)"
    by (simp add: mobile_record_def claim.defs claim_record.defs)
  with eq insert_case_get(1) [OF i]
  show "d = c\<lparr>cl_FilingNumber := FilingNumber (cl_FiledAt c) (cs_sequence s + 1)\<rparr>"
    and "gm_get (cs_byID s1) (cl_ID c) = Some (mobile_record d)" by simp_all
qed

text \<open>A created mobile claim: well formed at the instant it was checked, its evidence stored, filed
  under the subject and the key, with the next number of the sequence.\<close>

lemma File_created:
  assumes "File st now1 now2 rnd subject key r s = (s1, Inr (c, True))"
  shows "mobile_claim_ok now1 c \<and> checkEvidence st subject (cl_Evidence c) = None \<and> fr_DeclarationAccepted r \<and>
    cl_Subject c = subject \<and> cl_FilingKey c = key \<and> cl_FiledAt c = now2 \<and>
    cl_FilingNumber c = FilingNumber now2 (cs_sequence s + 1) \<and> gm_get (cs_byID s1) (cl_ID c) = Some (mobile_record c)"
proof (cases rule: File_cases [of st now1 now2 rnd subject key r s])
  case (filed c0 cid)
  let ?c = "c0\<lparr>cl_Subject := subject, cl_FilingKey := key, cl_FiledAt := now2, cl_ID := cid\<rparr>"
  have cr: "Create ?c s = (s1, Inr (c, True))"
    using assms filed(4) by (cases "Create ?c s"; cases "snd (Create ?c s)") auto
  have "mobile_claim_ok now1 ?c"
    using FilingRequest_Validate_sound(1) [OF filed(1)] by (simp add: mobile_claim_ok_def facts_ok_def)
  then have "mobile_claim_ok now1 c" using Create_True(1) [OF cr] by (simp add: mobile_claim_ok_def facts_ok_def)
  with Create_True [OF cr] FilingRequest_Validate_sound(2) [OF filed(1)] filed(2) show ?thesis by simp
qed (use assms in simp)

text \<open>The same request with the same key again: the claim that was filed, and nothing else is
  written, whatever the clock and the random bytes of the second call.\<close>

lemma Fingerprint_filing [simp]:
  "Fingerprint (c\<lparr>cl_Subject := a, cl_FilingKey := k, cl_FiledAt := t, cl_ID := i\<rparr>) =
   Fingerprint (c\<lparr>cl_Subject := a, cl_FilingKey := k\<rparr>)"
  by (simp add: Fingerprint_def factsFingerprint_def facts_text_def split: option.split)

lemma File_retry:
  assumes "File st now1 now2 rnd subject key r s = (s1, Inr (c, True))"
  shows "\<exists>res. File st' now1' now2' rnd' subject key r s1 = (s1, res) \<and>
    (res = Inr (c, False) \<or> (\<exists>e. res = Inl e \<and> (\<forall>x. e \<noteq> FilingCase x)))"
proof (cases rule: File_cases [of st now1 now2 rnd subject key r s])
  case first: (filed c0 cid)
  let ?c = "\<lambda>c0 t cid. c0\<lparr>cl_Subject := subject, cl_FilingKey := key, cl_FiledAt := t, cl_ID := cid\<rparr>"
  have cr: "Create (?c c0 now2 cid) s = (s1, Inr (c, True))"
    using assms first(4) by (cases "Create (?c c0 now2 cid) s"; cases "snd (Create (?c c0 now2 cid) s)") auto
  show ?thesis
  proof (cases rule: File_cases [of st' now1' now2' rnd' subject key r s1])
    case (filed c0' cid')
    have "c0' = c0" using FilingRequest_Validate_same [OF filed(1) first(1)] .
    then have "Create (?c c0' now2' cid') s1 = (s1, Inr (c, False))"
      using Create_again [OF cr, of "?c c0' now2' cid'"] by simp
    with filed(4) show ?thesis by simp
  qed auto
qed (use assms in simp)

subsection \<open>The web filing\<close>

lemma CreateWeb_True:
  assumes "CreateWeb c s = (s1, Inr (d, True))"
  shows "d = c\<lparr>cr_Channel := ChannelWeb, cl_FilingNumber := FilingNumber (cl_FiledAt c) (cs_sequence s + 1)\<rparr>"
    and "gm_get (cs_byID s1) (cl_ID c) = Some d" and "cs_supports s1 = cs_supports s"
    and "byFilingKey s1 (cl_Subject c) (cl_FilingKey c) = Some d"
    and "\<forall>sid \<in> set (support_ids c). cs_attachedTo s sid = None"
proof -
  let ?c = "c\<lparr>cr_Channel := ChannelWeb\<rparr>"
  obtain s2 c1 where i: "insert_case ?c s = (s2, c1)" by fastforce
  with assms have eq: "d = c1" "cs_byID s1 = cs_byID s2" "cs_byKey s1 = cs_byKey s2" "cs_supports s1 = cs_supports s2"
    and free: "\<not> list_ex (\<lambda>sid. cs_attachedTo s sid \<noteq> None) (support_ids c)"
    by (auto simp: CreateWeb_def Let_def split: option.splits if_splits)
  note g = insert_case_get [OF i]
  show "d = c\<lparr>cr_Channel := ChannelWeb, cl_FilingNumber := FilingNumber (cl_FiledAt c) (cs_sequence s + 1)\<rparr>"
    using g(6) eq(1) by simp
  show "gm_get (cs_byID s1) (cl_ID c) = Some d" "cs_supports s1 = cs_supports s" using g(1,4) eq by simp_all
  show "byFilingKey s1 (cl_Subject c) (cl_FilingKey c) = Some d"
    using byFilingKey_insert [OF i] unfolding byFilingKey_def eq by simp
  show "\<forall>sid \<in> set (support_ids c). cs_attachedTo s sid = None" using free by (auto simp: list_ex_iff)
qed

lemma eligiblePolicy_Inr:
  "eligiblePolicy dir cat subject c now = Inr p \<Longrightarrow>
    \<exists>ps. dir subject = Inr ps \<and> p \<in> set ps \<and> pol_ID p = cl_PolicyID c \<and>
      Policy_EligibleFor p cat (cl_IncidentType c) (cl_OccurredAt c) now = None"
  by (auto simp: eligiblePolicy_def dest!: find_SomeD split: sum.splits option.splits)

lemma web_File_new:
  assumes "web_File dir cat now rnd subject key r s = (s1, Inr (c, True))"
  obtains c0 p cid where "WebFilingRequest_Validate r now cat subject (Find_supports (supportIDs r) s) = Inr c0"
    and "eligiblePolicy dir cat subject c0 now = Inr p" and "newID rnd = Inr cid"
    and "CreateWeb (c0\<lparr>cl_Subject := subject, cl_FilingKey := key, cl_FiledAt := time_Truncate now time_Microsecond,
           cr_Policy := Some p, cl_ID := cid\<rparr>) s = (s1, Inr (c, True))"
  using assms
  by (auto simp: web_File_def Let_def sameFiling_def split: sum.splits prod.splits case_error.splits if_splits)

text \<open>A created web claim: the facts are checked, its supports are the confirmed ones of the insured
  person that the catalog asks for, none attached before, and the policy it names is one of the
  insured person's, in force and covering the incident.\<close>

lemma web_File_created:
  assumes "web_File dir cat now rnd subject key r s = (s1, Inr (c, True))"
  shows "facts_ok now c \<and> cr_Channel c = ChannelWeb \<and> cl_Subject c = subject \<and> cl_FilingKey c = key \<and>
    gm_get (cs_byID s1) (cl_ID c) = Some c \<and>
    (\<exists>opt. Catalog_Incident cat (cl_IncidentType c) = Some opt \<and>
       supports_ok (wr_Supports r) opt subject (Find_supports (supportIDs r) s) (cr_Supports c)) \<and>
    (\<forall>sid \<in> set (support_ids c). cs_attachedTo s sid = None) \<and>
    (\<exists>ps p. dir subject = Inr ps \<and> p \<in> set ps \<and> cr_Policy c = Some p \<and> pol_ID p = cl_PolicyID c \<and>
       Policy_ActiveAt p now \<and> Policy_Covers p cat (cl_IncidentType c) \<and> Policy_Within p (cl_OccurredAt c))"
proof -
  obtain c0 p cid where v: "WebFilingRequest_Validate r now cat subject (Find_supports (supportIDs r) s) = Inr c0"
    and e: "eligiblePolicy dir cat subject c0 now = Inr p"
    and cw: "CreateWeb (c0\<lparr>cl_Subject := subject, cl_FilingKey := key, cl_FiledAt := time_Truncate now time_Microsecond,
           cr_Policy := Some p, cl_ID := cid\<rparr>) s = (s1, Inr (c, True))"
    using web_File_new [OF assms] by metis
  note w = WebFilingRequest_Validate_sound [OF v] and t = CreateWeb_True [OF cw]
  have "facts_ok now c" using w(1) by (simp add: t(1) facts_ok_def)
  with w(4) t eligiblePolicy_Inr [OF e] show ?thesis
    by (auto simp: EligibleFor_None support_ids_def)
qed

lemma WebFingerprint_filing [simp]:
  "WebFingerprint (c\<lparr>cl_Subject := a, cl_FilingKey := k, cl_FiledAt := t, cr_Policy := p, cl_ID := i\<rparr>) = WebFingerprint c"
  by (simp add: WebFingerprint_def factsFingerprint_def facts_text_def split: option.split)

text \<open>The same web filing again: the stored claim, without asking the policy core, so a policy that
  ended in between does not turn the retry away.\<close>

lemma web_File_retry:
  assumes "web_File dir cat now rnd subject key r s = (s1, Inr (c, True))"
  shows "\<exists>res. web_File dir' cat now' rnd' subject key r s1 = (s1, res) \<and>
    (res = Inr (c, False) \<or> (\<exists>bads. res = Inl (FilingInvalid bads) \<and>
       WebFilingRequest_Validate r now' cat subject (Find_supports (supportIDs r) s) = Inl bads))"
proof -
  obtain c0 p cid where v: "WebFilingRequest_Validate r now cat subject (Find_supports (supportIDs r) s) = Inr c0"
    and cw: "CreateWeb (c0\<lparr>cl_Subject := subject, cl_FilingKey := key, cl_FiledAt := time_Truncate now time_Microsecond,
           cr_Policy := Some p, cl_ID := cid\<rparr>) s = (s1, Inr (c, True))"
    using web_File_new [OF assms] by metis
  note t = CreateWeb_True [OF cw]
  have up: "Find_supports (supportIDs r) s1 = Find_supports (supportIDs r) s" by (simp add: Find_supports_def t(3) fun_eq_iff)
  have k: "FindByKey subject key s1 = Inr c" using t(4) by (simp add: FindByKey_def)
  have same: "sameFiling c c0 = Inr (c, False)"
    by (simp add: sameFiling_def t(1))
  show ?thesis
  proof (cases "WebFilingRequest_Validate r now' cat subject (Find_supports (supportIDs r) s)")
    case (Inl bads)
    then show ?thesis by (simp add: web_File_def up)
  next
    case (Inr c0')
    with WebFilingRequest_Validate_same [OF Inr v] k same show ?thesis by (simp add: web_File_def up)
  qed
qed

subsection \<open>The supports\<close>

text \<open>The invariant of the store and the bound on the supports that wait to be attached.\<close>

lemma Declare_keeps:
  assumes "Declare st now rnd subject r s = (s1, Inr d)"
  shows "s1 = Save_support (dc_File d) s" "sf_OwnerSubject (dc_File d) = subject"
    "\<not> SupportFile_Confirmed (dc_File d)" "CountPending subject s < MaxPendingSupports"
  using assms
  by (auto simp: Declare_def Let_def SupportFile_Confirmed_def split: sum.splits if_splits)

lemma filter_gm_put: "length (filter P (gm_put k v m)) \<le> length (filter P m) + (if P (k, v) then 1 else 0)"
  by (induction m) (auto simp: gm_put_def)

lemma CountPending_Save:
  "CountPending owner (Save_support f s) \<le> CountPending owner s + (if sf_OwnerSubject f = owner then 1 else 0)"
  using filter_gm_put [of "\<lambda>(sid, g). sf_OwnerSubject g = owner \<and> cs_attachedTo s sid = None" "sf_ID f" f "cs_supports s"]
  by (auto simp: CountPending_def Save_support_def split: if_splits)

lemma Declare_bound:
  assumes "CountPending owner s \<le> MaxPendingSupports"
  shows "CountPending owner (fst (Declare st now rnd subject r s)) \<le> MaxPendingSupports"
proof (cases "Declare st now rnd subject r s")
  case (Pair s1 res)
  show ?thesis
  proof (cases res)
    case (Inl e)
    with Pair have "s1 = s" by (auto simp: Declare_def Let_def split: sum.splits if_splits)
    with assms Pair show ?thesis by simp
  next
    case (Inr d)
    note k = Declare_keeps [OF Pair [unfolded Inr]]
    with CountPending_Save [of owner "dc_File d" s] assms Pair show ?thesis by (auto split: if_splits)
  qed
qed

text \<open>A support is confirmed only when the stored object has its size, its digest and starts with the
  signature of its format, and only for its owner.\<close>

lemma service_Confirm_ok:
  assumes "service_Confirm st now subject sid s = (s1, Inr f)"
  shows "sf_OwnerSubject f = subject \<and> (\<exists>f0. gm_get (cs_supports s) sid = Some f0 \<and>
     (SupportFile_Confirmed f0 \<and> f = f0 \<and> s1 = s \<or>
      \<not> SupportFile_Confirmed f0 \<and> f = f0\<lparr>sf_ConfirmedAt := time_Truncate now time_Microsecond\<rparr> \<and>
      s1 = s\<lparr>cs_supports := gm_put sid f (cs_supports s)\<rparr> \<and>
      (\<exists>stored head. os_Stat st (SupportFile_ObjectKey f) = Inr stored \<and> se_ByteSize stored = sf_ByteSize f \<and>
         (se_SHA256 stored = '''' \<or> se_SHA256 stored = sf_SHA256 f) \<and>
         os_Head st (SupportFile_ObjectKey f) signatureBytes = Inr head \<and> DetectFormat head = Some (sf_Format f))))"
proof -
  obtain f0 where f0: "gm_get (cs_supports s) sid = Some f0" "sf_OwnerSubject f0 = subject"
    using assms by (auto simp: service_Confirm_def Find_supports_def split: option.splits if_splits)
  show ?thesis
  proof (cases "SupportFile_Confirmed f0")
    case True
    with f0 assms show ?thesis by (simp add: service_Confirm_def Find_supports_def)
  next
    case False
    have key: "SupportFile_ObjectKey (f0\<lparr>sf_ConfirmedAt := t\<rparr>) = SupportFile_ObjectKey f0" for t
      by (simp add: SupportFile_ObjectKey_def)
    from False f0 assms show ?thesis
      by (auto simp: service_Confirm_def Find_supports_def Confirm_support_def Let_def key split: sum.splits if_splits)
  qed
qed

subsection \<open>The form\<close>

text \<open>The form offers exactly the policies in force with something to claim, and each claim type it
  offers passes the check of the filing when the incident is within the validity.\<close>

lemma Options_eligible:
  assumes "Options dir cat now subject = Inr o1" and "po \<in> set (fo_Policies o1)" and "opt \<in> set (po_Incidents po)"
    and "Policy_Within (po_Policy po) occurredAt"
  shows "Policy_EligibleFor (po_Policy po) cat (io_Type opt) occurredAt now = None"
    and "\<exists>ps. dir subject = Inr ps \<and> po_Policy po \<in> set ps"
  using assms
  by (auto simp: Options_def EligibleFor_None OptionsFor_covers Let_def split: sum.splits if_splits)

section \<open>Every run of the service\<close>

text \<open>
  The calls that write, in any order, by anybody, with any clock and any answers of the object storage
  and of the policy core. The random bytes give an id no claim has.
\<close>

inductive filing_step :: "case_store \<Rightarrow> case_store \<Rightarrow> bool" where
  file_phone: "(\<And>cid. newID rnd = Inr cid \<Longrightarrow> fresh_id s cid) \<Longrightarrow>
    filing_step s (fst (File st now1 now2 rnd subject key r s))"
| file_portal: "(\<And>cid. newID rnd = Inr cid \<Longrightarrow> fresh_id s cid) \<Longrightarrow>
    filing_step s (fst (web_File dir cat now rnd subject key w s))"
| declare_support: "filing_step s (fst (Declare st now rnd subject u s))"
| confirm_support: "filing_step s (fst (service_Confirm st now subject sid s))"

definition filing_inv :: "case_store \<Rightarrow> bool" where
  "filing_inv s \<longleftrightarrow> case_inv s \<and> (\<forall>owner. CountPending owner s \<le> MaxPendingSupports)"

lemma length_filter_imp: "(\<And>x. P x \<Longrightarrow> Q x) \<Longrightarrow> length (filter P m) \<le> length (filter Q m)"
  by (induction m) auto

lemma CountPending_mono:
  assumes "cs_supports s' = cs_supports s" and "\<And>sid. cs_attachedTo s sid \<noteq> None \<Longrightarrow> cs_attachedTo s' sid \<noteq> None"
  shows "CountPending owner s' \<le> CountPending owner s"
proof -
  have imp: "cs_attachedTo s' sid = None \<Longrightarrow> cs_attachedTo s sid = None" for sid using assms(2) by blast
  show ?thesis unfolding CountPending_def assms(1) by (rule length_filter_imp) (auto intro: imp)
qed

lemma File_keeps:
  assumes "case_inv s" and "\<And>cid. newID rnd = Inr cid \<Longrightarrow> fresh_id s cid"
  shows "case_inv (fst (File st now1 now2 rnd subject key r s))"
    and "CountPending owner (fst (File st now1 now2 rnd subject key r s)) \<le> CountPending owner s"
proof -
  show "case_inv (fst (File st now1 now2 rnd subject key r s))"
    by (cases rule: File_cases [of st now1 now2 rnd subject key r s]) (use assms in \<open>auto intro: Create_inv\<close>)
  have "cs_supports (fst (Create c s)) = cs_supports s \<and> cs_attachedTo (fst (Create c s)) = cs_attachedTo s" for c
    by (auto simp: Create_def insert_case_def Let_def split: option.split)
  then show "CountPending owner (fst (File st now1 now2 rnd subject key r s)) \<le> CountPending owner s"
    by (cases rule: File_cases [of st now1 now2 rnd subject key r s]) (auto intro!: CountPending_mono)
qed

lemma web_File_writes:
  obtains (same) "fst (web_File dir cat now rnd subject key r s) = s"
  | (created) c where "newID rnd = Inr (cl_ID c)" "fst (web_File dir cat now rnd subject key r s) = fst (CreateWeb c s)"
proof (cases "newID rnd")
  case (Inl e)
  then show thesis by (intro same) (auto simp: web_File_def Let_def split: sum.split option.split)
next
  case (Inr cid)
  have p: "fst (case CreateWeb c s of (s1, Inl ErrSupportAlreadyAttached) \<Rightarrow> (s1, Inl (FilingInvalid [fe ''supports'' CodeNotFound]))
      | (s1, Inl e) \<Rightarrow> (s1, Inl (FilingCase e)) | (s1, Inr x) \<Rightarrow> (s1, Inr x)) = fst (CreateWeb c s)" for c
    by (simp split: prod.split sum.split case_error.split)
  show thesis
  proof (cases "\<exists>c. cl_ID c = cid \<and> fst (web_File dir cat now rnd subject key r s) = fst (CreateWeb c s)")
    case True
    with created Inr show thesis by metis
  next
    case False
    have n: "\<not> fst (web_File dir cat now rnd subject key r s) = fst (CreateWeb (c\<lparr>cl_ID := cid\<rparr>) s)" for c :: claim_record
      using False by simp
    have "fst (web_File dir cat now rnd subject key r s) = s"
      using n unfolding web_File_def Let_def Inr sum.case
      by (auto simp: p split: sum.splits option.splits) metis
    then show thesis by (rule same)
  qed
qed

lemma CreateWeb_supports:
  "cs_supports (fst (CreateWeb c s)) = cs_supports s"
  "cs_attachedTo s sid \<noteq> None \<Longrightarrow> cs_attachedTo (fst (CreateWeb c s)) sid \<noteq> None"
  by (auto simp: CreateWeb_def insert_case_def Let_def attach_fold split: option.split)

lemma web_File_keeps:
  assumes "case_inv s" and "\<And>cid. newID rnd = Inr cid \<Longrightarrow> fresh_id s cid"
  shows "case_inv (fst (web_File dir cat now rnd subject key r s))"
    and "CountPending owner (fst (web_File dir cat now rnd subject key r s)) \<le> CountPending owner s"
proof -
  show "case_inv (fst (web_File dir cat now rnd subject key r s))"
  proof (cases rule: web_File_writes [of dir cat now rnd subject key r s])
    case same
    with assms(1) show ?thesis by simp
  next
    case (created c)
    with assms CreateWeb_inv [of s c] show ?thesis by simp
  qed
  show "CountPending owner (fst (web_File dir cat now rnd subject key r s)) \<le> CountPending owner s"
  proof (cases rule: web_File_writes [of dir cat now rnd subject key r s])
    case (created c)
    show ?thesis unfolding created(2) by (rule CountPending_mono [OF CreateWeb_supports])
  qed simp
qed

lemma filter_gm_put_same:
  "gm_get m k = Some v0 \<Longrightarrow> P (k, v) \<longleftrightarrow> P (k, v0) \<Longrightarrow> length (filter P (gm_put k v m)) \<le> length (filter P m)"
  by (induction m) (auto simp: gm_put_def gm_get_def split: if_splits)

lemma service_Confirm_keeps:
  assumes "case_inv s"
  shows "case_inv (fst (service_Confirm st now subject sid s))"
    and "CountPending owner (fst (service_Confirm st now subject sid s)) \<le> CountPending owner s"
proof -
  have "fst (service_Confirm st now subject sid s) = s \<or>
    (\<exists>f0 t. gm_get (cs_supports s) sid = Some f0 \<and>
       fst (service_Confirm st now subject sid s) = s\<lparr>cs_supports := gm_put sid (f0\<lparr>sf_ConfirmedAt := t\<rparr>) (cs_supports s)\<rparr>)"
    by (auto simp: service_Confirm_def Find_supports_def Confirm_support_def Let_def split: option.splits sum.splits if_splits)
  then show "case_inv (fst (service_Confirm st now subject sid s))"
    and "CountPending owner (fst (service_Confirm st now subject sid s)) \<le> CountPending owner s"
    using assms case_inv_support_id [OF assms]
    by (auto intro!: put_support_inv filter_gm_put_same simp: CountPending_def)
qed

lemma Declare_inv: "case_inv s \<Longrightarrow> case_inv (fst (Declare st now rnd subject r s))"
  by (auto simp: Declare_def Let_def intro: Save_support_inv split: sum.split)

lemma filing_inv_step:
  assumes "filing_inv s" and "filing_step s s'"
  shows "filing_inv s'"
  using assms(2)
proof cases
  case (file_phone rnd st now1 now2 subject key r)
  with assms(1) File_keeps [of s rnd] show ?thesis unfolding filing_inv_def by (metis order.trans)
next
  case (file_portal rnd dir cat now subject key w)
  with assms(1) web_File_keeps [of s rnd] show ?thesis unfolding filing_inv_def by (metis order.trans)
next
  case (declare_support st now rnd subject u)
  with assms(1) Declare_inv Declare_bound show ?thesis by (simp add: filing_inv_def)
next
  case (confirm_support st now subject sid)
  with assms(1) service_Confirm_keeps [of s] show ?thesis unfolding filing_inv_def by (metis order.trans)
qed

lemma filing_inv_New: "filing_inv NewCaseStore"
  by (simp add: filing_inv_def case_inv_New) (simp add: CountPending_def NewCaseStore_def)

lemma filing_inv_reachable: "filing_step\<^sup>*\<^sup>* NewCaseStore s \<Longrightarrow> filing_inv s"
  by (induction rule: rtranclp_induct) (auto intro: filing_inv_New filing_inv_step)

end
