(* ===== verification/Filing_Scenario.thy ===== *)
theory Filing_Scenario
  imports Claims_Filing
begin

text \<open>
  A claim filed from the phone and one filed from the web portal, evaluated: the inputs on which the
  theorems about the filings apply.
\<close>

section \<open>From the phone\<close>

definition demo_now :: time where "demo_now = 63908042400000000000"

definition mobile_photo :: evidence_request where
  "mobile_photo = \<lparr>er_ObjectKey = evidencePrefix @ ''ana/f1'', er_Kind = ''photo'', er_CapturedAt = ''2026-03-01T12:00:00Z'',
     er_Latitude = 4, er_Longitude = - 74, er_AltitudeM = None, er_AccuracyM = 5, er_LocationTrusted = True,
     er_SHA256 = ''0123456789abcdef0123456789abcdef0123456789abcdef0123456789abcdef'', er_ByteSize = 2048, er_DurationS = 0\<rparr>"

definition mobile_request :: filing_request where
  "mobile_request = \<lparr>fr_PolicyID = ''P-1'', fr_IncidentType = ''theft'', fr_OccurredAt = ''2026-03-01T10:00:00Z'',
     fr_Place = ''Bogota'', fr_Description = ''Robo del carro en la calle'', fr_Details = [], fr_DeclarationAccepted = True,
     fr_Evidence = [mobile_photo, mobile_photo, mobile_photo, mobile_photo], fr_EstimatedAmountMinor = ''''\<rparr>"

definition demo_objects :: object_store where
  "demo_objects = \<lparr>os_Stat = (\<lambda>_. Inr \<lparr>se_ByteSize = 2048, se_SHA256 = ''''\<rparr>), os_Head = (\<lambda>_ _. Inr signaturePDF),
     os_SignUpload = (\<lambda>_ _ _ _ _. Inr \<lparr>sgu_URL = ''u'', sgu_Headers = [], sgu_ExpiresAt = 1\<rparr>), os_SignDownload = (\<lambda>_ _. Inr (''u'', 1))\<rparr>"

definition demo_random :: random16 where "demo_random = Inr (replicate 16 0)"

definition mobile_checked :: claim where "mobile_checked = projr (FilingRequest_Validate mobile_request demo_now)"

lemma isl_projr: "\<not> isl x \<Longrightarrow> x = Inr (projr x)"
  by (cases x) simp_all

lemma mobile_valid: "FilingRequest_Validate mobile_request demo_now = Inr mobile_checked"
proof -
  have "\<not> isl (FilingRequest_Validate mobile_request demo_now)" by code_simp
  then show ?thesis unfolding mobile_checked_def by (rule isl_projr)
qed

lemma mobile_evidence: "checkEvidence (Some demo_objects) ''ana'' (cl_Evidence mobile_checked) = None"
proof -
  have "checkEvidence (Some demo_objects) ''ana'' (cl_Evidence mobile_checked) = None \<longleftrightarrow> True" by code_simp
  then show ?thesis by simp
qed

definition demo_id :: string where "demo_id = ''00000000-0000-4000-8000-000000000000''"

lemma demo_newID: "newID demo_random = Inr demo_id"
  by code_simp

definition other_random :: random16 where "other_random = Inr (replicate 16 1)"

lemma other_newID: "newID other_random = Inr (projr (newID other_random))"
  by (simp add: other_random_def newID_def Let_def)

definition mobile_claim :: claim where
  "mobile_claim = mobile_checked\<lparr>cl_Subject := ''ana'', cl_FilingKey := ''k1'', cl_FiledAt := demo_now, cl_ID := demo_id,
     cl_FilingNumber := FilingNumber demo_now 1\<rparr>"

definition mobile_store :: case_store where
  "mobile_store = fst (File (Some demo_objects) demo_now demo_now demo_random ''ana'' ''k1'' mobile_request NewCaseStore)"

lemma mobile_filed:
  "File (Some demo_objects) demo_now demo_now demo_random ''ana'' ''k1'' mobile_request NewCaseStore =
     (mobile_store, Inr (mobile_claim, True))"
  by (simp add: mobile_store_def File_def mobile_valid mobile_evidence demo_newID Let_def Create_def byFilingKey_def
      NewCaseStore_def insert_case_def mobile_claim_def mobile_record_def claim.defs claim_record.defs)

section \<open>From the web portal\<close>

definition demo_digest :: string where
  "demo_digest = ''0123456789abcdef0123456789abcdef0123456789abcdef0123456789abcdef''"

definition demo_unconfirmed :: support_file where
  "demo_unconfirmed = \<lparr>sf_ID = SupportIDPrefix @ replicate 32 CHR ''0'', sf_OwnerSubject = ''ana'', sf_FileName = ''a.pdf'',
     sf_Format = FormatPDF, sf_ByteSize = 2048, sf_SHA256 = demo_digest, sf_UploadedAt = demo_now, sf_ConfirmedAt = zero_time\<rparr>"

definition demo_support :: support_file where
  "demo_support = demo_unconfirmed\<lparr>sf_ConfirmedAt := demo_now\<rparr>"

definition web_request :: web_filing_request where
  "web_request = \<lparr>wr_PolicyID = ''P-1'', wr_IncidentType = ''other'', wr_OccurredAt = ''2026-03-01T10:00:00Z'',
     wr_Place = ''Bogota'', wr_Description = ''Un arbol cae sobre el carro'',
     wr_Supports = [\<lparr>sg_RequirementCode = ''supporting_document'', sg_SupportIDs = [sf_ID demo_support]\<rparr>],
     wr_EstimatedAmountMinor = ''''\<rparr>"

definition demo_policy :: policy where
  "demo_policy = \<lparr>pol_ID = ''P-1'', pol_Line = LineAuto, pol_Product = ''auto'', pol_InsuredObject = ''carro'',
     pol_Status = PolicyActive, pol_ValidFrom = 1, pol_ValidTo = demo_now + 1, pol_CoveredIncidents = [IncidentOther]\<rparr>"

definition demo_directory :: policy_directory where "demo_directory = (\<lambda>_. Inr [demo_policy])"

definition web_store0 :: case_store where
  "web_store0 = NewCaseStore\<lparr>cs_supports := [(sf_ID demo_support, demo_support)]\<rparr>"

definition web_checked :: claim_record where
  "web_checked = projr (WebFilingRequest_Validate web_request demo_now CatalogV1 ''ana'' (Find_supports (supportIDs web_request) web_store0))"

lemma web_valid:
  "WebFilingRequest_Validate web_request demo_now CatalogV1 ''ana'' (Find_supports (supportIDs web_request) web_store0) = Inr web_checked"
proof -
  have "\<not> isl (WebFilingRequest_Validate web_request demo_now CatalogV1 ''ana'' (Find_supports (supportIDs web_request) web_store0))"
    by code_simp
  then show ?thesis unfolding web_checked_def by (rule isl_projr)
qed

lemma web_eligible: "eligiblePolicy demo_directory CatalogV1 ''ana'' web_checked demo_now = Inr demo_policy"
  by code_simp

definition web_claim :: claim_record where
  "web_claim = web_checked\<lparr>cl_Subject := ''ana'', cl_FilingKey := ''k2'', cl_FiledAt := time_Truncate demo_now time_Microsecond,
     cr_Policy := Some demo_policy, cl_ID := demo_id, cr_Channel := ChannelWeb,
     cl_FilingNumber := FilingNumber (time_Truncate demo_now time_Microsecond) 1\<rparr>"

definition web_store :: case_store where
  "web_store = fst (web_File demo_directory CatalogV1 demo_now demo_random ''ana'' ''k2'' web_request web_store0)"

lemma web_filed:
  "web_File demo_directory CatalogV1 demo_now demo_random ''ana'' ''k2'' web_request web_store0 = (web_store, Inr (web_claim, True))"
proof -
  have e: "cs_byKey web_store0 k = None" "cs_attachedTo web_store0 k = None" "cs_sequence web_store0 = 0" for k
    by (simp_all add: web_store0_def NewCaseStore_def)
  have l: "\<not> list_ex (\<lambda>sid. False) xs" for xs :: "string list" by (simp add: list_ex_iff)
  show ?thesis
    by (simp add: web_store_def web_File_def web_valid web_eligible demo_newID FindByKey_def byFilingKey_def e Let_def
        CreateWeb_def l insert_case_def web_claim_def)
qed

lemma web_store0_inv: "case_inv web_store0"
  unfolding web_store0_def by (rule supports_irrelevant [OF case_inv_New]) (simp_all add: gm_ok_def)

section \<open>From the declaration of a support to the claim\<close>

definition declare_request :: support_upload_request where
  "declare_request = \<lparr>sur_FileName = ''a.pdf'', sur_ContentType = ''application/pdf'', sur_ByteSize = 2048,
     sur_SHA256 = demo_digest\<rparr>"

definition web_declared :: case_store where
  "web_declared = NewCaseStore\<lparr>cs_supports := [(sf_ID demo_support, demo_unconfirmed)]\<rparr>"

lemma demo_name: "SanitizeFileName ''a.pdf'' = ''a.pdf''"
proof -
  have a: "after_last_sep ''a.pdf'' = ''a.pdf''" "runes ''a.pdf'' = [97,46,112,100,102]" "encode_runes [97,46,112,100,102] = ''a.pdf''"
    by code_simp+
  have b: "filter (\<lambda>r. \<not> (is_control r \<or> r = rune_error)) [97,46,112,100,102] = [97,46,112,100,102]"
    by (simp add: is_control_def rune_error_def)
  have c: "TrimSpace ''a.pdf'' = ''a.pdf''" by (simp add: TrimSpace_graphic graphic_def byte_def)
  show ?thesis unfolding SanitizeFileName_def Let_def a b c by (simp add: maxFileNameRunes_def)
qed

lemma demo_instant: "time_Truncate demo_now 1000 = demo_now"
  by code_simp

lemma demo_declared:
  "fst (Declare demo_objects demo_now demo_random ''ana'' declare_request NewCaseStore) = web_declared"
proof -
  have t: "TrimSpace ''application/pdf'' = ''application/pdf''" "TrimSpace demo_digest = demo_digest"
    by (simp_all add: TrimSpace_graphic graphic_def byte_def demo_digest_def)
  have d: "sha256Pattern demo_digest" "demo_digest \<noteq> ''''" "FormatOf ''application/pdf'' = Some FormatPDF" by code_simp+
  have v: "SupportUploadRequest_Validate declare_request =
      Inr \<lparr>su_FileName = ''a.pdf'', su_Format = FormatPDF, su_ByteSize = 2048, su_SHA256 = demo_digest\<rparr>"
    by (simp add: SupportUploadRequest_Validate_def declare_request_def t d demo_name Let_def MaxSupportBytes_def)
  have i: "newSupportID demo_random = Inr (sf_ID demo_support)" by code_simp
  have p: "CountPending ''ana'' NewCaseStore = 0" by (simp add: CountPending_def NewCaseStore_def)
  show ?thesis
    by (simp add: Declare_def v i p Let_def MaxPendingSupports_def demo_instant demo_objects_def Save_support_def web_declared_def
        demo_support_def demo_unconfirmed_def NewCaseStore_def gm_put_def CountPending_def)
qed

lemma demo_confirmed:
  "service_Confirm demo_objects demo_now ''ana'' (sf_ID demo_support) web_declared = (web_store0, Inr demo_support)"
proof -
  have "sf_ID demo_support = sf_ID demo_unconfirmed" by (simp add: demo_support_def)
  moreover have "DetectFormat signaturePDF = Some FormatPDF" by (simp add: DetectFormat_Some)
  ultimately show ?thesis
    by (simp add: service_Confirm_def Find_supports_def web_declared_def gm_get_def SupportFile_Confirmed_def demo_objects_def
        Confirm_support_def demo_instant web_store0_def gm_put_def Let_def demo_unconfirmed_def demo_support_def)
qed

lemma web_store_reached: "filing_step\<^sup>*\<^sup>* NewCaseStore web_store"
proof -
  have "filing_step NewCaseStore web_declared"
    using declare_support [of NewCaseStore demo_objects demo_now demo_random "''ana''" declare_request] by (simp add: demo_declared)
  moreover have "filing_step web_declared web_store0"
    using confirm_support [of web_declared demo_objects demo_now "''ana''" "sf_ID demo_support"] by (simp add: demo_confirmed)
  moreover have "filing_step web_store0 web_store"
    unfolding web_store_def by (rule file_portal) (simp add: fresh_id_def web_store0_def NewCaseStore_def)
  ultimately show ?thesis by (meson converse_rtranclp_into_rtranclp r_into_rtranclp)
qed

lemma web_claim_supports: "sf_ID demo_support \<in> set (support_ids web_claim)" "gm_get (cs_byID web_store) demo_id = Some web_claim"
proof -
  have "support_ids web_checked = [sf_ID demo_support]" by code_simp
  then show "sf_ID demo_support \<in> set (support_ids web_claim)" by (simp add: support_ids_def web_claim_def)
  have "cl_ID web_claim = demo_id" by (simp add: web_claim_def)
  with web_File_created [OF web_filed] show "gm_get (cs_byID web_store) demo_id = Some web_claim" by simp
qed

end
