(* ===== verification/Triage_Scenario.thy ===== *)
theory Triage_Scenario
  imports Filing_Scenario Claims_Triage
begin

text \<open>
  The claim that was filed from the phone, with its first priority calculated and read by its insured
  person: the inputs on which the theorems about the priorities apply.
\<close>

lemma mobile_store_byID: "cs_byID mobile_store = [(demo_id, mobile_record mobile_claim)]"
  by (simp add: mobile_store_def File_def mobile_valid mobile_evidence demo_newID Let_def Create_def byFilingKey_def
      NewCaseStore_def insert_case_def gm_put_def mobile_claim_def mobile_record_def claim.defs claim_record.defs)

lemma mobile_store_inv: "case_inv mobile_store"
  unfolding mobile_store_def by (rule File_keeps(1) [OF case_inv_New]) (simp add: fresh_id_def NewCaseStore_def)

lemma mobile_sel: "cl_Status mobile_claim = StatusActive" "cl_ID mobile_claim = demo_id" "cl_Subject mobile_claim = ''ana''"
  using File_created [OF mobile_filed] by (simp_all add: mobile_claim_ok_def facts_ok_def mobile_claim_def)

definition demo_candidate :: triage_candidate where
  "demo_candidate = \<lparr>tc_Claim = listed (mobile_record mobile_claim), tc_Last = None\<rparr>"

lemma demo_read: "Candidate demo_id mobile_store NewTriageStore = Inr demo_candidate"
  by (simp add: Candidate_def snapshot_def mobile_store_byID mobile_sel demo_candidate_def last_record_def records_of_def
      NewTriageStore_def)

lemma waiting_one: "length (waiting TriagePolicyV1 mobile_store NewTriageStore) \<le> 1"
  by (simp add: waiting_def snapshot_def mobile_store_byID)

definition swept :: triage_sys where
  "swept = (triage_init mobile_store)\<lparr>sy_triage := fst (Assess TriagePolicyV1 demo_candidate 5 NewTriageStore), sy_flight := []\<rparr>"

lemma swept_reached: "triage_step\<^sup>*\<^sup>* (triage_init mobile_store) swept"
proof -
  let ?y = "(triage_init mobile_store)\<lparr>sy_flight := [demo_candidate]\<rparr>"
  have "triage_step (triage_init mobile_store) ?y"
    using read_one [of demo_id "triage_init mobile_store" demo_candidate] demo_read by (simp add: triage_init_def)
  moreover have "triage_step ?y swept"
    using assess [of demo_candidate ?y TriagePolicyV1 5] by (simp add: swept_def triage_init_def)
  ultimately show ?thesis by (meson converse_rtranclp_into_rtranclp r_into_rtranclp)
qed

lemma swept_length: "length (records_of (sy_triage swept) demo_id) = 1"
proof -
  have inv: "triage_inv NewTriageStore"
    using sys_inv_init [of mobile_store] by (simp add: sys_inv_def triage_init_def)
  have t: "Triageable (cl_Status (listed (mobile_record mobile_claim)))"
    and n: "needs NewTriageStore (tp_Version TriagePolicyV1) (listed (mobile_record mobile_claim))"
    and l: "last_record NewTriageStore (cl_ID (listed (mobile_record mobile_claim))) = None"
    by (simp_all add: mobile_sel needs_def last_record_def records_of_def NewTriageStore_def)
  from Assess_waiting [OF inv t n, of 5] show ?thesis
    unfolding l swept_def demo_candidate_def [symmetric]
    by (auto simp: mobile_sel records_of_def NewTriageStore_def fun_eq_iff split: if_splits)
qed

definition demo_caller :: claims where
  "demo_caller = \<lparr>sc_Subject = ''ana'', sc_Username = ''ana'', sc_Email = '''', sc_PartnerID = '''', sc_TokenUse = ''access'',
     sc_ClientID = '''', sc_Roles = [RoleInsured], sc_IssuedAt = 1, sc_ExpiresAt = 2\<rparr>"

definition demo_view :: triage_view where
  "demo_view = \<lparr>tv_ClaimID = demo_id, tv_State = TriagePending, tv_Current = None, tv_History = []\<rparr>"

lemma demo_viewed: "View (Some demo_caller) demo_id mobile_store NewTriageStore = Inr demo_view"
proof -
  have "cl_Subject (tc_Claim demo_candidate) = ''ana''" "cl_Status (tc_Claim demo_candidate) = StatusActive"
    "tc_Last demo_candidate = None"
    by (simp_all add: demo_candidate_def mobile_sel) (simp add: listed_def mobile_sel)
  moreover have "History demo_id NewTriageStore = []" by (simp add: History_def records_of_def NewTriageStore_def)
  ultimately show ?thesis
    by (simp add: View_def demo_read RequireOwnerOrRole_def demo_caller_def demo_view_def TriageStateOf_def Let_def)
qed

end
