(* ===== verification/Payment_Gateway.thy ===== *)
theory Payment_Gateway
  imports Idempotency
begin

text \<open>
  The payment gateway and the client that calls it.

  \<^item> \<^verbatim>\<open>stubs/payment-gateway\<close>: the provider that honours idempotency keys. \<open>gateway\<close> is its
    state, \<open>tokenise\<close>, \<open>gw_charge\<close> and \<open>gw_payout\<close> its handlers after the decoding of the
    body (\<open>None\<close> is a body that is not valid JSON), \<open>gw_process\<close> and \<open>processPayout\<close> the
    decision behind each. The sleep before the answer and the debug listing are not modelled.
  \<^item> \<^verbatim>\<open>pkg/adapters/payments\<close>: the client with its classification of every answer. What the
    circuit breaker and the network do to one call is the argument of type \<open>transport\<close>: the
    call is not sent, does not arrive, is processed and its answer is lost, or is answered.

  The lemmas show that a key is charged, and paid, at most once however often it is retried,
  and what an answer that is a rejection says about the key.
\<close>

section \<open>The state of the gateway\<close>

record payoutDestination =
  pd_BankCode :: string
  pd_AccountType :: string
  pd_AccountNumber :: string

record payoutRequest =
  pq_Reference :: string
  pq_BeneficiaryID :: string
  pq_AmountMinor :: int
  pq_Currency :: string
  pq_Destination :: payoutDestination

record gw_payout_body =
  gp_ID :: string
  gp_Status :: string
  gp_IdempotencyKey :: string
  gp_Reference :: string
  gp_BeneficiaryID :: string
  gp_AmountMinor :: int
  gp_Currency :: string
  gp_Destination :: payoutDestination
  gp_CreatedAt :: time

record payoutResult =
  pr_req :: payoutRequest
  pr_body :: gw_payout_body

record chargeRequest =
  cq_Reference :: string
  cq_CustomerID :: string
  cq_AmountMinor :: int
  cq_Currency :: string
  cq_PaymentToken :: string

record tokenRequest =
  tq_Number :: string
  tq_Holder :: string

record tokenResponse =
  tr_Token :: string
  tr_Brand :: string
  tr_Last4 :: string

record tokenInfo =
  ti_Brand :: string
  ti_Last4 :: string
  ti_Declines :: bool

record gw_charge_body =
  gc_ID :: string
  gc_Status :: string
  gc_IdempotencyKey :: string
  gc_Reference :: string
  gc_CustomerID :: string
  gc_AmountMinor :: int
  gc_Currency :: string
  gc_CreatedAt :: time

record errorBody =
  eb_Error :: string
  eb_Message :: string
  eb_ChargeID :: string
  eb_DeclineCode :: string
  eb_PayoutID :: string

text \<open>What a handler writes: a body of one of the four kinds.\<close>

datatype gw_body = BError errorBody | BCharge gw_charge_body | BPayout gw_payout_body | BToken tokenResponse

record gw_result =
  gr_req :: chargeRequest
  gr_status :: int
  gr_body :: gw_body

record gateway =
  supportsIdempotency :: bool
  byKey :: "string \<Rightarrow> gw_result option"
  byToken :: "string \<Rightarrow> tokenInfo option"
  requests :: "string \<Rightarrow> int"
  realCharges :: "string \<Rightarrow> int"
  gw_total :: int
  gw_seq :: int
  tokenSeq :: int
  payoutByKey :: "string \<Rightarrow> payoutResult option"
  payoutRequests :: "string \<Rightarrow> int"
  realPayouts :: "string \<Rightarrow> int"
  payoutSeq :: int

definition gw_reset :: "gateway \<Rightarrow> gateway" where
  "gw_reset g = g\<lparr>byKey := (\<lambda>_. None), requests := (\<lambda>_. 0), realCharges := (\<lambda>_. 0),
     byToken := (\<lambda>_. None), gw_total := 0, gw_seq := 0, tokenSeq := 0,
     payoutByKey := (\<lambda>_. None), payoutRequests := (\<lambda>_. 0), realPayouts := (\<lambda>_. 0), payoutSeq := 0\<rparr>"

text \<open>\<^verbatim>\<open>newHandler\<close>: the gateway as it starts.\<close>

definition newHandler :: "bool \<Rightarrow> gateway" where
  "newHandler supports = gw_reset \<lparr>supportsIdempotency = supports, byKey = (\<lambda>_. None), byToken = (\<lambda>_. None),
     requests = (\<lambda>_. 0), realCharges = (\<lambda>_. 0), gw_total = 0, gw_seq = 0, tokenSeq = 0,
     payoutByKey = (\<lambda>_. None), payoutRequests = (\<lambda>_. 0), realPayouts = (\<lambda>_. 0), payoutSeq = 0\<rparr>"

definition error_body :: "string \<Rightarrow> string \<Rightarrow> errorBody" where
  "error_body err msg = \<lparr>eb_Error = err, eb_Message = msg, eb_ChargeID = '''', eb_DeclineCode = '''', eb_PayoutID = ''''\<rparr>"

section \<open>Tokens\<close>

text \<open>The digits of a string; every other byte, also of a longer rune, is left out.\<close>

definition onlyDigits :: "string \<Rightarrow> string" where
  "onlyDigits s = filter is_digit s"

text \<open>The loop of \<^verbatim>\<open>luhn\<close> from the last digit to the first; \<^verbatim>\<open>number[i] - '0'\<close> is a byte.\<close>

fun luhn_loop :: "string \<Rightarrow> int \<Rightarrow> bool \<Rightarrow> int" where
  "luhn_loop [] acc double = acc"
| "luhn_loop (c # cs) acc double =
    (let d = (int (byte c) - 48) mod 256;
         d = (if double then (let d = d * 2 in if d > 9 then d - 9 else d) else d)
     in luhn_loop cs (acc + d) (\<not> double))"

definition luhn :: "string \<Rightarrow> bool" where
  "luhn number \<longleftrightarrow> luhn_loop (rev number) 0 False mod 10 = 0"

definition brandOf :: "string \<Rightarrow> string" where
  "brandOf number =
    (if prefix ''4'' number then ''visa''
     else if prefix ''34'' number \<or> prefix ''37'' number then ''amex''
     else if prefix ''5'' number \<or> prefix ''2'' number then ''mastercard''
     else ''unknown'')"

definition tokenise :: "tokenRequest option \<Rightarrow> gateway \<Rightarrow> gateway \<times> int \<times> gw_body" where
  "tokenise body g =
    (case body of
       None \<Rightarrow> (g, 400, BError (error_body ''invalid_request'' ''the body is not valid JSON''))
     | Some inp \<Rightarrow>
        (let number = onlyDigits (tq_Number inp) in
         if length number < 13 \<or> length number > 19 \<or> \<not> luhn number then
           (g, 400, BError (error_body ''invalid_card'' ''the card number is not valid''))
         else
           (let last4 = drop (length number - 4) number;
                info = \<lparr>ti_Brand = brandOf number, ti_Last4 = last4,
                        ti_Declines = (number \<noteq> ''4111111111111111'' \<and> suffix ''0002'' number)\<rparr>;
                n = tokenSeq g + 1;
                token = ''tok_'' @ FormatInt n @ last4
            in (g\<lparr>tokenSeq := n, byToken := (byToken g)(token \<mapsto> info)\<rparr>, 201,
                BToken \<lparr>tr_Token = token, tr_Brand = ti_Brand info, tr_Last4 = ti_Last4 info\<rparr>))))"

section \<open>Charges\<close>

definition gw_valid :: "chargeRequest \<Rightarrow> bool" where
  "gw_valid inp =
    (if cq_Reference inp = '''' \<or> cq_CustomerID inp = '''' \<or> cq_AmountMinor inp \<le> 0 \<or> cq_Currency inp = '''' \<or>
        length (cq_Reference inp) > 256 \<or> length (cq_CustomerID inp) > 256 \<or> length (cq_Currency inp) > 8
     then False
     else (let digits = onlyDigits (cq_PaymentToken inp) in
           if length (cq_PaymentToken inp) > 128 \<or> length digits \<ge> 13 \<and> digits = cq_PaymentToken inp
           then False else True))"

definition gw_decide :: "gateway \<Rightarrow> chargeRequest \<Rightarrow> bool \<times> string" where
  "gw_decide g inp =
    (if cq_PaymentToken inp \<noteq> '''' then
       (case byToken g (cq_PaymentToken inp) of
          None \<Rightarrow> (True, ''the payment token is unknown or expired'')
        | Some info \<Rightarrow>
            if ti_Declines info then (True, ''the issuer declined the charge: insufficient_funds'')
            else (False, ''''))
     else if sublist ''declined'' (cq_Reference inp) then (True, ''the issuer declined the charge'')
     else (False, ''''))"

definition gw_process :: "string \<Rightarrow> chargeRequest \<Rightarrow> time \<Rightarrow> gateway \<Rightarrow> gateway \<times> int \<times> gw_body \<times> bool" where
  "gw_process key inp now g =
    (let g = g\<lparr>requests := (requests g)(key := requests g key + 1), gw_total := gw_total g + 1\<rparr> in
     if byKey g key \<noteq> None \<and> supportsIdempotency g then
       (let prev = the (byKey g key) in
        if gr_req prev \<noteq> inp then
          (g, 422, BError (error_body ''idempotency_key_reused'' ''this Idempotency-Key was used with a different charge''), False)
        else (g, if gr_status prev = 201 then 200 else gr_status prev, gr_body prev, False))
     else
       (let (declined, reason) = gw_decide g inp; n = gw_seq g + 1 in
        if declined then
          (let res = \<lparr>gr_req = inp, gr_status = 402,
                      gr_body = BError \<lparr>eb_Error = ''payment_declined'', eb_Message = reason,
                        eb_ChargeID = ''ch-'' @ FormatInt n, eb_DeclineCode = ''51'', eb_PayoutID = ''''\<rparr>\<rparr>
           in (g\<lparr>gw_seq := n, byKey := (byKey g)(key \<mapsto> res)\<rparr>, gr_status res, gr_body res, False))
        else
          (let res = \<lparr>gr_req = inp, gr_status = 201,
                      gr_body = BCharge \<lparr>gc_ID = ''ch-'' @ FormatInt n, gc_Status = ''succeeded'',
                        gc_IdempotencyKey = key, gc_Reference = cq_Reference inp, gc_CustomerID = cq_CustomerID inp,
                        gc_AmountMinor = cq_AmountMinor inp, gc_Currency = cq_Currency inp, gc_CreatedAt = now\<rparr>\<rparr>
           in (g\<lparr>gw_seq := n, realCharges := (realCharges g)(key := realCharges g key + 1),
                 byKey := (byKey g)(key \<mapsto> res)\<rparr>, gr_status res, gr_body res, True))))"

definition key_header_error :: errorBody where
  "key_header_error = error_body ''invalid_request'' ''the Idempotency-Key header (up to 255 characters) is required''"

definition gw_charge :: "string \<Rightarrow> chargeRequest option \<Rightarrow> time \<Rightarrow> gateway \<Rightarrow> gateway \<times> int \<times> gw_body \<times> bool" where
  "gw_charge header body now g =
    (let key = TrimSpace header in
     if key = '''' \<or> length key > 255 then (g, 400, BError key_header_error, False)
     else (case body of
         None \<Rightarrow> (g, 400, BError (error_body ''invalid_request'' ''the body is not valid JSON''), False)
       | Some inp \<Rightarrow>
           if \<not> gw_valid inp then
             (g, 400, BError (error_body ''invalid_request''
               ''reference, customer_id, a positive amount_minor and currency are required''), False)
           else gw_process key inp now g))"

section \<open>Payouts\<close>

definition validPayout :: "payoutRequest \<Rightarrow> bool" where
  "validPayout inp =
    (let account = onlyDigits (pd_AccountNumber (pq_Destination inp)) in
     pq_Reference inp \<noteq> '''' \<and> pq_BeneficiaryID inp \<noteq> '''' \<and> pq_AmountMinor inp > 0 \<and> pq_Currency inp \<noteq> '''' \<and>
     length (pq_Reference inp) \<le> 256 \<and> length (pq_BeneficiaryID inp) \<le> 256 \<and> length (pq_Currency inp) \<le> 8 \<and>
     pd_BankCode (pq_Destination inp) \<noteq> '''' \<and> length (pd_BankCode (pq_Destination inp)) \<le> 16 \<and>
     length (pd_AccountType (pq_Destination inp)) \<le> 32 \<and> length account \<ge> 6 \<and> length account \<le> 20 \<and>
     length (pd_AccountNumber (pq_Destination inp)) \<le> 32)"

definition processPayout :: "string \<Rightarrow> payoutRequest \<Rightarrow> time \<Rightarrow> gateway \<Rightarrow> gateway \<times> int \<times> gw_body \<times> bool" where
  "processPayout key inp now g =
    (let g = g\<lparr>payoutRequests := (payoutRequests g)(key := payoutRequests g key + 1)\<rparr> in
     if payoutByKey g key \<noteq> None \<and> supportsIdempotency g then
       (let prev = the (payoutByKey g key) in
        if pr_req prev \<noteq> inp then
          (g, 422, BError (error_body ''idempotency_key_reused'' ''this Idempotency-Key already paid a different payout''), False)
        else (g, 200, BPayout (pr_body prev), False))
     else
       (let n = payoutSeq g + 1; ident = ''po-'' @ FormatInt n; g = g\<lparr>payoutSeq := n\<rparr> in
        if suffix ''89'' (onlyDigits (pd_AccountNumber (pq_Destination inp))) then
          (g, 422, BError \<lparr>eb_Error = ''invalid_destination_account'',
             eb_Message = ''the destination account number is not valid according to the bank'',
             eb_ChargeID = '''', eb_DeclineCode = '''', eb_PayoutID = ident\<rparr>, False)
        else
          (let paid = \<lparr>gp_ID = ident, gp_Status = ''paid'', gp_IdempotencyKey = key, gp_Reference = pq_Reference inp,
                 gp_BeneficiaryID = pq_BeneficiaryID inp, gp_AmountMinor = pq_AmountMinor inp,
                 gp_Currency = pq_Currency inp, gp_Destination = pq_Destination inp, gp_CreatedAt = now\<rparr>
           in (g\<lparr>realPayouts := (realPayouts g)(key := realPayouts g key + 1),
                 payoutByKey := (payoutByKey g)(key \<mapsto> \<lparr>pr_req = inp, pr_body = paid\<rparr>)\<rparr>, 201, BPayout paid, True))))"

definition gw_payout :: "string \<Rightarrow> payoutRequest option \<Rightarrow> time \<Rightarrow> gateway \<Rightarrow> gateway \<times> int \<times> gw_body \<times> bool" where
  "gw_payout header body now g =
    (let key = TrimSpace header in
     if key = '''' \<or> length key > 255 then (g, 400, BError key_header_error, False)
     else (case body of
         None \<Rightarrow> (g, 400, BError (error_body ''invalid_request'' ''the body is not valid JSON''), False)
       | Some inp \<Rightarrow>
           if \<not> validPayout inp then
             (g, 400, BError (error_body ''invalid_request''
               ''reference, beneficiary_id, a positive amount_minor, currency and a destination with bank_code and a 6 to 20 digit account_number are required''), False)
           else processPayout key inp now g))"

section \<open>The client\<close>

record payments_ChargeRequest =
  rqc_IdempotencyKey :: string
  rqc_Reference :: string
  rqc_CustomerID :: string
  rqc_AmountMinor :: int
  rqc_Currency :: string
  rqc_PaymentToken :: string

record payments_Charge =
  pc_ID :: string
  pc_Status :: string
  pc_IdempotencyKey :: string
  pc_AmountMinor :: int
  pc_Currency :: string

record payments_PayoutRequest =
  rp_IdempotencyKey :: string
  rp_Body :: payoutRequest

record payments_Payout =
  pp_ID :: string
  pp_Status :: string
  pp_IdempotencyKey :: string
  pp_AmountMinor :: int
  pp_Currency :: string

record rejected_error =
  re_StatusCode :: int
  re_Code :: string
  re_DeclineCode :: string
  re_Reference :: string
  re_Operation :: string

text \<open>The errors of the package; \<open>Ambiguous\<close> carries the text of its cause.\<close>

datatype client_error =
    InvalidCharge | InvalidPayout | Unavailable | Ambiguous string | Rejected rejected_error

definition RejectedError_Error :: "rejected_error \<Rightarrow> string" where
  "RejectedError_Error e =
    (let operation = (if re_Operation e = '''' then ''charge'' else re_Operation e) in
     ''payment gateway rejected the '' @ operation @ '' (status '' @ FormatInt (re_StatusCode e) @
     (if re_Code e \<noteq> '''' then '', code '' @ re_Code e else '''') @
     (if re_DeclineCode e \<noteq> '''' then '', decline code '' @ re_DeclineCode e else '''') @ '')'')"

text \<open>The error value the callers see, with the sentinels of \<^verbatim>\<open>pkg/idempotency\<close> it matches.\<close>

definition client_go_error :: "client_error \<Rightarrow> go_error" where
  "client_go_error e =
    (case e of
       InvalidCharge \<Rightarrow> errors_New ''idempotency key, reference, customer id, a positive amount and currency are required''
     | InvalidPayout \<Rightarrow> errors_New
         ''idempotency key, reference, beneficiary id, a positive amount, currency, bank code and account number are required''
     | Unavailable \<Rightarrow> errorf_w ''payment gateway isolated by its circuit breaker: '' ErrNotSent
     | Ambiguous cause \<Rightarrow> GoError (err_chain ErrAmbiguous)
         (''payment gateway outcome unknown: '' @ err_text ErrAmbiguous @ '': '' @ cause)
     | Rejected r \<Rightarrow> GoError (err_chain ErrRejected) (RejectedError_Error r))"

datatype transport = CircuitOpen | NotDelivered string | AnswerLost string | Answered

definition retryableStatus :: "int \<Rightarrow> bool" where
  "retryableStatus code = (if code = 408 \<or> code = 409 \<or> code = 425 \<or> code = 429 then True else code < 400 \<or> code \<ge> 500)"

text \<open>\<^verbatim>\<open>json\<close> reads from a body the fields of the target that it has; the others stay zero.\<close>

definition decode_charge :: "gw_body \<Rightarrow> payments_Charge" where
  "decode_charge b =
    (case b of
       BCharge c \<Rightarrow> \<lparr>pc_ID = gc_ID c, pc_Status = gc_Status c, pc_IdempotencyKey = gc_IdempotencyKey c,
                     pc_AmountMinor = gc_AmountMinor c, pc_Currency = gc_Currency c\<rparr>
     | BPayout p \<Rightarrow> \<lparr>pc_ID = '''', pc_Status = gp_Status p, pc_IdempotencyKey = gp_IdempotencyKey p,
                     pc_AmountMinor = gp_AmountMinor p, pc_Currency = gp_Currency p\<rparr>
     | _ \<Rightarrow> \<lparr>pc_ID = '''', pc_Status = '''', pc_IdempotencyKey = '''', pc_AmountMinor = 0, pc_Currency = ''''\<rparr>)"

definition decode_payout :: "gw_body \<Rightarrow> payments_Payout" where
  "decode_payout b =
    (case b of
       BPayout p \<Rightarrow> \<lparr>pp_ID = gp_ID p, pp_Status = gp_Status p, pp_IdempotencyKey = gp_IdempotencyKey p,
                     pp_AmountMinor = gp_AmountMinor p, pp_Currency = gp_Currency p\<rparr>
     | BCharge c \<Rightarrow> \<lparr>pp_ID = '''', pp_Status = gc_Status c, pp_IdempotencyKey = gc_IdempotencyKey c,
                     pp_AmountMinor = gc_AmountMinor c, pp_Currency = gc_Currency c\<rparr>
     | _ \<Rightarrow> \<lparr>pp_ID = '''', pp_Status = '''', pp_IdempotencyKey = '''', pp_AmountMinor = 0, pp_Currency = ''''\<rparr>)"

definition decode_error :: "gw_body \<Rightarrow> errorBody" where
  "decode_error b =
    (case b of
       BError e \<Rightarrow> e
     | BCharge c \<Rightarrow> (error_body '''' '''')\<lparr>eb_ChargeID := gc_ID c\<rparr>
     | BPayout p \<Rightarrow> (error_body '''' '''')\<lparr>eb_PayoutID := gp_ID p\<rparr>
     | BToken _ \<Rightarrow> error_body '''' '''')"

text \<open>The \<^verbatim>\<open>switch\<close> of \<^verbatim>\<open>send\<close> on the answer: a value, a rejection or (left) an error.\<close>

definition send_answer :: "(gw_body \<Rightarrow> 'v) \<Rightarrow> string \<Rightarrow> int \<Rightarrow> gw_body \<Rightarrow> client_error + 'v" where
  "send_answer decode operation code body =
    (if code = 200 \<or> code = 201 then Inr (decode body)
     else if retryableStatus code then Inl (Ambiguous (''unexpected status '' @ FormatInt code))
     else
       (let eb = decode_error body;
            reference = (if eb_ChargeID eb = '''' then eb_PayoutID eb else eb_ChargeID eb)
        in Inl (Rejected \<lparr>re_StatusCode = code, re_Code = eb_Error eb, re_DeclineCode = eb_DeclineCode eb,
                  re_Reference = reference, re_Operation = (if operation \<noteq> ''charge'' then operation else '''')\<rparr>)))"

text \<open>\<^verbatim>\<open>call\<close>: one request through the breaker; \<open>handle\<close> is the handler of the path.\<close>

definition client_call ::
  "transport \<Rightarrow> (gw_body \<Rightarrow> 'v) \<Rightarrow> string \<Rightarrow> (gateway \<Rightarrow> gateway \<times> int \<times> gw_body \<times> bool) \<Rightarrow> gateway \<Rightarrow>
     gateway \<times> (client_error + 'v)" where
  "client_call tr decode operation handle g =
    (case tr of
       CircuitOpen \<Rightarrow> (g, Inl Unavailable)
     | NotDelivered cause \<Rightarrow> (g, Inl (Ambiguous cause))
     | AnswerLost cause \<Rightarrow> (fst (handle g), Inl (Ambiguous cause))
     | Answered \<Rightarrow> (let (g', code, body, _) = handle g in (g', send_answer decode operation code body)))"

definition charge_payload :: "payments_ChargeRequest \<Rightarrow> chargeRequest" where
  "charge_payload req = \<lparr>cq_Reference = rqc_Reference req, cq_CustomerID = rqc_CustomerID req,
     cq_AmountMinor = rqc_AmountMinor req, cq_Currency = rqc_Currency req, cq_PaymentToken = rqc_PaymentToken req\<rparr>"

definition Client_Charge ::
  "transport \<Rightarrow> payments_ChargeRequest \<Rightarrow> time \<Rightarrow> gateway \<Rightarrow> gateway \<times> (client_error + payments_Charge)" where
  "Client_Charge tr req now g =
    (if rqc_IdempotencyKey req = '''' \<or> rqc_Reference req = '''' \<or> rqc_CustomerID req = '''' \<or>
        rqc_AmountMinor req \<le> 0 \<or> rqc_Currency req = ''''
     then (g, Inl InvalidCharge)
     else client_call tr decode_charge ''charge''
            (gw_charge (rqc_IdempotencyKey req) (Some (charge_payload req)) now) g)"

definition Client_Payout ::
  "transport \<Rightarrow> payments_PayoutRequest \<Rightarrow> time \<Rightarrow> gateway \<Rightarrow> gateway \<times> (client_error + payments_Payout)" where
  "Client_Payout tr req now g =
    (let b = rp_Body req; d = pq_Destination b in
     if rp_IdempotencyKey req = '''' \<or> pq_Reference b = '''' \<or> pq_BeneficiaryID b = '''' \<or> pq_AmountMinor b \<le> 0 \<or>
        pq_Currency b = '''' \<or> pd_BankCode d = '''' \<or> pd_AccountNumber d = ''''
     then (g, Inl InvalidPayout)
     else client_call tr decode_payout ''payout'' (gw_payout (rp_IdempotencyKey req) (Some b) now) g)"

section \<open>A key is charged once\<close>

text \<open>The counters agree with the stored answers: one real charge for a key answered with
  success, none for any other, and one real payout for every stored payout.\<close>

definition charge_counted :: "gw_result option \<Rightarrow> int \<Rightarrow> bool" where
  "charge_counted res n \<longleftrightarrow> (case res of None \<Rightarrow> n = 0
     | Some r \<Rightarrow> gr_status r \<in> {201, 402} \<and> n = (if gr_status r = 201 then 1 else 0))"

definition gw_inv :: "gateway \<Rightarrow> bool" where
  "gw_inv g \<longleftrightarrow> supportsIdempotency g \<and> (\<forall>k. charge_counted (byKey g k) (realCharges g k)) \<and>
    (\<forall>k. realPayouts g k = (if payoutByKey g k = None then 0 else 1))"

lemma charge_counted_simps [simp]:
  "charge_counted None n \<longleftrightarrow> n = 0"
  "charge_counted (Some r) n \<longleftrightarrow> gr_status r \<in> {201, 402} \<and> n = (if gr_status r = 201 then 1 else 0)"
  by (simp_all add: charge_counted_def)

lemma gw_invD:
  assumes "gw_inv g"
  shows "supportsIdempotency g" and "charge_counted (byKey g k) (realCharges g k)"
  using assms by (simp_all add: gw_inv_def)

text \<open>What stays from one state of the gateway to a later one: a stored answer, and the
  switch of the idempotency.\<close>

definition gw_later :: "gateway \<Rightarrow> gateway \<Rightarrow> bool" where
  "gw_later g h \<longleftrightarrow> supportsIdempotency h = supportsIdempotency g \<and>
    (\<forall>k r. byKey g k = Some r \<longrightarrow> byKey h k = Some r) \<and>
    (\<forall>k r. payoutByKey g k = Some r \<longrightarrow> payoutByKey h k = Some r)"

lemma gw_later_refl [simp]: "gw_later g g"
  by (simp add: gw_later_def)

lemma gw_later_trans [trans]: "gw_later g h \<Longrightarrow> gw_later h k \<Longrightarrow> gw_later g k"
  by (simp add: gw_later_def)

lemma gw_inv_start [simp]: "gw_inv (newHandler True)"
  by (simp add: gw_inv_def newHandler_def gw_reset_def)

lemma gw_inv_reset: "gw_inv g \<Longrightarrow> gw_inv (gw_reset g)"
  by (simp add: gw_inv_def gw_reset_def)

lemma tokenise_inv:
  assumes "gw_inv g"
  shows "gw_inv (fst (tokenise body g))" and "gw_later g (fst (tokenise body g))"
  using assms by (simp_all add: tokenise_def gw_inv_def gw_later_def Let_def split: option.split)

lemma gw_process_seen:
  assumes "gw_inv g" and "byKey g key = Some r"
  shows "gw_process key inp now g =
    (g\<lparr>requests := (requests g)(key := requests g key + 1), gw_total := gw_total g + 1\<rparr>,
     if gr_req r \<noteq> inp then 422 else if gr_status r = 201 then 200 else gr_status r,
     if gr_req r \<noteq> inp
     then BError (error_body ''idempotency_key_reused'' ''this Idempotency-Key was used with a different charge'')
     else gr_body r, False)"
  using assms gw_invD(1) [OF assms(1)] by (simp add: gw_process_def Let_def)

lemma gw_process_new:
  assumes "byKey g key = None"
  obtains r where "fst (gw_process key inp now g) =
      g\<lparr>requests := (requests g)(key := requests g key + 1), gw_total := gw_total g + 1, gw_seq := gw_seq g + 1,
        realCharges := (realCharges g)(key := realCharges g key + (if gr_status r = 201 then 1 else 0)),
        byKey := (byKey g)(key \<mapsto> r)\<rparr>"
    and "snd (gw_process key inp now g) = (gr_status r, gr_body r, gr_status r = 201)"
    and "gr_req r = inp" and "gr_status r \<in> {201, 402}"
proof (cases "gw_decide g inp")
  case (Pair declined reason)
  have "gw_decide (g\<lparr>requests := a, gw_total := b\<rparr>) inp = gw_decide g inp" for a b
    by (simp add: gw_decide_def)
  note d = this [unfolded Pair]
  show ?thesis
    by (rule that [of "the (byKey (fst (gw_process key inp now g)) key)"];
        cases declined; simp add: gw_process_def Let_def assms d)
qed

lemma gw_process_inv:
  assumes "gw_inv g"
  shows "gw_inv (fst (gw_process key inp now g)) \<and> gw_later g (fst (gw_process key inp now g))"
proof (cases "byKey g key")
  case None
  obtain r where "fst (gw_process key inp now g) =
      g\<lparr>requests := (requests g)(key := requests g key + 1), gw_total := gw_total g + 1, gw_seq := gw_seq g + 1,
        realCharges := (realCharges g)(key := realCharges g key + (if gr_status r = 201 then 1 else 0)),
        byKey := (byKey g)(key \<mapsto> r)\<rparr>" "gr_status r \<in> {201, 402}"
    using gw_process_new [OF None] by metis
  with assms None gw_invD(2) [OF assms, of key] show ?thesis
    by (auto simp: gw_inv_def gw_later_def)
next
  case (Some r)
  with assms show ?thesis by (simp add: gw_process_seen gw_inv_def gw_later_def)
qed

lemma processPayout_inv:
  assumes "gw_inv g"
  shows "gw_inv (fst (processPayout key inp now g))" and "gw_later g (fst (processPayout key inp now g))"
  using assms by (auto simp: processPayout_def gw_inv_def gw_later_def Let_def split: option.splits)

lemma gw_charge_inv:
  assumes "gw_inv g"
  shows "gw_inv (fst (gw_charge header body now g))" and "gw_later g (fst (gw_charge header body now g))"
  using assms gw_process_inv [OF assms] by (simp_all add: gw_charge_def Let_def split: option.split)

lemma gw_payout_inv:
  assumes "gw_inv g"
  shows "gw_inv (fst (gw_payout header body now g))" and "gw_later g (fst (gw_payout header body now g))"
  using assms processPayout_inv [OF assms] by (simp_all add: gw_payout_def Let_def split: option.split)

lemma client_call_cases:
  "fst (client_call tr decode operation handle g) \<in> {g, fst (handle g)}"
  by (auto simp: client_call_def split: transport.split prod.split)

lemma Client_Charge_inv:
  assumes "gw_inv g"
  shows "gw_inv (fst (Client_Charge tr req now g))" and "gw_later g (fst (Client_Charge tr req now g))"
  using client_call_cases [of tr decode_charge "''charge''" "gw_charge (rqc_IdempotencyKey req) (Some (charge_payload req)) now" g]
    gw_charge_inv [OF assms] assms
  by (auto simp: Client_Charge_def)

lemma Client_Payout_inv:
  assumes "gw_inv g"
  shows "gw_inv (fst (Client_Payout tr req now g))" and "gw_later g (fst (Client_Payout tr req now g))"
  using client_call_cases [of tr decode_payout "''payout''" "gw_payout (rp_IdempotencyKey req) (Some (rp_Body req)) now" g]
    gw_payout_inv [OF assms] assms
  by (auto simp: Client_Payout_def Let_def)

section \<open>What an answer says about its key\<close>

text \<open>A request that can never be charged again: the gateway refuses it, or its key already has
  an answer that is not the success of this very request.\<close>

definition gw_refused :: "string \<Rightarrow> chargeRequest \<Rightarrow> bool" where
  "gw_refused header inp \<longleftrightarrow> TrimSpace header = [] \<or> length (TrimSpace header) > 255 \<or> \<not> gw_valid inp"

definition gw_dead :: "gateway \<Rightarrow> string \<Rightarrow> chargeRequest \<Rightarrow> bool" where
  "gw_dead g header inp \<longleftrightarrow> gw_refused header inp \<or>
    (\<exists>r. byKey g (TrimSpace header) = Some r \<and> \<not> (gr_req r = inp \<and> gr_status r = 201))"

definition gw_charged :: "gateway \<Rightarrow> string \<Rightarrow> chargeRequest \<Rightarrow> bool" where
  "gw_charged g header inp \<longleftrightarrow> \<not> gw_refused header inp \<and>
    (\<exists>r. byKey g (TrimSpace header) = Some r \<and> gr_req r = inp \<and> gr_status r = 201)"

lemma gw_dead_not_charged: "gw_dead g header inp \<Longrightarrow> \<not> gw_charged g header inp"
  by (auto simp: gw_dead_def gw_charged_def)

lemma gw_dead_later: "gw_later g h \<Longrightarrow> gw_dead g header inp \<Longrightarrow> gw_dead h header inp"
  by (auto simp: gw_dead_def gw_later_def)

lemma gw_charged_later: "gw_later g h \<Longrightarrow> gw_charged g header inp \<Longrightarrow> gw_charged h header inp"
  by (auto simp: gw_charged_def gw_later_def)

lemma gw_charge_refused: "gw_refused header inp \<Longrightarrow>
  \<exists>b. gw_charge header (Some inp) now g = (g, 400, b, False)"
  by (auto simp: gw_refused_def gw_charge_def Let_def)

lemma gw_charge_accepted: "\<not> gw_refused header inp \<Longrightarrow>
  gw_charge header (Some inp) now g = gw_process (TrimSpace header) inp now g"
  by (simp add: gw_refused_def gw_charge_def Let_def)

text \<open>A request takes money only when its key is new, and then it is charged.\<close>

lemma gw_charge_takes:
  assumes "gw_inv g" and "realCharges (fst (gw_charge header (Some inp) now g)) \<noteq> realCharges g"
  shows "byKey g (TrimSpace header) = None" and "gw_charged (fst (gw_charge header (Some inp) now g)) header inp"
proof -
  have acc: "\<not> gw_refused header inp" using assms(2) gw_charge_refused [of header inp now g] by auto
  show new: "byKey g (TrimSpace header) = None"
    using assms acc by (cases "byKey g (TrimSpace header)") (auto simp: gw_charge_accepted gw_process_seen)
  obtain r where "fst (gw_process (TrimSpace header) inp now g) =
      g\<lparr>requests := (requests g)(TrimSpace header := requests g (TrimSpace header) + 1), gw_total := gw_total g + 1,
        gw_seq := gw_seq g + 1,
        realCharges := (realCharges g)(TrimSpace header :=
          realCharges g (TrimSpace header) + (if gr_status r = 201 then 1 else 0)),
        byKey := (byKey g)(TrimSpace header \<mapsto> r)\<rparr>" "gr_req r = inp"
    using gw_process_new [OF new] by metis
  with assms(2) acc show "gw_charged (fst (gw_charge header (Some inp) now g)) header inp"
    by (auto simp: gw_charged_def gw_charge_accepted split: if_splits)
qed

lemma send_answer_ok: "send_answer decode op code body = Inr v \<longleftrightarrow> (code = 200 \<or> code = 201) \<and> v = decode body"
  by (auto simp: send_answer_def Let_def)

lemma send_answer_rejected: "send_answer decode op code body = Inl (Rejected e) \<Longrightarrow> code \<noteq> 200 \<and> code \<noteq> 201"
  by (auto simp: send_answer_def)

lemma gw_charge_status:
  assumes "gw_inv g" and "gw_charge header (Some inp) now g = (h, code, body, new)"
  shows "if code = 200 \<or> code = 201 then gw_charged h header inp else gw_dead h header inp"
proof (cases "gw_refused header inp")
  case True
  with gw_charge_refused [OF True, of now g] assms(2) show ?thesis by (auto simp: gw_dead_def)
next
  case False
  let ?k = "TrimSpace header"
  note eq = assms(2) [unfolded gw_charge_accepted [OF False]]
  show ?thesis
  proof (cases "byKey g ?k")
    case None
    obtain r where "byKey (fst (gw_process ?k inp now g)) ?k = Some r"
      "snd (gw_process ?k inp now g) = (gr_status r, gr_body r, gr_status r = 201)" "gr_req r = inp"
      "gr_status r \<in> {201, 402}"
      by (rule gw_process_new [OF None, of inp now]) auto
    with eq False show ?thesis by (auto simp: gw_charged_def gw_dead_def)
  next
    case (Some r)
    with eq False gw_invD(2) [OF assms(1), of ?k] show ?thesis
      by (auto simp: gw_process_seen [OF assms(1) Some] gw_charged_def gw_dead_def split: if_splits)
  qed
qed

text \<open>The three facts the retries rest on: a success means this request was charged, a
  rejection that it never will be, and no answer takes money for a key that has one.\<close>

abbreviation request_of :: "payments_ChargeRequest \<Rightarrow> string \<times> chargeRequest" where
  "request_of req \<equiv> (rqc_IdempotencyKey req, charge_payload req)"

lemma Client_Charge_confirmed:
  assumes "gw_inv g" and "Client_Charge tr req now g = (h, Inr ch)"
  shows "gw_charged h (rqc_IdempotencyKey req) (charge_payload req)"
  using assms gw_charge_status [OF assms(1), of "rqc_IdempotencyKey req" "charge_payload req" now]
  by (auto simp: Client_Charge_def client_call_def Let_def send_answer_ok split: if_splits transport.splits prod.splits)

lemma Client_Charge_rejected:
  assumes "gw_inv g" and "Client_Charge tr req now g = (h, Inl (Rejected e))"
  shows "gw_dead h (rqc_IdempotencyKey req) (charge_payload req)"
  using assms gw_charge_status [OF assms(1), of "rqc_IdempotencyKey req" "charge_payload req" now]
  by (auto simp: Client_Charge_def client_call_def Let_def dest!: send_answer_rejected
      split: if_splits transport.splits prod.splits)

lemma Client_Charge_takes:
  assumes "gw_inv g" and "realCharges (fst (Client_Charge tr req now g)) \<noteq> realCharges g"
  shows "byKey g (TrimSpace (rqc_IdempotencyKey req)) = None"
    and "gw_charged (fst (Client_Charge tr req now g)) (rqc_IdempotencyKey req) (charge_payload req)"
proof -
  let ?h = "gw_charge (rqc_IdempotencyKey req) (Some (charge_payload req)) now"
  have "fst (Client_Charge tr req now g) = fst (?h g)"
    using assms(2) client_call_cases [of tr decode_charge "''charge''" ?h g]
    by (auto simp: Client_Charge_def split: if_splits)
  with gw_charge_takes [OF assms(1), of "rqc_IdempotencyKey req" "charge_payload req" now] assms(2)
  show "byKey g (TrimSpace (rqc_IdempotencyKey req)) = None"
    and "gw_charged (fst (Client_Charge tr req now g)) (rqc_IdempotencyKey req) (charge_payload req)" by simp_all
qed

lemma gw_dead_takes_nothing:
  assumes "gw_inv g" and "gw_dead g (rqc_IdempotencyKey req) (charge_payload req)"
  shows "realCharges (fst (Client_Charge tr req now g)) = realCharges g"
proof (rule ccontr)
  assume new: "\<not> ?thesis"
  note t = Client_Charge_takes [OF assms(1) new]
  with gw_dead_later [OF Client_Charge_inv(2) [OF assms(1)] assms(2)] show False
    by (meson gw_dead_not_charged)
qed

lemma realCharges_once: "gw_inv g \<Longrightarrow> realCharges g k \<le> 1"
  by (cases "byKey g k") (auto dest: gw_invD(2) [of g k])

lemma realPayouts_once: "gw_inv g \<Longrightarrow> realPayouts g k \<le> 1"
  by (simp add: gw_inv_def)

lemma client_go_error_class [simp]:
  "Classify (Some (client_go_error e)) = OutcomeRejected \<longleftrightarrow> (\<exists>r. e = Rejected r)"
  by (cases e) (simp_all add: client_go_error_def Classify_def errors_Is_def errors_New_def sentinel_defs errorf_w_def)

end
