(* ===== verification/Gofloat.thy ===== *)
theory Gofloat
  imports Complex_Main "HOL-Library.Log_Nat" Prelude
begin

text \<open>
  Go's \<^verbatim>\<open>float64\<close> where the services use it for money: a finite value is the rational number it
  stands for, and an operation is the exact one followed by \<open>fl64\<close>, the rounding to a binary
  significand of 53 bits, ties to even, that IEEE 754 prescribes. Amounts of money are far from
  the limits of the exponent, so overflow and subnormal results do not occur.
\<close>

type_synonym float64 = rat

definition pow2 :: "int \<Rightarrow> rat" where
  "pow2 e = (if 0 \<le> e then 2 ^ nat e else 1 / 2 ^ nat (- e))"

text \<open>The binary exponent of a number: \<open>pow2 e \<le> \<bar>x\<bar> < pow2 (e + 1)\<close>.\<close>

definition fl_exp :: "rat \<Rightarrow> int" where
  "fl_exp x = (let (p, q) = quotient_of \<bar>x\<bar>; e = bitlen p - bitlen q in if pow2 e \<le> \<bar>x\<bar> then e else e - 1)"

definition round_even :: "rat \<Rightarrow> int" where
  "round_even x =
    (let f = \<lfloor>x\<rfloor>; r = x - of_int f in
     if r < 1 / 2 then f else if r > 1 / 2 then f + 1 else if even f then f else f + 1)"

definition fl64 :: "rat \<Rightarrow> float64" where
  "fl64 x = (if x = 0 then 0 else let u = pow2 (fl_exp x - 52) in of_int (round_even (x / u)) * u)"

text \<open>\<^verbatim>\<open>math.Round\<close>: to the nearest integer, halves away from zero.\<close>

definition math_Round :: "float64 \<Rightarrow> int" where
  "math_Round x = (if 0 \<le> x then \<lfloor>x + 1 / 2\<rfloor> else - \<lfloor>1 / 2 - x\<rfloor>)"

section \<open>The error of a rounding\<close>

lemma pow2_pos [simp]: "0 < pow2 e"
  by (simp add: pow2_def)

lemma pow2_Suc: "pow2 (e + 1) = 2 * pow2 e"
proof -
  consider "0 \<le> e" | "e = - 1" | "e < - 1" by linarith
  then show ?thesis
  proof cases
    case 1
    then show ?thesis by (simp add: pow2_def nat_add_distrib)
  next
    case 2
    then show ?thesis by (simp add: pow2_def)
  next
    case 3
    then have "nat (- e) = Suc (nat (- (e + 1)))" by linarith
    with 3 show ?thesis by (simp add: pow2_def)
  qed
qed

lemma pow2_add_nat: "pow2 (e + int n) = 2 ^ n * pow2 e"
proof (induction n)
  case (Suc n)
  have "pow2 (e + int (Suc n)) = pow2 ((e + int n) + 1)" by (simp add: algebra_simps)
  with Suc show ?case by (simp add: pow2_Suc)
qed simp

lemma pow2_diff_nat: "pow2 (int m - int n) = 2 ^ m / 2 ^ n"
  using pow2_add_nat [of "int m - int n" n] by (simp add: pow2_def field_simps)

lemma round_even_error: "\<bar>of_int (round_even x) - x\<bar> \<le> 1 / 2"
proof -
  have "of_int \<lfloor>x\<rfloor> \<le> x" and "x < of_int \<lfloor>x\<rfloor> + 1" by linarith+
  then show ?thesis by (auto simp: round_even_def Let_def abs_le_iff)
qed

lemma fl_exp_le:
  assumes "x \<noteq> 0"
  shows "pow2 (fl_exp x) \<le> \<bar>x\<bar>"
proof (cases "quotient_of \<bar>x\<bar>")
  case (Pair p q)
  have q: "0 < q" using quotient_of_denom_pos [OF Pair] .
  have x: "\<bar>x\<bar> = of_int p / of_int q" using quotient_of_div [OF Pair] .
  have p: "0 < p" using assms q x by (metis divide_pos_pos of_int_0_less_iff zero_less_abs_iff zero_less_divide_iff not_less_iff_gr_or_eq)
  have b1: "0 < bitlen p" "0 \<le> bitlen q"
    using p bitlen_eq_zero_iff [of p] bitlen_nonneg [of p] bitlen_nonneg [of q] by linarith+
  then have "nat (bitlen p) - 1 = nat (bitlen p - 1)" by simp
  then have bp: "2 ^ (nat (bitlen p) - 1) \<le> p" and bq: "q < 2 ^ nat (bitlen q)"
    using bitlen_bounds [OF p] bitlen_bounds [OF q] by simp_all
  have e: "bitlen p - bitlen q - 1 = int (nat (bitlen p) - 1) - int (nat (bitlen q))" using b1 by simp
  have "(2::rat) ^ (nat (bitlen p) - 1) \<le> of_int p"
    using bp by (metis of_int_le_iff of_int_numeral of_int_power)
  moreover have "of_int q \<le> (2::rat) ^ nat (bitlen q)"
    using bq by (metis less_imp_le of_int_le_iff of_int_numeral of_int_power)
  ultimately have "pow2 (bitlen p - bitlen q - 1) \<le> \<bar>x\<bar>"
    unfolding e pow2_diff_nat x using q p by (intro frac_le) auto
  then show ?thesis by (simp add: fl_exp_def Pair Let_def)
qed

lemma fl64_error: "\<bar>fl64 x - x\<bar> \<le> \<bar>x\<bar> / 2 ^ 53"
proof (cases "x = 0")
  case False
  define u where "u = pow2 (fl_exp x - 52)"
  have u: "0 < u" by (simp add: u_def)
  have "pow2 (fl_exp x) = 2 ^ 52 * u" using pow2_add_nat [of "fl_exp x - 52" 52] by (simp add: u_def)
  with fl_exp_le [OF False] have le: "2 ^ 52 * u \<le> \<bar>x\<bar>" by simp
  have "fl64 x - x = (of_int (round_even (x / u)) - x / u) * u"
    using False u by (simp add: fl64_def u_def [symmetric] Let_def field_simps)
  then have "\<bar>fl64 x - x\<bar> = \<bar>of_int (round_even (x / u)) - x / u\<bar> * u" using u by (simp add: abs_mult)
  also have "\<dots> \<le> 1 / 2 * u" using round_even_error [of "x / u"] u by (intro mult_right_mono) auto
  also have "\<dots> \<le> \<bar>x\<bar> / 2 ^ 53" using le by simp
  finally show ?thesis .
qed (simp add: fl64_def)

lemma math_Round_near:
  assumes "\<bar>x - of_int m\<bar> < 1 / 2"
  shows "math_Round x = m"
proof -
  have b: "of_int m - 1 / 2 < x" "x < of_int m + 1 / 2" using assms by linarith+
  show ?thesis
  proof (cases "0 \<le> x")
    case True
    have "\<lfloor>x + 1 / 2\<rfloor> = m" using b by (simp add: floor_eq_iff)
    with True show ?thesis by (simp add: math_Round_def)
  next
    case False
    have "\<lfloor>1 / 2 - x\<rfloor> = - m" using b by (simp add: floor_eq_iff)
    with False show ?thesis by (simp add: math_Round_def)
  qed
qed

text \<open>Three roundings around a division and a multiplication by the same number keep an integer
  of up to fifty bits within half a unit.\<close>

lemma three_roundings:
  assumes "\<bar>m\<bar> \<le> 2 ^ 50" and "0 < c"
  shows "\<bar>fl64 (fl64 (fl64 (of_int m) / c) * c) - of_int m\<bar> < 1 / 2"
proof -
  define a where "a = fl64 (of_int m)"
  define b where "b = fl64 (a / c)"
  have m: "\<bar>of_int m\<bar> \<le> (2 ^ 50 :: rat)"
    using assms(1) by (metis of_int_abs of_int_le_iff of_int_numeral of_int_power)
  have a: "\<bar>a - of_int m\<bar> \<le> 1 / 8" using fl64_error [of "of_int m"] m by (simp add: a_def)
  then have a': "\<bar>a\<bar> \<le> 2 ^ 50 + 1 / 8" using m by linarith
  have "\<bar>b - a / c\<bar> * c \<le> \<bar>a / c\<bar> / 2 ^ 53 * c"
    using fl64_error [of "a / c"] assms(2) by (intro mult_right_mono) (auto simp: b_def)
  then have "\<bar>b * c - a\<bar> \<le> \<bar>a\<bar> / 2 ^ 53"
    using assms(2) by (simp add: field_simps abs_mult abs_if split: if_splits)
  then have b: "\<bar>b * c - a\<bar> \<le> 1 / 8 + 1 / 2 ^ 56" using a' by simp
  then have b': "\<bar>b * c\<bar> \<le> 2 ^ 50 + 1 / 2" using a' by (simp add: abs_if split: if_splits)
  have "\<bar>fl64 (b * c) - b * c\<bar> \<le> \<bar>b * c\<bar> / 2 ^ 53" by (rule fl64_error)
  also have "\<dots> \<le> 1 / 8 + 1 / 2 ^ 54" using b' by simp
  finally show ?thesis using a b by (simp add: a_def [symmetric] b_def [symmetric] abs_if split: if_splits)
qed

section \<open>Integers\<close>

text \<open>An integer below two to the 53 is a float; \<open>fl64_code\<close> lets the evaluation see it.\<close>

lemma round_even_int: "round_even (of_int m) = m"
  by (simp add: round_even_def Let_def)

lemma fl64_of_int:
  assumes "\<bar>n\<bar> < 2 ^ 53"
  shows "fl64 (of_int n) = of_int n"
proof (cases "n = 0")
  case False
  define e where "e = fl_exp (of_int n)"
  have "pow2 e \<le> \<bar>of_int n\<bar>" using fl_exp_le [of "of_int n"] False by (simp add: e_def)
  also have "\<dots> < of_int (2 ^ 53)" using assms unfolding of_int_abs [symmetric] of_int_less_iff .
  finally have lt: "pow2 e < 2 ^ 53" by simp
  have "e \<le> 52"
  proof (rule ccontr)
    assume "\<not> e \<le> 52"
    then have "e = int (nat e - 53 + 53)" by simp
    then obtain k where "e = int (k + 53)" by blast
    then have "pow2 e = 2 ^ (k + 53)" by (simp add: pow2_def nat_add_distrib)
    moreover have "(2::rat) ^ 53 \<le> 2 ^ (k + 53)" by (rule power_increasing) simp_all
    ultimately show False using lt by simp
  qed
  then obtain k where k: "52 - e = int k" by (metis nonneg_int_cases diff_ge_0_iff_ge)
  then have "e - 52 = - int k" by simp
  then have u: "pow2 (e - 52) = 1 / 2 ^ k" by (simp add: pow2_def)
  have "of_int n / pow2 (e - 52) = of_int (n * 2 ^ k)" by (simp add: u)
  then have "round_even (of_int n / pow2 (e - 52)) = n * 2 ^ k" by (simp only: round_even_int)
  with False show ?thesis by (simp add: fl64_def e_def [symmetric] Let_def u)
qed (simp add: fl64_def)

lemma fl64_code [code]:
  "fl64 x = (case quotient_of x of (n, d) \<Rightarrow>
     if d = 1 \<and> \<bar>n\<bar> < 9007199254740992 then x
     else if x = 0 then 0 else let u = pow2 (fl_exp x - 52) in of_int (round_even (x / u)) * u)"
proof (cases "quotient_of x")
  case (Pair n d)
  have x: "x = of_int n / of_int d" by (rule quotient_of_div [OF Pair])
  show ?thesis
  proof (cases "d = 1 \<and> \<bar>n\<bar> < 9007199254740992")
    case True
    then have "fl64 x = x" using fl64_of_int [of n] x by simp
    with True Pair show ?thesis by simp
  next
    case False
    with Pair show ?thesis by (simp only: fl64_def prod.case if_False)
  qed
qed

end
