(* ===== verification/Gocalendar.thy ===== *)
theory Gocalendar
  imports Gotime
begin

text \<open>
  The calendar arithmetic of \<^verbatim>\<open>t.AddDate(0, months, 0)\<close>: the month moves, a day that the new
  month does not have spills into the next one, and the time of the day stays. The lemmas place
  every day number in its month and show that moving by months moves forward by at least
  28 days each.
\<close>

text \<open>The first day of the month number \<open>k\<close>, counted from January of year 0.\<close>

definition month_start :: "int \<Rightarrow> int" where
  "month_start k = days_before_year (k div 12) + days_before_month (is_leap (k div 12)) (nat (k mod 12) + 1)"

definition AddMonths :: "time \<Rightarrow> int \<Rightarrow> time" where
  "AddMonths t n =
    (let (y, m, d) = civil_of_days (t div day_ns); k = int m - 1 + n in
     civil_days (y + k div 12) (nat (k mod 12) + 1) d * day_ns + t mod day_ns)"

lemma month_day_of_sound:
  "month_day_of m ls d = (m', dd) \<Longrightarrow> 0 \<le> d \<Longrightarrow> d < sum_list ls \<Longrightarrow>
    m \<le> m' \<and> m' - m < length ls \<and> 1 \<le> dd \<and> sum_list (take (m' - m) ls) + int dd - 1 = d"
proof (induction m ls d rule: month_day_of.induct)
  case (2 m l ls d)
  show ?case
  proof (cases "d < l")
    case True
    with 2(2,3) show ?thesis by auto
  next
    case False
    with 2(2-4) have r: "month_day_of (m + 1) ls (d - l) = (m', dd)" "0 \<le> d - l" "d - l < sum_list ls" by auto
    note IH = 2(1) [OF False r]
    then have "m' - m = Suc (m' - (m + 1))" by linarith
    with IH show ?thesis by simp
  qed
qed simp

lemma sum_month_days: "sum_list (month_days leap) = (if leap then 366 else 365)"
  by (simp add: month_days_def)

lemma civil_of_days_sound:
  assumes "civil_of_days D = (y, m, d)"
  shows "1 \<le> m" and "m \<le> 12" and "1 \<le> d" and "civil_days y m d = D"
proof -
  let ?y = "year_of_days D"
  obtain m1 d1 where md: "month_day_of 1 (month_days (is_leap ?y)) (D - days_before_year ?y) = (m1, d1)" by fastforce
  with assms have eq: "y = ?y" "m1 = m" "d1 = d" by (auto simp: civil_of_days_def Let_def)
  have r: "0 \<le> D - days_before_year ?y" "D - days_before_year ?y < sum_list (month_days (is_leap ?y))"
    using year_of_days_range [of D] days_before_year_Suc [of ?y] by (auto simp: sum_month_days)
  note s = month_day_of_sound [OF md r]
  show "1 \<le> m" "m \<le> 12" "1 \<le> d" using s eq by (auto simp: month_days_def)
  show "civil_days y m d = D" using s eq by (simp add: civil_days_def days_before_month_def)
qed

lemma days_before_month_Suc:
  assumes "1 \<le> m" and "m < 12"
  shows "days_before_month leap m + 28 \<le> days_before_month leap (m + 1)"
proof -
  have "m \<in> {1, 2, 3, 4, 5, 6, 7, 8, 9, 10, 11}" using assms by (auto simp: numeral_eq_Suc less_Suc_eq)
  then show ?thesis by (auto simp: days_before_month_def month_days_def)
qed

lemma year_month_carry:
  assumes "(k::int) mod 12 \<noteq> 11"
  shows "(k + 1) div 12 = k div 12" and "(k + 1) mod 12 = k mod 12 + 1"
proof -
  define q r where "q = k div 12" and "r = k mod 12"
  have r: "0 \<le> r" "r < 11" using assms pos_mod_bound [of 12 k] by (auto simp: r_def)
  have "k + 1 = (r + 1) + 12 * q" by (simp add: q_def r_def)
  then have d: "(k + 1) div 12 = q" using r by (simp add: div_pos_pos_trivial)
  moreover have "(k + 1) mod 12 = r + 1"
    using minus_mult_div_eq_mod [of "k + 1" 12] d by (simp add: q_def r_def minus_mult_div_eq_mod [symmetric])
  ultimately show "(k + 1) div 12 = k div 12" and "(k + 1) mod 12 = k mod 12 + 1" by (simp_all add: q_def r_def)
qed

lemma month_start_step: "month_start k + 28 \<le> month_start (k + 1)"
proof (cases "k mod 12 = 11")
  case True
  define q where "q = k div 12"
  have "k + 1 = (q + 1) * 12" using mult_div_mod_eq [of 12 k] True by (simp add: q_def [symmetric])
  then have "(k + 1) div 12 = q + 1" "(k + 1) mod 12 = 0" by simp_all
  then have k: "(k + 1) div 12 = k div 12 + 1" "(k + 1) mod 12 = 0" by (simp_all add: q_def)
  have "days_before_month leap 12 = (if leap then 335 else 334)" for leap
    by (simp add: days_before_month_def month_days_def)
  with True show ?thesis
    by (simp add: month_start_def k days_before_year_Suc) (simp add: days_before_month_def)
next
  case False
  have "0 \<le> k mod 12" "k mod 12 < 12" by simp_all
  with False have "nat (k mod 12) + 1 < 12" by linarith
  moreover have k: "(k + 1) div 12 = k div 12" "(k + 1) mod 12 = k mod 12 + 1"
    using year_month_carry [of k] False by simp_all
  moreover have "nat (k mod 12 + 1) = nat (k mod 12) + 1" using \<open>0 \<le> k mod 12\<close> by simp
  ultimately show ?thesis
    using days_before_month_Suc [of "nat (k mod 12) + 1" "is_leap (k div 12)"] by (simp add: month_start_def)
qed

lemma month_start_add: "month_start k + 28 * int n \<le> month_start (k + int n)"
proof (induction n)
  case (Suc n)
  then show ?case using month_start_step [of "k + int n"] by (simp add: algebra_simps)
qed simp

lemma civil_days_month_start:
  assumes "1 \<le> m" and "m \<le> 12"
  shows "civil_days y m d = month_start (12 * y + int m - 1) + int d - 1"
proof -
  have e: "12 * y + int m - 1 = (int m - 1) + y * 12" by simp
  have "(12 * y + int m - 1) div 12 = y" "(12 * y + int m - 1) mod 12 = int m - 1"
    unfolding e using assms by (simp_all only: div_mult_self1 mod_mult_self1) simp_all
  moreover have "nat (int m - 1) + 1 = m" using assms by simp
  ultimately show ?thesis by (simp add: civil_days_def month_start_def)
qed

text \<open>Moving forward by \<open>n\<close> months moves by at least 28 days for each.\<close>

lemma AddMonths_ge:
  assumes "0 \<le> n"
  shows "t + 28 * n * day_ns \<le> AddMonths t n"
proof -
  obtain y m d where c: "civil_of_days (t div day_ns) = (y, m, d)" using prod_cases3 by blast
  note s = civil_of_days_sound [OF c]
  define k where "k = int m - 1 + n"
  let ?m = "nat (k mod 12) + 1"
  have m: "1 \<le> ?m" "?m \<le> 12" by (simp_all add: nat_le_iff Suc_le_eq nat_less_iff)
  have e: "12 * (y + k div 12) + int ?m - 1 = (12 * y + int m - 1) + n"
  proof -
    have "int (nat (k mod 12)) = k mod 12" by simp
    then show ?thesis by (simp add: k_def algebra_simps)
  qed
  have n: "n = int (nat n)" using assms by simp
  have "civil_days y m d + 28 * n \<le> civil_days (y + k div 12) ?m d"
    unfolding civil_days_month_start [OF m] civil_days_month_start [OF s(1,2)] e
    using month_start_add [of "12 * y + int m - 1" "nat n"] n by simp
  then have "(t div day_ns + 28 * n) * day_ns \<le> civil_days (y + k div 12) ?m d * day_ns"
    unfolding s(4) by (intro mult_right_mono) (simp_all add: day_ns_def)
  moreover have "AddMonths t n = civil_days (y + k div 12) ?m d * day_ns + t mod day_ns"
    by (simp add: AddMonths_def c k_def Let_def)
  moreover have "t = t div day_ns * day_ns + t mod day_ns" by simp
  ultimately show ?thesis by (simp only: distrib_right)
qed

text \<open>And moving back does not move forward.\<close>

lemma AddMonths_le:
  assumes "n \<le> 0"
  shows "AddMonths t n \<le> t"
proof -
  obtain y m d where c: "civil_of_days (t div day_ns) = (y, m, d)" using prod_cases3 by blast
  note s = civil_of_days_sound [OF c]
  define k where "k = int m - 1 + n"
  let ?m = "nat (k mod 12) + 1"
  have m: "1 \<le> ?m" "?m \<le> 12" by (simp_all add: nat_le_iff Suc_le_eq nat_less_iff)
  have e: "12 * (y + k div 12) + int ?m - 1 = (12 * y + int m - 1) + n" by (simp add: k_def algebra_simps)
  have "(12 * y + int m - 1) + n + int (nat (- n)) = 12 * y + int m - 1" using assms by simp
  with month_start_add [of "(12 * y + int m - 1) + n" "nat (- n)"]
  have "civil_days (y + k div 12) ?m d \<le> civil_days y m d"
    unfolding civil_days_month_start [OF m] civil_days_month_start [OF s(1,2)] e using assms by simp
  then have "civil_days (y + k div 12) ?m d * day_ns \<le> t div day_ns * day_ns"
    unfolding s(4) by (intro mult_right_mono) (simp_all add: day_ns_def)
  moreover have "AddMonths t n = civil_days (y + k div 12) ?m d * day_ns + t mod day_ns"
    by (simp add: AddMonths_def c k_def Let_def)
  moreover have "t = t div day_ns * day_ns + t mod day_ns" by simp
  ultimately show ?thesis by linarith
qed

corollary AddMonths_after [simp]: "t < AddMonths t n \<longleftrightarrow> 1 \<le> n"
  using AddMonths_ge [of n t] AddMonths_le [of n t] by (cases "1 \<le> n") (auto simp: day_ns_def)

end
