(* ===== verification/Charges.thy ===== *)
theory Charges
  imports Payment_Gateway Gofloat Gocalendar
begin

text \<open>
  The premium charge of an acceptance (HA-D02) in \<^verbatim>\<open>services/origination\<close>.

  \<^item> \<^verbatim>\<open>internal/domain/charge.go\<close>: \<open>charge\<close> is the record with all its fields, and the functions
    of the file are the definitions of the same name.
  \<^item> \<^verbatim>\<open>internal/domain/contract.go\<close>: the event \<open>CoverageActivated\<close> and its validation.
  \<^item> \<^verbatim>\<open>internal/adapters/postgres/charges.go\<close>: the table \<^verbatim>\<open>charge_attempt\<close> is a map from the
    acceptance id to its row, in an order that stands for the one PostgreSQL reads rows in.
    Every statement of the file is one atomic step: the row, or the rows, its \<^verbatim>\<open>WHERE\<close> selects
    change as its \<^verbatim>\<open>SET\<close> says. \<^verbatim>\<open>NULL\<close> is the zero value, as \<^verbatim>\<open>nullTime\<close>, \<^verbatim>\<open>nullString\<close> and
    \<^verbatim>\<open>scanCharge\<close> translate it, and a comparison with it is never true. A failure of the
    database itself is not modelled; the two constraints a statement can violate are.

  The store is an interpretation of the contract of \<^verbatim>\<open>pkg/idempotency\<close>.
\<close>

section \<open>Amounts\<close>

definition ToMinorUnits :: "float64 \<Rightarrow> int" where
  "ToMinorUnits amount = math_Round (fl64 (amount * 100))"

definition FromMinorUnits :: "int \<Rightarrow> float64" where
  "FromMinorUnits minor = fl64 (fl64 (of_int minor) / 100)"

lemma ToMinorUnits_FromMinorUnits: "\<bar>m\<bar> \<le> 2 ^ 50 \<Longrightarrow> ToMinorUnits (FromMinorUnits m) = m"
  unfolding ToMinorUnits_def FromMinorUnits_def
  by (rule math_Round_near, rule three_roundings) simp_all

section \<open>The domain\<close>

record applicant =
  ap_FullName :: string
  ap_DocumentID :: string
  ap_Email :: string

record orig_coverage =
  ocv_Code :: string
  ocv_InsuredAmount :: float64

record coverage_terms =
  ct_InsuredAmount :: float64
  ct_TermMonths :: int
  ct_Coverages :: "orig_coverage list"

record orig_offer =
  of_ID :: string
  of_CustomerID :: string
  of_Applicant :: applicant
  of_Premium :: float64
  of_Currency :: string
  of_Mode :: string
  of_ProfileScore :: float64
  of_ExpiresAt :: time
  of_Terms :: coverage_terms

text \<open>The fields of an acceptance that a charge is built from.\<close>

record orig_acceptance =
  ac_ID :: string
  ac_OfferID :: string
  ac_CustomerID :: string
  ac_Channel :: string
  ac_AcceptedAt :: time

record payment_method =
  pm_Kind :: string
  pm_Token :: string
  pm_Brand :: string
  pm_Last4 :: string
  pm_Installments :: int
  pm_BankCode :: string
  pm_PayerType :: string
  pm_CapturedAt :: time

definition no_payment_method :: payment_method where
  "no_payment_method = \<lparr>pm_Kind = '''', pm_Token = '''', pm_Brand = '''', pm_Last4 = '''', pm_Installments = 0,
     pm_BankCode = '''', pm_PayerType = '''', pm_CapturedAt = zero_time\<rparr>"

definition PaymentCard :: string where "PaymentCard = ''card''"
definition PaymentPSE :: string where "PaymentPSE = ''pse''"
definition MaxInstallments :: int where "MaxInstallments = 36"

definition ValidPayerType :: "string \<Rightarrow> bool" where
  "ValidPayerType t \<longleftrightarrow> t = ''natural'' \<or> t = ''legal''"

definition Captured :: "payment_method \<Rightarrow> bool" where
  "Captured p \<longleftrightarrow> pm_Kind p \<noteq> ''''"

datatype charge_failure_reason =
    NoChargeFailure | ChargeRetryWindowExpired | ChargePaymentRejected | ChargePaymentMethodMissing

definition ChargeFailureReasonFor :: "failure_reason \<Rightarrow> charge_failure_reason" where
  "ChargeFailureReasonFor r = (if r = ReasonRejected then ChargePaymentRejected else ChargeRetryWindowExpired)"

record charge =
  ch_AcceptanceID :: string
  ch_IdempotencyKey :: string
  ch_OfferID :: string
  ch_CustomerID :: string
  ch_Channel :: string
  ch_AcceptedAt :: time
  ch_OfferExpiresAt :: time
  ch_Holder :: applicant
  ch_AmountMinor :: int
  ch_Currency :: string
  ch_Terms :: coverage_terms
  ch_Status :: status
  ch_Attempts :: int
  ch_NextAttemptAt :: time
  ch_ClaimedUntil :: time
  ch_WindowStartedAt :: time
  ch_WindowEndsAt :: time
  ch_LastAttemptAt :: time
  ch_LastFailureAt :: time
  ch_FailureReason :: charge_failure_reason
  ch_LastError :: string
  ch_DeclineCode :: string
  ch_ProviderReference :: string
  ch_ConfirmedAt :: time
  ch_PolicyID :: string
  ch_ActivationEventID :: string
  ch_ActivatedAt :: time
  ch_CoverageStart :: time
  ch_CoverageEnd :: time
  ch_RenewalOf :: string
  ch_CoverageNotBefore :: time
  ch_ActivationPublishedAt :: time
  ch_ActivationAttempts :: int
  ch_ActivationNextAttemptAt :: time
  ch_ActivationLastError :: string
  ch_PaymentMethod :: payment_method
  ch_PaymentAttempt :: int
  ch_ResumeCount :: int
  ch_LastResumedBy :: string
  ch_LastResumedAt :: time
  ch_ResumeNote :: string
  ch_CreatedAt :: time
  ch_UpdatedAt :: time

record charge_resumption =
  rs_By :: string
  rs_Note :: string
  rs_At :: time
  rs_WindowEndsAt :: time

definition MaxResumeNoteLength :: nat where "MaxResumeNoteLength = 500"

definition PolicyIDFor :: "string \<Rightarrow> string" where
  "PolicyIDFor acceptanceID = ''pol-'' @ acceptanceID"

definition ActivationEventIDFor :: "string \<Rightarrow> string" where
  "ActivationEventIDFor acceptanceID = ''evt-coverage-activated-'' @ acceptanceID"

definition ChargeKeyPrefix :: string where "ChargeKeyPrefix = ''cobro''"

text \<open>\<^verbatim>\<open>key, _ := idempotency.Key(...)\<close>: the key is empty when the id is.\<close>

definition charge_key :: "string \<Rightarrow> string" where
  "charge_key ident = (case Key ChargeKeyPrefix ident of Inl _ \<Rightarrow> '''' | Inr key \<Rightarrow> key)"

definition ChargeKeyFor :: "string \<Rightarrow> int \<Rightarrow> string" where
  "ChargeKeyFor acceptanceID paymentAttempt =
    (let key = charge_key acceptanceID in
     if paymentAttempt \<le> 1 then key else key @ ''-'' @ FormatInt paymentAttempt)"

text \<open>The zero \<^verbatim>\<open>Charge\<close> with what \<^verbatim>\<open>NewCharge\<close> sets.\<close>

definition NewCharge :: "orig_acceptance \<Rightarrow> orig_offer \<Rightarrow> coverage_terms \<Rightarrow> time \<Rightarrow> time \<Rightarrow> charge" where
  "NewCharge a offer terms now windowEndsAt =
    \<lparr>ch_AcceptanceID = ac_ID a, ch_IdempotencyKey = charge_key (ac_ID a), ch_OfferID = of_ID offer,
     ch_CustomerID = of_CustomerID offer, ch_Channel = ac_Channel a, ch_AcceptedAt = ac_AcceptedAt a,
     ch_OfferExpiresAt = of_ExpiresAt offer, ch_Holder = of_Applicant offer,
     ch_AmountMinor = ToMinorUnits (of_Premium offer), ch_Currency = of_Currency offer, ch_Terms = terms,
     ch_Status = StatusPending, ch_Attempts = 0, ch_NextAttemptAt = zero_time, ch_ClaimedUntil = zero_time,
     ch_WindowStartedAt = now, ch_WindowEndsAt = windowEndsAt, ch_LastAttemptAt = zero_time,
     ch_LastFailureAt = zero_time, ch_FailureReason = NoChargeFailure, ch_LastError = '''', ch_DeclineCode = '''',
     ch_ProviderReference = '''', ch_ConfirmedAt = zero_time, ch_PolicyID = '''', ch_ActivationEventID = '''',
     ch_ActivatedAt = zero_time, ch_CoverageStart = zero_time, ch_CoverageEnd = zero_time, ch_RenewalOf = '''',
     ch_CoverageNotBefore = zero_time, ch_ActivationPublishedAt = zero_time, ch_ActivationAttempts = 0,
     ch_ActivationNextAttemptAt = zero_time, ch_ActivationLastError = '''', ch_PaymentMethod = no_payment_method,
     ch_PaymentAttempt = 0, ch_ResumeCount = 0, ch_LastResumedBy = '''', ch_LastResumedAt = zero_time,
     ch_ResumeNote = '''', ch_CreatedAt = now, ch_UpdatedAt = now\<rparr>"

definition Charge_Confirmed :: "charge \<Rightarrow> time \<Rightarrow> string \<Rightarrow> charge" where
  "Charge_Confirmed c t providerReference =
    (let start = (if ch_CoverageNotBefore c > t then ch_CoverageNotBefore c else t) in
     c\<lparr>ch_Status := StatusConfirmed, ch_ConfirmedAt := t, ch_ProviderReference := providerReference,
       ch_NextAttemptAt := zero_time, ch_FailureReason := NoChargeFailure,
       ch_PolicyID := PolicyIDFor (ch_AcceptanceID c), ch_ActivationEventID := ActivationEventIDFor (ch_AcceptanceID c),
       ch_ActivatedAt := t, ch_CoverageStart := start, ch_CoverageEnd := AddMonths start (ct_TermMonths (ch_Terms c)),
       ch_ActivationNextAttemptAt := t, ch_UpdatedAt := t\<rparr>)"

record coverage_activated =
  ev_EventID :: string
  ev_PolicyID :: string
  ev_AcceptanceID :: string
  ev_CustomerID :: string
  ev_Holder :: applicant
  ev_Premium :: float64
  ev_Currency :: string
  ev_InsuredAmount :: float64
  ev_Coverages :: "orig_coverage list"
  ev_ActivatedAt :: time
  ev_CoverageStart :: time
  ev_CoverageEnd :: time
  ev_RenewalOf :: string

definition ActivationEvent :: "charge \<Rightarrow> coverage_activated" where
  "ActivationEvent c = \<lparr>ev_EventID = ch_ActivationEventID c, ev_PolicyID = ch_PolicyID c,
     ev_AcceptanceID = ch_AcceptanceID c, ev_CustomerID = ch_CustomerID c, ev_Holder = ch_Holder c,
     ev_Premium = FromMinorUnits (ch_AmountMinor c), ev_Currency = ch_Currency c,
     ev_InsuredAmount = ct_InsuredAmount (ch_Terms c), ev_Coverages = ct_Coverages (ch_Terms c),
     ev_ActivatedAt = ch_ActivatedAt c, ev_CoverageStart = ch_CoverageStart c, ev_CoverageEnd = ch_CoverageEnd c,
     ev_RenewalOf = ch_RenewalOf c\<rparr>"

text \<open>\<^verbatim>\<open>^[A-Za-z0-9_-]{1,128}$\<close>\<close>

definition ValidPolicyID :: "string \<Rightarrow> bool" where
  "ValidPolicyID s = class_match (\<lambda>c. is_alnum c \<or> c = CHR ''_'' \<or> c = CHR ''-'') 1 128 s"

definition CoverageActivated_Validate :: "coverage_activated \<Rightarrow> go_error option" where
  "CoverageActivated_Validate e =
    (if ev_EventID e = '''' \<or> ev_CustomerID e = '''' then Some (errors_New ''event_id and customer_id are required'')
     else if \<not> ValidPolicyID (ev_PolicyID e) then
       Some (errors_New ''policy_id is required (letters, digits, - and _, up to 128)'')
     else if ap_FullName (ev_Holder e) = '''' \<or> ap_Email (ev_Holder e) = '''' then
       Some (errors_New ''the holder name and email are required'')
     else if ev_Premium e \<le> 0 \<or> ev_Currency e = '''' \<or> ev_Coverages e = [] then
       Some (errors_New ''premium, currency and coverages are required'')
     else if time_IsZero (ev_ActivatedAt e) \<or> \<not> ev_CoverageEnd e > ev_CoverageStart e then
       Some (errors_New ''activated_at and a coverage period are required'')
     else None)"

definition ValidateActivation :: "charge \<Rightarrow> time \<Rightarrow> go_error option" where
  "ValidateActivation c t = CoverageActivated_Validate (ActivationEvent (Charge_Confirmed c t ''''))"

definition ActivationPublished :: "charge \<Rightarrow> bool" where
  "ActivationPublished c \<longleftrightarrow> \<not> time_IsZero (ch_ActivationPublishedAt c)"

definition Charge_AttemptState :: "charge \<Rightarrow> attempt" where
  "Charge_AttemptState c = \<lparr>at_ID = ch_AcceptanceID c, at_Key = ch_IdempotencyKey c, at_Status = ch_Status c,
     at_FailedAttempts = ch_Attempts c, at_WindowEndsAt = ch_WindowEndsAt c,
     at_NextAttemptAt = ch_NextAttemptAt c, at_ClaimedUntil = ch_ClaimedUntil c\<rparr>"

definition TakesPaymentMethod :: "charge \<Rightarrow> bool" where
  "TakesPaymentMethod c =
    (case ch_Status c of StatusPending \<Rightarrow> ch_Attempts c = 0
     | StatusFailed \<Rightarrow> ch_FailureReason c = ChargePaymentRejected
     | _ \<Rightarrow> False)"

definition WithPaymentMethod :: "charge \<Rightarrow> payment_method \<Rightarrow> time \<Rightarrow> charge" where
  "WithPaymentMethod c m now =
    (let retryingAfterDecline = (ch_Status c = StatusFailed);
         c = c\<lparr>ch_PaymentMethod := m\<lparr>pm_CapturedAt := now\<rparr>, ch_PaymentAttempt := ch_PaymentAttempt c + 1,
               ch_Status := StatusPending, ch_NextAttemptAt := now, ch_UpdatedAt := now\<rparr>
     in if retryingAfterDecline then
          c\<lparr>ch_IdempotencyKey := ChargeKeyFor (ch_AcceptanceID c) (ch_PaymentAttempt c),
            ch_FailureReason := NoChargeFailure, ch_LastError := '''', ch_Attempts := 0\<rparr>
        else c)"

definition FailureReasonForWindow :: "charge \<Rightarrow> charge_failure_reason" where
  "FailureReasonForWindow c = (if \<not> Captured (ch_PaymentMethod c) then ChargePaymentMethodMissing else ChargeRetryWindowExpired)"

definition IsRenewalCharge :: "string \<Rightarrow> bool" where
  "IsRenewalCharge ident = prefix ''ren-'' ident"

section \<open>The table\<close>

datatype issuance_action_kind = IssuanceActionResume | IssuanceActionRetry

record issuance_action =
  ia_AcceptanceID :: string
  ia_Action :: issuance_action_kind
  ia_Actor :: string
  ia_Note :: string
  ia_CreatedAt :: time

record charge_db =
  db_charges :: "(string, charge) gomap"
  db_actions :: "issuance_action list"

definition empty_charge_db :: charge_db where
  "empty_charge_db = \<lparr>db_charges = [], db_actions = []\<rparr>"

definition ErrChargeNotFound :: go_error where "ErrChargeNotFound = errors_New ''charge not found''"
definition ErrChargeNotResumable :: go_error where "ErrChargeNotResumable = errors_New ''charge not resumable''"
definition ErrChargeNotPayable :: go_error where
  "ErrChargeNotPayable = errors_New ''charge does not take a payment method''"

definition put_charge :: "charge \<Rightarrow> charge_db \<Rightarrow> charge_db" where
  "put_charge c db = db\<lparr>db_charges := gm_put (ch_AcceptanceID c) c (db_charges db)\<rparr>"

text \<open>\<^verbatim>\<open>one\<close>: \<^verbatim>\<open>UPDATE ... SET f WHERE acceptance_id = i AND cond RETURNING ...\<close>\<close>

definition update_one :: "string \<Rightarrow> (charge \<Rightarrow> bool) \<Rightarrow> (charge \<Rightarrow> charge) \<Rightarrow> charge_db \<Rightarrow> charge_db \<times> charge option" where
  "update_one i cond f db =
    (case gm_get (db_charges db) i of
       None \<Rightarrow> (db, None)
     | Some c \<Rightarrow> if cond c then (put_charge (f c) db, Some (f c)) else (db, None))"

text \<open>\<^verbatim>\<open>held\<close>: no row means that the claim was lost.\<close>

definition held_one :: "string \<Rightarrow> (charge \<Rightarrow> bool) \<Rightarrow> (charge \<Rightarrow> charge) \<Rightarrow> charge_db \<Rightarrow> charge_db \<times> (go_error + charge)" where
  "held_one i cond f db =
    (case update_one i cond f db of (db', None) \<Rightarrow> (db', Inl ErrClaimLost) | (db', Some c) \<Rightarrow> (db', Inr c))"

definition db_Get :: "string \<Rightarrow> charge_db \<Rightarrow> go_error + charge" where
  "db_Get i db = (case gm_get (db_charges db) i of None \<Rightarrow> Inl ErrChargeNotFound | Some c \<Rightarrow> Inr c)"

text \<open>A violated constraint of the table, by its name.\<close>

definition constraint_error :: "string \<Rightarrow> string \<Rightarrow> go_error" where
  "constraint_error what name = errorf_w what (errors_New name)"

text \<open>The row an \<^verbatim>\<open>INSERT\<close> writes and \<^verbatim>\<open>scanCharge\<close> reads back: the amounts of the terms go through
  minor units, and the columns that the statement does not name take their defaults.\<close>

definition stored_terms :: "coverage_terms \<Rightarrow> coverage_terms" where
  "stored_terms t = t\<lparr>ct_InsuredAmount := FromMinorUnits (ToMinorUnits (ct_InsuredAmount t)),
     ct_Coverages := map (\<lambda>c. c\<lparr>ocv_InsuredAmount := FromMinorUnits (ToMinorUnits (ocv_InsuredAmount c))\<rparr>) (ct_Coverages t)\<rparr>"

definition inserted_row :: "charge \<Rightarrow> charge" where
  "inserted_row c =
    c\<lparr>ch_Terms := stored_terms (ch_Terms c), ch_Status := StatusPending, ch_Attempts := 0,
      ch_ClaimedUntil := zero_time, ch_LastAttemptAt := zero_time, ch_LastFailureAt := zero_time,
      ch_FailureReason := NoChargeFailure, ch_LastError := '''', ch_DeclineCode := '''', ch_ProviderReference := '''',
      ch_ConfirmedAt := zero_time, ch_PolicyID := '''', ch_ActivationEventID := '''', ch_ActivatedAt := zero_time,
      ch_CoverageStart := zero_time, ch_CoverageEnd := zero_time, ch_ActivationPublishedAt := zero_time,
      ch_ActivationAttempts := 0, ch_ActivationNextAttemptAt := zero_time, ch_ActivationLastError := '''',
      ch_PaymentMethod := no_payment_method, ch_PaymentAttempt := 0, ch_ResumeCount := 0, ch_LastResumedBy := '''',
      ch_LastResumedAt := zero_time, ch_ResumeNote := '''', ch_UpdatedAt := ch_CreatedAt c\<rparr>"

definition key_taken :: "string \<Rightarrow> string \<Rightarrow> charge_db \<Rightarrow> bool" where
  "key_taken i key db \<longleftrightarrow> list_ex (\<lambda>(j, c). j \<noteq> i \<and> ch_IdempotencyKey c = key) (db_charges db)"

definition CreatePending :: "charge \<Rightarrow> charge_db \<Rightarrow> charge_db \<times> (go_error + charge \<times> bool)" where
  "CreatePending c db =
    (if ch_AmountMinor c \<le> 0 then
       (db, Inl (constraint_error (''insert the charge of '' @ ch_AcceptanceID c @ '': '') ''charge_attempt_amount_minor_check''))
     else if gm_get (db_charges db) (ch_AcceptanceID c) = None \<and> \<not> key_taken (ch_AcceptanceID c) (ch_IdempotencyKey c) db then
       (put_charge (inserted_row c) db, Inr (inserted_row c, True))
     else
       (case db_Get (ch_AcceptanceID c) db of Inl e \<Rightarrow> (db, Inl e) | Inr existing \<Rightarrow> (db, Inr (existing, False))))"

definition charge_due :: "time \<Rightarrow> charge \<Rightarrow> bool" where
  "charge_due now c \<longleftrightarrow>
    ch_Status c = StatusPending \<and> ch_NextAttemptAt c \<noteq> zero_time \<and> ch_NextAttemptAt c \<le> now \<or>
    ch_Status c = StatusInProgress \<and> ch_ClaimedUntil c < now"

definition activation_due :: "time \<Rightarrow> charge \<Rightarrow> bool" where
  "activation_due now c \<longleftrightarrow>
    ch_Status c = StatusConfirmed \<and> ch_ActivationPublishedAt c = zero_time \<and>
    ch_ActivationNextAttemptAt c \<noteq> zero_time \<and> ch_ActivationNextAttemptAt c \<le> now \<and>
    (ch_ClaimedUntil c = zero_time \<or> ch_ClaimedUntil c < now)"

text \<open>\<^verbatim>\<open>ORDER BY next_attempt_at NULLS FIRST, acceptance_id LIMIT\<close>: the zero value comes first.\<close>

definition db_ListDue :: "time \<Rightarrow> nat \<Rightarrow> charge_db \<Rightarrow> string list" where
  "db_ListDue now limit db =
    map ch_AcceptanceID (take limit (sort_key (\<lambda>c. (ch_NextAttemptAt c, ch_AcceptanceID c))
      (filter (charge_due now) (map snd (db_charges db)))))"

definition db_ListActivationsDue :: "time \<Rightarrow> nat \<Rightarrow> charge_db \<Rightarrow> string list" where
  "db_ListActivationsDue now limit db =
    map ch_AcceptanceID (take limit (sort_key (\<lambda>c. (ch_ActivationNextAttemptAt c, ch_AcceptanceID c))
      (filter (activation_due now) (map snd (db_charges db)))))"

text \<open>\<^verbatim>\<open>ORDER BY last_failure_at DESC NULLS LAST, acceptance_id LIMIT\<close>\<close>

definition db_ListExceptions :: "nat \<Rightarrow> charge_db \<Rightarrow> charge list" where
  "db_ListExceptions limit db =
    take limit (sort_key (\<lambda>c. (ch_LastFailureAt c = zero_time, - ch_LastFailureAt c, ch_AcceptanceID c))
      (filter (\<lambda>c. ch_Status c = StatusFailed) (map snd (db_charges db))))"

section \<open>The claim and its results\<close>

definition claimed_row :: "time \<Rightarrow> duration \<Rightarrow> charge \<Rightarrow> charge" where
  "claimed_row now lease c = c\<lparr>ch_Status := StatusInProgress, ch_ClaimedUntil := time_Add now lease,
     ch_LastAttemptAt := now, ch_UpdatedAt := now\<rparr>"

definition db_Claim :: "string \<Rightarrow> time \<Rightarrow> duration \<Rightarrow> charge_db \<Rightarrow> charge_db \<times> (go_error + charge option)" where
  "db_Claim i now lease db =
    (let (db', found) = update_one i (charge_due now) (claimed_row now lease) db in (db', Inr found))"

text \<open>\<^verbatim>\<open>status = 'in_progress' AND claimed_until = $2\<close>; a row in progress always has its lease.\<close>

definition charge_held :: "charge \<Rightarrow> charge \<Rightarrow> bool" where
  "charge_held c row \<longleftrightarrow> ch_Status row = StatusInProgress \<and> ch_ClaimedUntil row = ch_ClaimedUntil c"

definition confirmed_row :: "charge \<Rightarrow> time \<Rightarrow> outcome \<Rightarrow> charge \<Rightarrow> charge" where
  "confirmed_row c now out row =
    (let cc = Charge_Confirmed c now (oc_Reference out) in
     row\<lparr>ch_Status := StatusConfirmed, ch_ConfirmedAt := ch_ConfirmedAt cc,
       ch_ProviderReference := ch_ProviderReference cc, ch_NextAttemptAt := zero_time,
       ch_FailureReason := NoChargeFailure, ch_PolicyID := ch_PolicyID cc,
       ch_ActivationEventID := ch_ActivationEventID cc, ch_ActivatedAt := ch_ActivatedAt cc,
       ch_CoverageStart := ch_CoverageStart cc, ch_CoverageEnd := ch_CoverageEnd cc,
       ch_ActivationNextAttemptAt := ch_ActivationNextAttemptAt cc, ch_UpdatedAt := ch_ConfirmedAt cc\<rparr>)"

definition rescheduled_row :: "time \<Rightarrow> time \<Rightarrow> string \<Rightarrow> charge \<Rightarrow> charge" where
  "rescheduled_row now next cause row =
    row\<lparr>ch_Status := StatusPending, ch_Attempts := ch_Attempts row + 1, ch_NextAttemptAt := next,
      ch_ClaimedUntil := zero_time, ch_LastFailureAt := now, ch_LastError := cause, ch_UpdatedAt := now\<rparr>"

definition failed_row :: "time \<Rightarrow> failure_reason \<Rightarrow> string \<Rightarrow> charge \<Rightarrow> charge" where
  "failed_row now reason cause row =
    row\<lparr>ch_Status := StatusFailed, ch_Attempts := ch_Attempts row + 1, ch_NextAttemptAt := zero_time,
      ch_ClaimedUntil := zero_time, ch_FailureReason := ChargeFailureReasonFor reason, ch_LastFailureAt := now,
      ch_LastError := cause, ch_UpdatedAt := now\<rparr>"

definition db_Confirm :: "charge \<Rightarrow> time \<Rightarrow> outcome \<Rightarrow> charge_db \<Rightarrow> charge_db \<times> (go_error + charge)" where
  "db_Confirm c now out db = held_one (ch_AcceptanceID c) (charge_held c) (confirmed_row c now out) db"

definition db_Reschedule :: "charge \<Rightarrow> time \<Rightarrow> time \<Rightarrow> string \<Rightarrow> charge_db \<Rightarrow> charge_db \<times> (go_error + charge)" where
  "db_Reschedule c now next cause db =
    held_one (ch_AcceptanceID c) (charge_held c) (rescheduled_row now next cause) db"

definition db_Fail :: "charge \<Rightarrow> time \<Rightarrow> failure_reason \<Rightarrow> string \<Rightarrow> charge_db \<Rightarrow> charge_db \<times> (go_error + charge)" where
  "db_Fail c now reason cause db =
    held_one (ch_AcceptanceID c) (charge_held c) (failed_row now reason cause) db"

definition charge_store :: "(charge_db, charge) store" where
  "charge_store = \<lparr>st_Claim = db_Claim, st_Confirm = db_Confirm, st_Reschedule = db_Reschedule, st_Fail = db_Fail\<rparr>"

section \<open>The other statements\<close>

definition resumed_row :: "charge_resumption \<Rightarrow> charge \<Rightarrow> charge" where
  "resumed_row r c =
    c\<lparr>ch_Status := StatusPending, ch_Attempts := 0, ch_ClaimedUntil := zero_time,
      ch_FailureReason := NoChargeFailure,
      ch_NextAttemptAt := (if \<not> Captured (ch_PaymentMethod c) then zero_time else rs_At r),
      ch_WindowStartedAt := rs_At r, ch_WindowEndsAt := rs_WindowEndsAt r, ch_ResumeCount := ch_ResumeCount c + 1,
      ch_LastResumedBy := rs_By r, ch_LastResumedAt := rs_At r, ch_ResumeNote := rs_Note r,
      ch_UpdatedAt := rs_At r\<rparr>"

definition db_Resume :: "string \<Rightarrow> charge_resumption \<Rightarrow> charge_db \<Rightarrow> charge_db \<times> (go_error + charge)" where
  "db_Resume i r db =
    (case update_one i (\<lambda>c. ch_Status c = StatusFailed) (resumed_row r) db of
       (db', Some c) \<Rightarrow>
         (db'\<lparr>db_actions := db_actions db' @ [\<lparr>ia_AcceptanceID = i, ia_Action = IssuanceActionResume,
            ia_Actor = rs_By r, ia_Note = rs_Note r, ia_CreatedAt = rs_At r\<rparr>]\<rparr>, Inr c)
     | (db', None) \<Rightarrow> (case db_Get i db' of Inl e \<Rightarrow> (db', Inl e) | Inr _ \<Rightarrow> (db', Inl ErrChargeNotResumable)))"

definition db_ClaimActivation :: "string \<Rightarrow> time \<Rightarrow> duration \<Rightarrow> charge_db \<Rightarrow> charge_db \<times> charge option" where
  "db_ClaimActivation i now lease db =
    update_one i (activation_due now) (\<lambda>c. c\<lparr>ch_ClaimedUntil := time_Add now lease, ch_UpdatedAt := now\<rparr>) db"

definition activation_held :: "charge \<Rightarrow> charge \<Rightarrow> bool" where
  "activation_held c row \<longleftrightarrow> ch_Status row = StatusConfirmed \<and> ch_ActivationPublishedAt row = zero_time \<and>
    ch_ClaimedUntil row \<noteq> zero_time \<and> ch_ClaimedUntil row = ch_ClaimedUntil c"

definition db_MarkActivationPublished :: "charge \<Rightarrow> time \<Rightarrow> charge_db \<Rightarrow> charge_db \<times> (go_error + charge)" where
  "db_MarkActivationPublished c now db =
    held_one (ch_AcceptanceID c) (activation_held c)
      (\<lambda>row. row\<lparr>ch_ActivationPublishedAt := now, ch_ActivationNextAttemptAt := zero_time,
         ch_ClaimedUntil := zero_time, ch_UpdatedAt := now\<rparr>) db"

definition db_RescheduleActivation :: "charge \<Rightarrow> time \<Rightarrow> time \<Rightarrow> string \<Rightarrow> charge_db \<Rightarrow> charge_db \<times> (go_error + charge)" where
  "db_RescheduleActivation c now next cause db =
    held_one (ch_AcceptanceID c) (activation_held c)
      (\<lambda>row. row\<lparr>ch_ActivationAttempts := ch_ActivationAttempts row + 1, ch_ActivationNextAttemptAt := next,
         ch_ActivationLastError := cause, ch_ClaimedUntil := zero_time, ch_UpdatedAt := now\<rparr>) db"

text \<open>The row after \<^verbatim>\<open>AttachPaymentMethod\<close>; every right-hand side reads the row before it.\<close>

definition attached_row :: "string \<Rightarrow> payment_method \<Rightarrow> time \<Rightarrow> charge \<Rightarrow> charge" where
  "attached_row keyBase m t c =
    c\<lparr>ch_PaymentMethod := m\<lparr>pm_CapturedAt := t\<rparr>, ch_PaymentAttempt := ch_PaymentAttempt c + 1,
      ch_Status := StatusPending, ch_NextAttemptAt := t, ch_ClaimedUntil := zero_time,
      ch_Attempts := (if ch_Status c = StatusFailed then 0 else ch_Attempts c),
      ch_IdempotencyKey := (if ch_Status c = StatusFailed then keyBase @ ''-'' @ FormatInt (ch_PaymentAttempt c + 1)
                            else ch_IdempotencyKey c),
      ch_FailureReason := NoChargeFailure, ch_LastError := '''', ch_DeclineCode := '''',
      ch_ProviderReference := '''', ch_UpdatedAt := t\<rparr>"

definition attach_where :: "charge \<Rightarrow> bool" where
  "attach_where c \<longleftrightarrow> ch_Status c = StatusPending \<and> ch_Attempts c = 0 \<or>
    ch_Status c = StatusFailed \<and> ch_FailureReason c = ChargePaymentRejected"

definition db_AttachPaymentMethod :: "string \<Rightarrow> payment_method \<Rightarrow> time \<Rightarrow> charge_db \<Rightarrow> charge_db \<times> (go_error + charge)" where
  "db_AttachPaymentMethod i m now db =
    (let keyBase = charge_key i in
     case gm_get (db_charges db) i of
       None \<Rightarrow> (db, Inl ErrChargeNotFound)
     | Some c \<Rightarrow>
        if \<not> attach_where c then (db, Inl ErrChargeNotPayable)
        else if key_taken i (ch_IdempotencyKey (attached_row keyBase m now c)) db then
          (db, Inl (constraint_error (''attach the payment method of '' @ i @ '': '') ''charge_attempt_idempotency_key_key''))
        else (put_charge (attached_row keyBase m now c) db, Inr (attached_row keyBase m now c)))"

definition db_RecordDecline :: "string \<Rightarrow> string \<Rightarrow> string \<Rightarrow> charge_db \<Rightarrow> charge_db" where
  "db_RecordDecline i code reference db =
    (if code = '''' \<and> reference = '''' then db
     else fst (update_one i
       (\<lambda>c. ch_Status c = StatusFailed \<and> ch_FailureReason c = ChargePaymentRejected)
       (\<lambda>c. c\<lparr>ch_DeclineCode := (if code = '''' then ch_DeclineCode c else code),
              ch_ProviderReference := (if reference = '''' then ch_ProviderReference c else reference)\<rparr>) db))"

definition expire_where :: "time \<Rightarrow> charge \<Rightarrow> bool" where
  "expire_where now c \<longleftrightarrow> ch_Status c = StatusPending \<and> ch_NextAttemptAt c = zero_time \<and>
    ch_WindowEndsAt c \<noteq> zero_time \<and> ch_WindowEndsAt c \<le> now"

definition expired_row :: "time \<Rightarrow> charge \<Rightarrow> charge" where
  "expired_row now c = c\<lparr>ch_Status := StatusFailed, ch_FailureReason := ChargePaymentMethodMissing,
     ch_LastFailureAt := now, ch_NextAttemptAt := zero_time,
     ch_LastError := ''the customer did not hand over a payment method before the retry window ended'',
     ch_UpdatedAt := now\<rparr>"

definition db_ExpireWithoutPaymentMethod :: "time \<Rightarrow> charge_db \<Rightarrow> charge_db \<times> string list" where
  "db_ExpireWithoutPaymentMethod now db =
    (db\<lparr>db_charges := map (\<lambda>(i, c). (i, if expire_where now c then expired_row now c else c)) (db_charges db)\<rparr>,
     map (ch_AcceptanceID \<circ> snd) (filter (\<lambda>(i, c). expire_where now c) (db_charges db)))"

section \<open>The statements on one row\<close>

lemma gm_get_put_charge [simp]:
  "gm_get (db_charges (put_charge c db)) = (gm_get (db_charges db))(ch_AcceptanceID c \<mapsto> c)"
  "db_actions (put_charge c db) = db_actions db"
  by (simp_all add: put_charge_def)

lemma update_one_Some:
  "gm_get (db_charges db) i = Some c \<Longrightarrow> cond c \<Longrightarrow> update_one i cond f db = (put_charge (f c) db, Some (f c))"
  by (simp add: update_one_def)

lemma update_one_None:
  "\<not> (\<exists>c. gm_get (db_charges db) i = Some c \<and> cond c) \<Longrightarrow> update_one i cond f db = (db, None)"
  by (auto simp: update_one_def split: option.split)

lemma update_one_cases:
  obtains c where "gm_get (db_charges db) i = Some c" and "cond c" and "update_one i cond f db = (put_charge (f c) db, Some (f c))"
  | "\<not> (\<exists>c. gm_get (db_charges db) i = Some c \<and> cond c)" and "update_one i cond f db = (db, None)"
  using update_one_Some update_one_None by metis

lemma held_one_Some:
  "gm_get (db_charges db) i = Some c \<Longrightarrow> cond c \<Longrightarrow> held_one i cond f db = (put_charge (f c) db, Inr (f c))"
  by (simp add: held_one_def update_one_Some)

lemma held_one_None:
  "\<not> (\<exists>c. gm_get (db_charges db) i = Some c \<and> cond c) \<Longrightarrow> held_one i cond f db = (db, Inl ErrClaimLost)"
  by (simp add: held_one_def update_one_None)

lemma fst_held_one: "fst (held_one i cond f db) = fst (update_one i cond f db)"
  by (simp add: held_one_def split: prod.split option.split)

text \<open>One row per acceptance, under its id.\<close>

definition charge_inv :: "charge_db \<Rightarrow> bool" where
  "charge_inv db \<longleftrightarrow> gm_ok (db_charges db) \<and>
    (\<forall>i c. gm_get (db_charges db) i = Some c \<longrightarrow> ch_AcceptanceID c = i)"

lemma charge_invD: "charge_inv db \<Longrightarrow> gm_get (db_charges db) i = Some c \<Longrightarrow> ch_AcceptanceID c = i"
  by (simp add: charge_inv_def)

lemma charge_inv_empty [simp]: "charge_inv empty_charge_db"
  by (simp add: charge_inv_def empty_charge_db_def)

lemma charge_inv_put [simp, inv_intros]: "charge_inv db \<Longrightarrow> charge_inv (put_charge c db)"
  by (auto simp: charge_inv_def) (simp add: put_charge_def)

lemma charge_inv_update_one [inv_intros]: "charge_inv db \<Longrightarrow> charge_inv (fst (update_one i cond f db))"
  by (rule update_one_cases [of db i cond f]) simp_all

lemma charge_inv_held_one [inv_intros]: "charge_inv db \<Longrightarrow> charge_inv (fst (held_one i cond f db))"
  by (simp add: fst_held_one charge_inv_update_one)

lemma charge_inv_actions [simp]: "charge_inv (db\<lparr>db_actions := as\<rparr>) = charge_inv db"
  by (simp add: charge_inv_def)

section \<open>The contract of the idempotent mechanism\<close>

definition view_charge :: "charge_db \<Rightarrow> string \<Rightarrow> attempt option" where
  "view_charge db i = map_option Charge_AttemptState (gm_get (db_charges db) i)"

text \<open>A pending charge without due date waits for its payment method: it is not taken.\<close>

definition charge_takes :: "time \<Rightarrow> attempt \<Rightarrow> bool" where
  "charge_takes now a \<longleftrightarrow>
    at_Status a = StatusPending \<and> at_NextAttemptAt a \<noteq> zero_time \<and> at_NextAttemptAt a \<le> now \<or>
    at_Status a = StatusInProgress \<and> at_ClaimedUntil a < now"

lemma Charge_AttemptState_sel [simp]:
  "at_ID (Charge_AttemptState c) = ch_AcceptanceID c" "at_Key (Charge_AttemptState c) = ch_IdempotencyKey c"
  "at_Status (Charge_AttemptState c) = ch_Status c" "at_FailedAttempts (Charge_AttemptState c) = ch_Attempts c"
  "at_WindowEndsAt (Charge_AttemptState c) = ch_WindowEndsAt c"
  "at_NextAttemptAt (Charge_AttemptState c) = ch_NextAttemptAt c"
  "at_ClaimedUntil (Charge_AttemptState c) = ch_ClaimedUntil c"
  by (simp_all add: Charge_AttemptState_def)

lemma charge_takes_due: "charge_takes now (Charge_AttemptState c) = charge_due now c"
  by (simp add: charge_takes_def charge_due_def)

lemma holds_claim_held: "holds_claim (Charge_AttemptState row) (Charge_AttemptState c) = charge_held c row"
  by (simp add: holds_claim_def charge_held_def)

lemma view_charge_put: "view_charge (put_charge c db) = (view_charge db)(ch_AcceptanceID c \<mapsto> Charge_AttemptState c)"
  by (rule ext) (simp add: view_charge_def)

lemma result_row_sel [simp]:
  "ch_AcceptanceID (claimed_row now lease c) = ch_AcceptanceID c"
  "ch_IdempotencyKey (claimed_row now lease c) = ch_IdempotencyKey c"
  "ch_Status (claimed_row now lease c) = StatusInProgress"
  "ch_AcceptanceID (confirmed_row r now out c) = ch_AcceptanceID c"
  "ch_IdempotencyKey (confirmed_row r now out c) = ch_IdempotencyKey c"
  "ch_Status (confirmed_row r now out c) = StatusConfirmed"
  "ch_AcceptanceID (rescheduled_row now next cause c) = ch_AcceptanceID c"
  "ch_IdempotencyKey (rescheduled_row now next cause c) = ch_IdempotencyKey c"
  "ch_Status (rescheduled_row now next cause c) = StatusPending"
  "ch_NextAttemptAt (rescheduled_row now next cause c) = next"
  "ch_AcceptanceID (failed_row now reason cause c) = ch_AcceptanceID c"
  "ch_IdempotencyKey (failed_row now reason cause c) = ch_IdempotencyKey c"
  "ch_Status (failed_row now reason cause c) = StatusFailed"
  by (simp_all add: claimed_row_def confirmed_row_def rescheduled_row_def failed_row_def Let_def)

text \<open>A result recorded while the claim is held, and one that arrives too late.\<close>

lemma held_one_view:
  assumes inv: "charge_inv db" and a: "view_charge db (ch_AcceptanceID r) = Some a" "holds_claim a (Charge_AttemptState r)"
    and f: "\<And>c. ch_AcceptanceID (f c) = ch_AcceptanceID c" "\<And>c. ch_IdempotencyKey (f c) = ch_IdempotencyKey c"
  shows "\<exists>db' c. held_one (ch_AcceptanceID r) (charge_held r) f db = (db', Inr (f c)) \<and> charge_inv db' \<and>
    view_charge db' = (view_charge db)(at_ID a \<mapsto> Charge_AttemptState (f c)) \<and> at_Key a = ch_IdempotencyKey (f c) \<and>
    a = Charge_AttemptState c"
proof -
  from a(1) obtain c where c: "gm_get (db_charges db) (ch_AcceptanceID r) = Some c" "a = Charge_AttemptState c"
    by (auto simp: view_charge_def)
  with a(2) have "charge_held r c" by (simp add: holds_claim_held)
  with c inv show ?thesis by (auto simp: held_one_Some [OF c(1)] view_charge_put f)
qed

lemma held_one_lost:
  assumes "\<not> (\<exists>a. view_charge db (ch_AcceptanceID r) = Some a \<and> holds_claim a (Charge_AttemptState r))"
  shows "held_one (ch_AcceptanceID r) (charge_held r) f db = (db, Inl ErrClaimLost)"
  by (rule held_one_None) (use assms in \<open>auto simp: view_charge_def holds_claim_held\<close>)

interpretation charges: attempt_store charge_store view_charge Charge_AttemptState charge_inv "\<lambda>_ _. True" charge_takes
proof
  fix now a
  assume "charge_takes now a"
  then show "claimable now a" by (auto simp: charge_takes_def claimable_def)
next
  fix s i a
  assume "charge_inv s" "view_charge s i = Some a"
  then show "at_ID a = i" by (auto simp: view_charge_def charge_invD)
next
  fix s i now lease s' r
  assume inv: "charge_inv s" and "st_Claim charge_store i now lease s = (s', Inr (Some r))"
  then obtain c where c: "gm_get (db_charges s) i = Some c" "charge_due now c"
    "r = claimed_row now lease c"
    "s' = put_charge r s"
    by (auto simp: charge_store_def db_Claim_def update_one_def Let_def split: option.splits if_splits)
  moreover have "Charge_AttemptState r = claim_of now lease (Charge_AttemptState c)"
    by (simp add: c(3) claimed_row_def claim_of_def Charge_AttemptState_def)
  ultimately show "\<exists>a. view_charge s i = Some a \<and> charge_takes now a \<and> True \<and> Charge_AttemptState r = claim_of now lease a \<and>
      view_charge s' = (view_charge s)(i \<mapsto> claim_of now lease a)"
    using charge_invD [OF inv c(1)]
    by (intro exI [of _ "Charge_AttemptState c"]) (simp add: view_charge_put charge_takes_due claimed_row_def, simp add: view_charge_def)
next
  fix s i now lease s'
  assume "st_Claim charge_store i now lease s = (s', Inr None)"
  then show "s' = s \<and> (case view_charge s i of None \<Rightarrow> True | Some a \<Rightarrow> \<not> charge_takes now a)"
    by (auto simp: charge_store_def db_Claim_def update_one_def view_charge_def charge_takes_due Let_def
        split: option.splits if_splits)
next
  fix s i now lease s' e
  show "st_Claim charge_store i now lease s \<noteq> (s', Inl e)"
    by (simp add: charge_store_def db_Claim_def Let_def split: prod.split)
next
  fix s i now lease
  assume "charge_inv s"
  then show "charge_inv (fst (st_Claim charge_store i now lease s))"
    by (simp add: charge_store_def db_Claim_def Let_def charge_inv_update_one case_prod_beta)
next
  fix s r a now out
  assume "charge_inv s" "view_charge s (at_ID (Charge_AttemptState r)) = Some a" "holds_claim a (Charge_AttemptState r)"
  from held_one_view [OF this(1) this(2) [simplified] this(3), of "confirmed_row r now out"]
  show "\<exists>s' r' a'. st_Confirm charge_store r now out s = (s', Inr r') \<and> charge_inv s' \<and>
      view_charge s' = (view_charge s)(at_ID a \<mapsto> a') \<and> at_Status a' = StatusConfirmed \<and> at_Key a' = at_Key a"
    by (auto simp: charge_store_def db_Confirm_def) (metis Charge_AttemptState_sel result_row_sel)
next
  fix s r now out
  assume "\<not> (\<exists>a. view_charge s (at_ID (Charge_AttemptState r)) = Some a \<and> holds_claim a (Charge_AttemptState r))"
  then show "st_Confirm charge_store r now out s = (s, Inl ErrClaimLost)"
    by (simp add: charge_store_def db_Confirm_def held_one_lost)
next
  fix s r a now "next" cause
  assume "charge_inv s" "view_charge s (at_ID (Charge_AttemptState r)) = Some a" "holds_claim a (Charge_AttemptState r)"
  from held_one_view [OF this(1) this(2) [simplified] this(3), of "rescheduled_row now next cause"]
  show "\<exists>s' r' a'. st_Reschedule charge_store r now next cause s = (s', Inr r') \<and> charge_inv s' \<and>
      view_charge s' = (view_charge s)(at_ID a \<mapsto> a') \<and> at_Key a' = at_Key a \<and>
      (at_Status a' = StatusPending \<and> at_NextAttemptAt a' = next \<or> at_Status a' = StatusFailed)"
    by (auto simp: charge_store_def db_Reschedule_def) (metis Charge_AttemptState_sel result_row_sel)
next
  fix s r now "next" cause
  assume "\<not> (\<exists>a. view_charge s (at_ID (Charge_AttemptState r)) = Some a \<and> holds_claim a (Charge_AttemptState r))"
  then show "st_Reschedule charge_store r now next cause s = (s, Inl ErrClaimLost)"
    by (simp add: charge_store_def db_Reschedule_def held_one_lost)
next
  fix s r a now reason cause
  assume "charge_inv s" "view_charge s (at_ID (Charge_AttemptState r)) = Some a" "holds_claim a (Charge_AttemptState r)"
  from held_one_view [OF this(1) this(2) [simplified] this(3), of "failed_row now reason cause"]
  show "\<exists>s' r' a'. st_Fail charge_store r now reason cause s = (s', Inr r') \<and> charge_inv s' \<and>
      view_charge s' = (view_charge s)(at_ID a \<mapsto> a') \<and> at_Status a' = StatusFailed \<and> at_Key a' = at_Key a"
    by (auto simp: charge_store_def db_Fail_def) (metis Charge_AttemptState_sel result_row_sel)
next
  fix s r now reason cause
  assume "\<not> (\<exists>a. view_charge s (at_ID (Charge_AttemptState r)) = Some a \<and> holds_claim a (Charge_AttemptState r))"
  then show "st_Fail charge_store r now reason cause s = (s, Inl ErrClaimLost)"
    by (simp add: charge_store_def db_Fail_def held_one_lost)
qed

section \<open>What can be activated\<close>

text \<open>What a charge needs for its event to be valid whenever it is confirmed: nothing that the charge
  itself changes.\<close>

definition activatable :: "charge \<Rightarrow> bool" where
  "activatable c \<longleftrightarrow> ch_CustomerID c \<noteq> '''' \<and> ValidPolicyID (PolicyIDFor (ch_AcceptanceID c)) \<and>
    ap_FullName (ch_Holder c) \<noteq> '''' \<and> ap_Email (ch_Holder c) \<noteq> '''' \<and> 0 < FromMinorUnits (ch_AmountMinor c) \<and>
    ch_Currency c \<noteq> '''' \<and> ct_Coverages (ch_Terms c) \<noteq> [] \<and> 1 \<le> ct_TermMonths (ch_Terms c)"

lemma ActivationEventIDFor_nonempty [simp]: "ActivationEventIDFor i \<noteq> []"
  by (simp add: ActivationEventIDFor_def)

lemma Validate_confirmed:
  "CoverageActivated_Validate (ActivationEvent (Charge_Confirmed c t ref)) = None \<longleftrightarrow> t \<noteq> 0 \<and> activatable c"
  by (auto simp: CoverageActivated_Validate_def ActivationEvent_def Charge_Confirmed_def activatable_def Let_def not_le)

lemma ValidateActivation_iff: "ValidateActivation c t = None \<longleftrightarrow> t \<noteq> 0 \<and> activatable c"
  unfolding ValidateActivation_def by (rule Validate_confirmed)

text \<open>A charge as \<^verbatim>\<open>NewCharge\<close> and the starter hand it to the store.\<close>

definition fresh_charge :: "charge \<Rightarrow> bool" where
  "fresh_charge c \<longleftrightarrow> ch_NextAttemptAt c = zero_time \<and> ch_IdempotencyKey c = charge_key (ch_AcceptanceID c) \<and> activatable c"

lemma NewCharge_fresh: "ValidateActivation (NewCharge a offer terms now w) t = None \<Longrightarrow> fresh_charge (NewCharge a offer terms now w)"
  by (simp add: fresh_charge_def ValidateActivation_iff) (simp add: NewCharge_def)

section \<open>The payment method: the statement and the rule of the domain\<close>

lemma attach_where_takes: "attach_where c = TakesPaymentMethod c"
  by (auto simp: attach_where_def TakesPaymentMethod_def split: status.split)

text \<open>The row the statement writes is the charge of the domain, with everything that the previous
  method left behind cleared.\<close>

lemma attached_row_domain:
  assumes "TakesPaymentMethod c" and "ch_Status c = StatusFailed \<Longrightarrow> 1 \<le> ch_PaymentAttempt c"
  shows "attached_row (charge_key (ch_AcceptanceID c)) m t c =
    (WithPaymentMethod c m t)\<lparr>ch_ClaimedUntil := zero_time, ch_FailureReason := NoChargeFailure, ch_LastError := '''',
       ch_DeclineCode := '''', ch_ProviderReference := ''''\<rparr>"
  using assms by (cases "ch_Status c") (simp_all add: attached_row_def WithPaymentMethod_def TakesPaymentMethod_def ChargeKeyFor_def Let_def)

text \<open>The confirmation the statement writes is the one of the domain.\<close>

lemma confirmed_row_domain:
  assumes "ch_AcceptanceID c = ch_AcceptanceID row" and "ch_CoverageNotBefore c = ch_CoverageNotBefore row"
    and "ch_Terms c = ch_Terms row"
  shows "confirmed_row c now out row = Charge_Confirmed row now (oc_Reference out)"
  using assms by (simp add: confirmed_row_def Charge_Confirmed_def Let_def)

end
