(* ===== verification/Billing.thy ===== *)
theory Billing
  imports Charges Security
begin

text \<open>
  \<^verbatim>\<open>services/origination/internal/billing\<close>: what the insured and the analysts do with a premium
  charge (\<^verbatim>\<open>service.go\<close>) and the worker that charges the due premiums and publishes the coverage
  activation of every confirmed charge (\<^verbatim>\<open>worker.go\<close>), with the bridge to the gateway
  (\<^verbatim>\<open>adapters/payments\<close>). Logs, metrics and spans are left out; the failures of the database
  are not modelled. The instants that the code reads from the clock are arguments.
\<close>

section \<open>The service\<close>

datatype billing_error = BillingAuth auth_error | BillingErr go_error

definition DefaultExceptionsLimit :: int where "DefaultExceptionsLimit = 50"
definition MaxExceptionsLimit :: int where "MaxExceptionsLimit = 200"

definition ErrInvalidNote :: go_error where
  "ErrInvalidNote = errors_New ''a note of 1 to 500 characters is required to resume a charge''"

definition ErrInvalidLimit :: go_error where
  "ErrInvalidLimit = errors_New ''limit must be between 1 and 200''"

definition ErrInvalidPaymentMethod :: go_error where
  "ErrInvalidPaymentMethod = errors_New ''the payment method is not valid''"

definition billing_Get :: "sec_context \<Rightarrow> string \<Rightarrow> charge_db \<Rightarrow> billing_error + charge" where
  "billing_Get ctx i db =
    (case db_Get i db of Inl e \<Rightarrow> Inl (BillingErr e)
     | Inr c \<Rightarrow>
        (case RequireOwnerOrRole ctx (ch_CustomerID c) [RoleAdvisor, RoleOperations] of
           Some e \<Rightarrow> Inl (BillingAuth e) | None \<Rightarrow> Inr c))"

definition billing_ListExceptions :: "sec_context \<Rightarrow> int \<Rightarrow> charge_db \<Rightarrow> billing_error + charge list" where
  "billing_ListExceptions ctx limit db =
    (case RequireAnyRole ctx [RoleOperations] of Some e \<Rightarrow> Inl (BillingAuth e)
     | None \<Rightarrow>
        if limit < 1 \<or> limit > MaxExceptionsLimit then Inl (BillingErr ErrInvalidLimit)
        else Inr (db_ListExceptions (nat limit) db))"

definition cleanNote :: "string \<Rightarrow> go_error + string" where
  "cleanNote note =
    (let note = TrimSpace note in
     if note = '''' \<or> rune_count note > MaxResumeNoteLength then Inl ErrInvalidNote else Inr note)"

definition caller_subject :: "sec_context \<Rightarrow> string" where
  "caller_subject ctx = (case ctx of None \<Rightarrow> '''' | Some c \<Rightarrow> sc_Subject c)"

text \<open>\<^verbatim>\<open>resume\<close>: neither of the two errors of the repository gets a longer text.\<close>

definition billing_resume ::
  "retry_policy \<Rightarrow> sec_context \<Rightarrow> string \<Rightarrow> string \<Rightarrow> time \<Rightarrow> charge_db \<Rightarrow> charge_db \<times> (billing_error + charge)" where
  "billing_resume policy ctx i note now db =
    (case db_Resume i \<lparr>rs_By = caller_subject ctx, rs_Note = note, rs_At = now, rs_WindowEndsAt = WindowEnd policy now\<rparr> db of
       (db', Inl e) \<Rightarrow> (db', Inl (BillingErr e))
     | (db', Inr c) \<Rightarrow> (db', Inr c))"

definition billing_Resume ::
  "retry_policy \<Rightarrow> sec_context \<Rightarrow> string \<Rightarrow> string \<Rightarrow> time \<Rightarrow> charge_db \<Rightarrow> charge_db \<times> (billing_error + charge)" where
  "billing_Resume policy ctx i note now db =
    (case RequireAnyRole ctx [RoleOperations] of Some e \<Rightarrow> (db, Inl (BillingAuth e))
     | None \<Rightarrow>
        (case cleanNote note of Inl e \<Rightarrow> (db, Inl (BillingErr e))
         | Inr note' \<Rightarrow> billing_resume policy ctx i note' now db))"

subsection \<open>The payment method\<close>

definition allDigits :: "string \<Rightarrow> bool" where
  "allDigits s = list_all is_digit s"

definition fourDigits :: "string \<Rightarrow> bool" where
  "fourDigits s \<longleftrightarrow> length s = 4 \<and> allDigits s"

definition looksLikeACardNumber :: "string \<Rightarrow> bool" where
  "looksLikeACardNumber s = (if length s < 13 \<or> length s > 19 then False else allDigits s)"

definition validToken :: "string \<Rightarrow> bool" where
  "validToken s =
    (if length s < 8 \<or> length s > 128 then False
     else list_all (\<lambda>r. is_lower r \<or> is_upper r \<or> is_digit r \<or> r = CHR ''_'' \<or> r = CHR ''-'') s)"

definition invalid_method :: "string \<Rightarrow> go_error" where
  "invalid_method why = GoError (err_chain ErrInvalidPaymentMethod) (err_text ErrInvalidPaymentMethod @ '': '' @ why)"

text \<open>The instalments are checked after the method, whatever its kind.\<close>

definition validatePaymentMethod :: "payment_method \<Rightarrow> go_error option" where
  "validatePaymentMethod m =
    (let installments =
       (if pm_Installments m < 1 \<or> pm_Installments m > MaxInstallments
        then Some (invalid_method (''instalments must be between 1 and '' @ FormatInt MaxInstallments)) else None)
     in if pm_Kind m = PaymentCard then
          if pm_Token m = '''' \<or> \<not> validToken (pm_Token m) then Some (invalid_method ''a card needs its gateway token'')
          else if looksLikeACardNumber (pm_Token m) then
            Some (invalid_method ''the token looks like a card number; the card is tokenised by the browser, never sent here'')
          else if pm_Last4 m \<noteq> '''' \<and> \<not> fourDigits (pm_Last4 m) then
            Some (invalid_method ''last4 must be exactly four digits'')
          else installments
        else if pm_Kind m = PaymentPSE then
          if pm_BankCode m = '''' then Some (invalid_method ''PSE needs the bank'')
          else if \<not> ValidPayerType (pm_PayerType m) then
            Some (invalid_method ''PSE needs the payer type, natural or legal'')
          else installments
        else Some (invalid_method ''the method must be card or pse''))"

definition billing_AttachPaymentMethod ::
  "sec_context \<Rightarrow> string \<Rightarrow> payment_method \<Rightarrow> time \<Rightarrow> time \<Rightarrow> charge_db \<Rightarrow> charge_db \<times> (billing_error + charge)" where
  "billing_AttachPaymentMethod ctx i m now1 now2 db =
    (case db_Get i db of Inl e \<Rightarrow> (db, Inl (BillingErr e))
     | Inr current \<Rightarrow>
        (case RequireOwnerOrRole ctx (ch_CustomerID current) [] of Some e \<Rightarrow> (db, Inl (BillingAuth e))
         | None \<Rightarrow>
            (case validatePaymentMethod m of Some e \<Rightarrow> (db, Inl (BillingErr e))
             | None \<Rightarrow>
                if IsRenewalCharge i \<and> \<not> time_IsZero (ch_WindowEndsAt current) \<and> \<not> now1 < ch_WindowEndsAt current
                then (db, Inl (BillingErr ErrChargeNotPayable))
                else (case db_AttachPaymentMethod i m now2 db of
                        (db', Inl e) \<Rightarrow>
                          (db', Inl (BillingErr (if errors_Is e ErrChargeNotFound \<or> errors_Is e ErrChargeNotPayable then e
                             else errorf_w (''could not attach the payment method of acceptance '' @ i @ '': '') e)))
                      | (db', Inr c) \<Rightarrow> (db', Inr c)))))"

section \<open>The start of an issuance\<close>

text \<open>\<^verbatim>\<open>Starter.Start\<close>; \<open>terms\<close> is the \<^verbatim>\<open>TermsFunc\<close> the starter was built with.\<close>

definition Starter_Start ::
  "(orig_offer \<Rightarrow> go_error + coverage_terms) \<Rightarrow> retry_policy \<Rightarrow> orig_acceptance \<Rightarrow> orig_offer \<Rightarrow> time \<Rightarrow> charge_db \<Rightarrow>
     charge_db \<times> go_error option" where
  "Starter_Start terms policy a offer now db =
    (case terms offer of
       Inl e \<Rightarrow> (db, Some (errorf_w (''could not get the coverage terms of offer '' @ of_ID offer @ '': '') e))
     | Inr tms \<Rightarrow>
        (let c = NewCharge a offer tms now (WindowEnd policy now) in
         if ch_AmountMinor c \<le> 0 then
           (db, Some (errors_New (''the offer '' @ of_ID offer @ '' has no premium to charge'')))
         else (case ValidateActivation c now of
                 Some e \<Rightarrow> (db, Some (errorf_w (''the premium of acceptance '' @ ac_ID a @
                   '' is not charged because its coverage could not be activated: '') e))
               | None \<Rightarrow>
                  (case CreatePending c db of
                     (db', Inl e) \<Rightarrow> (db', Some (errorf_w (''could not store the premium charge of acceptance '' @ ac_ID a @ '': '') e))
                   | (db', Inr _) \<Rightarrow> (db', None)))))"

section \<open>The bridge to the gateway\<close>

definition charge_request :: "charge \<Rightarrow> payments_ChargeRequest" where
  "charge_request c = \<lparr>rqc_IdempotencyKey = ch_IdempotencyKey c, rqc_Reference = ch_OfferID c,
     rqc_CustomerID = ch_CustomerID c, rqc_AmountMinor = ch_AmountMinor c, rqc_Currency = ch_Currency c,
     rqc_PaymentToken = pm_Token (ch_PaymentMethod c)\<rparr>"

definition Gateway_Charge :: "transport \<Rightarrow> charge \<Rightarrow> time \<Rightarrow> gateway \<Rightarrow> gateway \<times> (client_error + string)" where
  "Gateway_Charge tr c now g =
    (case Client_Charge tr (charge_request c) now g of
       (g', Inl e) \<Rightarrow> (g', Inl e) | (g', Inr ch) \<Rightarrow> (g', Inr (pc_ID ch)))"

section \<open>The worker\<close>

record billing_config =
  bc_PollInterval :: duration
  bc_ClaimLease :: duration
  bc_Retry :: retry_policy

definition billing_DefaultPollInterval :: duration where "billing_DefaultPollInterval = time_Second"
definition billing_DefaultClaimLease :: duration where "billing_DefaultClaimLease = 30 * time_Second"
definition billing_batchSize :: nat where "billing_batchSize = 50"

definition withDefaults_billing :: "billing_config \<Rightarrow> billing_config" where
  "withDefaults_billing c =
    c\<lparr>bc_PollInterval := (if bc_PollInterval c \<le> 0 then billing_DefaultPollInterval else bc_PollInterval c),
      bc_ClaimLease := (if bc_ClaimLease c \<le> 0 then billing_DefaultClaimLease else bc_ClaimLease c),
      bc_Retry := (if rp_Base (bc_Retry c) \<le> 0 then DefaultRetryPolicy else bc_Retry c)\<rparr>"

text \<open>
  The state the worker acts on: the table, the gateway, the activations handed to the consumers
  in the order they were, and, for each acceptance, how many times its calls moved money (a count
  that no part of the program keeps). \<open>bs_flight\<close> holds the charges that workers have claimed and
  not recorded, each with the last answer of the gateway, \<open>bs_held\<close> the confirmed charges whose
  activation a worker is publishing, and \<open>bs_now\<close> the clock.
\<close>

type_synonym charge_flight = "charge \<times> (client_error + string) option"

record billing_sys =
  bs_db :: charge_db
  bs_gw :: gateway
  bs_made :: "string \<Rightarrow> int"
  bs_published :: "coverage_activated list"
  bs_flight :: "charge_flight list"
  bs_held :: "charge list"
  bs_now :: time

definition on_db :: "(charge_db \<Rightarrow> charge_db \<times> 'a) \<Rightarrow> billing_sys \<Rightarrow> billing_sys \<times> 'a" where
  "on_db f y = (let (db', r) = f (bs_db y) in (y\<lparr>bs_db := db'\<rparr>, r))"

text \<open>One call for a charge, counted when it moves money under the key of the charge.\<close>

definition took_money :: "charge \<Rightarrow> gateway \<Rightarrow> gateway \<Rightarrow> bool" where
  "took_money c g g' \<longleftrightarrow>
    realCharges g' (TrimSpace (ch_IdempotencyKey c)) \<noteq> realCharges g (TrimSpace (ch_IdempotencyKey c))"

definition call_gateway :: "transport \<Rightarrow> charge \<Rightarrow> time \<Rightarrow> billing_sys \<Rightarrow> billing_sys \<times> (client_error + string)" where
  "call_gateway tr c now y =
    (let (g', ans) = Gateway_Charge tr c now (bs_gw y) in
     (y\<lparr>bs_gw := g', bs_made := (bs_made y)(ch_AcceptanceID c := bs_made y (ch_AcceptanceID c) +
         (if took_money c (bs_gw y) g' then 1 else 0))\<rparr>, ans))"

definition exec_result :: "client_error + string \<Rightarrow> go_error + outcome" where
  "exec_result ans = (case ans of Inl e \<Rightarrow> Inl (client_go_error e) | Inr ref \<Rightarrow> Inr \<lparr>oc_Reference = ref\<rparr>)"

definition sys_store :: "(billing_sys, charge) store" where
  "sys_store = \<lparr>st_Claim = (\<lambda>i now lease. on_db (db_Claim i now lease)),
     st_Confirm = (\<lambda>c now out. on_db (db_Confirm c now out)),
     st_Reschedule = (\<lambda>c now next cause. on_db (db_Reschedule c now next cause)),
     st_Fail = (\<lambda>c now reason cause. on_db (db_Fail c now reason cause))\<rparr>"

definition sys_runner :: "billing_config \<Rightarrow> (billing_sys, charge) runner" where
  "sys_runner cfg = \<lparr>rn_store = sys_store, rn_state = Charge_AttemptState, rn_policy = bc_Retry cfg,
     rn_lease = bc_ClaimLease cfg\<rparr>"

text \<open>The loop over the consumers stops at the first that fails; \<open>answers\<close> are their results.\<close>

fun receive_all :: "go_error option list \<Rightarrow> go_error option" where
  "receive_all [] = None"
| "receive_all (None # rest) = receive_all rest"
| "receive_all (Some e # rest) = Some (errorf_w ''a coverage activation consumer failed: '' e)"

text \<open>\<^verbatim>\<open>publish\<close>: the event reaches every consumer up to the one that fails.\<close>

definition worker_publish :: "billing_config \<Rightarrow> go_error option list \<Rightarrow> time \<Rightarrow> charge \<Rightarrow> billing_sys \<Rightarrow> billing_sys" where
  "worker_publish cfg answers now c y =
    (let ev = ActivationEvent c;
         y = y\<lparr>bs_published := bs_published y @ [ev]\<rparr>
     in case receive_all answers of
          None \<Rightarrow> fst (on_db (db_MarkActivationPublished c now) y)
        | Some perr \<Rightarrow>
            (let policy = \<lparr>rp_Base = rp_Base (bc_Retry cfg), rp_Max = rp_Max (bc_Retry cfg), rp_Window = 0\<rparr>;
                 next = time_Add now (Backoff policy (ch_ActivationAttempts c + 1))
             in fst (on_db (db_RescheduleActivation c now next (err_text perr)) y)))"

text \<open>\<^verbatim>\<open>recordDecline\<close>: \<^verbatim>\<open>errors.As\<close> finds the typed rejection of the call.\<close>

definition worker_recordDecline :: "string \<Rightarrow> client_error + string \<Rightarrow> billing_sys \<Rightarrow> billing_sys" where
  "worker_recordDecline i callErr y =
    (case callErr of
       Inl (Rejected e) \<Rightarrow> y\<lparr>bs_db := db_RecordDecline i (re_DeclineCode e) (re_Reference e) (bs_db y)\<rparr>
     | _ \<Rightarrow> y)"

text \<open>One attempt of a charge: what the network does to the call, the results of the consumers
  and the instants at which it claims, calls, records and publishes.\<close>

record charge_env =
  ce_transport :: transport
  ce_answers :: "go_error option list"
  ce_claim :: time
  ce_call :: time
  ce_record :: time
  ce_publish :: time

definition worker_charge :: "billing_config \<Rightarrow> charge_env \<Rightarrow> string \<Rightarrow> billing_sys \<Rightarrow> billing_sys" where
  "worker_charge cfg env i y =
    (let (y', rep, err) = Runner_Process (sys_runner cfg) i
           (\<lambda>c y. let (y', ans) = call_gateway (ce_transport env) c (ce_call env) y in (y', exec_result ans))
           (ce_claim env) (ce_record env) y
     in case err of Some e \<Rightarrow> y'
        | None \<Rightarrow>
           (case rep_Record rep of None \<Rightarrow> y'
            | Some c \<Rightarrow>
               (case rep_Status rep of
                  Some StatusConfirmed \<Rightarrow> worker_publish cfg (ce_answers env) (ce_publish env) c y'
                | Some StatusFailed \<Rightarrow>
                    worker_recordDecline (ch_AcceptanceID c)
                      (snd (Gateway_Charge (ce_transport env) c (ce_call env) (bs_gw y))) y'
                | _ \<Rightarrow> y')))"

definition worker_retryActivation :: "billing_config \<Rightarrow> charge_env \<Rightarrow> string \<Rightarrow> billing_sys \<Rightarrow> billing_sys" where
  "worker_retryActivation cfg env i y =
    (case on_db (db_ClaimActivation i (ce_claim env) (bc_ClaimLease cfg)) y of
       (y', None) \<Rightarrow> y'
     | (y', Some c) \<Rightarrow> worker_publish cfg (ce_answers env) (ce_publish env) c y')"

text \<open>A pass; \<open>env\<close> is what surrounds the attempt of a charge and \<open>renv\<close> the publication of an activation.\<close>

definition worker_ProcessDue ::
  "billing_config \<Rightarrow> (string \<Rightarrow> charge_env) \<Rightarrow> (string \<Rightarrow> charge_env) \<Rightarrow> time \<Rightarrow> time \<Rightarrow> billing_sys \<Rightarrow> billing_sys \<times> nat" where
  "worker_ProcessDue cfg env renv now now' y =
    (let (y1, expired) = on_db (db_ExpireWithoutPaymentMethod now) y;
         ids = db_ListDue now billing_batchSize (bs_db y1);
         y2 = fold (\<lambda>i. worker_charge cfg (env i) i) ids y1;
         pending = db_ListActivationsDue now' billing_batchSize (bs_db y2);
         y3 = fold (\<lambda>i. worker_retryActivation cfg (renv i) i) pending y2
     in (y3, length ids + length pending))"

end
