(* ===== verification/Billing_Runs.thy ===== *)
theory Billing_Runs
  imports Billing
begin

text \<open>
  The premium charges as they run: any number of workers, the insured, the analysts and the
  gateway, each doing one atomic step at a time in any order (\<open>billing_step\<close>). A worker may stall
  or die between its steps, the network may lose a request or an answer or deliver a request
  again, and a claim that expires is taken over by another worker. The clocks of the workers
  agree and do not go back.

  \<open>billing_inv\<close> is the invariant of the runs. It gives that an acceptance that no analyst resumed is
  charged at most once, whatever the customer hands over, and that a confirmed charge was really
  made.
\<close>

inductive billing_step :: "billing_sys \<Rightarrow> billing_sys \<Rightarrow> bool" where
  tick: "bs_now y \<le> t \<Longrightarrow> billing_step y (y\<lparr>bs_now := t\<rparr>)"
| create: "fresh_charge c \<Longrightarrow> billing_step y (fst (on_db (CreatePending c) y))"
| attach: "billing_step y (fst (on_db (db_AttachPaymentMethod i m t) y))"
| resume: "billing_step y (fst (on_db (db_Resume i r) y))"
| expire: "billing_step y (fst (on_db (db_ExpireWithoutPaymentMethod t) y))"
| decline: "billing_step y (y\<lparr>bs_db := db_RecordDecline i code ref (bs_db y)\<rparr>)"
| claim: "db_Claim i (bs_now y) lease (bs_db y) = (db', Inr (Some c)) \<Longrightarrow> 0 < lease \<Longrightarrow>
    billing_step y (y\<lparr>bs_db := db', bs_flight := (c, None) # bs_flight y\<rparr>)"
| call: "bs_flight y = xs @ (c, a) # ys \<Longrightarrow> call_gateway tr c t y = (y', ans) \<Longrightarrow>
    billing_step y (y'\<lparr>bs_flight := xs @ (c, Some ans) # ys\<rparr>)"
| write_result: "bs_flight y = xs @ (c, Some ans) # ys \<Longrightarrow>
    record_result (sys_runner cfg) c t (exec_result ans) y = (stat, reason, y', res) \<Longrightarrow>
    billing_step y (y'\<lparr>bs_flight := xs @ ys,
      bs_held := (case res of Inl _ \<Rightarrow> bs_held y | Inr c' \<Rightarrow> if stat = StatusConfirmed then c' # bs_held y else bs_held y)\<rparr>)"
| crash: "bs_flight y = xs @ f # ys \<Longrightarrow> billing_step y (y\<lparr>bs_flight := xs @ ys\<rparr>)"
| claim_activation: "db_ClaimActivation i t lease (bs_db y) = (db', Some c) \<Longrightarrow>
    billing_step y (y\<lparr>bs_db := db', bs_held := c # bs_held y\<rparr>)"
| publish: "c \<in> set (bs_held y) \<Longrightarrow> billing_step y (worker_publish cfg answers t c y)"
| card: "billing_step y (y\<lparr>bs_gw := fst (tokenise body (bs_gw y))\<rparr>)"
| indemnity: "billing_step y (y\<lparr>bs_gw := fst (gw_payout header req t (bs_gw y))\<rparr>)"

definition billing_init :: "time \<Rightarrow> billing_sys" where
  "billing_init t = \<lparr>bs_db = empty_charge_db, bs_gw = newHandler True, bs_made = (\<lambda>_. 0), bs_published = [],
     bs_flight = [], bs_held = [], bs_now = t\<rparr>"

definition billing_reach :: "billing_sys \<Rightarrow> bool" where
  "billing_reach y \<longleftrightarrow> (\<exists>t. billing_step\<^sup>*\<^sup>* (billing_init t) y)"

section \<open>The invariant of one acceptance\<close>

definition same_request :: "charge \<Rightarrow> charge \<Rightarrow> bool" where
  "same_request d c \<longleftrightarrow> charge_request d = charge_request c"

definition dead :: "gateway \<Rightarrow> charge \<Rightarrow> bool" where
  "dead g c \<longleftrightarrow> gw_dead g (ch_IdempotencyKey c) (charge_payload (charge_request c))"

definition charged :: "gateway \<Rightarrow> charge \<Rightarrow> bool" where
  "charged g c \<longleftrightarrow> gw_charged g (ch_IdempotencyKey c) (charge_payload (charge_request c))"

definition spent :: "gateway \<Rightarrow> charge \<Rightarrow> bool" where
  "spent g c \<longleftrightarrow> gw_refused (ch_IdempotencyKey c) (charge_payload (charge_request c)) \<or>
     byKey g (TrimSpace (ch_IdempotencyKey c)) \<noteq> None"

text \<open>The claims: only the latest one of an acceptance can still record, it was made on the request
  of the row, and every other has expired.\<close>

definition claims_ok :: "time \<Rightarrow> charge_flight list \<Rightarrow> charge \<Rightarrow> bool" where
  "claims_ok now fl c \<longleftrightarrow>
    list_all (\<lambda>(d, a). if charge_held d c then same_request d c else ch_ClaimedUntil d < now) fl \<and>
    length (filter (\<lambda>(d, a). charge_held d c) fl) \<le> 1"

text \<open>The money: it moved at most once and then for the request of the row; after a rejection the
  request of the row is dead; nothing that is still in flight can move it for another request.\<close>

definition money_ok :: "gateway \<Rightarrow> int \<Rightarrow> charge_flight list \<Rightarrow> charge \<Rightarrow> bool" where
  "money_ok g n fl c \<longleftrightarrow>
    (n = 0 \<or> n = 1 \<and> charged g c) \<and>
    (ch_Status c = StatusFailed \<and> ch_FailureReason c = ChargePaymentRejected \<longrightarrow> dead g c) \<and>
    (ch_Status c = StatusPending \<and> ch_Attempts c = 0 \<longrightarrow> n = 0 \<and> list_all (\<lambda>(d, a). spent g d) fl) \<and>
    list_all (\<lambda>(d, a). same_request d c \<or> spent g d) fl"

definition acct_ok :: "time \<Rightarrow> gateway \<Rightarrow> int \<Rightarrow> charge_flight list \<Rightarrow> charge option \<Rightarrow> bool" where
  "acct_ok now g n fl row =
    (case row of None \<Rightarrow> n = 0 \<and> fl = []
     | Some c \<Rightarrow> 0 \<le> ch_Attempts c \<and> 0 \<le> ch_ResumeCount c \<and> claims_ok now fl c \<and>
         (ch_ResumeCount c = 0 \<longrightarrow> money_ok g n fl c) \<and> (ch_Status c = StatusConfirmed \<longrightarrow> charged g c))"

definition answer_ok :: "gateway \<Rightarrow> charge_flight \<Rightarrow> bool" where
  "answer_ok g = (\<lambda>(d, a). case a of None \<Rightarrow> True | Some (Inr ref) \<Rightarrow> charged g d
     | Some (Inl (Rejected e)) \<Rightarrow> dead g d | Some (Inl _) \<Rightarrow> True)"

definition flight_of :: "string \<Rightarrow> charge_flight list \<Rightarrow> charge_flight list" where
  "flight_of i fl = filter (\<lambda>(d, a). ch_AcceptanceID d = i) fl"

definition billing_inv :: "billing_sys \<Rightarrow> bool" where
  "billing_inv y \<longleftrightarrow> charge_inv (bs_db y) \<and> gw_inv (bs_gw y) \<and> list_all (answer_ok (bs_gw y)) (bs_flight y) \<and>
    (\<forall>i. acct_ok (bs_now y) (bs_gw y) (bs_made y i) (flight_of i (bs_flight y)) (gm_get (db_charges (bs_db y)) i))"

lemma flight_of_simps [simp]:
  "flight_of i [] = []"
  "flight_of i (f # fl) = (if ch_AcceptanceID (fst f) = i then f # flight_of i fl else flight_of i fl)"
  "flight_of i (xs @ ys) = flight_of i xs @ flight_of i ys"
  by (auto simp: flight_of_def case_prod_beta)

lemma acct_ok_simps [simp]:
  "acct_ok now g n fl None \<longleftrightarrow> n = 0 \<and> fl = []"
  "acct_ok now g n fl (Some c) \<longleftrightarrow> 0 \<le> ch_Attempts c \<and> 0 \<le> ch_ResumeCount c \<and> claims_ok now fl c \<and>
     (ch_ResumeCount c = 0 \<longrightarrow> money_ok g n fl c) \<and> (ch_Status c = StatusConfirmed \<longrightarrow> charged g c)"
  by (simp_all add: acct_ok_def)

lemma billing_invD:
  assumes "billing_inv y"
  shows "charge_inv (bs_db y)" and "gw_inv (bs_gw y)" and "list_all (answer_ok (bs_gw y)) (bs_flight y)"
    and "acct_ok (bs_now y) (bs_gw y) (bs_made y i) (flight_of i (bs_flight y)) (gm_get (db_charges (bs_db y)) i)"
  using assms by (simp_all add: billing_inv_def)

lemma billing_inv_init: "billing_inv (billing_init t)"
  by (simp add: billing_inv_def billing_init_def, simp add: empty_charge_db_def)

section \<open>What the gateway does to the invariant\<close>

lemma dead_later: "gw_later g h \<Longrightarrow> dead g c \<Longrightarrow> dead h c"
  by (simp add: dead_def gw_dead_later)

lemma charged_later: "gw_later g h \<Longrightarrow> charged g c \<Longrightarrow> charged h c"
  by (simp add: charged_def gw_charged_later)

lemma spent_later: "gw_later g h \<Longrightarrow> spent g c \<Longrightarrow> spent h c"
  by (auto simp: spent_def gw_later_def)

lemma dead_spent: "dead g c \<Longrightarrow> spent g c"
  by (auto simp: dead_def spent_def gw_dead_def)

lemma dead_not_charged: "dead g c \<Longrightarrow> \<not> charged g c"
  by (simp add: dead_def charged_def gw_dead_not_charged)

lemma same_request_key: "same_request d c \<Longrightarrow> ch_IdempotencyKey d = ch_IdempotencyKey c"
  by (simp add: same_request_def charge_request_def)

lemma same_request_gw:
  assumes "same_request d c"
  shows "dead g d = dead g c" "charged g d = charged g c" "spent g d = spent g c"
  using assms same_request_key [OF assms] by (simp_all add: same_request_def dead_def charged_def spent_def)

lemma same_request_refl [simp]: "same_request c c"
  by (simp add: same_request_def)

lemma same_request_trans: "same_request d c \<Longrightarrow> same_request c e \<Longrightarrow> same_request d e"
  by (simp add: same_request_def)

lemma money_ok_later:
  assumes "gw_later g h" and "money_ok g n fl c"
  shows "money_ok h n fl c"
  using assms dead_later [OF assms(1)] charged_later [OF assms(1)] spent_later [OF assms(1)]
  by (auto simp: money_ok_def list_all_iff)

lemma acct_ok_later: "gw_later g h \<Longrightarrow> acct_ok now g n fl row \<Longrightarrow> acct_ok now h n fl row"
  using money_ok_later charged_later by (cases row) auto

lemma answer_ok_later: "gw_later g h \<Longrightarrow> answer_ok g f \<Longrightarrow> answer_ok h f"
  using dead_later charged_later by (auto simp: answer_ok_def split: prod.splits option.splits sum.splits client_error.splits)

lemma acct_ok_tick: "now \<le> t \<Longrightarrow> acct_ok now g n fl row \<Longrightarrow> acct_ok t g n fl row"
  by (cases row) (auto simp: claims_ok_def list_all_iff split: if_splits)

lemma answer_ok_flights:
  "list_all (answer_ok g) fl \<Longrightarrow> gw_later g h \<Longrightarrow> list_all (answer_ok h) fl"
  using answer_ok_later by (auto simp: list_all_iff)

text \<open>A gateway that only moved on.\<close>

lemma billing_inv_gateway:
  assumes "billing_inv y" and "gw_inv h" and "gw_later (bs_gw y) h"
  shows "billing_inv (y\<lparr>bs_gw := h\<rparr>)"
  using assms acct_ok_later answer_ok_flights unfolding billing_inv_def by auto

section \<open>What the statements do to the invariant\<close>

lemma billing_inv_row:
  assumes "billing_inv y" and "charge_inv db'" and "gm_get (db_charges db') = (gm_get (db_charges (bs_db y)))(i \<mapsto> c)"
    and "acct_ok (bs_now y) (bs_gw y) (bs_made y i) (flight_of i (bs_flight y)) (Some c)"
  shows "billing_inv (y\<lparr>bs_db := db'\<rparr>)"
  using assms billing_invD [OF assms(1)] unfolding billing_inv_def by auto

text \<open>A statement that writes at most the row of one acceptance.\<close>

lemma billing_inv_update:
  assumes y: "billing_inv y"
    and ok: "\<And>c. gm_get (db_charges (bs_db y)) i = Some c \<Longrightarrow> cond c \<Longrightarrow> ch_AcceptanceID (f c) = ch_AcceptanceID c \<and>
      acct_ok (bs_now y) (bs_gw y) (bs_made y i) (flight_of i (bs_flight y)) (Some (f c))"
  shows "billing_inv (y\<lparr>bs_db := fst (update_one i cond f (bs_db y))\<rparr>)"
proof (rule update_one_cases [of "bs_db y" i cond f])
  fix c
  assume c: "gm_get (db_charges (bs_db y)) i = Some c" "cond c"
    and u: "update_one i cond f (bs_db y) = (put_charge (f c) (bs_db y), Some (f c))"
  note o = ok [OF c] and d = billing_invD [OF y]
  have id: "ch_AcceptanceID (f c) = i" using o charge_invD [OF d(1) c(1)] by simp
  with o d(1) have "billing_inv (y\<lparr>bs_db := put_charge (f c) (bs_db y)\<rparr>)"
    by - (rule billing_inv_row [OF y, of _ i "f c"]; elim conjE; simp del: acct_ok_simps)
  then show ?thesis by (simp add: u)
qed (use y in simp)

lemma billing_inv_actions: "billing_inv (y\<lparr>bs_db := db\<lparr>db_actions := as\<rparr>\<rparr>) = billing_inv (y\<lparr>bs_db := db\<rparr>)"
  by (simp add: billing_inv_def)

text \<open>What a row must keep for its accounts to stay in order.\<close>

lemma same_request_sel:
  "ch_IdempotencyKey d = ch_IdempotencyKey c \<Longrightarrow> ch_OfferID d = ch_OfferID c \<Longrightarrow> ch_CustomerID d = ch_CustomerID c \<Longrightarrow>
   ch_AmountMinor d = ch_AmountMinor c \<Longrightarrow> ch_Currency d = ch_Currency c \<Longrightarrow>
   ch_PaymentMethod d = ch_PaymentMethod c \<Longrightarrow> same_request d c"
  by (simp add: same_request_def charge_request_def)

lemma claims_ok_released:
  assumes "claims_ok now fl c" and "ch_Status c \<noteq> StatusInProgress" and "ch_Status c' \<noteq> StatusInProgress"
  shows "claims_ok now fl c'"
  using assms by (auto simp: claims_ok_def charge_held_def list_all_iff filter_empty_conv)

lemma money_ok_same:
  assumes "money_ok g n fl c" and "same_request c' c"
    and "ch_Status c' = StatusFailed \<and> ch_FailureReason c' = ChargePaymentRejected \<Longrightarrow> dead g c'"
    and "ch_Status c' = StatusPending \<and> ch_Attempts c' = 0 \<Longrightarrow> ch_Status c = StatusPending \<and> ch_Attempts c = 0"
  shows "money_ok g n fl c'"
  using assms same_request_gw [OF assms(2)]
  by (auto simp: money_ok_def list_all_iff same_request_def)

lemma acct_ok_create: "acct_ok now g n fl None \<Longrightarrow> acct_ok now g n fl (Some (inserted_row c))"
  by (simp add: inserted_row_def claims_ok_def money_ok_def)

lemma acct_ok_attach:
  assumes a: "acct_ok now g n fl (Some c)" and w: "attach_where c"
  shows "acct_ok now g n fl (Some (attached_row keyBase m t c))"
proof -
  let ?c = "attached_row keyBase m t c"
  have s: "ch_Status ?c = StatusPending" "ch_Attempts ?c = 0" "ch_ResumeCount ?c = ch_ResumeCount c"
    using w by (auto simp: attached_row_def attach_where_def)
  have cl: "claims_ok now fl ?c"
    using a by - (rule claims_ok_released [of now fl c]; insert w s; auto simp: attach_where_def)
  have "money_ok g n fl ?c" if r: "ch_ResumeCount c = 0"
  proof -
    from a r have mo: "money_ok g n fl c" by simp
    have "n = 0 \<and> list_all (\<lambda>(d, a). spent g d) fl"
    proof (cases "ch_Status c = StatusFailed")
      case True
      with mo w have dd: "dead g c" by (auto simp: money_ok_def attach_where_def)
      with mo dead_not_charged have "n = 0" by (auto simp: money_ok_def)
      moreover have "list_all (\<lambda>(d, a). spent g d) fl"
        using mo dead_spent [OF dd] by (auto simp: money_ok_def list_all_iff same_request_gw)
      ultimately show ?thesis ..
    next
      case False
      with mo w show ?thesis by (auto simp: money_ok_def attach_where_def)
    qed
    with s show ?thesis by (auto simp: money_ok_def list_all_iff)
  qed
  with a cl s show ?thesis by simp
qed

lemma acct_ok_resume:
  assumes "acct_ok now g n fl (Some c)" and "ch_Status c = StatusFailed"
    and "ch_Status c' = StatusPending" and "ch_Attempts c' = 0" and "ch_ResumeCount c' = ch_ResumeCount c + 1"
  shows "acct_ok now g n fl (Some c')"
  using assms claims_ok_released [of now fl c c'] by auto

lemma acct_ok_expire:
  assumes "acct_ok now g n fl (Some c)" and "expire_where t c"
  shows "acct_ok now g n fl (Some (expired_row t c))"
proof -
  have s: "ch_Status c = StatusPending" using assms(2) by (simp add: expire_where_def)
  have "claims_ok now fl (expired_row t c)"
    using assms(1) s by - (rule claims_ok_released [of now fl c]; auto simp: expired_row_def)
  moreover have "same_request (expired_row t c) c" by (rule same_request_sel) (simp_all add: expired_row_def)
  then have "money_ok g n fl (expired_row t c)" if "ch_ResumeCount c = 0"
    using assms(1) that by - (rule money_ok_same [of g n fl c]; auto simp: expired_row_def)
  ultimately show ?thesis using assms(1) by (simp add: expired_row_def)
qed

text \<open>A write on a row that is neither pending nor in progress and that keeps its status, reason
  and request.\<close>

lemma acct_ok_settled:
  assumes a: "acct_ok now g n fl (Some c)"
    and s: "ch_Status c = StatusConfirmed \<or> ch_Status c = StatusFailed" "ch_Status c' = ch_Status c"
      "ch_FailureReason c' = ch_FailureReason c" "ch_Attempts c' = ch_Attempts c" "ch_ResumeCount c' = ch_ResumeCount c"
    and q: "same_request c' c"
  shows "acct_ok now g n fl (Some c')"
proof -
  have "claims_ok now fl c'" using a s by - (rule claims_ok_released [of now fl c]; auto)
  moreover have "money_ok g n fl c'" if "ch_ResumeCount c = 0"
    using a s that q same_request_gw [OF q] by - (rule money_ok_same [of g n fl c]; auto simp: money_ok_def)
  ultimately show ?thesis using a s same_request_gw [OF q] by simp
qed

lemma acct_ok_claim:
  assumes a: "acct_ok now g n fl (Some c)" and due: "charge_due now c" and lease: "0 < lease"
  shows "acct_ok now g n ((claimed_row now lease c, None) # fl) (Some (claimed_row now lease c))"
proof -
  let ?c = "claimed_row now lease c"
  have s: "ch_Status ?c = StatusInProgress" "ch_ClaimedUntil ?c = now + lease" "ch_Attempts ?c = ch_Attempts c"
    "ch_ResumeCount ?c = ch_ResumeCount c" by (simp_all add: claimed_row_def)
  have q: "same_request ?c c" by (rule same_request_sel) (simp_all add: claimed_row_def)
  have old: "ch_ClaimedUntil d < now" if "(d, b) \<in> set fl" for d b
    using a that due by (auto simp: claims_ok_def list_all_iff charge_held_def charge_due_def split: if_splits)
  then have nh: "\<not> charge_held d ?c" if "(d, b) \<in> set fl" for d b
    using that lease s by (fastforce simp: charge_held_def)
  have "filter (\<lambda>(d, a). charge_held d ?c) fl = []" using nh by (auto simp: filter_empty_conv)
  with old nh have "claims_ok now ((?c, None) # fl) ?c"
    by (auto simp: claims_ok_def list_all_iff charge_held_def s)
  moreover have "money_ok g n ((?c, None) # fl) ?c" if "ch_ResumeCount c = 0"
    using a that q same_request_gw [OF q] by (auto simp: money_ok_def list_all_iff s same_request_def)
  ultimately show ?thesis using a s by simp
qed

section \<open>What the workers do to the invariant\<close>

text \<open>An entry that leaves the flights, and the claim of the row among them.\<close>

lemma acct_ok_leave:
  assumes "acct_ok now g n (xs @ f # ys) row"
  shows "acct_ok now g n (xs @ ys) row"
  using assms by (cases row) (auto simp: claims_ok_def money_ok_def split: if_splits prod.splits)

lemma claims_ok_only:
  assumes "claims_ok now (xs @ (c, a) # ys) r" and "charge_held c r"
  shows "list_all (\<lambda>(d, b). ch_ClaimedUntil d < now) (xs @ ys)" and "same_request c r"
proof -
  have "length (filter (\<lambda>(d, b). charge_held d r) (xs @ ys)) = 0"
    using assms by (simp add: claims_ok_def)
  then have nh: "\<not> charge_held d r" if "(d, b) \<in> set (xs @ ys)" for d b
    using that by (auto simp: filter_empty_conv)
  have "ch_ClaimedUntil d < now" if "(d, b) \<in> set (xs @ ys)" for d b
  proof -
    have "(d, b) \<in> set (xs @ (c, a) # ys)" using that by auto
    then have "if charge_held d r then same_request d r else ch_ClaimedUntil d < now"
      using assms(1) unfolding claims_ok_def list_all_iff by blast
    with nh [OF that] show ?thesis by simp
  qed
  then show "list_all (\<lambda>(d, b). ch_ClaimedUntil d < now) (xs @ ys)" by (auto simp: list_all_iff)
  show "same_request c r" using assms by (simp add: claims_ok_def)
qed

lemma claims_ok_expired:
  "list_all (\<lambda>(d, b). ch_ClaimedUntil d < now) fl \<Longrightarrow> ch_Status r \<noteq> StatusInProgress \<Longrightarrow> claims_ok now fl r"
  by (auto simp: claims_ok_def list_all_iff charge_held_def)

text \<open>The result of a call is recorded on the row whose claim it holds.\<close>

definition result_for :: "client_error + string \<Rightarrow> charge \<Rightarrow> charge \<Rightarrow> bool" where
  "result_for ans r r' \<longleftrightarrow> ch_AcceptanceID r' = ch_AcceptanceID r \<and> same_request r' r \<and> ch_ResumeCount r' = ch_ResumeCount r \<and>
    0 \<le> ch_Attempts r' \<and>
    (ch_Status r' = StatusConfirmed \<and> (\<exists>ref. ans = Inr ref) \<or>
     ch_Status r' = StatusFailed \<and> (ch_FailureReason r' = ChargePaymentRejected \<longrightarrow> (\<exists>e. ans = Inl (Rejected e))) \<or>
     ch_Status r' = StatusPending \<and> 0 < ch_Attempts r')"

lemma acct_ok_result:
  assumes a: "acct_ok now g n (xs @ (c, Some ans) # ys) (Some r)" and h: "charge_held c r"
    and ans: "answer_ok g (c, Some ans)" and r': "result_for ans r r'"
  shows "acct_ok now g n (xs @ ys) (Some r')"
proof -
  from a have cl: "claims_ok now (xs @ (c, Some ans) # ys) r" by simp
  note only = claims_ok_only [OF cl h]
  from r' have q: "same_request r' r" and ni: "ch_Status r' \<noteq> StatusInProgress" by (auto simp: result_for_def)
  have q': "same_request c r'" using only(2) q by (simp add: same_request_def)
  have ch: "charged g r'" if "ch_Status r' = StatusConfirmed"
    using ans r' that same_request_gw(2) [OF q', of g] by (auto simp: answer_ok_def result_for_def)
  have de: "dead g r'" if "ch_Status r' = StatusFailed" "ch_FailureReason r' = ChargePaymentRejected"
    using ans r' that same_request_gw(1) [OF q', of g] by (auto simp: answer_ok_def result_for_def)
  have "acct_ok now g n (xs @ ys) (Some r)" using a by (rule acct_ok_leave)
  then have "money_ok g n (xs @ ys) r'" if "ch_ResumeCount r = 0"
    using that by - (rule money_ok_same [OF _ q]; insert de r'; auto simp: result_for_def)
  with a r' ch claims_ok_expired [OF only(1) ni] show ?thesis by (auto simp: result_for_def)
qed

text \<open>The call: if it moves money, the request in flight is the one of the row and had not been
  sent before.\<close>

lemma Gateway_Charge_fst: "fst (Gateway_Charge tr c now g) = fst (Client_Charge tr (charge_request c) now g)"
  by (simp add: Gateway_Charge_def split: prod.split sum.split)

lemma Gateway_Charge_inv:
  assumes "gw_inv g"
  shows "gw_inv (fst (Gateway_Charge tr c now g))" and "gw_later g (fst (Gateway_Charge tr c now g))"
  using Client_Charge_inv [OF assms] by (simp_all add: Gateway_Charge_fst)

lemma request_key: "rqc_IdempotencyKey (charge_request c) = ch_IdempotencyKey c"
  by (simp add: charge_request_def)

lemma Gateway_Charge_takes:
  assumes "gw_inv g" and "took_money c g (fst (Gateway_Charge tr c now g))"
  shows "\<not> spent g c" and "charged (fst (Gateway_Charge tr c now g)) c"
proof -
  have "realCharges (fst (Gateway_Charge tr c now g)) \<noteq> realCharges g" using assms(2) by (auto simp: took_money_def)
  note t = Client_Charge_takes [OF assms(1), of tr "charge_request c" now, folded Gateway_Charge_fst, OF this]
  from t(2) show ch: "charged (fst (Gateway_Charge tr c now g)) c" by (simp add: charged_def request_key)
  then have "\<not> gw_refused (ch_IdempotencyKey c) (charge_payload (charge_request c))"
    by (simp add: charged_def gw_charged_def)
  with t(1) show "\<not> spent g c" by (simp add: spent_def request_key)
qed

lemma Gateway_Charge_answer:
  assumes "gw_inv g" and "Gateway_Charge tr c now g = (h, ans)"
  shows "answer_ok h (c, Some ans)"
  using assms(2) Client_Charge_confirmed [OF assms(1), of tr "charge_request c" now h]
    Client_Charge_rejected [OF assms(1), of tr "charge_request c" now h]
  by (auto simp: Gateway_Charge_def answer_ok_def charged_def dead_def request_key split: prod.splits sum.splits client_error.splits)

lemma claims_ok_fst: "map fst fl = map fst fl' \<Longrightarrow> claims_ok now fl c = claims_ok now fl' c"
proof -
  assume m: "map fst fl = map fst fl'"
  have "length (filter (\<lambda>(d, a). P d) l) = length (filter P (map fst l))" for P :: "charge \<Rightarrow> bool" and l :: "charge_flight list"
    by (induction l) auto
  moreover have "list_all (\<lambda>(d, a). P d) l = list_all P (map fst l)" for P :: "charge \<Rightarrow> bool" and l :: "charge_flight list"
    by (induction l) auto
  ultimately show ?thesis unfolding claims_ok_def by (simp only: m)
qed

lemma money_ok_fst: "map fst fl = map fst fl' \<Longrightarrow> money_ok g n fl c = money_ok g n fl' c"
proof -
  assume m: "map fst fl = map fst fl'"
  have "list_all (\<lambda>(d, a). P d) l = list_all P (map fst l)" for P :: "charge \<Rightarrow> bool" and l :: "charge_flight list"
    by (induction l) auto
  then show ?thesis unfolding money_ok_def by (simp only: m)
qed

lemma acct_ok_fst: "map fst fl = map fst fl' \<Longrightarrow> acct_ok now g n fl row \<Longrightarrow> acct_ok now g n fl' row"
  using claims_ok_fst [of fl fl'] money_ok_fst [of fl fl'] by (cases row) auto

lemma acct_ok_call:
  assumes g: "gw_inv g" and a: "acct_ok now g n fl row" and c: "(c, b) \<in> set fl"
    and h: "h = fst (Gateway_Charge tr c t g)"
  shows "acct_ok now h (n + (if took_money c g h then 1 else 0)) fl row"
proof (cases "took_money c g h")
  case False
  with acct_ok_later [OF _ a] Gateway_Charge_inv(2) [OF g] show ?thesis by (simp add: h)
next
  case True
  note t = Gateway_Charge_takes [OF g True [unfolded h], folded h]
  have later: "gw_later g h" using Gateway_Charge_inv(2) [OF g] by (simp add: h)
  from a c obtain r where r: "row = Some r" by (cases row) auto
  have "money_ok h (n + 1) fl r" if "ch_ResumeCount r = 0"
  proof -
    from a r that have mo: "money_ok g n fl r" by simp
    with c t(1) have q: "same_request c r" by (auto simp: money_ok_def list_all_iff)
    have ns: "\<not> spent g r" using t(1) same_request_gw(3) [OF q] by simp
    then have "\<not> charged g r" by (auto simp: charged_def gw_charged_def spent_def)
    with mo have "n = 0" by (simp add: money_ok_def)
    moreover have "\<not> (ch_Status r = StatusPending \<and> ch_Attempts r = 0)"
      using mo c t(1) by (auto simp: money_ok_def list_all_iff)
    moreover have "\<not> dead g r" using ns dead_spent by blast
    moreover have "charged h r" using t(2) same_request_gw(2) [OF q] by simp
    ultimately show ?thesis
      using mo spent_later [OF later] by (auto simp: money_ok_def list_all_iff)
  qed
  with a r charged_later [OF later] True show ?thesis by auto
qed

lemma flight_of_split:
  assumes "bs_flight y = xs @ (c, a) # ys"
  shows "(c, a) \<in> set (flight_of (ch_AcceptanceID c) (bs_flight y))"
    and "flight_of (ch_AcceptanceID c) (bs_flight y) =
      flight_of (ch_AcceptanceID c) xs @ (c, a) # flight_of (ch_AcceptanceID c) ys"
  by (simp_all add: assms)

lemma billing_inv_call:
  assumes y: "billing_inv y" and fl: "bs_flight y = xs @ (c, a) # ys" and call: "call_gateway tr c t y = (y', ans)"
  shows "billing_inv (y'\<lparr>bs_flight := xs @ (c, Some ans) # ys\<rparr>)"
proof -
  obtain h where h: "Gateway_Charge tr c t (bs_gw y) = (h, ans)"
    using call by (auto simp: call_gateway_def Let_def split: prod.splits)
  let ?i = "ch_AcceptanceID c" and ?b = "if took_money c (bs_gw y) h then 1 else 0"
  define M where "M = (bs_made y)(?i := bs_made y ?i + ?b)"
  have y': "y' = y\<lparr>bs_gw := h, bs_made := M\<rparr>"
    using call h by (auto simp: call_gateway_def Let_def M_def)
  note d = billing_invD [OF y]
  have gh: "gw_inv h" "gw_later (bs_gw y) h" using Gateway_Charge_inv [OF d(2), of tr c t] by (simp_all add: h)
  have "list_all (answer_ok h) (xs @ (c, Some ans) # ys)"
    using answer_ok_flights [OF d(3) gh(2)] Gateway_Charge_answer [OF d(2) h] by (simp add: fl)
  moreover have "acct_ok (bs_now y) h (M i)
      (flight_of i (xs @ (c, Some ans) # ys)) (gm_get (db_charges (bs_db y)) i)" for i
  proof (cases "i = ?i")
    case True
    have "acct_ok (bs_now y) h (bs_made y ?i + ?b) (flight_of ?i (bs_flight y)) (gm_get (db_charges (bs_db y)) ?i)"
      using acct_ok_call [OF d(2) d(4) flight_of_split(1) [OF fl], of h tr t] by (simp add: h)
    then have "acct_ok (bs_now y) h (M ?i) (flight_of ?i (bs_flight y)) (gm_get (db_charges (bs_db y)) ?i)"
      by (simp add: M_def)
    then have "acct_ok (bs_now y) h (M ?i) (flight_of ?i (xs @ (c, Some ans) # ys)) (gm_get (db_charges (bs_db y)) ?i)"
      by (rule acct_ok_fst [rotated]) (simp add: fl)
    with True show ?thesis by simp
  next
    case False
    with acct_ok_later [OF gh(2) d(4) [of i]] show ?thesis by (simp add: fl M_def)
  qed
  ultimately show ?thesis using d(1) gh(1) unfolding billing_inv_def y' by simp
qed

text \<open>What the runner writes is one of the three results, on the row whose claim is held.\<close>

lemma db_results_held:
  "db_Confirm c t out = held_one (ch_AcceptanceID c) (charge_held c) (confirmed_row c t out)"
  "db_Reschedule c t n z = held_one (ch_AcceptanceID c) (charge_held c) (rescheduled_row t n z)"
  "db_Fail c t q z = held_one (ch_AcceptanceID c) (charge_held c) (failed_row t q z)"
  by (rule ext, simp add: db_Confirm_def db_Reschedule_def db_Fail_def)+

lemma record_sys:
  assumes "record_result (sys_runner cfg) c t (exec_result ans) y = (stat, reason, y', res)"
  obtains f where "(y', res) = on_db (held_one (ch_AcceptanceID c) (charge_held c) f) y"
    and "\<And>r. 0 \<le> ch_Attempts r \<Longrightarrow> result_for ans r (f r)"
    and "stat = StatusConfirmed \<Longrightarrow> \<exists>out. f = confirmed_row c t out"
proof -
  note eq = assms [unfolded record_result_def]
  have sel: "same_request (confirmed_row c t out r) r" "same_request (rescheduled_row t n z r) r"
    "same_request (failed_row t q z r) r" for r out n z q
    by (rule same_request_sel; simp add: confirmed_row_def rescheduled_row_def failed_row_def Let_def)+
  have sel2: "ch_ResumeCount (confirmed_row c t out r) = ch_ResumeCount r" "ch_Attempts (confirmed_row c t out r) = ch_Attempts r"
    "ch_ResumeCount (rescheduled_row t n z r) = ch_ResumeCount r" "ch_Attempts (rescheduled_row t n z r) = ch_Attempts r + 1"
    "ch_ResumeCount (failed_row t q z r) = ch_ResumeCount r" "ch_Attempts (failed_row t q z r) = ch_Attempts r + 1"
    "ch_FailureReason (failed_row t q z r) = ChargeFailureReasonFor q" for r out n z q
    by (simp_all add: confirmed_row_def rescheduled_row_def failed_row_def Let_def)
  show ?thesis
  proof (cases ans)
    case (Inr ref)
    with eq have "(y', res) = on_db (held_one (ch_AcceptanceID c) (charge_held c) (confirmed_row c t \<lparr>oc_Reference = ref\<rparr>)) y"
      by (simp add: exec_result_def sys_runner_def sys_store_def db_results_held)
    then show ?thesis
      by (rule that) (auto simp: result_for_def sel sel2 Inr)
  next
    case (Inl e)
    let ?z = "err_text (client_go_error e)"
    show ?thesis
    proof (cases "\<exists>q. e = Rejected q")
      case True
      with eq Inl have "(y', res) = on_db (held_one (ch_AcceptanceID c) (charge_held c) (failed_row t ReasonRejected ?z)) y"
        "stat = StatusFailed"
        by (auto simp: exec_result_def sys_runner_def sys_store_def db_results_held Let_def)
      then show ?thesis by (intro that) (use Inl True in \<open>auto simp: result_for_def sel sel2\<close>)
    next
      case False
      obtain nx ex where nx: "Next (bc_Retry cfg) (ch_Attempts c + 1) (ch_WindowEndsAt c) t = (nx, ex)" by fastforce
      show ?thesis
      proof (cases ex)
        case True
        with eq Inl False nx
        have "(y', res) = on_db (held_one (ch_AcceptanceID c) (charge_held c) (failed_row t ReasonWindowExpired ?z)) y"
          "stat = StatusFailed"
          by (auto simp: exec_result_def sys_runner_def sys_store_def db_results_held Let_def)
        then show ?thesis by (intro that) (auto simp: result_for_def sel sel2 ChargeFailureReasonFor_def)
      next
        case nex: False
        with eq Inl False nx
        have "(y', res) = on_db (held_one (ch_AcceptanceID c) (charge_held c) (rescheduled_row t nx ?z)) y"
          "stat = StatusPending"
          by (auto simp: exec_result_def sys_runner_def sys_store_def db_results_held Let_def)
        then show ?thesis by (intro that) (auto simp: result_for_def sel sel2)
      qed
    qed
  qed
qed

lemma billing_inv_leave:
  assumes "billing_inv y" and "bs_flight y = xs @ f # ys"
  shows "billing_inv (y\<lparr>bs_flight := xs @ ys\<rparr>)"
proof -
  note d = billing_invD [OF assms(1)]
  have "acct_ok (bs_now y) (bs_gw y) (bs_made y i) (flight_of i (xs @ ys)) (gm_get (db_charges (bs_db y)) i)" for i
    using d(4) [of i] acct_ok_leave by (cases "ch_AcceptanceID (fst f) = i") (auto simp del: acct_ok_simps simp: assms(2))
  with d show ?thesis unfolding billing_inv_def by (simp add: assms(2))
qed

lemma billing_inv_held [simp]:
  "billing_inv (y\<lparr>bs_held := hs\<rparr>) = billing_inv y" "billing_inv (y\<lparr>bs_published := es\<rparr>) = billing_inv y"
  by (simp_all add: billing_inv_def)

lemma billing_inv_record:
  assumes y: "billing_inv y" and fl: "bs_flight y = xs @ (c, Some ans) # ys"
    and f: "\<And>r. 0 \<le> ch_Attempts r \<Longrightarrow> result_for ans r (f r)"
  shows "billing_inv (y\<lparr>bs_db := fst (held_one (ch_AcceptanceID c) (charge_held c) f (bs_db y)), bs_flight := xs @ ys\<rparr>)"
proof -
  let ?i = "ch_AcceptanceID c"
  note d = billing_invD [OF y]
  have left: "billing_inv (y\<lparr>bs_flight := xs @ ys\<rparr>)" using billing_inv_leave [OF y fl] .
  have "billing_inv ((y\<lparr>bs_flight := xs @ ys\<rparr>)\<lparr>bs_db := fst (update_one ?i (charge_held c) f (bs_db (y\<lparr>bs_flight := xs @ ys\<rparr>)))\<rparr>)"
  proof (rule billing_inv_update [OF left])
    fix r
    assume r: "gm_get (db_charges (bs_db (y\<lparr>bs_flight := xs @ ys\<rparr>))) ?i = Some r" and h: "charge_held c r"
    have a: "acct_ok (bs_now y) (bs_gw y) (bs_made y ?i) (flight_of ?i xs @ (c, Some ans) # flight_of ?i ys) (Some r)"
      using d(4) [of ?i] r unfolding flight_of_split(2) [OF fl] by simp
    then have rf: "result_for ans r (f r)" using f by simp
    have "answer_ok (bs_gw y) (c, Some ans)" using d(3) by (simp add: fl)
    from acct_ok_result [OF a h this rf] rf
    show "ch_AcceptanceID (f r) = ch_AcceptanceID r \<and> acct_ok (bs_now (y\<lparr>bs_flight := xs @ ys\<rparr>)) (bs_gw (y\<lparr>bs_flight := xs @ ys\<rparr>))
        (bs_made (y\<lparr>bs_flight := xs @ ys\<rparr>) ?i) (flight_of ?i (bs_flight (y\<lparr>bs_flight := xs @ ys\<rparr>))) (Some (f r))"
      by (simp add: result_for_def)
  qed
  then show ?thesis by (simp add: fst_held_one billing_inv_def)
qed

lemma billing_inv_claim:
  assumes y: "billing_inv y" and cl: "db_Claim i (bs_now y) lease (bs_db y) = (db', Inr (Some c))" and lease: "0 < lease"
  shows "billing_inv (y\<lparr>bs_db := db', bs_flight := (c, None) # bs_flight y\<rparr>)"
proof -
  note d = billing_invD [OF y]
  obtain r where r: "gm_get (db_charges (bs_db y)) i = Some r" "charge_due (bs_now y) r" "c = claimed_row (bs_now y) lease r"
    "db' = put_charge c (bs_db y)"
    using cl by (auto simp: db_Claim_def update_one_def Let_def split: option.splits if_splits)
  have id: "ch_AcceptanceID c = i" using charge_invD [OF d(1) r(1)] r(3) by simp
  have "acct_ok (bs_now y) (bs_gw y) (bs_made y i) ((c, None) # flight_of i (bs_flight y)) (Some c)"
    using acct_ok_claim [OF _ r(2) lease] d(4) [of i] r(1,3) by (simp del: acct_ok_simps)
  with d id r(4) show ?thesis unfolding billing_inv_def by (auto simp: answer_ok_def)
qed

section \<open>Every step keeps the invariant\<close>

lemma fst_on_db: "fst (on_db f y) = y\<lparr>bs_db := fst (f (bs_db y))\<rparr>"
  by (simp add: on_db_def case_prod_beta Let_def)

lemma on_db_eq: "(y', r) = on_db f y \<Longrightarrow> y' = y\<lparr>bs_db := fst (f (bs_db y))\<rparr> \<and> r = snd (f (bs_db y))"
  by (simp add: on_db_def case_prod_beta Let_def)

lemma billing_inv_create: "billing_inv y \<Longrightarrow> billing_inv (y\<lparr>bs_db := fst (CreatePending c (bs_db y))\<rparr>)"
proof -
  assume y: "billing_inv y"
  note d = billing_invD [OF y]
  let ?r = "inserted_row c" and ?i = "ch_AcceptanceID c"
  have id: "ch_AcceptanceID ?r = ?i" by (simp add: inserted_row_def)
  have new: "billing_inv (y\<lparr>bs_db := put_charge ?r (bs_db y)\<rparr>)" if "gm_get (db_charges (bs_db y)) ?i = None"
    using d(4) [of ?i] d(1) that id acct_ok_create
    by - (rule billing_inv_row [OF y, of _ ?i ?r]; simp del: acct_ok_simps)
  show ?thesis using y new by (auto simp: CreatePending_def split: sum.split)
qed

lemma billing_inv_attach: "billing_inv y \<Longrightarrow> billing_inv (y\<lparr>bs_db := fst (db_AttachPaymentMethod i m t (bs_db y))\<rparr>)"
proof -
  assume y: "billing_inv y"
  have "billing_inv (y\<lparr>bs_db := put_charge (attached_row kb m t c) (bs_db y)\<rparr>)"
    if c: "gm_get (db_charges (bs_db y)) i = Some c" "attach_where c" for c kb
  proof -
    have "ch_AcceptanceID (attached_row kb m t c) = ch_AcceptanceID c" by (simp add: attached_row_def)
    moreover have "acct_ok (bs_now y) (bs_gw y) (bs_made y i) (flight_of i (bs_flight y)) (Some (attached_row kb m t c))"
      using billing_invD(4) [OF y, of i] c(1) by - (rule acct_ok_attach [OF _ c(2)]; simp)
    ultimately have "billing_inv (y\<lparr>bs_db := fst (update_one i attach_where (attached_row kb m t) (bs_db y))\<rparr>)"
      using c by - (rule billing_inv_update [OF y]; simp add: attached_row_def del: acct_ok_simps)
    then show ?thesis using c by (simp add: update_one_Some)
  qed
  with y show ?thesis by (simp add: db_AttachPaymentMethod_def Let_def split: option.split)
qed

lemma billing_inv_resume: "billing_inv y \<Longrightarrow> billing_inv (y\<lparr>bs_db := fst (db_Resume i r (bs_db y))\<rparr>)"
proof -
  assume y: "billing_inv y"
  let ?u = "update_one i (\<lambda>c. ch_Status c = StatusFailed) (resumed_row r) (bs_db y)"
  have "billing_inv (y\<lparr>bs_db := fst ?u\<rparr>)"
  proof (rule billing_inv_update [OF y], rule conjI)
    fix c
    assume "gm_get (db_charges (bs_db y)) i = Some c" "ch_Status c = StatusFailed"
    with billing_invD(4) [OF y, of i]
    show "acct_ok (bs_now y) (bs_gw y) (bs_made y i) (flight_of i (bs_flight y)) (Some (resumed_row r c))"
      by - (rule acct_ok_resume [of _ _ _ _ c]; simp add: resumed_row_def)
  qed (simp add: resumed_row_def)
  then show ?thesis
    by (cases ?u; cases "snd ?u") (simp_all add: db_Resume_def billing_inv_actions split: sum.split)
qed

lemma billing_inv_decline: "billing_inv y \<Longrightarrow> billing_inv (y\<lparr>bs_db := db_RecordDecline i code ref (bs_db y)\<rparr>)"
proof -
  assume y: "billing_inv y"
  have "billing_inv (y\<lparr>bs_db := fst (update_one i
      (\<lambda>c. ch_Status c = StatusFailed \<and> ch_FailureReason c = ChargePaymentRejected)
      (\<lambda>c. c\<lparr>ch_DeclineCode := u c, ch_ProviderReference := v c\<rparr>) (bs_db y))\<rparr>)" for u v
  proof (rule billing_inv_update [OF y], rule conjI, simp)
    fix c
    assume "gm_get (db_charges (bs_db y)) i = Some c" "ch_Status c = StatusFailed \<and> ch_FailureReason c = ChargePaymentRejected"
    with billing_invD(4) [OF y, of i]
    show "acct_ok (bs_now y) (bs_gw y) (bs_made y i) (flight_of i (bs_flight y))
        (Some (c\<lparr>ch_DeclineCode := u c, ch_ProviderReference := v c\<rparr>))"
      by - (rule acct_ok_settled [of _ _ _ _ c]; simp add: same_request_sel)
  qed
  with y show ?thesis by (simp add: db_RecordDecline_def)
qed

text \<open>The statements on the activation touch a confirmed row only.\<close>

lemma billing_inv_activation:
  assumes y: "billing_inv y" and "\<And>c. cond c \<Longrightarrow> ch_Status c = StatusConfirmed"
    and "\<And>c. ch_AcceptanceID (f c) = ch_AcceptanceID c \<and> ch_Status (f c) = ch_Status c \<and>
      ch_FailureReason (f c) = ch_FailureReason c \<and> ch_Attempts (f c) = ch_Attempts c \<and>
      ch_ResumeCount (f c) = ch_ResumeCount c \<and> same_request (f c) c"
  shows "billing_inv (y\<lparr>bs_db := fst (update_one i cond f (bs_db y))\<rparr>)"
proof (rule billing_inv_update [OF y], rule conjI)
  fix c
  assume "gm_get (db_charges (bs_db y)) i = Some c" "cond c"
  with billing_invD(4) [OF y, of i] assms(2,3) [of c]
  show "acct_ok (bs_now y) (bs_gw y) (bs_made y i) (flight_of i (bs_flight y)) (Some (f c))"
    by - (rule acct_ok_settled [of _ _ _ _ c]; simp del: acct_ok_simps)
qed (simp add: assms(3))

lemma gm_get_map: "gm_get (map (\<lambda>(i, c). (i, f c)) m) i = map_option f (gm_get m i)"
  by (induction m) (auto simp: gm_get_def)

lemma billing_inv_expire: "billing_inv y \<Longrightarrow> billing_inv (y\<lparr>bs_db := fst (db_ExpireWithoutPaymentMethod t (bs_db y))\<rparr>)"
proof -
  assume y: "billing_inv y"
  note d = billing_invD [OF y]
  let ?f = "\<lambda>c. if expire_where t c then expired_row t c else c"
  let ?db = "fst (db_ExpireWithoutPaymentMethod t (bs_db y))"
  have db: "db_charges ?db = map (\<lambda>(i, c). (i, ?f c)) (db_charges (bs_db y))"
    by (simp add: db_ExpireWithoutPaymentMethod_def)
  have get: "gm_get (db_charges ?db) i = map_option ?f (gm_get (db_charges (bs_db y)) i)" for i
    unfolding db by (rule gm_get_map)
  have keys: "map fst (db_charges ?db) = map fst (db_charges (bs_db y))" unfolding db by (simp add: case_prod_beta comp_def)
  have "ch_AcceptanceID c = i" if i: "gm_get (db_charges ?db) i = Some c" for i c
  proof -
    obtain r where r: "gm_get (db_charges (bs_db y)) i = Some r" "c = ?f r" using i unfolding get by auto
    have "ch_AcceptanceID (?f r) = ch_AcceptanceID r" by (simp add: expired_row_def)
    with r charge_invD [OF d(1) r(1)] show ?thesis by simp
  qed
  moreover have "gm_ok (db_charges ?db)" using d(1) unfolding charge_inv_def gm_ok_def keys by simp
  ultimately have "charge_inv ?db" unfolding charge_inv_def by blast
  moreover have "acct_ok (bs_now y) (bs_gw y) (bs_made y i) (flight_of i (bs_flight y)) (gm_get (db_charges ?db) i)" for i
  proof (cases "gm_get (db_charges (bs_db y)) i")
    case None
    with d(4) [of i] show ?thesis unfolding get by simp
  next
    case (Some c)
    with d(4) [of i] acct_ok_expire [of _ _ _ _ c t] show ?thesis unfolding get by (simp del: acct_ok_simps)
  qed
  ultimately show ?thesis using d unfolding billing_inv_def by simp
qed

theorem billing_inv_step: "billing_step y z \<Longrightarrow> billing_inv y \<Longrightarrow> billing_inv z"
proof (induction rule: billing_step.induct)
  case (tick y t)
  then show ?case using acct_ok_tick unfolding billing_inv_def by auto
next
  case (write_result y xs c ans ys cfg t stat reason y' res)
  from record_sys [OF write_result(2)] obtain f where
    f: "(y', res) = on_db (held_one (ch_AcceptanceID c) (charge_held c) f) y" "\<And>r. 0 \<le> ch_Attempts r \<Longrightarrow> result_for ans r (f r)"
    by blast
  have "y' = y\<lparr>bs_db := fst (held_one (ch_AcceptanceID c) (charge_held c) f (bs_db y))\<rparr>" using on_db_eq [OF f(1)] by simp
  with billing_inv_record [OF write_result(3,1), OF f(2)] show ?case by simp
next
  case (claim_activation i t lease y db' c)
  have "billing_inv (y\<lparr>bs_db := fst (update_one i (activation_due t)
      (\<lambda>c. c\<lparr>ch_ClaimedUntil := time_Add t lease, ch_UpdatedAt := t\<rparr>) (bs_db y))\<rparr>)"
    by (rule billing_inv_activation [OF claim_activation(2)]) (auto simp: activation_due_def same_request_sel)
  with claim_activation(1) show ?case by (simp add: db_ClaimActivation_def)
next
  case (publish c y cfg answers t)
  have "billing_inv (y\<lparr>bs_db := fst (db_MarkActivationPublished c t (bs_db y))\<rparr>)"
    unfolding db_MarkActivationPublished_def fst_held_one
    by (rule billing_inv_activation [OF publish(2)]) (auto simp: activation_held_def same_request_sel)
  moreover have "billing_inv (y\<lparr>bs_db := fst (db_RescheduleActivation c t n z (bs_db y))\<rparr>)" for n z
    unfolding db_RescheduleActivation_def fst_held_one
    by (rule billing_inv_activation [OF publish(2)]) (auto simp: activation_held_def same_request_sel)
  ultimately show ?case
    by (simp add: worker_publish_def fst_on_db Let_def billing_inv_def split: option.split)
qed (simp_all add: fst_on_db billing_inv_create billing_inv_attach billing_inv_resume billing_inv_expire billing_inv_decline billing_inv_claim
    billing_inv_call billing_inv_leave billing_inv_gateway billing_invD(2) tokenise_inv gw_payout_inv)

lemma billing_inv_reachable: "billing_reach y \<Longrightarrow> billing_inv y"
proof -
  assume "billing_reach y"
  then obtain t where "billing_step\<^sup>*\<^sup>* (billing_init t) y" by (auto simp: billing_reach_def)
  then show ?thesis by (induction rule: rtranclp_induct) (auto simp: billing_inv_init intro: billing_inv_step)
qed

end
