(* ===== verification/Billing_Safety.thy ===== *)
theory Billing_Safety
  imports Billing_Runs
begin

text \<open>
  What follows for the coverage activations, and that the worker as the code writes it does only
  steps of \<^const>\<open>billing_step\<close>. A confirmed charge stays confirmed with the same event, so
  every activation that was ever handed to a consumer is the event of a charge that the gateway
  made.
\<close>

section \<open>Activations\<close>

text \<open>From one state of the table to a later one, a confirmed charge keeps its event.\<close>

definition keeps_confirmed :: "charge_db \<Rightarrow> charge_db \<Rightarrow> bool" where
  "keeps_confirmed db db' \<longleftrightarrow> (\<forall>i c. gm_get (db_charges db) i = Some c \<and> ch_Status c = StatusConfirmed \<longrightarrow>
     (\<exists>c'. gm_get (db_charges db') i = Some c' \<and> ch_Status c' = StatusConfirmed \<and> ActivationEvent c' = ActivationEvent c))"

definition confirmed_event :: "charge_db \<Rightarrow> coverage_activated \<Rightarrow> bool" where
  "confirmed_event db ev \<longleftrightarrow> (\<exists>i c. gm_get (db_charges db) i = Some c \<and> ch_Status c = StatusConfirmed \<and> ActivationEvent c = ev)"

definition act_inv :: "billing_sys \<Rightarrow> bool" where
  "act_inv y \<longleftrightarrow> list_all (\<lambda>d. confirmed_event (bs_db y) (ActivationEvent d)) (bs_held y) \<and>
     list_all (confirmed_event (bs_db y)) (bs_published y)"

lemma keeps_confirmed_refl [simp]: "keeps_confirmed db db"
  by (simp add: keeps_confirmed_def)

lemma keeps_confirmed_actions [simp]: "keeps_confirmed db (db'\<lparr>db_actions := as\<rparr>) = keeps_confirmed db db'"
  by (simp add: keeps_confirmed_def)

lemma keeps_confirmed_event: "keeps_confirmed db db' \<Longrightarrow> confirmed_event db ev \<Longrightarrow> confirmed_event db' ev"
  unfolding keeps_confirmed_def confirmed_event_def by metis

lemma keeps_confirmed_update:
  assumes "charge_inv db" and "\<And>c. cond c \<Longrightarrow> ch_AcceptanceID (f c) = ch_AcceptanceID c"
    and "\<And>c. cond c \<Longrightarrow> ch_Status c = StatusConfirmed \<Longrightarrow> ch_Status (f c) = StatusConfirmed \<and> ActivationEvent (f c) = ActivationEvent c"
  shows "keeps_confirmed db (fst (update_one i cond f db))"
proof (rule update_one_cases [of db i cond f])
  fix c
  assume c: "gm_get (db_charges db) i = Some c" "cond c" "update_one i cond f db = (put_charge (f c) db, Some (f c))"
  have "ch_AcceptanceID (f c) = i" using assms(2) [OF c(2)] charge_invD [OF assms(1) c(1)] by simp
  with c assms(3) [OF c(2)] show ?thesis by (auto simp: keeps_confirmed_def)
qed simp

lemma keeps_confirmed_new:
  "gm_get (db_charges db) (ch_AcceptanceID c) = None \<Longrightarrow> keeps_confirmed db (put_charge c db)"
  by (auto simp: keeps_confirmed_def)

lemma act_inv_keeps:
  assumes "act_inv y" and "keeps_confirmed (bs_db y) db'"
  shows "act_inv (y\<lparr>bs_db := db'\<rparr>)"
  using assms keeps_confirmed_event [OF assms(2)] by (auto simp: act_inv_def list_all_iff)

lemma act_inv_simps [simp]:
  "act_inv (y\<lparr>bs_gw := g\<rparr>) = act_inv y" "act_inv (y\<lparr>bs_made := m\<rparr>) = act_inv y"
  "act_inv (y\<lparr>bs_flight := fl\<rparr>) = act_inv y" "act_inv (y\<lparr>bs_now := t\<rparr>) = act_inv y"
  by (simp_all add: act_inv_def)

lemma charge_inv_keeps:
  assumes "charge_inv db"
  shows "keeps_confirmed db (fst (CreatePending c db))"
    and "keeps_confirmed db (fst (db_AttachPaymentMethod i m t db))"
    and "keeps_confirmed db (fst (db_Resume i r db))"
    and "keeps_confirmed db (fst (db_ExpireWithoutPaymentMethod t db))"
    and "keeps_confirmed db (db_RecordDecline i code ref db)"
    and "keeps_confirmed db (fst (update_one i (charge_due t) (claimed_row t lease) db))"
    and "(\<And>c. ch_AcceptanceID (f c) = ch_AcceptanceID c) \<Longrightarrow> keeps_confirmed db (fst (held_one j (charge_held d) f db))"
proof -
  show "keeps_confirmed db (fst (CreatePending c db))"
    by (auto simp: CreatePending_def inserted_row_def intro!: keeps_confirmed_new split: sum.split)
  have "keeps_confirmed db (fst (update_one i attach_where (attached_row kb m t) db))" for kb
    by (rule keeps_confirmed_update [OF assms]) (auto simp: attach_where_def attached_row_def)
  then show "keeps_confirmed db (fst (db_AttachPaymentMethod i m t db))"
    by (auto simp: db_AttachPaymentMethod_def Let_def update_one_def split: option.splits)
  let ?u = "update_one i (\<lambda>c. ch_Status c = StatusFailed) (resumed_row r) db"
  have "keeps_confirmed db (fst ?u)"
    by (rule keeps_confirmed_update [OF assms]) (auto simp: resumed_row_def)
  then show "keeps_confirmed db (fst (db_Resume i r db))"
    by (cases ?u; cases "snd ?u") (simp_all add: db_Resume_def split: sum.split)
  show "keeps_confirmed db (fst (db_ExpireWithoutPaymentMethod t db))"
    by (auto simp: keeps_confirmed_def db_ExpireWithoutPaymentMethod_def gm_get_map expire_where_def)
  show "keeps_confirmed db (db_RecordDecline i code ref db)"
    unfolding db_RecordDecline_def by (auto intro!: keeps_confirmed_update [OF assms])
  show "keeps_confirmed db (fst (update_one i (charge_due t) (claimed_row t lease) db))"
    by (rule keeps_confirmed_update [OF assms]) (auto simp: charge_due_def)
  show "keeps_confirmed db (fst (held_one j (charge_held d) f db))" if "\<And>c. ch_AcceptanceID (f c) = ch_AcceptanceID c"
    unfolding fst_held_one by (rule keeps_confirmed_update [OF assms]) (auto simp: charge_held_def that)
qed

lemma keeps_confirmed_activation:
  assumes "charge_inv db"
  shows "keeps_confirmed db (fst (db_ClaimActivation i t lease db))"
    and "keeps_confirmed db (fst (db_MarkActivationPublished c t db))"
    and "keeps_confirmed db (fst (db_RescheduleActivation c t n z db))"
  unfolding db_ClaimActivation_def db_MarkActivationPublished_def db_RescheduleActivation_def fst_held_one
  by (rule keeps_confirmed_update [OF assms]; simp add: ActivationEvent_def)+

lemma act_inv_step:
  assumes "billing_step y z" and "billing_inv y" and "act_inv y"
  shows "act_inv z"
  using assms
proof (induction rule: billing_step.induct)
  case (claim i y lease db' c)
  have "db' = fst (update_one i (charge_due (bs_now y)) (claimed_row (bs_now y) lease) (bs_db y))"
    using claim(1) by (auto simp: db_Claim_def Let_def split: prod.splits)
  with act_inv_keeps [OF claim(4)] charge_inv_keeps(6) [OF billing_invD(1) [OF claim(3)]] show ?case by simp
next
  case (call y xs c a ys tr t y' ans)
  then show ?case by (auto simp: call_gateway_def Let_def act_inv_def split: prod.splits)
next
  case (write_result y xs c ans ys cfg t stat reason y' res)
  note inv = billing_invD(1) [OF write_result(3)]
  from record_sys [OF write_result(2)] obtain f where
    f: "(y', res) = on_db (held_one (ch_AcceptanceID c) (charge_held c) f) y" "\<And>r. 0 \<le> ch_Attempts r \<Longrightarrow> result_for ans r (f r)"
      "stat = StatusConfirmed \<Longrightarrow> \<exists>out. f = confirmed_row c t out" by metis
  let ?h = "held_one (ch_AcceptanceID c) (charge_held c) f (bs_db y)"
  have y': "y' = y\<lparr>bs_db := fst ?h\<rparr>" "res = snd ?h" using on_db_eq [OF f(1)] by auto
  show ?case
  proof (cases "\<exists>r. gm_get (db_charges (bs_db y)) (ch_AcceptanceID c) = Some r \<and> charge_held c r")
    case False
    with held_one_None [OF False] y' write_result(4) show ?thesis by (simp add: act_inv_def)
  next
    case True
    then obtain r where r: "gm_get (db_charges (bs_db y)) (ch_AcceptanceID c) = Some r" "charge_held c r" by blast
    have rf: "result_for ans r (f r)" using f(2) billing_invD(4) [OF write_result(3), of "ch_AcceptanceID c"] r(1) by simp
    have h: "?h = (put_charge (f r) (bs_db y), Inr (f r))" using held_one_Some [OF r(1), of "charge_held c", OF r(2)] .
    have "keeps_confirmed (bs_db y) (put_charge (f r) (bs_db y))"
      using r rf charge_invD [OF inv r(1)] by (auto simp: keeps_confirmed_def charge_held_def result_for_def)
    then have "act_inv (y\<lparr>bs_db := put_charge (f r) (bs_db y)\<rparr>)" using act_inv_keeps [OF write_result(4)] by blast
    moreover have "confirmed_event (put_charge (f r) (bs_db y)) (ActivationEvent (f r))" if "stat = StatusConfirmed"
      using f(3) [OF that] by (auto simp: confirmed_event_def)
    ultimately show ?thesis using y' h by (auto simp: act_inv_def)
  qed
next
  case (claim_activation i t lease y db' c)
  have db': "db' = fst (db_ClaimActivation i t lease (bs_db y))" using claim_activation(1) by simp
  obtain r where r: "gm_get (db_charges (bs_db y)) i = Some r" "activation_due t r"
    "c = r\<lparr>ch_ClaimedUntil := time_Add t lease, ch_UpdatedAt := t\<rparr>" "db' = put_charge c (bs_db y)"
    using claim_activation(1) by (auto simp: db_ClaimActivation_def update_one_def split: option.splits if_splits)
  have "confirmed_event db' (ActivationEvent c)" using r by (auto simp: confirmed_event_def activation_due_def)
  moreover have "act_inv (y\<lparr>bs_db := db'\<rparr>)"
    using act_inv_keeps [OF claim_activation(3)] keeps_confirmed_activation(1) [OF billing_invD(1) [OF claim_activation(2)]]
    unfolding db' by blast
  ultimately show ?case by (auto simp: act_inv_def)
next
  case (publish c y cfg answers t)
  let ?y = "y\<lparr>bs_published := bs_published y @ [ActivationEvent c]\<rparr>"
  have "act_inv ?y" using publish by (auto simp: act_inv_def list_all_iff)
  note k = act_inv_keeps [OF this]
  have db: "bs_db ?y = bs_db y" by simp
  note ka = keeps_confirmed_activation [OF billing_invD(1) [OF publish(2)], folded db]
  show ?case
    using k [OF ka(2)] k [OF ka(3)] by (simp add: worker_publish_def fst_on_db Let_def split: option.split)
qed (simp_all add: fst_on_db act_inv_keeps charge_inv_keeps billing_invD(1))

lemma act_inv_reachable: "billing_reach y \<Longrightarrow> act_inv y"
proof -
  assume "billing_reach y"
  then obtain t where t: "billing_step\<^sup>*\<^sup>* (billing_init t) y" by (auto simp: billing_reach_def)
  from t show ?thesis
  proof (induction rule: rtranclp_induct)
    case base
    show ?case by (simp add: act_inv_def billing_init_def)
  next
    case (step x z)
    have "billing_reach x" using step(1) by (auto simp: billing_reach_def)
    with billing_inv_reachable step act_inv_step show ?case by blast
  qed
qed

text \<open>A confirmed charge stands in the books of the gateway: one real charge under its key, for its
  customer, its amount and its currency.\<close>

lemma charged_ledger:
  assumes "gw_inv g" and "charged g c"
  shows "realCharges g (TrimSpace (ch_IdempotencyKey c)) = 1"
    and "\<exists>r. byKey g (TrimSpace (ch_IdempotencyKey c)) = Some r \<and> gr_req r = charge_payload (charge_request c)"
  using assms gw_invD(2) [OF assms(1), of "TrimSpace (ch_IdempotencyKey c)"]
  by (auto simp: charged_def gw_charged_def)

section \<open>The worker takes only these steps\<close>

text \<open>What the operations of the worker read and write of the system.\<close>

definition core :: "billing_sys \<Rightarrow> charge_db \<times> gateway \<times> (string \<Rightarrow> int) \<times> coverage_activated list" where
  "core y = (bs_db y, bs_gw y, bs_made y, bs_published y)"

lemma core_simps [simp]:
  "core (y\<lparr>bs_flight := fl\<rparr>) = core y" "core (y\<lparr>bs_held := hs\<rparr>) = core y" "core (y\<lparr>bs_now := t\<rparr>) = core y"
  by (simp_all add: core_def)

lemma core_on_db:
  assumes "core y = core z"
  shows "core (fst (on_db f y)) = core (fst (on_db f z))" and "snd (on_db f y) = snd (on_db f z)"
  using assms by (simp_all add: core_def on_db_def case_prod_beta Let_def)

lemma core_call:
  assumes "core y = core z"
  shows "core (fst (call_gateway tr c t y)) = core (fst (call_gateway tr c t z))"
    and "snd (call_gateway tr c t y) = snd (call_gateway tr c t z)"
  using assms by (simp_all add: core_def call_gateway_def case_prod_beta Let_def)

lemma core_publish: "core y = core z \<Longrightarrow> core (worker_publish cfg as t c y) = core (worker_publish cfg as t c z)"
  by (auto simp: worker_publish_def Let_def fst_on_db core_def split: option.split)

lemma core_recordDecline: "core y = core z \<Longrightarrow> core (worker_recordDecline i e y) = core (worker_recordDecline i e z)"
  by (auto simp: worker_recordDecline_def core_def split: sum.split client_error.split)

lemma record_result_form:
  obtains stat reason F where "\<And>y. record_result (sys_runner cfg) c t res y = (stat, reason, on_db F y)"
proof (cases res)
  case (Inr out)
  then show ?thesis by (intro that) (simp add: record_result_def sys_runner_def sys_store_def)
next
  case (Inl e)
  obtain nx ex where nx: "Next (bc_Retry cfg) (ch_Attempts c + 1) (ch_WindowEndsAt c) t = (nx, ex)" by fastforce
  show ?thesis
    by (cases "Classify (Some e) = OutcomeRejected"; cases ex)
      (rule that, simp add: record_result_def sys_runner_def sys_store_def Inl nx Let_def)+
qed

lemma core_record_result:
  assumes "core y = core z" and "record_result (sys_runner cfg) c t res y = (stat, reason, y', r)"
  obtains z' where "record_result (sys_runner cfg) c t res z = (stat, reason, z', r)" and "core z' = core y'"
proof -
  obtain st re F where F: "\<And>y. record_result (sys_runner cfg) c t res y = (st, re, on_db F y)" by (rule record_result_form) blast
  have y: "st = stat" "re = reason" "on_db F y = (y', r)" using assms(2) F [of y] by simp_all
  show ?thesis
  proof (rule that)
    show "record_result (sys_runner cfg) c t res z = (stat, reason, fst (on_db F z), r)"
      using F [of z] y core_on_db(2) [OF assms(1), of F] by (simp add: prod_eq_iff)
    show "core (fst (on_db F z)) = core y'" using core_on_db(1) [OF assms(1), of F] y(3) by simp
  qed
qed

lemma db_Claim_cases:
  obtains (none) "db_Claim i now lease db = (db, Inr None)"
  | (some) db' c where "db_Claim i now lease db = (db', Inr (Some c))"
  by (rule update_one_cases [of db i "charge_due now" "claimed_row now lease"]) (auto simp: db_Claim_def)

lemma publish_step: "c \<in> set (bs_held y) \<Longrightarrow> billing_step\<^sup>*\<^sup>* y (worker_publish cfg as t c y)"
  by (rule r_into_rtranclp) (rule billing_step.publish)

lemma decline_steps: "billing_step\<^sup>*\<^sup>* y (worker_recordDecline i e y)"
  by (auto simp: worker_recordDecline_def intro: billing_step.decline split: sum.split client_error.split)

text \<open>A claimed charge is called and its result recorded: three steps of the system, which end as the
  runner does.\<close>

lemma attempt_steps:
  assumes cl: "db_Claim i (bs_now y) lease (bs_db y) = (db', Inr (Some c))" and lease: "0 < lease"
    and c1: "core w1 = core (y\<lparr>bs_db := db'\<rparr>)"
    and callw: "call_gateway tr c t1 w1 = (w2, ans)"
    and recw: "record_result (sys_runner cfg) c t2 (exec_result ans) w2 = (stat, reason, w3, res)"
  obtains z where "billing_step\<^sup>*\<^sup>* y z" and "core z = core w3" and "bs_now z = bs_now y"
    and "\<And>c'. res = Inr c' \<Longrightarrow> stat = StatusConfirmed \<Longrightarrow> c' \<in> set (bs_held z)"
proof -
  define y1 where "y1 = y\<lparr>bs_db := db', bs_flight := (c, None) # bs_flight y\<rparr>"
  have s1: "billing_step y y1" unfolding y1_def using cl lease by (rule billing_step.claim)
  have "core y1 = core w1" using c1 by (simp add: y1_def core_def)
  from core_call [OF this, of tr c t1] callw
  obtain y2 where call: "call_gateway tr c t1 y1 = (y2, ans)" "core y2 = core w2" by (metis fst_conv snd_conv surj_pair)
  define y2' where "y2' = y2\<lparr>bs_flight := (c, Some ans) # bs_flight y\<rparr>"
  have s2: "billing_step y1 y2'"
    using billing_step.call [of y1 "[]" c None "bs_flight y", OF _ call(1)] by (simp add: y2'_def y1_def)
  obtain y3 where rec: "record_result (sys_runner cfg) c t2 (exec_result ans) y2' = (stat, reason, y3, res)" "core y3 = core w3"
    using core_record_result [of w2 y2', OF _ recw] call(2) by (auto simp: y2'_def)
  define hs where "hs = (case res of Inl _ \<Rightarrow> bs_held y2'
      | Inr c' \<Rightarrow> if stat = StatusConfirmed then c' # bs_held y2' else bs_held y2')"
  have s3: "billing_step y2' (y3\<lparr>bs_flight := bs_flight y, bs_held := hs\<rparr>)"
    using billing_step.write_result [of y2' "[]" c ans "bs_flight y", OF _ rec(1)] by (simp add: y2'_def hs_def)
  have "bs_now y2 = bs_now y" using call(1) by (auto simp: call_gateway_def Let_def y1_def split: prod.splits)
  moreover obtain F where "(y3, res) = on_db F y2'" by (rule record_sys [OF rec(1)]) blast
  then have "bs_now y3 = bs_now y2'" using on_db_eq by fastforce
  ultimately have now: "bs_now y3 = bs_now y" by (simp add: y2'_def)
  show ?thesis
  proof (rule that)
    show "billing_step\<^sup>*\<^sup>* y (y3\<lparr>bs_flight := bs_flight y, bs_held := hs\<rparr>)"
      using s1 s2 s3 by (meson converse_rtranclp_into_rtranclp r_into_rtranclp)
  qed (use rec(2) now in \<open>auto simp: hs_def\<close>)
qed

text \<open>One attempt of the worker, taken as steps of the system, ends in the same table, books and
  published events.\<close>

lemma worker_charge_now:
  assumes lease: "0 < bc_ClaimLease cfg" and now: "bs_now y = ce_claim env" and w: "core w = core y"
  shows "\<exists>z. billing_step\<^sup>*\<^sup>* y z \<and> core z = core (worker_charge cfg env i w) \<and> bs_now z = bs_now y"
proof -
  have db: "bs_db w = bs_db y" using w by (simp add: core_def)
  show ?thesis
  proof (rule db_Claim_cases [of i "bs_now y" "bc_ClaimLease cfg" "bs_db y"])
  assume "db_Claim i (bs_now y) (bc_ClaimLease cfg) (bs_db y) = (bs_db y, Inr None)"
  then have "worker_charge cfg env i w = w"
    by (simp add: worker_charge_def Runner_Process_def sys_runner_def sys_store_def on_db_def empty_report_def now db)
  with w show ?thesis by (intro exI [of _ y]) simp
next
  fix db' c
  assume cl: "db_Claim i (bs_now y) (bc_ClaimLease cfg) (bs_db y) = (db', Inr (Some c))"
  define w1 where "w1 = w\<lparr>bs_db := db'\<rparr>"
  obtain w2 ans where call: "call_gateway (ce_transport env) c (ce_call env) w1 = (w2, ans)" by fastforce
  obtain stat reason w3 res where rec: "record_result (sys_runner cfg) c (ce_record env) (exec_result ans) w2 = (stat, reason, w3, res)"
    using prod_cases4 by blast
  obtain z where z: "billing_step\<^sup>*\<^sup>* y z" "core z = core w3" "bs_now z = bs_now y"
    "\<And>c'. res = Inr c' \<Longrightarrow> stat = StatusConfirmed \<Longrightarrow> c' \<in> set (bs_held z)"
    by (rule attempt_steps [OF cl lease _ call rec]) (use w in \<open>auto simp: w1_def core_def\<close>)
  have wc: "worker_charge cfg env i w =
      (case res of Inl _ \<Rightarrow> w3
       | Inr c' \<Rightarrow>
          (case stat of
             StatusConfirmed \<Rightarrow> worker_publish cfg (ce_answers env) (ce_publish env) c' w3
           | StatusFailed \<Rightarrow> worker_recordDecline (ch_AcceptanceID c')
               (snd (Gateway_Charge (ce_transport env) c' (ce_call env) (bs_gw w))) w3
           | _ \<Rightarrow> w3))"
    using cl call rec
    by (simp add: db worker_charge_def Runner_Process_def sys_runner_def sys_store_def on_db_def w1_def [symmetric]
        now [symmetric] split: sum.split)
  consider (plain) "worker_charge cfg env i w = w3"
    | (publish) c' where "c' \<in> set (bs_held z)"
        "worker_charge cfg env i w = worker_publish cfg (ce_answers env) (ce_publish env) c' w3"
    | (decline) j e where "worker_charge cfg env i w = worker_recordDecline j e w3"
    using z(4) unfolding wc by (cases res; cases stat) auto
  then show ?thesis
  proof cases
    case plain
    with z show ?thesis by auto
  next
    case (publish c')
    let ?z = "worker_publish cfg (ce_answers env) (ce_publish env) c' z"
    have "bs_now ?z = bs_now z" by (simp add: worker_publish_def Let_def fst_on_db split: option.split)
    with publish z core_publish [OF z(2)] publish_step [OF publish(1)] show ?thesis
      by (metis rtranclp_trans)
  next
    case (decline j e)
    have "bs_now (worker_recordDecline j e z) = bs_now z"
      by (simp add: worker_recordDecline_def split: sum.split client_error.split)
    with decline z core_recordDecline [OF z(2)] decline_steps show ?thesis by (metis rtranclp_trans)
  qed
qed
qed

text \<open>The worker reads the clock at each claim; until then it may have moved on.\<close>

lemma worker_charge_steps:
  assumes "0 < bc_ClaimLease cfg" and "bs_now y \<le> ce_claim env" and "core w = core y"
  shows "\<exists>z. billing_step\<^sup>*\<^sup>* y z \<and> core z = core (worker_charge cfg env i w) \<and> bs_now z = ce_claim env"
proof -
  let ?y = "y\<lparr>bs_now := ce_claim env\<rparr>"
  have "billing_step y ?y" using assms(2) by (rule billing_step.tick)
  moreover obtain z where "billing_step\<^sup>*\<^sup>* ?y z" "core z = core (worker_charge cfg env i w)" "bs_now z = ce_claim env"
    using worker_charge_now [OF assms(1), of ?y env w i] assms(3) by auto
  ultimately show ?thesis by (meson converse_rtranclp_into_rtranclp)
qed

lemma retryActivation_steps:
  assumes w: "core w = core y"
  shows "\<exists>z. billing_step\<^sup>*\<^sup>* y z \<and> core z = core (worker_retryActivation cfg env i w) \<and> bs_now z = bs_now y"
proof (cases "db_ClaimActivation i (ce_claim env) (bc_ClaimLease cfg) (bs_db y)")
  case (Pair db' found)
  have db: "bs_db w = bs_db y" using w by (simp add: core_def)
  show ?thesis
  proof (cases found)
    case None
    with Pair have "db' = bs_db y" by (auto simp: db_ClaimActivation_def update_one_def split: option.splits if_splits)
    with Pair None db have "worker_retryActivation cfg env i w = w" by (simp add: worker_retryActivation_def on_db_def)
    with w show ?thesis by (intro exI [of _ y]) simp
  next
    case (Some c)
    let ?y = "y\<lparr>bs_db := db', bs_held := c # bs_held y\<rparr>"
    let ?z = "worker_publish cfg (ce_answers env) (ce_publish env) c ?y"
    have "billing_step y ?y" using Pair Some by (intro billing_step.claim_activation) simp
    moreover have "billing_step\<^sup>*\<^sup>* ?y ?z" by (rule publish_step) simp
    moreover have "core ?z = core (worker_publish cfg (ce_answers env) (ce_publish env) c (w\<lparr>bs_db := db'\<rparr>))"
      by (rule core_publish) (use w in \<open>simp add: core_def\<close>)
    moreover have "bs_now ?z = bs_now y" by (simp add: worker_publish_def Let_def fst_on_db split: option.split)
    ultimately show ?thesis using Pair Some db
      by (intro exI [of _ ?z]) (simp add: worker_retryActivation_def on_db_def converse_rtranclp_into_rtranclp)
  qed
qed

lemma fold_steps:
  assumes "\<And>i y w. bs_now y = t \<Longrightarrow> core w = core y \<Longrightarrow>
      \<exists>z. billing_step\<^sup>*\<^sup>* y z \<and> core z = core (F i w) \<and> bs_now z = t"
  shows "bs_now y = t \<Longrightarrow> core w = core y \<Longrightarrow> \<exists>z. billing_step\<^sup>*\<^sup>* y z \<and> core z = core (fold F ids w) \<and> bs_now z = t"
proof (induction ids arbitrary: y w)
  case (Cons i ids)
  from assms [OF Cons.prems] obtain x where x: "billing_step\<^sup>*\<^sup>* y x" "core x = core (F i w)" "bs_now x = t" by blast
  from Cons.IH [OF x(3), of "F i w"] x(2) obtain z where "billing_step\<^sup>*\<^sup>* x z" "core z = core (fold F ids (F i w))" "bs_now z = t"
    by auto
  with x(1) show ?case by (intro exI [of _ z]) (auto intro: rtranclp_trans)
qed auto

text \<open>The same for instants of their own, which do not go back.\<close>

lemma fold_clocked_steps:
  assumes "\<And>i y w. bs_now y \<le> clk i \<Longrightarrow> core w = core y \<Longrightarrow>
      \<exists>z. billing_step\<^sup>*\<^sup>* y z \<and> core z = core (F i w) \<and> bs_now z = clk i"
  shows "sorted (bs_now y # map clk ids) \<Longrightarrow> core w = core y \<Longrightarrow>
    \<exists>z. billing_step\<^sup>*\<^sup>* y z \<and> core z = core (fold F ids w) \<and> bs_now z = last (bs_now y # map clk ids)"
proof (induction ids arbitrary: y w)
  case (Cons i ids)
  have "bs_now y \<le> clk i" using Cons.prems(1) by simp
  from assms [OF this Cons.prems(2)] obtain x where x: "billing_step\<^sup>*\<^sup>* y x" "core x = core (F i w)" "bs_now x = clk i" by blast
  have "sorted (bs_now x # map clk ids)" using Cons.prems(1) x(3) by simp
  from Cons.IH [OF this, of "F i w"] x(2) obtain z where
    z: "billing_step\<^sup>*\<^sup>* x z" "core z = core (fold F ids (F i w))" "bs_now z = last (bs_now x # map clk ids)" by auto
  have "bs_now z = last (bs_now y # map clk (i # ids))" using z(3) x(3) by simp
  with z x(1) show ?case by (intro exI [of _ z]) (auto intro: rtranclp_trans)
qed auto

text \<open>A pass of the worker: the sweep, one attempt for every due charge and one publication for every
  due activation.\<close>

lemma ProcessDue_steps:
  fixes cfg env renv now now' y
  defines "claims \<equiv> bs_now y # map (\<lambda>i. ce_claim (env i))
    (db_ListDue now billing_batchSize (fst (db_ExpireWithoutPaymentMethod now (bs_db y))))"
  assumes "0 < bc_ClaimLease cfg" and clock: "sorted claims"
  shows "\<exists>z. billing_step\<^sup>*\<^sup>* y z \<and> core z = core (fst (worker_ProcessDue cfg env renv now now' y)) \<and> bs_now z = last claims"
proof -
  define y1 where "y1 = fst (on_db (db_ExpireWithoutPaymentMethod now) y)"
  let ?ids = "db_ListDue now billing_batchSize (bs_db y1)"
  define y2 where "y2 = fold (\<lambda>i. worker_charge cfg (env i) i) ?ids y1"
  have s1: "billing_step y y1" unfolding y1_def by (rule billing_step.expire)
  have c1: "claims = bs_now y1 # map (\<lambda>i. ce_claim (env i)) ?ids" by (simp add: claims_def y1_def fst_on_db)
  let ?W = "\<lambda>i. worker_charge cfg (env i) i" and ?A = "\<lambda>i. worker_retryActivation cfg (renv i) i"
  let ?as = "db_ListActivationsDue now' billing_batchSize (bs_db y2)"
  have W: "\<exists>z. billing_step\<^sup>*\<^sup>* u z \<and> core z = core (?W i w) \<and> bs_now z = ce_claim (env i)"
    if "bs_now u \<le> ce_claim (env i)" "core w = core u" for i u w
    using worker_charge_steps [OF assms(2) that] .
  obtain x where x: "billing_step\<^sup>*\<^sup>* y1 x" "core x = core y2" "bs_now x = last claims"
    using fold_clocked_steps [of "\<lambda>i. ce_claim (env i)" ?W, OF W clock [unfolded c1] refl] unfolding y2_def c1 by blast
  have A: "\<exists>z. billing_step\<^sup>*\<^sup>* u z \<and> core z = core (?A i w) \<and> bs_now z = last claims"
    if "bs_now u = last claims" "core w = core u" for i u w
    using retryActivation_steps [OF that(2), of cfg "renv i" i] that by simp
  obtain z where "billing_step\<^sup>*\<^sup>* x z" "core z = core (fold ?A ?as y2)" "bs_now z = last claims"
    using fold_steps [of "last claims" ?A, OF A x(3) x(2) [symmetric]] by blast
  moreover have "fst (worker_ProcessDue cfg env renv now now' y) =
      fold (\<lambda>i. worker_retryActivation cfg (renv i) i) (db_ListActivationsDue now' billing_batchSize (bs_db y2)) y2"
    by (simp add: worker_ProcessDue_def y2_def y1_def case_prod_beta Let_def)
  ultimately show ?thesis using s1 x(1) by (auto intro: rtranclp_trans converse_rtranclp_into_rtranclp)
qed

end
