(* ===== verification/Billing_Rows.thy ===== *)
theory Billing_Rows
  imports Billing_Safety
begin

text \<open>
  What every row of \<^verbatim>\<open>charge_attempt\<close> keeps in every run, and with it that the event of a confirmed
  charge, which is what the consumers receive, always passes the validation of the contract.
\<close>

section \<open>The rows\<close>

text \<open>What every row keeps: its coverage can be activated; nothing is due, in progress, declined or
  confirmed before the customer handed over a payment method; its key is the one of one of the
  payments so far; and a confirmed row carries a valid event.\<close>

definition method_ok :: "charge \<Rightarrow> bool" where
  "method_ok c \<longleftrightarrow> 0 \<le> ch_PaymentAttempt c \<and>
    (Captured (ch_PaymentMethod c) \<or> ch_NextAttemptAt c \<noteq> zero_time \<or> ch_Status c \<in> {StatusInProgress, StatusConfirmed} \<or>
     ch_FailureReason c \<in> {ChargePaymentRejected, ChargeRetryWindowExpired} \<longrightarrow> 1 \<le> ch_PaymentAttempt c)"

definition key_ok :: "charge \<Rightarrow> bool" where
  "key_ok c \<longleftrightarrow> (\<exists>n. 1 \<le> n \<and> n \<le> max 1 (ch_PaymentAttempt c) \<and> ch_IdempotencyKey c = ChargeKeyFor (ch_AcceptanceID c) n)"

definition event_ok :: "charge \<Rightarrow> bool" where
  "event_ok c \<longleftrightarrow> (ch_Status c = StatusConfirmed \<and> ch_ActivatedAt c \<noteq> zero_time \<longrightarrow>
     CoverageActivated_Validate (ActivationEvent c) = None)"

definition row_inv :: "charge \<Rightarrow> bool" where
  "row_inv c \<longleftrightarrow> activatable c \<and> method_ok c \<and> key_ok c \<and> event_ok c"

definition imm :: "charge \<Rightarrow> time \<times> coverage_terms" where
  "imm c = (ch_CoverageNotBefore c, ch_Terms c)"

definition imm_at :: "charge_db \<Rightarrow> string \<Rightarrow> (time \<times> coverage_terms) option" where
  "imm_at db i = map_option imm (gm_get (db_charges db) i)"

definition rows_inv :: "billing_sys \<Rightarrow> bool" where
  "rows_inv y \<longleftrightarrow> charge_inv (bs_db y) \<and> (\<forall>i c. gm_get (db_charges (bs_db y)) i = Some c \<longrightarrow> row_inv c) \<and>
    (\<forall>d \<in> fst ` set (bs_flight y). imm_at (bs_db y) (ch_AcceptanceID d) = Some (imm d))"

lemma rows_invD: "rows_inv y \<Longrightarrow> gm_get (db_charges (bs_db y)) i = Some c \<Longrightarrow> row_inv c"
  by (simp add: rows_inv_def)

lemma rows_inv_frame [simp]:
  "rows_inv (y\<lparr>bs_gw := g\<rparr>) = rows_inv y" "rows_inv (y\<lparr>bs_made := m\<rparr>) = rows_inv y"
  "rows_inv (y\<lparr>bs_held := hs\<rparr>) = rows_inv y" "rows_inv (y\<lparr>bs_published := es\<rparr>) = rows_inv y"
  "rows_inv (y\<lparr>bs_now := t\<rparr>) = rows_inv y"
  by (simp_all add: rows_inv_def)

lemma rows_inv_put:
  assumes y: "rows_inv y" and "row_inv r"
    and "\<And>c. gm_get (db_charges (bs_db y)) (ch_AcceptanceID r) = Some c \<Longrightarrow> imm r = imm c"
  shows "rows_inv (y\<lparr>bs_db := put_charge r (bs_db y)\<rparr>)"
  using assms unfolding rows_inv_def imm_at_def by auto

lemma rows_inv_update:
  assumes y: "rows_inv y"
    and ok: "\<And>c. gm_get (db_charges (bs_db y)) i = Some c \<Longrightarrow> row_inv c \<Longrightarrow> cond c \<Longrightarrow> ch_AcceptanceID (f c) = ch_AcceptanceID c \<and> imm (f c) = imm c \<and> row_inv (f c)"
  shows "rows_inv (y\<lparr>bs_db := fst (update_one i cond f (bs_db y))\<rparr>)"
proof (rule update_one_cases [of "bs_db y" i cond f])
  fix c
  assume c: "gm_get (db_charges (bs_db y)) i = Some c" "cond c" "update_one i cond f (bs_db y) = (put_charge (f c) (bs_db y), Some (f c))"
  have "ch_AcceptanceID c = i" using y c(1) charge_invD by (auto simp: rows_inv_def)
  with ok [OF c(1) rows_invD [OF y c(1)] c(2)] c have "rows_inv (y\<lparr>bs_db := put_charge (f c) (bs_db y)\<rparr>)"
    by (intro rows_inv_put [OF y]) auto
  with c(3) show ?thesis by simp
qed (use y in simp)

lemma rows_inv_actions: "rows_inv (y\<lparr>bs_db := db\<lparr>db_actions := as\<rparr>\<rparr>) = rows_inv (y\<lparr>bs_db := db\<rparr>)"
  by (simp add: rows_inv_def imm_at_def)

text \<open>The fields that the parts of the invariant read.\<close>

lemma activatable_cong:
  "ch_CustomerID d = ch_CustomerID c \<Longrightarrow> ch_AcceptanceID d = ch_AcceptanceID c \<Longrightarrow> ch_Holder d = ch_Holder c \<Longrightarrow>
   ch_AmountMinor d = ch_AmountMinor c \<Longrightarrow> ch_Currency d = ch_Currency c \<Longrightarrow> ch_Terms d = ch_Terms c \<Longrightarrow>
   activatable d = activatable c"
  by (simp add: activatable_def)

lemma key_ok_mono:
  "key_ok c \<Longrightarrow> ch_AcceptanceID d = ch_AcceptanceID c \<Longrightarrow> ch_IdempotencyKey d = ch_IdempotencyKey c \<Longrightarrow>
   ch_PaymentAttempt c \<le> ch_PaymentAttempt d \<Longrightarrow> key_ok d"
  by (auto simp: key_ok_def)

lemma row_inv_inserted: "fresh_charge c \<Longrightarrow> row_inv (inserted_row c)"
  by (auto simp: fresh_charge_def row_inv_def inserted_row_def activatable_def stored_terms_def method_ok_def key_ok_def
      event_ok_def no_payment_method_def Captured_def ChargeKeyFor_def Let_def intro!: exI [of _ 1])

lemma row_inv_attached:
  assumes "row_inv c" and "attach_where c"
  shows "row_inv (attached_row (charge_key (ch_AcceptanceID c)) m t c)"
proof -
  let ?r = "attached_row (charge_key (ch_AcceptanceID c)) m t c"
  have "activatable ?r" using assms(1) by (simp add: row_inv_def activatable_def attached_row_def)
  moreover have "method_ok ?r" using assms(1) by (auto simp: row_inv_def method_ok_def attached_row_def)
  moreover have "event_ok ?r" by (simp add: event_ok_def attached_row_def)
  moreover have "key_ok ?r"
  proof (cases "ch_Status c = StatusFailed")
    case True
    with assms have "1 \<le> ch_PaymentAttempt c" by (auto simp: row_inv_def method_ok_def attach_where_def)
    with True show ?thesis
      unfolding key_ok_def by (intro exI [of _ "ch_PaymentAttempt c + 1"]) (simp add: attached_row_def ChargeKeyFor_def)
  next
    case False
    with assms(1) show ?thesis by - (rule key_ok_mono [of c]; simp add: row_inv_def attached_row_def)
  qed
  ultimately show ?thesis by (simp add: row_inv_def)
qed

text \<open>The statements that change neither the snapshot, the payment method nor the key.\<close>

lemma row_inv_same:
  assumes "row_inv c" and "activatable d = activatable c" and "ch_AcceptanceID d = ch_AcceptanceID c"
    and "ch_IdempotencyKey d = ch_IdempotencyKey c" and "ch_PaymentAttempt d = ch_PaymentAttempt c"
    and "method_ok d" and "event_ok d"
  shows "row_inv d"
  using assms key_ok_mono [of c d] by (auto simp: row_inv_def)

lemma row_inv_claimed: "row_inv c \<Longrightarrow> charge_due t c \<Longrightarrow> row_inv (claimed_row t lease c)"
  by (rule row_inv_same [of c]; auto simp: claimed_row_def activatable_def row_inv_def method_ok_def event_ok_def charge_due_def)

lemma row_inv_resumed: "row_inv c \<Longrightarrow> row_inv (resumed_row r c)"
  by (rule row_inv_same [of c]; auto simp: resumed_row_def activatable_def row_inv_def method_ok_def event_ok_def)

lemma row_inv_expired: "row_inv c \<Longrightarrow> row_inv (expired_row t c)"
  by (rule row_inv_same [of c]; auto simp: expired_row_def activatable_def row_inv_def method_ok_def event_ok_def)

lemma row_inv_confirmed:
  assumes "row_inv row" and "charge_held c row" and "imm c = imm row" and "ch_AcceptanceID c = ch_AcceptanceID row"
  shows "row_inv (confirmed_row c t out row)"
proof -
  have eq: "confirmed_row c t out row = Charge_Confirmed row t (oc_Reference out)"
    using assms(3,4) by (intro confirmed_row_domain) (simp_all add: imm_def)
  have "activatable (Charge_Confirmed row t r) = activatable row" for r
    by (rule activatable_cong) (simp_all add: Charge_Confirmed_def Let_def)
  with assms(1) have a: "activatable (Charge_Confirmed row t (oc_Reference out)) = activatable row" "activatable row"
    by (simp_all add: row_inv_def)
  have "event_ok (Charge_Confirmed row t (oc_Reference out))"
    using a by (simp add: event_ok_def Validate_confirmed) (simp add: Charge_Confirmed_def Let_def)
  moreover have "method_ok (Charge_Confirmed row t (oc_Reference out))"
    using assms(1,2) by (auto simp: row_inv_def method_ok_def charge_held_def Charge_Confirmed_def Let_def)
  ultimately show ?thesis
    unfolding eq by - (rule row_inv_same [OF assms(1) a(1)]; simp add: Charge_Confirmed_def Let_def)
qed

lemma row_inv_rescheduled: "row_inv c \<Longrightarrow> charge_held d c \<Longrightarrow> row_inv (rescheduled_row t n z c)"
  by (rule row_inv_same [of c]; auto simp: rescheduled_row_def activatable_def row_inv_def method_ok_def event_ok_def charge_held_def)

lemma row_inv_failed: "row_inv c \<Longrightarrow> charge_held d c \<Longrightarrow> row_inv (failed_row t q z c)"
  by (rule row_inv_same [of c]; auto simp: failed_row_def activatable_def row_inv_def method_ok_def event_ok_def charge_held_def)

text \<open>The three rows a result can leave.\<close>

lemma record_rows:
  assumes "record_result (sys_runner cfg) c t res y = (stat, reason, y', r)"
  obtains f where "(y', r) = on_db (held_one (ch_AcceptanceID c) (charge_held c) f) y"
    and "(\<exists>out. f = confirmed_row c t out) \<or> (\<exists>n z. f = rescheduled_row t n z) \<or> (\<exists>q z. f = failed_row t q z)"
proof (cases res)
  case (Inr out)
  with assms have "(y', r) = on_db (held_one (ch_AcceptanceID c) (charge_held c) (confirmed_row c t out)) y"
    by (simp add: record_result_def sys_runner_def sys_store_def db_results_held)
  then show ?thesis by (rule that) blast
next
  case (Inl e)
  obtain nx ex where nx: "Next (bc_Retry cfg) (ch_Attempts c + 1) (ch_WindowEndsAt c) t = (nx, ex)" by fastforce
  let ?on = "\<lambda>f. on_db (held_one (ch_AcceptanceID c) (charge_held c) f) y" and ?z = "err_text e"
  have "(y', r) = ?on (failed_row t ReasonRejected ?z) \<or> (y', r) = ?on (failed_row t ReasonWindowExpired ?z) \<or>
      (y', r) = ?on (rescheduled_row t nx ?z)"
    using assms by (auto simp: record_result_def sys_runner_def sys_store_def db_results_held Inl nx Let_def split: if_splits)
  then show ?thesis using that by blast
qed

section \<open>Every step keeps the rows in order\<close>

lemma rows_inv_create: "rows_inv y \<Longrightarrow> fresh_charge c \<Longrightarrow> rows_inv (y\<lparr>bs_db := fst (CreatePending c (bs_db y))\<rparr>)"
proof -
  assume y: "rows_inv y" and c: "fresh_charge c"
  have "rows_inv (y\<lparr>bs_db := put_charge (inserted_row c) (bs_db y)\<rparr>)" if "gm_get (db_charges (bs_db y)) (ch_AcceptanceID c) = None"
    using that by (intro rows_inv_put [OF y row_inv_inserted [OF c]]) (simp add: inserted_row_def)
  with y show ?thesis by (auto simp: CreatePending_def split: sum.split)
qed

lemma rows_inv_attach: "rows_inv y \<Longrightarrow> rows_inv (y\<lparr>bs_db := fst (db_AttachPaymentMethod i m t (bs_db y))\<rparr>)"
proof -
  assume y: "rows_inv y"
  have "rows_inv (y\<lparr>bs_db := fst (update_one i attach_where (attached_row (charge_key i) m t) (bs_db y))\<rparr>)"
  proof (rule rows_inv_update [OF y])
    fix c
    assume c: "gm_get (db_charges (bs_db y)) i = Some c" "row_inv c" "attach_where c"
    have "ch_AcceptanceID c = i" using y c(1) charge_invD by (auto simp: rows_inv_def)
    with row_inv_attached [OF c(2,3), of m t]
    show "ch_AcceptanceID (attached_row (charge_key i) m t c) = ch_AcceptanceID c \<and>
        imm (attached_row (charge_key i) m t c) = imm c \<and> row_inv (attached_row (charge_key i) m t c)"
      by (simp add: attached_row_def imm_def)
  qed
  with y show ?thesis by (auto simp: db_AttachPaymentMethod_def Let_def update_one_def split: option.splits)
qed

lemma rows_inv_resume: "rows_inv y \<Longrightarrow> rows_inv (y\<lparr>bs_db := fst (db_Resume i r (bs_db y))\<rparr>)"
proof -
  assume y: "rows_inv y"
  let ?u = "update_one i (\<lambda>c. ch_Status c = StatusFailed) (resumed_row r) (bs_db y)"
  have "rows_inv (y\<lparr>bs_db := fst ?u\<rparr>)"
    by (rule rows_inv_update [OF y]) (simp add: row_inv_resumed, simp add: resumed_row_def imm_def)
  then show ?thesis
    by (cases ?u; cases "snd ?u") (simp_all add: db_Resume_def rows_inv_actions split: sum.split)
qed

lemma rows_inv_expire:
  assumes y: "rows_inv y" and d: "charge_inv (fst (db_ExpireWithoutPaymentMethod t (bs_db y)))"
  shows "rows_inv (y\<lparr>bs_db := fst (db_ExpireWithoutPaymentMethod t (bs_db y))\<rparr>)"
proof -
  have get: "gm_get (db_charges (fst (db_ExpireWithoutPaymentMethod t (bs_db y)))) i =
      map_option (\<lambda>c. if expire_where t c then expired_row t c else c) (gm_get (db_charges (bs_db y)) i)" for i
    by (simp add: db_ExpireWithoutPaymentMethod_def gm_get_map)
  have e: "imm (expired_row t c) = imm c" for c by (simp add: imm_def expired_row_def)
  have "imm_at (fst (db_ExpireWithoutPaymentMethod t (bs_db y))) i = imm_at (bs_db y) i" for i
    unfolding imm_at_def get by (cases "gm_get (db_charges (bs_db y)) i") (simp_all add: e)
  with y d show ?thesis unfolding rows_inv_def
    by (auto simp: get row_inv_expired split: if_splits)
qed

text \<open>The statements on the activation, and the code of a decline, touch nothing the rows keep.\<close>

lemma row_inv_kept:
  assumes "row_inv c" and "ch_Status d = ch_Status c" and "ActivationEvent d = ActivationEvent c"
    and "ch_ActivatedAt d = ch_ActivatedAt c" and "ch_IdempotencyKey d = ch_IdempotencyKey c"
    and "ch_PaymentAttempt d = ch_PaymentAttempt c" and "ch_PaymentMethod d = ch_PaymentMethod c"
    and "ch_NextAttemptAt d = ch_NextAttemptAt c" and "ch_FailureReason d = ch_FailureReason c"
    and "activatable d = activatable c"
  shows "row_inv d"
proof -
  have "ch_AcceptanceID d = ch_AcceptanceID c" using assms(3) by (simp add: ActivationEvent_def)
  with assms show ?thesis by - (rule row_inv_same [OF assms(1)]; simp add: row_inv_def method_ok_def event_ok_def)
qed

lemma rows_inv_kept:
  assumes "rows_inv y"
    and "\<And>c. f c = c\<lparr>ch_DeclineCode := ch_DeclineCode (f c), ch_ProviderReference := ch_ProviderReference (f c),
      ch_ClaimedUntil := ch_ClaimedUntil (f c), ch_ActivationPublishedAt := ch_ActivationPublishedAt (f c),
      ch_ActivationAttempts := ch_ActivationAttempts (f c), ch_ActivationNextAttemptAt := ch_ActivationNextAttemptAt (f c),
      ch_ActivationLastError := ch_ActivationLastError (f c), ch_UpdatedAt := ch_UpdatedAt (f c)\<rparr>"
  shows "rows_inv (y\<lparr>bs_db := fst (update_one i cond f (bs_db y))\<rparr>)"
proof (rule rows_inv_update [OF assms(1)])
  fix c
  assume "row_inv c"
  then have "row_inv (f c)"
    by (rule row_inv_kept; subst assms(2); simp add: ActivationEvent_def activatable_def)
  moreover have "ch_AcceptanceID (f c) = ch_AcceptanceID c" "imm (f c) = imm c" by (subst assms(2); simp add: imm_def)+
  ultimately show "ch_AcceptanceID (f c) = ch_AcceptanceID c \<and> imm (f c) = imm c \<and> row_inv (f c)" by simp
qed

lemma rows_inv_leave: "rows_inv y \<Longrightarrow> bs_flight y = xs @ f # ys \<Longrightarrow> rows_inv (y\<lparr>bs_flight := xs @ ys\<rparr>)"
  by (auto simp: rows_inv_def)

lemma rows_inv_claim:
  assumes y: "rows_inv y" and cl: "db_Claim i t lease (bs_db y) = (db', Inr (Some c))"
  shows "rows_inv (y\<lparr>bs_db := db', bs_flight := (c, None) # bs_flight y\<rparr>)"
proof -
  obtain r where r: "gm_get (db_charges (bs_db y)) i = Some r" "charge_due t r" "c = claimed_row t lease r" "db' = put_charge c (bs_db y)"
    using cl by (auto simp: db_Claim_def update_one_def Let_def split: option.splits if_splits)
  have ident: "ch_AcceptanceID r = i" using y r(1) charge_invD by (auto simp: rows_inv_def)
  have "rows_inv (y\<lparr>bs_db := db'\<rparr>)"
    unfolding r(4) using r(1) ident row_inv_claimed [OF rows_invD [OF y r(1)] r(2), of lease]
    by (intro rows_inv_put [OF y]) (simp_all add: r(3) imm_def, simp_all add: claimed_row_def)
  then show ?thesis using ident unfolding rows_inv_def by (auto simp: r(3,4) imm_at_def)
qed

lemma rows_inv_result:
  assumes y: "rows_inv y" and fl: "bs_flight y = xs @ (c, a) # ys"
    and f: "(\<exists>out. f = confirmed_row c t out) \<or> (\<exists>n z. f = rescheduled_row t n z) \<or> (\<exists>q z. f = failed_row t q z)"
  shows "rows_inv (y\<lparr>bs_db := fst (held_one (ch_AcceptanceID c) (charge_held c) f (bs_db y))\<rparr>)"
  unfolding fst_held_one
proof (rule rows_inv_update [OF y])
  fix r
  assume r: "gm_get (db_charges (bs_db y)) (ch_AcceptanceID c) = Some r" "row_inv r" "charge_held c r"
  have "imm c = imm r" using y fl r(1) by (auto simp: rows_inv_def imm_at_def)
  moreover have "ch_AcceptanceID c = ch_AcceptanceID r" using y r(1) charge_invD by (auto simp: rows_inv_def)
  ultimately have "row_inv (f r)" using f r(2,3) row_inv_confirmed row_inv_rescheduled row_inv_failed by blast
  moreover have "ch_AcceptanceID (f r) = ch_AcceptanceID r" "imm (f r) = imm r"
    using f by (auto simp: imm_def confirmed_row_def rescheduled_row_def failed_row_def Let_def)
  ultimately show "ch_AcceptanceID (f r) = ch_AcceptanceID r \<and> imm (f r) = imm r \<and> row_inv (f r)" by simp
qed

theorem rows_inv_step: "billing_step y z \<Longrightarrow> billing_inv y \<Longrightarrow> rows_inv y \<Longrightarrow> rows_inv z"
proof (induction rule: billing_step.induct)
  case (call y xs c a ys tr t y' ans)
  have y': "bs_db y' = bs_db y" using call(2) by (auto simp: call_gateway_def Let_def split: prod.splits)
  have "fst ` set (xs @ (c, Some ans) # ys) = fst ` set (bs_flight y)" unfolding call(1) by simp
  with call(4) y' show ?case unfolding rows_inv_def by simp
next
  case (write_result y xs c ans ys cfg t stat reason y' res)
  from record_rows [OF write_result(2)] obtain f where
    f: "(y', res) = on_db (held_one (ch_AcceptanceID c) (charge_held c) f) y"
      "(\<exists>out. f = confirmed_row c t out) \<or> (\<exists>n z. f = rescheduled_row t n z) \<or> (\<exists>q z. f = failed_row t q z)" .
  have y': "y' = y\<lparr>bs_db := fst (held_one (ch_AcceptanceID c) (charge_held c) f (bs_db y))\<rparr>" using on_db_eq [OF f(1)] by simp
  have "rows_inv y'" unfolding y' by (rule rows_inv_result [OF write_result(4,1) f(2)])
  moreover have "bs_flight y' = xs @ (c, Some ans) # ys" using write_result(1) by (simp add: y')
  ultimately have "rows_inv (y'\<lparr>bs_flight := xs @ ys\<rparr>)" by (rule rows_inv_leave)
  then show ?case by simp
next
  case (expire y t)
  from billing_invD(1) [OF billing_inv_expire [OF expire(1)]] rows_inv_expire [OF expire(2), of t] show ?case by (simp add: fst_on_db)
next
  case (decline y i code ref)
  have "rows_inv (y\<lparr>bs_db := fst (update_one i cond (\<lambda>c. c\<lparr>ch_DeclineCode := u c, ch_ProviderReference := v c\<rparr>) (bs_db y))\<rparr>)"
    for cond u v by (rule rows_inv_kept [OF decline(2)]) simp
  with decline show ?case by (simp add: db_RecordDecline_def)
next
  case (claim_activation i t lease y db' c)
  have "rows_inv (y\<lparr>bs_db := fst (db_ClaimActivation i t lease (bs_db y))\<rparr>)"
    unfolding db_ClaimActivation_def by (rule rows_inv_kept [OF claim_activation(3)]) simp
  with claim_activation(1) show ?case by simp
next
  case (publish c y cfg answers t)
  have "rows_inv (y\<lparr>bs_db := fst (db_MarkActivationPublished c t (bs_db y))\<rparr>)"
    unfolding db_MarkActivationPublished_def fst_held_one by (rule rows_inv_kept [OF publish(3)]) simp
  moreover have "rows_inv (y\<lparr>bs_db := fst (db_RescheduleActivation c t n z (bs_db y))\<rparr>)" for n z
    unfolding db_RescheduleActivation_def fst_held_one by (rule rows_inv_kept [OF publish(3)]) simp
  ultimately show ?case by (simp add: worker_publish_def fst_on_db Let_def rows_inv_def split: option.split)
qed (simp_all add: fst_on_db rows_inv_create rows_inv_attach rows_inv_resume rows_inv_claim rows_inv_leave)

theorem rows_inv_reachable: "billing_reach y \<Longrightarrow> rows_inv y"
proof -
  assume "billing_reach y"
  then obtain t where "billing_step\<^sup>*\<^sup>* (billing_init t) y" by (auto simp: billing_reach_def)
  then show ?thesis
  proof (induction rule: rtranclp_induct)
    case base
    show ?case by (simp add: rows_inv_def billing_init_def) (simp add: empty_charge_db_def)
  next
    case (step x z)
    then have "billing_reach x" by (auto simp: billing_reach_def)
    with step show ?case using rows_inv_step billing_inv_reachable by blast
  qed
qed

end
