(* ===== verification/Billing_Scenario.thy ===== *)
theory Billing_Scenario
  imports Billing_Rows
begin

text \<open>
  Runs of the premium charges, evaluated. \<open>exec_cmd\<close> runs one command on the definitions of the model;
  every command is at most one step of \<^const>\<open>billing_step\<close>, so what a list of commands reaches from the
  start is reachable. The first run charges and activates a coverage. The second one charges the
  same acceptance twice.
\<close>

section \<open>Commands\<close>

datatype billing_cmd =
    Tick time | Create_charge charge | Attach string payment_method time | Resume_charge string charge_resumption
  | Expire time | Take string duration | Call_gateway nat transport time | Record_answer nat billing_config time
  | Publish nat billing_config "go_error option list" time | Card tokenRequest

fun exec_cmd :: "billing_cmd \<Rightarrow> billing_sys \<Rightarrow> billing_sys" where
  "exec_cmd (Tick t) y = (if bs_now y \<le> t then y\<lparr>bs_now := t\<rparr> else y)"
| "exec_cmd (Create_charge c) y = (if fresh_charge c then fst (on_db (CreatePending c) y) else y)"
| "exec_cmd (Attach i m t) y = fst (on_db (db_AttachPaymentMethod i m t) y)"
| "exec_cmd (Resume_charge i r) y = fst (on_db (db_Resume i r) y)"
| "exec_cmd (Expire t) y = fst (on_db (db_ExpireWithoutPaymentMethod t) y)"
| "exec_cmd (Take i lease) y =
    (case db_Claim i (bs_now y) lease (bs_db y) of
       (db', Inr (Some c)) \<Rightarrow> if 0 < lease then y\<lparr>bs_db := db', bs_flight := (c, None) # bs_flight y\<rparr> else y
     | _ \<Rightarrow> y)"
| "exec_cmd (Call_gateway n tr t) y =
    (case drop n (bs_flight y) of [] \<Rightarrow> y
     | (c, a) # ys \<Rightarrow> (let (y', ans) = call_gateway tr c t y in y'\<lparr>bs_flight := take n (bs_flight y) @ (c, Some ans) # ys\<rparr>))"
| "exec_cmd (Record_answer n cfg t) y =
    (case drop n (bs_flight y) of
       (c, Some ans) # ys \<Rightarrow>
         (let (stat, reason, y', res) = record_result (sys_runner cfg) c t (exec_result ans) y in
          y'\<lparr>bs_flight := take n (bs_flight y) @ ys,
             bs_held := (case res of Inl _ \<Rightarrow> bs_held y | Inr c' \<Rightarrow> if stat = StatusConfirmed then c' # bs_held y else bs_held y)\<rparr>)
     | _ \<Rightarrow> y)"
| "exec_cmd (Publish n cfg answers t) y =
    (case drop n (bs_held y) of [] \<Rightarrow> y | c # _ \<Rightarrow> worker_publish cfg answers t c y)"
| "exec_cmd (Card body) y = y\<lparr>bs_gw := fst (tokenise (Some body) (bs_gw y))\<rparr>"

lemma split_at: "drop n xs = x # ys \<Longrightarrow> xs = take n xs @ x # ys"
  by (metis append_take_drop_id)

lemma exec_steps: "billing_step\<^sup>*\<^sup>* y (exec_cmd cmd y)"
proof (cases cmd)
  case (Tick t)
  then show ?thesis by (auto intro: billing_step.tick)
next
  case (Create_charge c)
  then show ?thesis by (auto intro: billing_step.create)
next
  case (Attach i m t)
  then show ?thesis by (auto intro: billing_step.attach)
next
  case (Resume_charge i r)
  then show ?thesis by (auto intro: billing_step.resume)
next
  case (Expire t)
  then show ?thesis by (auto intro: billing_step.expire)
next
  case (Take i lease)
  then show ?thesis by (auto intro: billing_step.claim split: prod.split sum.split option.split)
next
  case (Call_gateway n tr t)
  show ?thesis
  proof (cases "drop n (bs_flight y)")
    case (Cons f ys)
    obtain c a where f: "f = (c, a)" by (cases f)
    obtain y' ans where cg: "call_gateway tr c t y = (y', ans)" by fastforce
    have "billing_step y (y'\<lparr>bs_flight := take n (bs_flight y) @ (c, Some ans) # ys\<rparr>)"
      by (rule billing_step.call [OF split_at [OF Cons [unfolded f]] cg])
    with Call_gateway Cons f cg show ?thesis by simp
  qed (simp add: Call_gateway)
next
  case (Record_answer n cfg t)
  show ?thesis
  proof (cases "\<exists>c ans ys. drop n (bs_flight y) = (c, Some ans) # ys")
    case True
    then obtain c ans ys where fl: "drop n (bs_flight y) = (c, Some ans) # ys" by blast
    obtain stat reason y' res where rr: "record_result (sys_runner cfg) c t (exec_result ans) y = (stat, reason, y', res)"
      by (metis prod_cases4)
    from billing_step.write_result [OF split_at [OF fl] rr] show ?thesis by (simp add: Record_answer fl rr)
  next
    case False
    then have "exec_cmd cmd y = y" by (auto simp: Record_answer split: list.split option.split prod.split)
    then show ?thesis by simp
  qed
next
  case (Publish n cfg answers t)
  show ?thesis
  proof (cases "drop n (bs_held y)")
    case (Cons c ys)
    then have "c \<in> set (bs_held y)" by (metis in_set_dropD list.set_intros(1))
    with publish_step show ?thesis by (simp add: Publish Cons)
  qed (simp add: Publish)
next
  case (Card body)
  then show ?thesis by (auto intro: billing_step.card)
qed

definition run :: "billing_cmd list \<Rightarrow> time \<Rightarrow> billing_sys" where
  "run cmds t = foldl (\<lambda>y c. exec_cmd c y) (billing_init t) cmds"

lemma run_reachable: "billing_reach (run cmds t)"
proof -
  have "billing_step\<^sup>*\<^sup>* y (foldl (\<lambda>y c. exec_cmd c y) y cmds)" for y
    by (induction cmds arbitrary: y) (auto intro: rtranclp_trans exec_steps)
  then show ?thesis by (auto simp: billing_reach_def run_def)
qed

section \<open>One acceptance\<close>

definition run_acceptance :: orig_acceptance where
  "run_acceptance = \<lparr>ac_ID = ''a1'', ac_OfferID = ''o1'', ac_CustomerID = ''ana'', ac_Channel = ''web'', ac_AcceptedAt = 90\<rparr>"

definition run_coverage_terms :: coverage_terms where
  "run_coverage_terms = \<lparr>ct_InsuredAmount = 1000, ct_TermMonths = 12, ct_Coverages = [\<lparr>ocv_Code = ''theft'', ocv_InsuredAmount = 1000\<rparr>]\<rparr>"

definition run_offer :: orig_offer where
  "run_offer = \<lparr>of_ID = ''o1'', of_CustomerID = ''ana'',
     of_Applicant = \<lparr>ap_FullName = ''Ana'', ap_DocumentID = ''1'', ap_Email = ''ana at example''\<rparr>,
     of_Premium = 50, of_Currency = ''COP'', of_Mode = ''standard'', of_ProfileScore = 1, of_ExpiresAt = 1000, of_Terms = run_coverage_terms\<rparr>"

definition run_policy :: retry_policy where
  "run_policy = \<lparr>rp_Base = 10, rp_Max = 40, rp_Window = 100\<rparr>"

definition run_config :: billing_config where
  "run_config = \<lparr>bc_PollInterval = 1, bc_ClaimLease = 30, bc_Retry = run_policy\<rparr>"

definition run_new_charge :: charge where
  "run_new_charge = NewCharge run_acceptance run_offer run_coverage_terms 100 (WindowEnd run_policy 100)"

definition run_card :: "string \<Rightarrow> payment_method" where
  "run_card token = no_payment_method\<lparr>pm_Kind := PaymentCard, pm_Token := token, pm_Installments := 1\<rparr>"

definition run_start :: "billing_cmd list" where
  "run_start = [Card \<lparr>tq_Number = ''4111111111111111'', tq_Holder = ''Ana''\<rparr>, Card \<lparr>tq_Number = ''4242424242424242'', tq_Holder = ''Ana''\<rparr>,
     Create_charge run_new_charge, Attach ''a1'' (run_card ''tok_11111'') 110, Tick 120, Take ''a1'' 30]"

text \<open>The charge is made, recorded and activated.\<close>

definition run_normal :: "billing_cmd list" where
  "run_normal = run_start @ [Call_gateway 0 Answered 121, Record_answer 0 run_config 122, Publish 0 run_config [None] 123]"

text \<open>
  The answer of the first call is lost: the money moved. The window closes with the charge unknown,
  so it fails with \<^verbatim>\<open>retry_window_expired\<close>; an analyst resumes it, which puts its attempts back to
  zero, and that is what \<^verbatim>\<open>AttachPaymentMethod\<close> takes for a charge that was never attempted: the
  customer hands over another card under the same key. The gateway answers 422 to a key that comes
  back with another card, the client calls every 4xx a rejection, and the rejected charge takes a
  third method, now under a key of its own, which is charged again.
\<close>

definition run_twice :: "billing_cmd list" where
  "run_twice = run_start @ [Call_gateway 0 (AnswerLost ''timeout'') 121, Tick 250, Record_answer 0 run_config 250,
     Resume_charge ''a1'' \<lparr>rs_By = ''ops'', rs_Note = ''retry'', rs_At = 260, rs_WindowEndsAt = 360\<rparr>,
     Attach ''a1'' (run_card ''tok_24242'') 270, Tick 270, Take ''a1'' 30, Call_gateway 0 Answered 271, Record_answer 0 run_config 272,
     Attach ''a1'' (run_card ''tok_24242'') 280, Tick 290, Take ''a1'' 30, Call_gateway 0 Answered 291, Record_answer 0 run_config 292]"

definition run_row :: "billing_sys \<Rightarrow> charge" where
  "run_row y = the (gm_get (db_charges (bs_db y)) ''a1'')"

lemma run_normal_state:
  "let y = run run_normal 100 in
   gm_get (db_charges (bs_db y)) ''a1'' = Some (run_row y) \<and> ch_Status (run_row y) = StatusConfirmed \<and>
   ch_ResumeCount (run_row y) = 0 \<and> bs_made y ''a1'' = 1 \<and> bs_published y = [ActivationEvent (run_row y)] \<and>
   ch_ActivatedAt (run_row y) = 122 \<and> ev_Premium (ActivationEvent (run_row y)) = 50"
  by code_simp

lemma run_twice_state:
  "let y = run run_twice 100 in
   gm_get (db_charges (bs_db y)) ''a1'' = Some (run_row y) \<and> ch_Status (run_row y) = StatusConfirmed \<and>
   ch_ResumeCount (run_row y) = 1 \<and> bs_made y ''a1'' = 2 \<and> realCharges (bs_gw y) (ChargeKeyFor ''a1'' 1) = 1 \<and>
   realCharges (bs_gw y) (ChargeKeyFor ''a1'' 3) = 1"
  by code_simp

text \<open>A charge that waits for its payment method.\<close>

lemma run_created_state:
  "let y = run [Create_charge run_new_charge] 100 in
   gm_get (db_charges (bs_db y)) ''a1'' = Some (run_row y) \<and> TakesPaymentMethod (run_row y) \<and>
   ch_PaymentAttempt (run_row y) = 0 \<and> \<not> Captured (ch_PaymentMethod (run_row y)) \<and>
   \<not> key_taken ''a1'' (ch_IdempotencyKey (WithPaymentMethod (run_row y) (run_card ''tok_11111'') 110)) (bs_db y)"
  by code_simp

text \<open>Two charges with their cards; a pass of the worker at 120 claims the first at 120 and, after its call, the
  second at 126. The answer of the second call is lost.\<close>

definition run_waiting :: "billing_cmd list" where
  "run_waiting = [Card \<lparr>tq_Number = ''4111111111111111'', tq_Holder = ''Ana''\<rparr>, Create_charge run_new_charge,
     Create_charge (NewCharge (run_acceptance\<lparr>ac_ID := ''b2'', ac_OfferID := ''o2''\<rparr>) (run_offer\<lparr>of_ID := ''o2''\<rparr>)
       run_coverage_terms 100 (WindowEnd run_policy 100)),
     Attach ''a1'' (run_card ''tok_11111'') 110, Attach ''b2'' (run_card ''tok_11111'') 111]"

definition run_env :: "string \<Rightarrow> charge_env" where
  "run_env i = (if i = ''a1''
     then \<lparr>ce_transport = Answered, ce_answers = [None], ce_claim = 120, ce_call = 121, ce_record = 124, ce_publish = 125\<rparr>
     else \<lparr>ce_transport = AnswerLost ''timeout'', ce_answers = [None], ce_claim = 126, ce_call = 127, ce_record = 132, ce_publish = 133\<rparr>)"

lemma run_waiting_state:
  "let y = run run_waiting 100; z = fst (worker_ProcessDue run_config run_env run_env 120 134 y) in
   bs_now y = 100 \<and>
   db_ListDue 120 billing_batchSize (fst (db_ExpireWithoutPaymentMethod 120 (bs_db y))) = [''a1'', ''b2''] \<and>
   bs_made z ''a1'' = 1 \<and> bs_made z ''b2'' = 1 \<and> bs_published z = [ActivationEvent (run_row z)] \<and>
   map_option ch_Status (gm_get (db_charges (bs_db z)) ''a1'') = Some StatusConfirmed \<and>
   map_option ch_Status (gm_get (db_charges (bs_db z)) ''b2'') = Some StatusPending"
  by code_simp

end
