(* ===== verification/Billing_Properties.thy ===== *)
theory Billing_Properties
  imports Billing_Scenario
begin

text \<open>
  The properties of the premium charges: what the gateway was made to move, what the consumers of a
  coverage activation may rely on, and how the statements of the table and the worker stand to the
  rules of the domain and to the steps of the runs.
\<close>

text \<open>C5. A premium is charged once. In every state that workers, customers, analysts and the gateway
  can reach together, with lost requests and answers, crashes, expired claims and any number of
  payment methods, the calls for an acceptance that no analyst resumed moved money at most once.\<close>

theorem premium_charged_once:
  assumes "billing_reach y" and "gm_get (db_charges (bs_db y)) i = Some c" and "ch_ResumeCount c = 0"
  shows "0 \<le> bs_made y i \<and> bs_made y i \<le> 1"
  using billing_invD(4) [OF billing_inv_reachable [OF assms(1)], of i] assms(2,3) by (auto simp: money_ok_def)

theorem premium_charged_once_witness:
  "bs_made (run run_normal 100) ''a1'' = 1 \<and> 0 \<le> bs_made (run run_normal 100) ''a1'' \<and> bs_made (run run_normal 100) ''a1'' \<le> 1"
  using premium_charged_once [OF run_reachable, of run_normal 100 "''a1''" "run_row (run run_normal 100)"]
    run_normal_state [unfolded Let_def] by blast

text \<open>C6. After a resumption the bound does not hold: there is a run in which one acceptance, resumed
  once, is charged twice, each time under a key of its own. A charge whose answer was lost fails when
  its window ends; the resumption puts its attempts back to zero, which lets the customer replace the
  card under the same key; the gateway refuses that key for another card, the client takes the
  refusal for a decline, and the next card is charged under the next key.\<close>

theorem resumed_premium_charged_twice:
  "\<exists>y c. billing_reach y \<and> gm_get (db_charges (bs_db y)) ''a1'' = Some c \<and> ch_ResumeCount c = 1 \<and> bs_made y ''a1'' = 2 \<and>
     realCharges (bs_gw y) (ChargeKeyFor ''a1'' 1) = 1 \<and> realCharges (bs_gw y) (ChargeKeyFor ''a1'' 3) = 1"
  using run_reachable [of run_twice 100] run_twice_state [unfolded Let_def] by blast

text \<open>C7. Only paid coverages are activated. Every activation that a consumer ever received is the
  event of a charge that is confirmed, of the customer, the amount and the currency of a request that
  the gateway charged, exactly once, under the key of that charge, and it passes the validation of the
  contract (for a confirmation that has a date).\<close>

theorem activations_are_paid:
  assumes "billing_reach y" and "ev \<in> set (bs_published y)"
  shows "\<exists>i c r. gm_get (db_charges (bs_db y)) i = Some c \<and> ch_Status c = StatusConfirmed \<and> ev = ActivationEvent c \<and>
    realCharges (bs_gw y) (TrimSpace (ch_IdempotencyKey c)) = 1 \<and>
    byKey (bs_gw y) (TrimSpace (ch_IdempotencyKey c)) = Some r \<and> cq_CustomerID (gr_req r) = ev_CustomerID ev \<and>
    FromMinorUnits (cq_AmountMinor (gr_req r)) = ev_Premium ev \<and> cq_Currency (gr_req r) = ev_Currency ev \<and>
    (ev_ActivatedAt ev = zero_time \<or> CoverageActivated_Validate ev = None)"
proof -
  note S = billing_invD [OF billing_inv_reachable [OF assms(1)]]
  from act_inv_reachable [OF assms(1)] assms(2) obtain i c where
    c: "gm_get (db_charges (bs_db y)) i = Some c" "ch_Status c = StatusConfirmed" "ActivationEvent c = ev"
    by (auto simp: act_inv_def list_all_iff confirmed_event_def)
  have ch: "charged (bs_gw y) c" using S(4) [of i] c by simp
  from charged_ledger(2) [OF S(2) ch] obtain r where
    r: "byKey (bs_gw y) (TrimSpace (ch_IdempotencyKey c)) = Some r" "gr_req r = charge_payload (charge_request c)" by blast
  have "event_ok c" using rows_invD [OF rows_inv_reachable [OF assms(1)] c(1)] by (simp add: row_inv_def)
  then have "ev_ActivatedAt ev = zero_time \<or> CoverageActivated_Validate ev = None"
    using c(2,3) by (auto simp: event_ok_def ActivationEvent_def)
  with c r charged_ledger(1) [OF S(2) ch] show ?thesis
    by (intro exI [of _ i] exI [of _ c] exI [of _ r]) (auto simp: ActivationEvent_def charge_payload_def charge_request_def)
qed

theorem activations_are_paid_witness:
  "\<exists>ev i c r. bs_published (run run_normal 100) = [ev] \<and>
    gm_get (db_charges (bs_db (run run_normal 100))) i = Some c \<and> ch_Status c = StatusConfirmed \<and> ev = ActivationEvent c \<and>
    realCharges (bs_gw (run run_normal 100)) (TrimSpace (ch_IdempotencyKey c)) = 1 \<and>
    byKey (bs_gw (run run_normal 100)) (TrimSpace (ch_IdempotencyKey c)) = Some r \<and> cq_CustomerID (gr_req r) = ev_CustomerID ev"
  using activations_are_paid [OF run_reachable, of "ActivationEvent (run_row (run run_normal 100))" run_normal 100]
    run_normal_state [unfolded Let_def] by auto

text \<open>C8. The worker takes only the steps of the runs. A whole pass of it, the sweep of the charges without
  payment method, an attempt for each due charge and a publication for each due activation, ends with
  the same table, the same gateway and the same activations as a sequence of atomic steps, and with
  the clock at the last claim. The worker reads the clock anew for each claim and for each of the other
  instants of an attempt; all that is asked is that the lease is positive and that the readings of the
  claims, in the order of the list, do not go back behind the clock of the system or behind each other. So what holds of every run
  holds of the code of the worker.\<close>

theorem worker_refines_the_runs:
  assumes "0 < bc_ClaimLease cfg"
    and "sorted (bs_now y # map (\<lambda>i. ce_claim (env i))
      (db_ListDue now billing_batchSize (fst (db_ExpireWithoutPaymentMethod now (bs_db y)))))"
  shows "\<exists>z. billing_step\<^sup>*\<^sup>* y z \<and>
    (bs_db z, bs_gw z, bs_made z, bs_published z) =
      (let w = fst (worker_ProcessDue cfg env renv now now' y) in (bs_db w, bs_gw w, bs_made w, bs_published w)) \<and>
    bs_now z = last (bs_now y # map (\<lambda>i. ce_claim (env i))
      (db_ListDue now billing_batchSize (fst (db_ExpireWithoutPaymentMethod now (bs_db y)))))"
  using ProcessDue_steps [OF assms] by (simp only: core_def Let_def)

text \<open>A pass at 120 that claims two charges, the second one six instants later, charges both, publishes the
  activation of the first and leaves the second, whose answer was lost, for later.\<close>

theorem worker_refines_the_runs_witness:
  "\<exists>y z. billing_reach y \<and> billing_step\<^sup>*\<^sup>* y z \<and> bs_now y = 100 \<and> bs_now z = 126 \<and>
    bs_made z ''a1'' = 1 \<and> bs_made z ''b2'' = 1 \<and> length (bs_published z) = 1 \<and>
    map_option ch_Status (gm_get (db_charges (bs_db z)) ''a1'') = Some StatusConfirmed \<and>
    map_option ch_Status (gm_get (db_charges (bs_db z)) ''b2'') = Some StatusPending"
proof -
  let ?y = "run run_waiting 100"
  note st = run_waiting_state [unfolded Let_def]
  then have due: "db_ListDue 120 billing_batchSize (fst (db_ExpireWithoutPaymentMethod 120 (bs_db ?y))) = [''a1'', ''b2'']"
    and now: "bs_now ?y = 100" by simp_all
  have claims: "ce_claim (run_env ''a1'') = 120" "ce_claim (run_env ''b2'') = 126" by (simp_all add: run_env_def)
  have "0 < bc_ClaimLease run_config" by (simp add: run_config_def)
  from worker_refines_the_runs [OF this, of ?y run_env 120 run_env 134] obtain z where
    "billing_step\<^sup>*\<^sup>* ?y z" "bs_now z = 126"
    "(bs_db z, bs_gw z, bs_made z, bs_published z) = (let w = fst (worker_ProcessDue run_config run_env run_env 120 134 ?y)
       in (bs_db w, bs_gw w, bs_made w, bs_published w))"
    by (auto simp: due now claims)
  with st now run_reachable [of run_waiting 100] show ?thesis by (intro exI [of _ ?y] exI [of _ z]) (simp add: Let_def)
qed

text \<open>C9. The statement that stores a payment method is the rule of the domain. In every reachable
  state it accepts exactly the charges that \<open>TakesPaymentMethod\<close> names, and the row it leaves is the
  one of \<open>WithPaymentMethod\<close> with the traces of the previous method cleared; otherwise nothing
  changes. A key of another acceptance is never taken over.\<close>

theorem payment_method_rule:
  assumes "billing_reach y" and "gm_get (db_charges (bs_db y)) i = Some c"
  shows "db_AttachPaymentMethod i m t (bs_db y) =
    (let d = (WithPaymentMethod c m t)\<lparr>ch_ClaimedUntil := zero_time, ch_FailureReason := NoChargeFailure, ch_LastError := '''',
           ch_DeclineCode := '''', ch_ProviderReference := ''''\<rparr> in
     if \<not> TakesPaymentMethod c then (bs_db y, Inl ErrChargeNotPayable)
     else if key_taken i (ch_IdempotencyKey d) (bs_db y) then
       (bs_db y, Inl (constraint_error (''attach the payment method of '' @ i @ '': '') ''charge_attempt_idempotency_key_key''))
     else (put_charge d (bs_db y), Inr d))"
proof -
  have i: "ch_AcceptanceID c = i" using billing_invD(1) [OF billing_inv_reachable [OF assms(1)]] assms(2) by (rule charge_invD)
  have "row_inv c" using rows_inv_reachable [OF assms(1)] assms(2) by (rule rows_invD)
  then have "1 \<le> ch_PaymentAttempt c" if "TakesPaymentMethod c" "ch_Status c = StatusFailed"
    using that by (auto simp: row_inv_def method_ok_def TakesPaymentMethod_def)
  with attached_row_domain [of c m t] show ?thesis
    by (auto simp: db_AttachPaymentMethod_def Let_def assms(2) i attach_where_takes)
qed

theorem payment_method_rule_witness:
  "\<exists>d. db_AttachPaymentMethod ''a1'' (run_card ''tok_11111'') 110 (bs_db (run [Create_charge run_new_charge] 100)) =
    (put_charge d (bs_db (run [Create_charge run_new_charge] 100)), Inr d)"
proof -
  note s = run_created_state [unfolded Let_def]
  from payment_method_rule [OF run_reachable, of "[Create_charge run_new_charge]" 100 "''a1''"
      "run_row (run [Create_charge run_new_charge] 100)" "run_card ''tok_11111''" 110]
  show ?thesis using s by (simp add: Let_def)
qed

text \<open>Nothing is charged before the customer hands over a payment method: in every reachable state
  the worker that picks up a charge without one, for whatever reason, claims nothing, calls nobody and
  leaves the whole system as it is.\<close>

theorem nothing_charged_without_method:
  assumes "billing_reach y" and "gm_get (db_charges (bs_db y)) i = Some c" and "ch_PaymentAttempt c = 0"
    and "\<not> Captured (ch_PaymentMethod c)"
  shows "worker_charge cfg env i y = y"
proof -
  have "row_inv c" using rows_inv_reachable [OF assms(1)] assms(2) by (rule rows_invD)
  with assms(3) have "\<not> charge_due (ce_claim env) c" by (auto simp: row_inv_def method_ok_def charge_due_def)
  then have "db_Claim i (ce_claim env) l (bs_db y) = (bs_db y, Inr None)" for l
    using assms(2) by (simp add: db_Claim_def update_one_def)
  then show ?thesis
    by (simp add: worker_charge_def Runner_Process_def sys_runner_def sys_store_def on_db_def empty_report_def)
qed

theorem nothing_charged_without_method_witness:
  "worker_charge run_config \<lparr>ce_transport = Answered, ce_answers = [], ce_claim = 500, ce_call = 501, ce_record = 502, ce_publish = 503\<rparr>
     ''a1'' (run [Create_charge run_new_charge] 100) = run [Create_charge run_new_charge] 100"
  using run_created_state [unfolded Let_def]
  by (intro nothing_charged_without_method [OF run_reachable, of _ _ _ "run_row (run [Create_charge run_new_charge] 100)"]) auto

text \<open>C10. Amounts survive the minor units: whatever the rounding of the floating-point operations, an
  amount in minor units that is turned into the number of a document and back is the same, up to
  \<open>2 ^ 50\<close> in either direction.\<close>

theorem minor_units_round_trip:
  assumes "\<bar>m\<bar> \<le> 2 ^ 50"
  shows "ToMinorUnits (FromMinorUnits m) = m"
  using assms by (rule ToMinorUnits_FromMinorUnits)

theorem minor_units_round_trip_witness: "ToMinorUnits (FromMinorUnits 1999) = 1999"
  by (rule minor_units_round_trip) simp

text \<open>What starts can be activated later: a charge that the starter stores has a premium and
  whatever its confirmation date, its event will be valid, because \<open>ValidateActivation\<close> reads nothing
  that a charge changes; and an offer without premium or with an unusable snapshot stores nothing.\<close>

theorem starter_stores_what_activates:
  assumes "Starter_Start terms policy a offer now db = (db', err)" and "gm_get (db_charges db') i = Some c"
    and "gm_get (db_charges db) i \<noteq> Some c" and "t \<noteq> zero_time"
  shows "err = None \<and> i = ac_ID a \<and> 0 < ch_AmountMinor c \<and> ch_Status c = StatusPending \<and> ValidateActivation c t = None"
proof -
  obtain tms where tms: "terms offer = Inr tms"
    using assms(1-3) by (cases "terms offer") (auto simp: Starter_Start_def)
  let ?c = "NewCharge a offer tms now (WindowEnd policy now)"
  have v: "0 < ch_AmountMinor ?c" "ValidateActivation ?c now = None"
    using assms(1-3) by (auto simp: Starter_Start_def tms Let_def split: if_splits option.splits)
  have new: "CreatePending ?c db = (put_charge (inserted_row ?c) db, Inr (inserted_row ?c, True))" "err = None"
    "db' = put_charge (inserted_row ?c) db"
    using assms(1-3) v by (auto simp: Starter_Start_def tms Let_def CreatePending_def split: if_splits option.splits sum.splits)
  have i: "i = ac_ID a" "c = inserted_row ?c"
    using assms(2,3) by (auto simp: new(3) inserted_row_def NewCharge_def split: if_splits)
  have "activatable (inserted_row ?c) = activatable ?c"
    by (simp add: inserted_row_def activatable_def stored_terms_def)
  with v(2) assms(4) have "ValidateActivation c t = None" by (simp add: ValidateActivation_iff i(2))
  with v(1) new(2) i show ?thesis by (simp add: inserted_row_def)
qed

theorem starter_stores_what_activates_witness:
  "\<exists>c. gm_get (db_charges (fst (Starter_Start (\<lambda>_. Inr run_coverage_terms) run_policy run_acceptance run_offer 100 empty_charge_db))) ''a1'' = Some c \<and>
     0 < ch_AmountMinor c \<and> ValidateActivation c 555 = None"
proof -
  let ?s = "Starter_Start (\<lambda>_. Inr run_coverage_terms) run_policy run_acceptance run_offer 100 empty_charge_db"
  have "gm_get (db_charges (fst ?s)) ''a1'' \<noteq> None" by code_simp
  then obtain c where c: "gm_get (db_charges (fst ?s)) ''a1'' = Some c" by blast
  have "gm_get (db_charges empty_charge_db) ''a1'' \<noteq> Some c" by (simp add: empty_charge_db_def)
  from starter_stores_what_activates [OF prod.collapse [symmetric] c this, of 555] c show ?thesis by simp
qed

end
