(* ===== verification/Consents.thy ===== *)
theory Consents
  imports Claims_Rules Gocalendar
begin

text \<open>
  \<^verbatim>\<open>services/audit/internal/domain\<close>: the consent of a customer to be profiled, its terms and the
  validation of a grant (\<^verbatim>\<open>consent.go\<close>); the status derived from the record and its events
  (\<^verbatim>\<open>consent_view.go\<close>); the revocation, the state of the notice to each entity and the checks of a
  revocation (\<^verbatim>\<open>revocation.go\<close>, \<^verbatim>\<open>compliance_revocation.go\<close>); and the document of the holder
  (\<^verbatim>\<open>holder_link.go\<close>, \<^verbatim>\<open>compliance_state.go\<close>).

  The tables of Unicode are an argument where the code reads them beyond ASCII: which runes are
  letters, and the upper case of a rune. Times are UTC instants, so \<^verbatim>\<open>UTC()\<close> is the identity. The
  JSON in the details of an event is the value it encodes; \<open>OtherDetails\<close> is anything else.
\<close>

section \<open>Names and documents\<close>

record unicode_tables =
  uc_letter :: "nat \<Rightarrow> bool"
  uc_upper :: "nat \<Rightarrow> nat"

text \<open>\<^verbatim>\<open>unicode.IsSpace\<close>; the second equation evaluates small runes without the large ones.\<close>

definition is_space_rune :: "nat \<Rightarrow> bool" where
  "is_space_rune r \<longleftrightarrow> r \<in> set space_runes"

lemma is_space_rune_code [code]:
  "is_space_rune r = (if r < 256 then r \<in> set [9, 10, 11, 12, 13, 32, 133, 160] else r \<in> set space_runes)"
  by (auto simp: is_space_rune_def space_runes_def)

text \<open>\<^verbatim>\<open>strings.Fields\<close>: the pieces between runs of spaces.\<close>

function Fields_loop :: "string \<Rightarrow> string \<Rightarrow> string list" where
  "Fields_loop s cur =
    (let flush = (if cur = [] then [] else [cur]) in
     if s = [] then flush
     else (let (r, w) = decode_rune s in
           if is_space_rune r then flush @ Fields_loop (drop w s) []
           else Fields_loop (drop w s) (cur @ take w s)))"
  by pat_completeness auto
termination
proof (relation "measure (\<lambda>(s, cur). length s)", goal_cases)
  case (2 s cur flush x r w)
  then have "1 \<le> w" using decode_rune_width [of s] by (metis snd_conv)
  with 2 show ?case by (cases s) (auto simp del: decode_rune.simps)
next
  case (3 s cur flush x r w)
  then have "1 \<le> w" using decode_rune_width [of s] by (metis snd_conv)
  with 3 show ?case by (cases s) (auto simp del: decode_rune.simps)
qed simp

declare Fields_loop.simps [simp del]

lemma Fields_loop_code [code]:
  "Fields_loop s cur =
    (if s = [] then (if cur = [] then [] else [cur])
     else if is_space_rune (fst (decode_rune s))
          then (if cur = [] then [] else [cur]) @ Fields_loop (drop (snd (decode_rune s)) s) []
          else Fields_loop (drop (snd (decode_rune s)) s) (cur @ take (snd (decode_rune s)) s))"
  by (subst Fields_loop.simps) (simp add: Let_def split: prod.split)

definition Fields :: "string \<Rightarrow> string list" where
  "Fields s = Fields_loop s []"

fun join_with :: "string \<Rightarrow> string list \<Rightarrow> string" where
  "join_with sep [] = []"
| "join_with sep [s] = s"
| "join_with sep (s # ss) = s @ sep @ join_with sep ss"

definition normalizeName :: "string \<Rightarrow> string" where
  "normalizeName s = join_with '' '' (Fields s)"

definition hasLetter :: "unicode_tables \<Rightarrow> string \<Rightarrow> bool" where
  "hasLetter u s = list_ex (uc_letter u) (runes s)"

text \<open>\<^verbatim>\<open>strings.ToUpper\<close>: byte by byte for an ASCII string, rune by rune for any other.\<close>

definition upper_rune :: "unicode_tables \<Rightarrow> nat \<Rightarrow> nat" where
  "upper_rune u r = (if r < 128 then (if 97 \<le> r \<and> r \<le> 122 then r - 32 else r) else uc_upper u r)"

definition ToUpper :: "unicode_tables \<Rightarrow> string \<Rightarrow> string" where
  "ToUpper u s = encode_runes (map (upper_rune u) (runes s))"

definition NormalizeDocument :: "unicode_tables \<Rightarrow> string \<Rightarrow> string" where
  "NormalizeDocument u s = ToUpper u (TrimSpace s)"

definition MaskDocument :: "string \<Rightarrow> string" where
  "MaskDocument doc =
    (let rs = runes (TrimSpace doc); n = length rs in
     if n \<le> 4 then replicate n (CHR ''*'')
     else replicate (n - 4) (CHR ''*'') @ encode_runes (drop (n - 4) rs))"

section \<open>The consent\<close>

definition TermsVersionV1 :: string where "TermsVersionV1 = ''v1''"
definition SourceOpenFinance :: string where "SourceOpenFinance = ''open_finance''"
definition SourceOpenData :: string where "SourceOpenData = ''open_data''"
definition SourceKYC :: string where "SourceKYC = ''kyc''"
definition Validity12Months :: string where "Validity12Months = ''12_months''"
definition ValiditySingleUse :: string where "ValiditySingleUse = ''single_use''"
definition ConsentValidityMonths :: int where "ConsentValidityMonths = 12"
definition ChannelEmbedded :: string where "ChannelEmbedded = ''embedded''"

record source_term =
  stm_Code :: string
  stm_DataCategories :: "string list"
  stm_Validity :: string

record consent_terms =
  tms_Version :: string
  tms_Purpose :: string
  tms_Controller :: string
  tms_PolicyRef :: string
  tms_Sources :: "source_term list"

definition TermsV1 :: consent_terms where
  "TermsV1 = \<lparr>tms_Version = TermsVersionV1, tms_Purpose = ''risk_profiling_mortgage_life_offer'',
     tms_Controller = ''Solventa S.A.'', tms_PolicyRef = ''personal-data-policy-v1'',
     tms_Sources =
      [\<lparr>stm_Code = SourceOpenFinance, stm_DataCategories = [''credit_products'', ''balances'', ''payment_behavior''],
        stm_Validity = Validity12Months\<rparr>,
       \<lparr>stm_Code = SourceOpenData, stm_DataCategories = [''public_records''], stm_Validity = Validity12Months\<rparr>,
       \<lparr>stm_Code = SourceKYC, stm_DataCategories = [''identity_verification''], stm_Validity = ValiditySingleUse\<rparr>]\<rparr>"

definition SourceCodes :: "consent_terms \<Rightarrow> string list" where
  "SourceCodes t = map stm_Code (tms_Sources t)"

record consent_holder =
  chd_DocumentID :: string
  chd_FullName :: string

record consent =
  cn_ID :: string
  cn_CustomerID :: string
  cn_Holder :: consent_holder
  cn_TermsVersion :: string
  cn_Scope :: "source_term list"
  cn_Purpose :: string
  cn_Channel :: string
  cn_PartnerID :: string
  cn_ApplicationID :: string
  cn_UserAgent :: string
  cn_GrantedAt :: time

definition ExpiresAt :: "consent \<Rightarrow> time" where
  "ExpiresAt c = AddMonths (cn_GrantedAt c) ConsentValidityMonths"

definition consent_Active :: "consent \<Rightarrow> time \<Rightarrow> bool" where
  "consent_Active c now \<longleftrightarrow> now < ExpiresAt c"

text \<open>The loop over the scope ends at the first entry of the source.\<close>

definition ActiveFor :: "consent \<Rightarrow> string \<Rightarrow> time \<Rightarrow> bool" where
  "ActiveFor c source now =
    (case find (\<lambda>s. stm_Code s = source) (cn_Scope c) of None \<Rightarrow> False | Some _ \<Rightarrow> consent_Active c now)"

definition ActiveSources :: "consent \<Rightarrow> time \<Rightarrow> string list" where
  "ActiveSources c now = filter (\<lambda>code. ActiveFor c code now) (map stm_Code (cn_Scope c))"

record verification =
  vf_Active :: bool
  vf_ConsentID :: string
  vf_GrantedAt :: time
  vf_ExpiresAt :: time
  vf_Sources :: "string list"

section \<open>The request of a grant\<close>

definition CodeIncomplete :: string where "CodeIncomplete = ''incomplete''"
definition CodeMustBeTrue :: string where "CodeMustBeTrue = ''must_be_true''"
definition MaxIdentifierLength :: nat where "MaxIdentifierLength = 128"
definition minFullNameLength :: nat where "minFullNameLength = 3"
definition maxFullNameLength :: nat where "maxFullNameLength = 120"
definition maxUserAgentLength :: nat where "maxUserAgentLength = 512"
definition ErrTermsOutdated :: go_error where "ErrTermsOutdated = errors_New ''the consent terms version is outdated''"

record grant_request =
  gq_CustomerID :: string
  gq_DocumentID :: string
  gq_FullName :: string
  gq_TermsVersion :: string
  gq_AcceptedSources :: "string list"
  gq_AcceptedDataPolicy :: bool
  gq_Channel :: string
  gq_PartnerID :: string
  gq_ApplicationID :: string
  gq_UserAgent :: string

text \<open>\<^verbatim>\<open>^[A-Za-z0-9_-]+$\<close> and \<^verbatim>\<open>^[A-Za-z0-9]{5,20}$\<close>\<close>

definition identifierPattern :: "string \<Rightarrow> bool" where
  "identifierPattern s \<longleftrightarrow> s \<noteq> [] \<and> list_all (\<lambda>c. is_alnum c \<or> c = CHR ''_'' \<or> c = CHR ''-'') s"

definition documentPattern :: "string \<Rightarrow> bool" where
  "documentPattern s = class_match is_alnum 5 20 s"

definition sameSources :: "string list \<Rightarrow> string list \<Rightarrow> bool" where
  "sameSources accepted want \<longleftrightarrow> (if length accepted \<noteq> length want then False else sort accepted = sort want)"

definition grant_identifier :: "string \<Rightarrow> string \<Rightarrow> field_error list" where
  "grant_identifier field value =
    (if value = '''' then [fe field CodeRequired]
     else if length value > MaxIdentifierLength \<or> \<not> identifierPattern value then [fe field CodeInvalidFormat]
     else [])"

datatype consent_error = ConsentInvalid "field_error list" | ConsentErr go_error

definition GrantRequest_Validate :: "unicode_tables \<Rightarrow> grant_request \<Rightarrow> consent_terms \<Rightarrow> consent_error option" where
  "GrantRequest_Validate u r terms =
    (let doc = TrimSpace (gq_DocumentID r);
         name = normalizeName (gq_FullName r);
         fields =
           grant_identifier ''customer_id'' (gq_CustomerID r) @
           grant_identifier ''partner_id'' (gq_PartnerID r) @
           grant_identifier ''application_id'' (gq_ApplicationID r) @
           (if doc = '''' then [fe ''document_id'' CodeRequired]
            else if \<not> documentPattern doc then [fe ''document_id'' CodeInvalidFormat] else []) @
           (if name = '''' then [fe ''full_name'' CodeRequired]
            else if rune_count name < minFullNameLength \<or> rune_count name > maxFullNameLength \<or> \<not> hasLetter u name
            then [fe ''full_name'' CodeInvalidFormat] else []) @
           (if gq_TermsVersion r = '''' then [fe ''terms_version'' CodeRequired] else []) @
           (if gq_AcceptedSources r = [] then [fe ''accepted_sources'' CodeRequired]
            else if \<not> sameSources (gq_AcceptedSources r) (SourceCodes terms) then [fe ''accepted_sources'' CodeIncomplete]
            else []) @
           (if \<not> gq_AcceptedDataPolicy r then [fe ''accepted_data_policy'' CodeMustBeTrue] else []) @
           (if gq_Channel r = '''' then [fe ''channel'' CodeRequired]
            else if gq_Channel r \<noteq> ChannelEmbedded then [fe ''channel'' CodeInvalidFormat] else []) @
           (if length (gq_UserAgent r) > maxUserAgentLength then [fe ''user_agent'' CodeOutOfRange] else [])
     in if fields \<noteq> [] then Some (ConsentInvalid fields)
        else if gq_TermsVersion r \<noteq> tms_Version terms then Some (ConsentErr ErrTermsOutdated)
        else None)"

definition GrantRequest_Holder :: "grant_request \<Rightarrow> consent_holder" where
  "GrantRequest_Holder r = \<lparr>chd_DocumentID = TrimSpace (gq_DocumentID r), chd_FullName = normalizeName (gq_FullName r)\<rparr>"

end
