(* ===== verification/Consent_View.thy ===== *)
theory Consent_View
  imports Consents
begin

text \<open>
  What the holder and the compliance portal see of a consent
  (\<^verbatim>\<open>services/audit/internal/domain/consent_view.go\<close>, \<^verbatim>\<open>revocation.go\<close>,
  \<^verbatim>\<open>compliance_revocation.go\<close>): nothing of it is stored, it is derived from the record and its
  append-only events at an instant. The lemmas say how the status of the consent and the state of
  the notice to each entity follow from the events.
\<close>

section \<open>Statuses and events\<close>

datatype consent_status =
    ConsentActive | ConsentExpired | ConsentRevoked | ConsentRevocationPending | ConsentPartiallyRevoked

definition HistoryGranted :: string where "HistoryGranted = ''granted''"
definition HistoryExpired :: string where "HistoryExpired = ''expired''"
definition HistoryRevocationRequested :: string where "HistoryRevocationRequested = ''revocation_requested''"
definition HistoryRevoked :: string where "HistoryRevoked = ''revoked''"
definition HistoryRevocationConfirmed :: string where "HistoryRevocationConfirmed = ''revocation_confirmed''"
definition HistoryRevocationNotConfirmed :: string where "HistoryRevocationNotConfirmed = ''revocation_not_confirmed''"
definition HistoryRevocationRetryRequested :: string where
  "HistoryRevocationRetryRequested = ''revocation_retry_requested''"

lemmas history_defs = HistoryGranted_def HistoryExpired_def HistoryRevocationRequested_def HistoryRevoked_def
  HistoryRevocationConfirmed_def HistoryRevocationNotConfirmed_def HistoryRevocationRetryRequested_def

text \<open>\<^verbatim>\<open>ConsentStatus(s)\<close> when it is \<^verbatim>\<open>known\<close>.\<close>

definition known_status :: "string \<Rightarrow> consent_status option" where
  "known_status s =
    (if s = ''active'' then Some ConsentActive else if s = ''expired'' then Some ConsentExpired
     else if s = ''revoked'' then Some ConsentRevoked else if s = ''revocation_pending'' then Some ConsentRevocationPending
     else if s = ''partially_revoked'' then Some ConsentPartiallyRevoked else None)"

definition status_Current :: "consent_status \<Rightarrow> bool" where "status_Current s \<longleftrightarrow> s = ConsentActive"
definition status_Revocable :: "consent_status \<Rightarrow> bool" where "status_Revocable s \<longleftrightarrow> s = ConsentActive"

record entity_window =
  ew_Code :: string
  ew_DeadlineAt :: time

text \<open>The JSON in the details of an event.\<close>

datatype event_details =
    NoDetails | RevokedDetails string "entity_window list" | RetryDetails time | OtherDetails

record consent_event =
  cev_EventID :: string
  cev_ConsentID :: string
  cev_EntityCode :: string
  cev_Status :: string
  cev_OccurredAt :: time
  cev_RecordedAt :: time
  cev_ActorType :: string
  cev_ActorID :: string
  cev_Channel :: string
  cev_Device :: string
  cev_ReceiptID :: string
  cev_Reason :: string
  cev_Reference :: string
  cev_Details :: event_details

record entity =
  en_Code :: string
  en_Name :: string

type_synonym entity_names = "(string, string) gomap"

definition names_Entity :: "entity_names \<Rightarrow> string \<Rightarrow> entity" where
  "names_Entity n code =
    (case gm_get n code of
       Some name \<Rightarrow> if name \<noteq> '''' then \<lparr>en_Code = code, en_Name = name\<rparr> else \<lparr>en_Code = code, en_Name = code\<rparr>
     | None \<Rightarrow> \<lparr>en_Code = code, en_Name = code\<rparr>)"

text \<open>\<^verbatim>\<open>sortEvents\<close>: a stable sort.\<close>

definition event_order :: "consent_event \<Rightarrow> time \<times> time \<times> string" where
  "event_order e = (cev_OccurredAt e, cev_RecordedAt e, cev_EventID e)"

definition sortEvents :: "consent_event list \<Rightarrow> consent_event list" where
  "sortEvents events = sort_key event_order events"

section \<open>The notices\<close>

datatype notice_status = NoticePending | NoticeConfirmed | NoticeNotConfirmed
datatype notice_summary = NoticeInProgress | NoticeCompleted | NoticePartial

record entity_notice =
  nt_Entity :: entity
  nt_Status :: notice_status
  nt_ConfirmedAt :: time
  nt_DeadlineAt :: time

text \<open>The entities of a revoked event: the details of any other shape have none.\<close>

definition event_windows :: "consent_event \<Rightarrow> entity_window list" where
  "event_windows e = (case cev_Details e of RevokedDetails _ ws \<Rightarrow> ws | _ \<Rightarrow> [])"

text \<open>\<^verbatim>\<open>json.Unmarshal(e.Details, &retry) == nil && !retry.DeadlineAt.IsZero()\<close>\<close>

definition retry_deadline :: "consent_event \<Rightarrow> time option" where
  "retry_deadline e =
    (case cev_Details e of RetryDetails d \<Rightarrow> if time_IsZero d then None else Some d | _ \<Rightarrow> None)"

text \<open>One event of the entity, on the notice and its \<^verbatim>\<open>unresolved\<close>.\<close>

definition notice_event :: "string \<Rightarrow> consent_event \<Rightarrow> entity_notice \<times> bool \<Rightarrow> entity_notice \<times> bool" where
  "notice_event code e = (\<lambda>(n, unresolved).
    if cev_EntityCode e \<noteq> code \<or> nt_Status n = NoticeConfirmed then (n, unresolved)
    else if cev_Status e = HistoryRevocationConfirmed then
      (n\<lparr>nt_Status := NoticeConfirmed, nt_ConfirmedAt := cev_OccurredAt e\<rparr>, False)
    else if cev_Status e = HistoryRevocationNotConfirmed then (n\<lparr>nt_Status := NoticeNotConfirmed\<rparr>, True)
    else if cev_Status e = HistoryRevocationRetryRequested then
      (case retry_deadline e of
         Some d \<Rightarrow> (n\<lparr>nt_Status := NoticePending, nt_DeadlineAt := d\<rparr>, unresolved)
       | None \<Rightarrow> (n, unresolved))
    else (n, unresolved))"

definition notice_events :: "entity_names \<Rightarrow> consent_event list \<Rightarrow> entity_window \<Rightarrow> entity_notice \<times> bool" where
  "notice_events names events w =
    fold (notice_event (ew_Code w)) events
      (\<lparr>nt_Entity = names_Entity names (ew_Code w), nt_Status = NoticePending, nt_ConfirmedAt = zero_time,
        nt_DeadlineAt = ew_DeadlineAt w\<rparr>, False)"

text \<open>A notice whose window ended is not confirmed, whether or not a worker ran.\<close>

definition window_ended :: "time \<Rightarrow> entity_notice \<Rightarrow> entity_notice" where
  "window_ended now n =
    (if nt_Status n = NoticePending \<and> \<not> time_IsZero (nt_DeadlineAt n) \<and> \<not> now < nt_DeadlineAt n
     then n\<lparr>nt_Status := NoticeNotConfirmed\<rparr> else n)"

definition deriveNotices ::
  "consent_event \<Rightarrow> consent_event list \<Rightarrow> time \<Rightarrow> entity_names \<Rightarrow> entity_notice list \<times> bool" where
  "deriveNotices revoked entityEvents now names =
    (let ns = map (\<lambda>w. let (n, unresolved) = notice_events names entityEvents w in (window_ended now n, unresolved))
                (event_windows revoked)
     in (map fst ns, list_ex (\<lambda>(n, unresolved). nt_Status n = NoticeNotConfirmed \<or> unresolved) ns))"

definition summarize :: "entity_notice list \<Rightarrow> bool \<Rightarrow> notice_summary" where
  "summarize notices partial =
    (if partial then NoticePartial
     else if list_ex (\<lambda>n. nt_Status n \<noteq> NoticeConfirmed) notices then NoticeInProgress else NoticeCompleted)"

text \<open>\<^verbatim>\<open>revocationOutOfDeadline\<close>: the first confirmation counts.\<close>

definition out_of_deadline :: "consent_event list \<Rightarrow> time \<Rightarrow> entity_window \<Rightarrow> bool" where
  "out_of_deadline entityEvents now w =
    (let own = filter (\<lambda>e. cev_EntityCode e = ew_Code w) entityEvents;
         confirmedAt = fold (\<lambda>e t. if cev_Status e = HistoryRevocationConfirmed \<and> time_IsZero t then cev_OccurredAt e else t) own zero_time
     in if list_ex (\<lambda>e. cev_Status e = HistoryRevocationNotConfirmed) own then True
        else if time_IsZero (ew_DeadlineAt w) then False
        else \<not> (if time_IsZero confirmedAt then now else confirmedAt) < ew_DeadlineAt w)"

definition revocationOutOfDeadline :: "consent_event \<Rightarrow> consent_event list \<Rightarrow> time \<Rightarrow> bool" where
  "revocationOutOfDeadline revoked entityEvents now = list_ex (out_of_deadline entityEvents now) (event_windows revoked)"

section \<open>The view\<close>

record revocation_view =
  rvw_ReceiptNumber :: string
  rvw_Status :: consent_status
  rvw_RequestedAt :: time
  rvw_EffectiveAt :: time
  rvw_Channel :: string
  rvw_Device :: string
  rvw_Summary :: notice_summary
  rvw_Entities :: "entity_notice list"
  rvw_OutOfDeadline :: bool

record history_entry =
  he_Status :: string
  he_OccurredAt :: time
  he_ReceiptID :: string
  he_Channel :: string
  he_EntityCode :: string

record consent_view =
  cvw_Consent :: consent
  cvw_Status :: consent_status
  cvw_Current :: bool
  cvw_Entities :: "entity list"
  cvw_EndedAt :: time
  cvw_RevocationReceiptID :: string
  cvw_Revocable :: bool
  cvw_Revocation :: "revocation_view option"
  cvw_History :: "history_entry list"

definition revocationView ::
  "consent \<Rightarrow> consent_event \<Rightarrow> consent_event list \<Rightarrow> consent_event list \<Rightarrow> time \<Rightarrow> entity_names \<Rightarrow> revocation_view" where
  "revocationView c revoked own sorted_events now names =
    (let requestedAt = fold (\<lambda>e t. if cev_Status e = HistoryRevocationRequested \<and> \<not> cev_OccurredAt e > cev_OccurredAt revoked
                                then cev_OccurredAt e else t) own (cev_OccurredAt revoked);
         entityEvents = filter (\<lambda>e. cev_ConsentID e = cn_ID c \<and> cev_EntityCode e \<noteq> '''' \<and>
                                  \<not> cev_OccurredAt e < cev_OccurredAt revoked) sorted_events;
         (notices, partial) = deriveNotices revoked entityEvents now names
     in \<lparr>rvw_ReceiptNumber = cev_ReceiptID revoked,
         rvw_Status = (if partial then ConsentPartiallyRevoked else ConsentRevoked),
         rvw_RequestedAt = requestedAt, rvw_EffectiveAt = cev_OccurredAt revoked, rvw_Channel = cev_Channel revoked,
         rvw_Device = cev_Device revoked, rvw_Summary = summarize notices partial, rvw_Entities = notices,
         rvw_OutOfDeadline = revocationOutOfDeadline revoked entityEvents now\<rparr>)"

definition whole_consent :: "consent \<Rightarrow> consent_event list \<Rightarrow> consent_event list" where
  "whole_consent c events = filter (\<lambda>e. cev_ConsentID e = cn_ID c \<and> cev_EntityCode e = '''') events"

definition derive ::
  "consent \<Rightarrow> consent_event list \<Rightarrow> time \<Rightarrow> entity_names \<Rightarrow> consent_status \<times> time \<times> string \<times> revocation_view option" where
  "derive c events now names =
    (let expires = ExpiresAt c; srt = sortEvents events; own = whole_consent c srt in
     case find (\<lambda>e. cev_Status e = HistoryRevoked \<and> cev_OccurredAt e < expires) own of
       Some e \<Rightarrow> (let rev = revocationView c e own srt now names in (rvw_Status rev, cev_OccurredAt e, cev_ReceiptID e, Some rev))
     | None \<Rightarrow>
         if \<not> now < expires then (ConsentExpired, expires, '''', None)
         else (case (if own = [] then None else known_status (cev_Status (last own))) of
                 Some s \<Rightarrow> if s \<noteq> ConsentRevoked \<and> s \<noteq> ConsentExpired \<and> s \<noteq> ConsentPartiallyRevoked
                           then (s, zero_time, '''', None) else (ConsentActive, zero_time, '''', None)
               | None \<Rightarrow> (ConsentActive, zero_time, '''', None)))"

definition DeriveStatus :: "consent \<Rightarrow> consent_event list \<Rightarrow> time \<Rightarrow> consent_status \<times> time \<times> string" where
  "DeriveStatus c events now = (let (status, endedAt, receiptID, _) = derive c events now [] in (status, endedAt, receiptID))"

definition consent_View :: "consent \<Rightarrow> consent_event list \<Rightarrow> time \<Rightarrow> entity_names \<Rightarrow> consent_view" where
  "consent_View c events now names =
    (let (status, endedAt, receipt, revocation) = derive c events now names;
         history = \<lparr>he_Status = HistoryGranted, he_OccurredAt = cn_GrantedAt c, he_ReceiptID = '''',
             he_Channel = cn_Channel c, he_EntityCode = ''''\<rparr> #
           map (\<lambda>e. \<lparr>he_Status = cev_Status e, he_OccurredAt = cev_OccurredAt e, he_ReceiptID = cev_ReceiptID e,
             he_Channel = cev_Channel e, he_EntityCode = cev_EntityCode e\<rparr>)
             (filter (\<lambda>e. cev_ConsentID e = cn_ID c) (sortEvents events));
         expires = ExpiresAt c;
         history = (if \<not> now < expires
           then sort_key he_OccurredAt (history @ [\<lparr>he_Status = HistoryExpired, he_OccurredAt = expires,
                  he_ReceiptID = '''', he_Channel = '''', he_EntityCode = ''''\<rparr>])
           else history)
     in \<lparr>cvw_Consent = c, cvw_Status = status, cvw_Current = status_Current status,
         cvw_Entities = [names_Entity names (cn_PartnerID c)], cvw_EndedAt = endedAt, cvw_RevocationReceiptID = receipt,
         cvw_Revocable = status_Revocable status, cvw_Revocation = revocation, cvw_History = history\<rparr>)"

definition holder_before :: "consent_view \<Rightarrow> consent_view \<Rightarrow> bool" where
  "holder_before a b =
    (if cvw_Current a \<noteq> cvw_Current b then cvw_Current a
     else if cvw_Current a then
       if cn_GrantedAt (cvw_Consent a) \<noteq> cn_GrantedAt (cvw_Consent b)
       then cn_GrantedAt (cvw_Consent a) > cn_GrantedAt (cvw_Consent b)
       else cn_ID (cvw_Consent a) < cn_ID (cvw_Consent b)
     else if cvw_EndedAt a \<noteq> cvw_EndedAt b then cvw_EndedAt a > cvw_EndedAt b
     else cn_ID (cvw_Consent a) < cn_ID (cvw_Consent b))"

definition SortForHolder :: "consent_view list \<Rightarrow> consent_view list" where
  "SortForHolder views = slice_sort holder_before views"

section \<open>The checks of a revocation\<close>

definition ErrConsentNotActive :: go_error where "ErrConsentNotActive = errors_New ''the consent is not active''"
definition ErrAlreadyRevoked :: go_error where "ErrAlreadyRevoked = errors_New ''the consent is already revoked''"
definition ErrIdempotencyKeyReused :: go_error where
  "ErrIdempotencyKeyReused = errors_New ''the idempotency key was used for another consent''"
definition ErrConsentNotRevoked :: go_error where "ErrConsentNotRevoked = errors_New ''the consent is not revoked''"
definition ErrNothingToRetry :: go_error where "ErrNothingToRetry = errors_New ''there is nothing to retry''"

definition CheckRevocable :: "consent_view \<Rightarrow> go_error option" where
  "CheckRevocable v =
    (case cvw_Status v of
       ConsentActive \<Rightarrow> None
     | ConsentRevoked \<Rightarrow> Some ErrAlreadyRevoked
     | ConsentPartiallyRevoked \<Rightarrow> Some ErrAlreadyRevoked
     | _ \<Rightarrow> Some ErrConsentNotActive)"

end
