(* ===== verification/Revocations.thy ===== *)
theory Revocations
  imports Consent_View
begin

text \<open>
  The request of a revocation and its record (\<^verbatim>\<open>services/audit/internal/domain/revocation.go\<close>,
  \<^verbatim>\<open>compliance_revocation.go\<close>): what the holder's app and the compliance portal send, how it is
  checked and normalized, the immutable record and its receipt number.
\<close>

section \<open>The record\<close>

definition RevocationChannelMobileApp :: string where "RevocationChannelMobileApp = ''mobile_app''"
definition RevocationChannelCompliancePortal :: string where "RevocationChannelCompliancePortal = ''compliance_portal''"
definition ActorHolder :: string where "ActorHolder = ''holder''"
definition ActorSystem :: string where "ActorSystem = ''system''"
definition ActorOperations :: string where "ActorOperations = ''operations''"
definition ConfirmationBiometric :: string where "ConfirmationBiometric = ''biometric''"
definition ConfirmationPassword :: string where "ConfirmationPassword = ''password''"
definition ConfirmationRoleAttestation :: string where "ConfirmationRoleAttestation = ''role_attestation''"
definition RevocationNoticeDeadline :: duration where "RevocationNoticeDeadline = 5 * time_Minute"
definition MaxDeviceLength :: nat where "MaxDeviceLength = 120"
definition MaxClockSkew :: duration where "MaxClockSkew = 2 * time_Minute"

record actor =
  act_Type :: string
  act_ID :: string

record revoke_request =
  rvq_RequestedAt :: time
  rvq_Device :: string
  rvq_ConfirmationMethod :: string

record revocation =
  rv_ID :: string
  rv_ConsentID :: string
  rv_ReceiptNumber :: string
  rv_Holder :: consent_holder
  rv_Scope :: "source_term list"
  rv_Entities :: "entity list"
  rv_RequestedAt :: time
  rv_EffectiveAt :: time
  rv_NoticeDeadlineAt :: time
  rv_Channel :: string
  rv_Device :: string
  rv_ConfirmationMethod :: string
  rv_Actor :: actor
  rv_Reason :: string
  rv_Reference :: string
  rv_RequestID :: string

definition RevokeRequest_Validate :: "revoke_request \<Rightarrow> consent \<Rightarrow> time \<Rightarrow> field_error list" where
  "RevokeRequest_Validate r c now =
    (if time_IsZero (rvq_RequestedAt r) then [fe ''requested_at'' CodeRequired]
     else if rvq_RequestedAt r > time_Add now MaxClockSkew \<or> rvq_RequestedAt r < cn_GrantedAt c
     then [fe ''requested_at'' CodeOutOfRange] else []) @
    (let device = normalizeName (rvq_Device r) in
     if device = '''' then [fe ''device'' CodeRequired]
     else if rune_count device > MaxDeviceLength then [fe ''device'' CodeOutOfRange] else []) @
    (if rvq_ConfirmationMethod r = ConfirmationBiometric \<or> rvq_ConfirmationMethod r = ConfirmationPassword then []
     else if rvq_ConfirmationMethod r = '''' then [fe ''confirmation_method'' CodeRequired]
     else [fe ''confirmation_method'' CodeInvalidFormat])"

definition NormalizedDevice :: "revoke_request \<Rightarrow> string" where
  "NormalizedDevice r = normalizeName (rvq_Device r)"

text \<open>\<^verbatim>\<open>REV-%d-%04d\<close>, with the year of Colombia, five hours behind UTC.\<close>

definition receiptZone :: duration where "receiptZone = - 5 * time_Hour"

definition FormatReceiptNumber :: "time \<Rightarrow> nat \<Rightarrow> string" where
  "FormatReceiptNumber effectiveAt sq =
    ''REV-'' @ FormatInt (time_Year (time_Add effectiveAt receiptZone)) @ ''-'' @ pad_dec 4 sq"

section \<open>The compliance portal\<close>

definition MinReferenceLength :: nat where "MinReferenceLength = 3"
definition MaxReferenceLength :: nat where "MaxReferenceLength = 64"

definition RevocationReason_Valid :: "string \<Rightarrow> bool" where
  "RevocationReason_Valid r \<longleftrightarrow> r = ''customer_request'' \<or> r = ''regulatory_order''"

record compliance_revoke_request =
  cmq_Reason :: string
  cmq_Reference :: string
  cmq_RoleConfirmed :: bool
  cmq_UserAgent :: string

text \<open>\<^verbatim>\<open>^[A-Za-z0-9 ./#_-]+$\<close>\<close>

definition referencePattern :: "string \<Rightarrow> bool" where
  "referencePattern s \<longleftrightarrow> s \<noteq> [] \<and>
    list_all (\<lambda>c. is_alnum c \<or> c \<in> {CHR '' '', CHR ''.'', CHR ''/'', CHR ''#'', CHR ''_'', CHR ''-''}) s"

definition referenceCode :: "string \<Rightarrow> string option" where
  "referenceCode reference =
    (let ref = normalizeName reference in
     if ref = '''' then Some CodeRequired
     else if \<not> referencePattern ref then Some CodeInvalidFormat
     else if length ref < MinReferenceLength \<or> length ref > MaxReferenceLength then Some CodeOutOfRange
     else None)"

definition reason_errors :: "string \<Rightarrow> field_error list" where
  "reason_errors reason =
    (if reason = '''' then [fe ''reason'' CodeRequired]
     else if \<not> RevocationReason_Valid reason then [fe ''reason'' CodeInvalidFormat] else [])"

definition reference_errors :: "string \<Rightarrow> field_error list" where
  "reference_errors reference = (case referenceCode reference of None \<Rightarrow> [] | Some code \<Rightarrow> [fe ''reference'' code])"

definition ComplianceRevokeRequest_Validate :: "compliance_revoke_request \<Rightarrow> field_error list" where
  "ComplianceRevokeRequest_Validate r =
    reason_errors (cmq_Reason r) @ reference_errors (cmq_Reference r) @
    (if \<not> cmq_RoleConfirmed r then [fe ''role_confirmed'' CodeMustBeTrue] else [])"

definition NormalizedReference :: "compliance_revoke_request \<Rightarrow> string" where
  "NormalizedReference r = normalizeName (cmq_Reference r)"

text \<open>\<^verbatim>\<open>strings.ToValidUTF8(s, "")\<close> and \<^verbatim>\<open>strings.Map\<close>: the runes of the valid encodings, without the control
  characters that are not spaces.\<close>

function valid_runes :: "string \<Rightarrow> nat list" where
  "valid_runes s =
    (if s = [] then []
     else (let (r, w) = decode_rune s in
           if r = rune_error \<and> w = 1 then valid_runes (drop w s) else r # valid_runes (drop w s)))"
  by pat_completeness auto
termination
proof (relation "measure length", goal_cases)
  case (2 s x r w)
  then have "1 \<le> w" using decode_rune_width [of s] by (metis snd_conv)
  with 2 show ?case by (cases s) (auto simp del: decode_rune.simps)
next
  case (3 s x r w)
  then have "1 \<le> w" using decode_rune_width [of s] by (metis snd_conv)
  with 3 show ?case by (cases s) (auto simp del: decode_rune.simps)
qed simp

declare valid_runes.simps [simp del]

definition compliance_Device :: "compliance_revoke_request \<Rightarrow> string" where
  "compliance_Device r =
    (let clean = encode_runes (filter (\<lambda>c. \<not> (is_control c \<and> c \<notin> set space_runes)) (valid_runes (cmq_UserAgent r)))
     in TrimSpace (encode_runes (take MaxDeviceLength (runes (normalizeName clean)))))"

definition ValidatePortalCommand :: "string \<Rightarrow> string \<Rightarrow> time \<Rightarrow> field_error list" where
  "ValidatePortalCommand reason reference requestedAt =
    reason_errors reason @ reference_errors reference @
    (if time_IsZero requestedAt then [fe ''requested_at'' CodeRequired] else [])"

end
