(* ===== verification/Consent_Store.thy ===== *)
theory Consent_Store
  imports Revocations Idempotency
begin

text \<open>
  The tables of the audit service (\<^verbatim>\<open>services/audit/internal/adapters/postgres\<close>): consents, events,
  revocations, the notices of a revocation with their steps, and the links of the accounts. Every
  table is append-only: a state is only ever extended. A row is appended to its list; a unique key
  that is violated makes the statement fail, or do nothing where it says \<^verbatim>\<open>ON CONFLICT DO NOTHING\<close>.
  A transaction is one step that writes everything or nothing. \<open>rec\<close> is the instant of the
  database (\<^verbatim>\<open>recorded_at\<close>), and the random part of the identifiers is an argument. The failures
  of the database itself are not modelled.

  The notices are an interpretation of the contract of \<^verbatim>\<open>pkg/idempotency\<close>: the claim of a notice is
  held as long as no later step exists.
\<close>

section \<open>Tables\<close>

record holder_link =
  hl_Subject :: string
  hl_DocumentID :: string
  hl_CustomerID :: string
  hl_LinkedAt :: time
  hl_EventID :: string

text \<open>A row of \<^verbatim>\<open>revocation_notice_step\<close>; \<^verbatim>\<open>NULL\<close> is the zero value.\<close>

record notice_step =
  sp_ConsentID :: string
  sp_EntityCode :: string
  sp_Seq :: nat
  sp_Status :: status
  sp_FailedAttempts :: int
  sp_WindowEndsAt :: time
  sp_NextAttemptAt :: time
  sp_ClaimedUntil :: time
  sp_Reference :: string
  sp_Cause :: string
  sp_Reason :: string

record notice_record =
  nr_ConsentID :: string
  nr_EntityCode :: string
  nr_Key :: string
  nr_Seq :: nat
  nr_Status :: status
  nr_FailedAttempts :: int
  nr_WindowEndsAt :: time
  nr_NextAttemptAt :: time
  nr_ClaimedUntil :: time
  nr_Reference :: string
  nr_Cause :: string
  nr_CustomerID :: string
  nr_EffectiveAt :: time

record audit_db =
  ad_consents :: "(consent \<times> time) list"
  ad_events :: "consent_event list"
  ad_revocations :: "revocation list"
  ad_notices :: "((string \<times> string) \<times> string) list"
  ad_steps :: "notice_step list"
  ad_receipt_seq :: nat
  ad_links :: "holder_link list"

definition empty_audit_db :: audit_db where
  "empty_audit_db = \<lparr>ad_consents = [], ad_events = [], ad_revocations = [], ad_notices = [], ad_steps = [],
     ad_receipt_seq = 0, ad_links = []\<rparr>"

definition ErrConsentNotFound :: go_error where "ErrConsentNotFound = errors_New ''consent not found''"
definition ErrRevocationNotFound :: go_error where "ErrRevocationNotFound = errors_New ''revocation not found''"
definition ErrHolderNotLinked :: go_error where "ErrHolderNotLinked = errors_New ''the account is not linked to a holder''"

definition violated :: "string \<Rightarrow> string \<Rightarrow> go_error" where
  "violated what name = errorf_w what (errors_New name)"

section \<open>Consents and links\<close>

definition sameGrant :: "consent \<Rightarrow> consent \<Rightarrow> bool" where
  "sameGrant a b \<longleftrightarrow> cn_CustomerID a = cn_CustomerID b \<and> cn_ApplicationID a = cn_ApplicationID b \<and>
     cn_TermsVersion a = cn_TermsVersion b"

definition find_consent :: "(consent \<Rightarrow> bool) \<Rightarrow> audit_db \<Rightarrow> consent option" where
  "find_consent p db = find p (map fst (ad_consents db))"

definition Consent_Create :: "consent \<Rightarrow> time \<Rightarrow> audit_db \<Rightarrow> audit_db \<times> (go_error + consent \<times> bool)" where
  "Consent_Create c rec db =
    (case find_consent (sameGrant c) db of
       Some existing \<Rightarrow> (db, Inr (existing, False))
     | None \<Rightarrow>
         if find_consent (\<lambda>d. cn_ID d = cn_ID c) db \<noteq> None
         then (db, Inl (violated ''insert the consent: '' ''consent_record_pkey''))
         else (db\<lparr>ad_consents := ad_consents db @ [(c, rec)]\<rparr>, Inr (c, True)))"

definition Consent_Get :: "string \<Rightarrow> audit_db \<Rightarrow> go_error + consent" where
  "Consent_Get i db = (case find_consent (\<lambda>c. cn_ID c = i) db of None \<Rightarrow> Inl ErrConsentNotFound | Some c \<Rightarrow> Inr c)"

text \<open>\<^verbatim>\<open>ORDER BY granted_at DESC, recorded_at DESC LIMIT 1\<close>\<close>

definition LatestByCustomer :: "string \<Rightarrow> audit_db \<Rightarrow> go_error + consent" where
  "LatestByCustomer cust db =
    (case sort_key (\<lambda>(c, rec). (- cn_GrantedAt c, - rec)) (filter (\<lambda>(c, rec). cn_CustomerID c = cust) (ad_consents db)) of
       [] \<Rightarrow> Inl ErrConsentNotFound | (c, _) # _ \<Rightarrow> Inr c)"

text \<open>\<^verbatim>\<open>upper(holder_document_id) = $1 ORDER BY granted_at DESC, consent_id\<close>\<close>

definition ListByHolder :: "unicode_tables \<Rightarrow> string \<Rightarrow> audit_db \<Rightarrow> consent list" where
  "ListByHolder u document db =
    sort_key (\<lambda>c. (- cn_GrantedAt c, cn_ID c))
      (filter (\<lambda>c. ToUpper u (chd_DocumentID (cn_Holder c)) = NormalizeDocument u document) (map fst (ad_consents db)))"

definition ListByConsents :: "string list \<Rightarrow> audit_db \<Rightarrow> string \<Rightarrow> consent_event list" where
  "ListByConsents ids db i =
    (if i \<in> set ids then sort_key event_order (filter (\<lambda>e. cev_ConsentID e = i) (ad_events db)) else [])"

definition get_link :: "string \<Rightarrow> audit_db \<Rightarrow> go_error + holder_link" where
  "get_link subject db =
    (case find (\<lambda>l. hl_Subject l = subject) (ad_links db) of None \<Rightarrow> Inl ErrHolderNotLinked | Some l \<Rightarrow> Inr l)"

text \<open>\<^verbatim>\<open>ON CONFLICT DO NOTHING\<close> on the subject and on the event.\<close>

definition store_Link :: "holder_link \<Rightarrow> audit_db \<Rightarrow> audit_db \<times> (go_error + holder_link \<times> bool)" where
  "store_Link l db =
    (if list_ex (\<lambda>k. hl_Subject k = hl_Subject l \<or> hl_EventID k = hl_EventID l) (ad_links db) then
       (case get_link (hl_Subject l) db of
          Inl _ \<Rightarrow> (db, Inl (errors_New (''event '' @ hl_EventID l @ '' already linked another account'')))
        | Inr stored \<Rightarrow> (db, Inr (stored, False)))
     else (db\<lparr>ad_links := ad_links db @ [l]\<rparr>, Inr (l, True)))"

definition DocumentOf :: "string \<Rightarrow> audit_db \<Rightarrow> go_error + string" where
  "DocumentOf subject db = (case get_link subject db of Inl e \<Rightarrow> Inl e | Inr l \<Rightarrow> Inr (hl_DocumentID l))"

section \<open>Events\<close>

definition blank_event :: consent_event where
  "blank_event = \<lparr>cev_EventID = '''', cev_ConsentID = '''', cev_EntityCode = '''', cev_Status = '''',
     cev_OccurredAt = zero_time, cev_RecordedAt = zero_time, cev_ActorType = '''', cev_ActorID = '''', cev_Channel = '''',
     cev_Device = '''', cev_ReceiptID = '''', cev_Reason = '''', cev_Reference = '''', cev_Details = NoDetails\<rparr>"

text \<open>The primary key of \<^verbatim>\<open>consent_event\<close>.\<close>

definition insert_event :: "consent_event \<Rightarrow> audit_db \<Rightarrow> audit_db option" where
  "insert_event e db =
    (if list_ex (\<lambda>f. cev_EventID f = cev_EventID e) (ad_events db) then None
     else Some (db\<lparr>ad_events := ad_events db @ [e]\<rparr>))"

section \<open>Revocations\<close>

definition revocation_conflict :: "revocation \<Rightarrow> revocation \<Rightarrow> bool" where
  "revocation_conflict rvn r \<longleftrightarrow> rv_ID r = rv_ID rvn \<or> rv_ConsentID r = rv_ConsentID rvn \<or>
     rv_ReceiptNumber r = rv_ReceiptNumber rvn \<or> rv_RequestID r = rv_RequestID rvn"

text \<open>\<^verbatim>\<open>insertRevocationEvents\<close>: the two events of the whole consent; \<open>ids\<close> are their identifiers.\<close>

definition revocation_events ::
  "revocation \<Rightarrow> notice_record list \<Rightarrow> string \<times> string \<Rightarrow> time \<Rightarrow> consent_event \<times> consent_event" where
  "revocation_events rvn notices ids rec =
    (let base = blank_event\<lparr>cev_ConsentID := rv_ConsentID rvn, cev_RecordedAt := rec, cev_ActorType := act_Type (rv_Actor rvn),
           cev_ActorID := act_ID (rv_Actor rvn), cev_Channel := rv_Channel rvn, cev_Device := rv_Device rvn,
           cev_Reason := rv_Reason rvn, cev_Reference := rv_Reference rvn\<rparr>;
         windows = map (\<lambda>n. \<lparr>ew_Code = nr_EntityCode n, ew_DeadlineAt = nr_WindowEndsAt n\<rparr>) notices
     in (base\<lparr>cev_EventID := ''evt-'' @ fst ids, cev_Status := HistoryRevocationRequested,
              cev_OccurredAt := rv_RequestedAt rvn\<rparr>,
         base\<lparr>cev_EventID := ''evt-'' @ snd ids, cev_Status := HistoryRevoked, cev_OccurredAt := rv_EffectiveAt rvn,
              cev_ReceiptID := rv_ReceiptNumber rvn, cev_Details := RevokedDetails (rv_ID rvn) windows\<rparr>))"

definition first_step :: "revocation \<Rightarrow> notice_record \<Rightarrow> notice_step" where
  "first_step rvn n = \<lparr>sp_ConsentID = rv_ConsentID rvn, sp_EntityCode = nr_EntityCode n, sp_Seq = 1,
     sp_Status = StatusPending, sp_FailedAttempts = 0, sp_WindowEndsAt = nr_WindowEndsAt n,
     sp_NextAttemptAt = nr_NextAttemptAt n, sp_ClaimedUntil = zero_time, sp_Reference = '''', sp_Cause = '''', sp_Reason = ''''\<rparr>"

text \<open>The notice and its first step; \<open>None\<close> is a violated key.\<close>

definition insert_notice :: "revocation \<Rightarrow> notice_record \<Rightarrow> audit_db \<Rightarrow> audit_db option" where
  "insert_notice rvn n db =
    (if list_ex (\<lambda>((c, e), k). (c, e) = (rv_ConsentID rvn, nr_EntityCode n) \<or> k = nr_Key n) (ad_notices db) then None
     else if list_ex (\<lambda>s. sp_ConsentID s = rv_ConsentID rvn \<and> sp_EntityCode s = nr_EntityCode n \<and> sp_Seq s = 1) (ad_steps db)
     then None
     else Some (db\<lparr>ad_notices := ad_notices db @ [((rv_ConsentID rvn, nr_EntityCode n), nr_Key n)],
                   ad_steps := ad_steps db @ [first_step rvn n]\<rparr>))"

fun insert_notices :: "revocation \<Rightarrow> notice_record list \<Rightarrow> audit_db \<Rightarrow> audit_db option" where
  "insert_notices rvn [] db = Some db"
| "insert_notices rvn (n # ns) db = (case insert_notice rvn n db of None \<Rightarrow> None | Some db' \<Rightarrow> insert_notices rvn ns db')"

text \<open>\<^verbatim>\<open>record\<close>: the number is taken from the sequence whatever happens to the transaction.\<close>

definition record_revocation ::
  "revocation \<Rightarrow> notice_record list \<Rightarrow> string \<times> string \<Rightarrow> time \<Rightarrow> audit_db \<Rightarrow> audit_db \<times> (go_error + revocation option)" where
  "record_revocation rvn notices ids rec db =
    (let sq = ad_receipt_seq db + 1;
         rvn = rvn\<lparr>rv_ReceiptNumber := FormatReceiptNumber (rv_EffectiveAt rvn) sq\<rparr>;
         db0 = db\<lparr>ad_receipt_seq := sq\<rparr>
     in if find_consent (\<lambda>c. cn_ID c = rv_ConsentID rvn) db = None then
          (db0, Inl (violated ''insert the revocation: '' ''foreign_key_violation''))
        else if list_ex (revocation_conflict rvn) (ad_revocations db) then (db0, Inr None)
        else
          (let (requested, revoked) = revocation_events rvn notices ids rec in
           case insert_event requested (db0\<lparr>ad_revocations := ad_revocations db0 @ [rvn]\<rparr>) of
             None \<Rightarrow> (db0, Inl (violated ''insert the revocation_requested event: '' ''consent_event_pkey''))
           | Some db1 \<Rightarrow>
              (case insert_event revoked db1 of
                 None \<Rightarrow> (db0, Inl (violated ''insert the revoked event: '' ''consent_event_pkey''))
               | Some db2 \<Rightarrow>
                  (case insert_notices rvn notices db2 of
                     None \<Rightarrow> (db0, Inl (violated ''insert the notice: '' ''revocation_notice_pkey''))
                   | Some db3 \<Rightarrow> (db3, Inr (Some rvn))))))"

definition GetByConsent :: "string \<Rightarrow> audit_db \<Rightarrow> go_error + revocation" where
  "GetByConsent i db =
    (case find (\<lambda>r. rv_ConsentID r = i) (ad_revocations db) of None \<Rightarrow> Inl ErrRevocationNotFound | Some r \<Rightarrow> Inr r)"

definition resolveConflict :: "revocation \<Rightarrow> audit_db \<Rightarrow> go_error + revocation \<times> bool" where
  "resolveConflict rvn db =
    (case find (\<lambda>r. rv_RequestID r = rv_RequestID rvn) (ad_revocations db) of
       Some r \<Rightarrow> if rv_ConsentID r = rv_ConsentID rvn then Inr (r, False) else Inl ErrIdempotencyKeyReused
     | None \<Rightarrow>
        (case GetByConsent (rv_ConsentID rvn) db of
           Inr _ \<Rightarrow> Inl ErrAlreadyRevoked
         | Inl _ \<Rightarrow> Inl (errors_New (''the revocation of '' @ rv_ConsentID rvn @
             '' was not recorded and no conflicting one exists''))))"

definition Record_revocation ::
  "revocation \<Rightarrow> notice_record list \<Rightarrow> string \<times> string \<Rightarrow> time \<Rightarrow> audit_db \<Rightarrow> audit_db \<times> (go_error + revocation \<times> bool)" where
  "Record_revocation rvn notices ids rec db =
    (case record_revocation rvn notices ids rec db of
       (db', Inl e) \<Rightarrow> (db', Inl e)
     | (db', Inr (Some stored)) \<Rightarrow> (db', Inr (stored, True))
     | (db', Inr None) \<Rightarrow> (db', resolveConflict rvn db'))"

section \<open>Notices\<close>

definition NoticeID :: "string \<Rightarrow> string \<Rightarrow> string" where
  "NoticeID consentID entityCode = consentID @ ''/'' @ entityCode"

text \<open>\<^verbatim>\<open>strings.Cut(id, "/")\<close>\<close>

definition ParseNoticeID :: "string \<Rightarrow> (string \<times> string) option" where
  "ParseNoticeID i =
    (let c = takeWhile (\<lambda>x. x \<noteq> CHR ''/'') i; rest = drop (length c) i; e = tl rest in
     if rest \<noteq> [] \<and> c \<noteq> [] \<and> e \<noteq> [] then Some (c, e) else None)"

definition NoticeRecord_AttemptState :: "notice_record \<Rightarrow> attempt" where
  "NoticeRecord_AttemptState r = \<lparr>at_ID = NoticeID (nr_ConsentID r) (nr_EntityCode r), at_Key = nr_Key r,
     at_Status = nr_Status r, at_FailedAttempts = nr_FailedAttempts r, at_WindowEndsAt = nr_WindowEndsAt r,
     at_NextAttemptAt = nr_NextAttemptAt r, at_ClaimedUntil = nr_ClaimedUntil r\<rparr>"

definition steps_of :: "string \<Rightarrow> string \<Rightarrow> audit_db \<Rightarrow> notice_step list" where
  "steps_of c e db = filter (\<lambda>s. sp_ConsentID s = c \<and> sp_EntityCode s = e) (ad_steps db)"

text \<open>\<^verbatim>\<open>ORDER BY seq DESC LIMIT 1\<close>\<close>

definition last_step :: "string \<Rightarrow> string \<Rightarrow> audit_db \<Rightarrow> notice_step option" where
  "last_step c e db = (case sort_key (\<lambda>s. - int (sp_Seq s)) (steps_of c e db) of [] \<Rightarrow> None | s # _ \<Rightarrow> Some s)"

text \<open>\<^verbatim>\<open>withNotice\<close> and \<^verbatim>\<open>scanNotice\<close>: a step with its notice, revocation and consent.\<close>

definition join_notice :: "audit_db \<Rightarrow> notice_step \<Rightarrow> notice_record option" where
  "join_notice db s =
    (case (map_of (ad_notices db) (sp_ConsentID s, sp_EntityCode s),
           find (\<lambda>r. rv_ConsentID r = sp_ConsentID s) (ad_revocations db),
           find_consent (\<lambda>c. cn_ID c = sp_ConsentID s) db) of
       (Some key, Some rvn, Some c) \<Rightarrow>
         Some \<lparr>nr_ConsentID = sp_ConsentID s, nr_EntityCode = sp_EntityCode s, nr_Key = key, nr_Seq = sp_Seq s,
           nr_Status = sp_Status s, nr_FailedAttempts = sp_FailedAttempts s, nr_WindowEndsAt = sp_WindowEndsAt s,
           nr_NextAttemptAt = sp_NextAttemptAt s, nr_ClaimedUntil = sp_ClaimedUntil s, nr_Reference = sp_Reference s,
           nr_Cause = sp_Cause s, nr_CustomerID = cn_CustomerID c, nr_EffectiveAt = rv_EffectiveAt rvn\<rparr>
     | _ \<Rightarrow> None)"

text \<open>The primary key of the steps: \<open>None\<close> when the step exists.\<close>

definition insert_step :: "notice_step \<Rightarrow> audit_db \<Rightarrow> audit_db option" where
  "insert_step s db =
    (if list_ex (\<lambda>t. sp_ConsentID t = sp_ConsentID s \<and> sp_EntityCode t = sp_EntityCode s \<and> sp_Seq t = sp_Seq s) (ad_steps db)
     then None else Some (db\<lparr>ad_steps := ad_steps db @ [s]\<rparr>))"

definition step_due :: "time \<Rightarrow> notice_step \<Rightarrow> bool" where
  "step_due now s \<longleftrightarrow> sp_Status s = StatusPending \<and> sp_NextAttemptAt s \<noteq> zero_time \<and> sp_NextAttemptAt s \<le> now \<or>
     sp_Status s = StatusInProgress \<and> sp_ClaimedUntil s < now"

definition Notice_Claim ::
  "string \<Rightarrow> time \<Rightarrow> duration \<Rightarrow> audit_db \<Rightarrow> audit_db \<times> (go_error + notice_record option)" where
  "Notice_Claim i now lease db =
    (case ParseNoticeID i of
       None \<Rightarrow> (db, Inr None)
     | Some (consentID, entity) \<Rightarrow>
        (case last_step consentID entity db of
           None \<Rightarrow> (db, Inr None)
         | Some l \<Rightarrow>
            if \<not> step_due now l then (db, Inr None)
            else (let s = l\<lparr>sp_Seq := sp_Seq l + 1, sp_Status := StatusInProgress, sp_ClaimedUntil := time_Add now lease,
                        sp_Reference := '''', sp_Reason := ''''\<rparr>
                  in case insert_step s db of
                       None \<Rightarrow> (db, Inr None)
                     | Some db' \<Rightarrow> (db', Inr (join_notice db' s)))))"

text \<open>\<^verbatim>\<open>next\<close>: the step after the claimed one.\<close>

definition next_step ::
  "notice_record \<Rightarrow> status \<Rightarrow> int \<Rightarrow> time \<Rightarrow> string \<Rightarrow> string \<Rightarrow> string \<Rightarrow> audit_db \<Rightarrow> (audit_db \<times> notice_record) option" where
  "next_step r st failedAttempts nextAttempt reference cause reason db =
    map_option (\<lambda>db'. (db', r\<lparr>nr_Seq := nr_Seq r + 1, nr_Status := st, nr_FailedAttempts := failedAttempts,
        nr_NextAttemptAt := nextAttempt, nr_ClaimedUntil := zero_time, nr_Reference := reference, nr_Cause := cause\<rparr>))
      (insert_step \<lparr>sp_ConsentID = nr_ConsentID r, sp_EntityCode = nr_EntityCode r, sp_Seq = nr_Seq r + 1, sp_Status = st,
         sp_FailedAttempts = failedAttempts, sp_WindowEndsAt = nr_WindowEndsAt r, sp_NextAttemptAt = nextAttempt,
         sp_ClaimedUntil = zero_time, sp_Reference = reference, sp_Cause = cause, sp_Reason = reason\<rparr> db)"

definition entity_event_id :: "string \<Rightarrow> string \<Rightarrow> nat \<Rightarrow> string" where
  "entity_event_id c e sq = ''rne-'' @ c @ ''-'' @ e @ ''-'' @ nat_dec sq"

definition entity_event ::
  "string \<Rightarrow> string \<Rightarrow> nat \<Rightarrow> string \<Rightarrow> time \<Rightarrow> time \<Rightarrow> string \<Rightarrow> string \<Rightarrow> event_details \<Rightarrow> actor \<Rightarrow> consent_event" where
  "entity_event c e sq st instant rec reference reason details a =
    blank_event\<lparr>cev_EventID := entity_event_id c e sq, cev_ConsentID := c, cev_EntityCode := e, cev_Status := st,
      cev_OccurredAt := instant, cev_RecordedAt := rec, cev_ActorType := act_Type a, cev_ActorID := act_ID a,
      cev_Reason := reason, cev_Reference := reference, cev_Details := details\<rparr>"

definition notice_worker :: actor where "notice_worker = \<lparr>act_Type = ActorSystem, act_ID = ''notice-worker''\<rparr>"

text \<open>The step and the event of one transaction.\<close>

definition step_with_event ::
  "(audit_db \<times> notice_record) option \<Rightarrow> (notice_record \<Rightarrow> consent_event) \<Rightarrow> audit_db \<Rightarrow> audit_db \<times> (go_error + notice_record)" where
  "step_with_event st ev db =
    (case st of
       None \<Rightarrow> (db, Inl ErrClaimLost)
     | Some (db1, stored) \<Rightarrow>
        (case insert_event (ev stored) db1 of
           None \<Rightarrow> (db, Inl (violated (''insert the '' @ cev_Status (ev stored) @ '' event of '' @ nr_EntityCode stored @ '': '')
                               ''consent_event_pkey''))
         | Some db2 \<Rightarrow> (db2, Inr stored)))"

definition Notice_Confirm ::
  "time \<Rightarrow> notice_record \<Rightarrow> time \<Rightarrow> outcome \<Rightarrow> audit_db \<Rightarrow> audit_db \<times> (go_error + notice_record)" where
  "Notice_Confirm rec r now out db =
    step_with_event (next_step r StatusConfirmed (nr_FailedAttempts r) zero_time (oc_Reference out) '''' '''' db)
      (\<lambda>stored. entity_event (nr_ConsentID stored) (nr_EntityCode stored) (nr_Seq stored) HistoryRevocationConfirmed now rec
         (oc_Reference out) '''' NoDetails notice_worker) db"

definition Notice_Reschedule ::
  "notice_record \<Rightarrow> time \<Rightarrow> time \<Rightarrow> string \<Rightarrow> audit_db \<Rightarrow> audit_db \<times> (go_error + notice_record)" where
  "Notice_Reschedule r now nextAt cause db =
    (case next_step r StatusPending (nr_FailedAttempts r + 1) nextAt '''' cause '''' db of
       None \<Rightarrow> (db, Inl ErrClaimLost) | Some (db', stored) \<Rightarrow> (db', Inr stored))"

text \<open>The two reasons as the table keeps them.\<close>

definition reason_text :: "failure_reason \<Rightarrow> string" where
  "reason_text r = (if r = ReasonRejected then ''rejected'' else ''retry_window_expired'')"

definition Notice_Fail ::
  "time \<Rightarrow> notice_record \<Rightarrow> time \<Rightarrow> failure_reason \<Rightarrow> string \<Rightarrow> audit_db \<Rightarrow> audit_db \<times> (go_error + notice_record)" where
  "Notice_Fail rec r now reason cause db =
    step_with_event (next_step r StatusFailed (nr_FailedAttempts r + 1) zero_time '''' cause (reason_text reason) db)
      (\<lambda>stored. entity_event (nr_ConsentID stored) (nr_EntityCode stored) (nr_Seq stored) HistoryRevocationNotConfirmed now rec
         '''' (reason_text reason) NoDetails notice_worker) db"

definition notice_store :: "time \<Rightarrow> (audit_db, notice_record) store" where
  "notice_store rec = \<lparr>st_Claim = Notice_Claim, st_Confirm = Notice_Confirm rec, st_Reschedule = Notice_Reschedule,
     st_Fail = Notice_Fail rec\<rparr>"

text \<open>The pairs with a step, and the last step of each.\<close>

definition notice_pairs :: "audit_db \<Rightarrow> (string \<times> string) list" where
  "notice_pairs db = remdups (map (\<lambda>s. (sp_ConsentID s, sp_EntityCode s)) (ad_steps db))"

definition last_steps :: "audit_db \<Rightarrow> notice_step list" where
  "last_steps db = map (\<lambda>(c, e). the (last_step c e db)) (notice_pairs db)"

text \<open>\<^verbatim>\<open>ORDER BY next_attempt_at NULLS LAST, consent_id, entity_code LIMIT\<close>\<close>

definition Notice_Due :: "time \<Rightarrow> nat \<Rightarrow> audit_db \<Rightarrow> string list" where
  "Notice_Due now limit db =
    map (\<lambda>s. NoticeID (sp_ConsentID s) (sp_EntityCode s)) (take limit
      (sort_key (\<lambda>s. (sp_NextAttemptAt s = zero_time, sp_NextAttemptAt s, sp_ConsentID s, sp_EntityCode s))
        (filter (step_due now) (last_steps db))))"

definition resumable :: "time \<Rightarrow> notice_step \<Rightarrow> bool" where
  "resumable now s \<longleftrightarrow> sp_Status s = StatusFailed \<or> sp_Status s = StatusPending \<and> sp_WindowEndsAt s \<le> now"

text \<open>The loop of \<^verbatim>\<open>Resume\<close>; \<open>None\<close> rolls the transaction back.\<close>

fun resume_loop ::
  "time \<Rightarrow> time \<Rightarrow> time \<Rightarrow> actor \<Rightarrow> notice_record list \<Rightarrow> audit_db \<Rightarrow> (audit_db \<times> string list) option" where
  "resume_loop now deadline rec a [] db = Some (db, [])"
| "resume_loop now deadline rec a (r # rs) db =
    (case insert_step \<lparr>sp_ConsentID = nr_ConsentID r, sp_EntityCode = nr_EntityCode r, sp_Seq = nr_Seq r + 1,
        sp_Status = StatusPending, sp_FailedAttempts = 0, sp_WindowEndsAt = deadline, sp_NextAttemptAt = now,
        sp_ClaimedUntil = zero_time, sp_Reference = '''', sp_Cause = '''', sp_Reason = ''''\<rparr> db of
       None \<Rightarrow> resume_loop now deadline rec a rs db
     | Some db1 \<Rightarrow>
        (case insert_event (entity_event (nr_ConsentID r) (nr_EntityCode r) (nr_Seq r + 1) HistoryRevocationRetryRequested
            now rec '''' '''' (RetryDetails deadline) a) db1 of
           None \<Rightarrow> None
         | Some db2 \<Rightarrow>
            map_option (\<lambda>(db', codes). (db', nr_EntityCode r # codes)) (resume_loop now deadline rec a rs db2)))"

definition Notice_Resume ::
  "string \<Rightarrow> string list \<Rightarrow> time \<Rightarrow> duration \<Rightarrow> actor \<Rightarrow> time \<Rightarrow> audit_db \<Rightarrow> audit_db \<times> (go_error + string list)" where
  "Notice_Resume consentID entities now window a rec db =
    (let deadline = time_Add now window;
         due = List.map_filter (join_notice db)
           (sort_key sp_EntityCode (filter (\<lambda>s. sp_ConsentID s = consentID \<and> resumable now s \<and>
              (entities = [] \<or> sp_EntityCode s \<in> set entities)) (last_steps db)))
     in case resume_loop now deadline rec a due db of
          None \<Rightarrow> (db, Inl (violated ''insert the revocation_retry_requested event: '' ''consent_event_pkey''))
        | Some (db', resumed) \<Rightarrow> (db', Inr resumed))"

end
