(* ===== verification/Consent_Notices.thy ===== *)
theory Consent_Notices
  imports Consent_Store
begin

text \<open>
  The invariant of the tables of the audit service and the notices as a store of attempts: the steps
  of a notice are numbered from 1, only the last one counts, and a result is a step after the
  claimed one, so it is recorded exactly while no other step came between. The interpretation
  \<open>notices\<close> gives the notices every lemma about the runner.
\<close>

section \<open>Identifiers\<close>

lemma takeWhile_until: "x \<notin> set xs \<Longrightarrow> takeWhile (\<lambda>y. y \<noteq> x) (xs @ x # ys) = xs"
  by (induction xs) auto

lemma ParseNoticeID_SomeD:
  assumes "ParseNoticeID i = Some (c, e)"
  shows "i = NoticeID c e" and "CHR ''/'' \<notin> set c" and "c \<noteq> []" and "e \<noteq> []"
proof -
  let ?c = "takeWhile (\<lambda>x. x \<noteq> CHR ''/'') i" and ?d = "dropWhile (\<lambda>x. x \<noteq> CHR ''/'') i"
  have r: "drop (length ?c) i = ?d" by (simp add: dropWhile_eq_drop)
  from assms have p: "?d \<noteq> []" "c = ?c" "e = tl ?d" "c \<noteq> []" "e \<noteq> []"
    unfolding ParseNoticeID_def Let_def r by (simp_all split: if_splits)
  have "hd ?d = CHR ''/''" using hd_dropWhile [OF p(1)] by simp
  then have "?d = CHR ''/'' # e" using p(1,3) by (cases ?d) auto
  then show "i = NoticeID c e" unfolding NoticeID_def p(2)
    using takeWhile_dropWhile_id [of "\<lambda>x. x \<noteq> CHR ''/''" i] by simp
  show "CHR ''/'' \<notin> set c" unfolding p(2) using set_takeWhileD by fastforce
  show "c \<noteq> []" "e \<noteq> []" using p by simp_all
qed

lemma ParseNoticeID_NoticeID:
  assumes "CHR ''/'' \<notin> set c" and "c \<noteq> []" and "e \<noteq> []"
  shows "ParseNoticeID (NoticeID c e) = Some (c, e)"
proof -
  have "takeWhile (\<lambda>x. x \<noteq> CHR ''/'') (c @ CHR ''/'' # e) = c"
    by (rule takeWhile_until [OF assms(1)])
  with assms show ?thesis by (simp add: ParseNoticeID_def NoticeID_def Let_def)
qed

text \<open>The identifier of an event of an entity tells its step, for consent identifiers of one length.\<close>

lemma append_last_dash:
  assumes "xs @ CHR ''-'' # ds = ys @ CHR ''-'' # es" and "CHR ''-'' \<notin> set ds" and "CHR ''-'' \<notin> set es"
  shows "xs = ys \<and> ds = es"
proof -
  have "takeWhile (\<lambda>x. x \<noteq> CHR ''-'') (rev (xs @ CHR ''-'' # ds)) = rev ds"
    using takeWhile_until [of _ "rev ds"] assms(2) by simp
  moreover have "takeWhile (\<lambda>x. x \<noteq> CHR ''-'') (rev (ys @ CHR ''-'' # es)) = rev es"
    using takeWhile_until [of _ "rev es"] assms(3) by simp
  ultimately have "ds = es" using assms(1) by simp
  with assms(1) show ?thesis by simp
qed

lemma entity_event_id_inject:
  assumes "entity_event_id c e n = entity_event_id c' e' n'" and "length c = length c'"
  shows "c = c' \<and> e = e' \<and> n = n'"
proof -
  from assms have "c = c'" "e @ CHR ''-'' # nat_dec n = e' @ CHR ''-'' # nat_dec n'"
    by (simp_all add: entity_event_id_def)
  with append_last_dash [of e "nat_dec n" e' "nat_dec n'"] nat_dec_no_minus show ?thesis by simp
qed

lemma entity_event_id_other: "prefix ''evt-'' (entity_event_id c e n) \<longleftrightarrow> False"
  by (simp add: entity_event_id_def)

section \<open>The invariant\<close>

definition good_id :: "string \<Rightarrow> bool" where
  "good_id i \<longleftrightarrow> length i = 36 \<and> CHR ''/'' \<notin> set i"

lemma ParseNoticeID_good [simp]: "good_id c \<Longrightarrow> e \<noteq> [] \<Longrightarrow> ParseNoticeID (NoticeID c e) = Some (c, e)"
  by (rule ParseNoticeID_NoticeID) (auto simp: good_id_def)

text \<open>The steps of every notice are numbered in order from 1.\<close>

definition steps_numbered :: "audit_db \<Rightarrow> bool" where
  "steps_numbered db \<longleftrightarrow> (\<forall>c e. map sp_Seq (steps_of c e db) = [1..<Suc (length (steps_of c e db))])"

definition audit_inv :: "audit_db \<Rightarrow> bool" where
  "audit_inv db \<longleftrightarrow>
    distinct (map (cn_ID \<circ> fst) (ad_consents db)) \<and> (\<forall>c rec. (c, rec) \<in> set (ad_consents db) \<longrightarrow> good_id (cn_ID c)) \<and>
    distinct (map rv_ConsentID (ad_revocations db)) \<and> distinct (map rv_RequestID (ad_revocations db)) \<and>
    distinct (map rv_ReceiptNumber (ad_revocations db)) \<and>
    (\<forall>r. r \<in> set (ad_revocations db) \<longrightarrow> (\<exists>c rec. (c, rec) \<in> set (ad_consents db) \<and> cn_ID c = rv_ConsentID r)) \<and>
    distinct (map fst (ad_notices db)) \<and>
    (\<forall>c e k. ((c, e), k) \<in> set (ad_notices db) \<longrightarrow> e \<noteq> [] \<and> (\<exists>r. r \<in> set (ad_revocations db) \<and> rv_ConsentID r = c)) \<and>
    (\<forall>s. s \<in> set (ad_steps db) \<longrightarrow> (sp_ConsentID s, sp_EntityCode s) \<in> fst ` set (ad_notices db)) \<and>
    steps_numbered db \<and>
    (\<forall>ev. ev \<in> set (ad_events db) \<longrightarrow> prefix ''evt-'' (cev_EventID ev) \<or>
       (\<exists>s. s \<in> set (ad_steps db) \<and> cev_EventID ev = entity_event_id (sp_ConsentID s) (sp_EntityCode s) (sp_Seq s)))"

lemma audit_inv_empty [simp]: "audit_inv empty_audit_db"
  by (simp add: audit_inv_def empty_audit_db_def steps_numbered_def steps_of_def)

lemma find_consent_Some:
  "find_consent p db = Some c \<Longrightarrow> p c \<and> (\<exists>rec. (c, rec) \<in> set (ad_consents db))"
proof -
  assume "find_consent p db = Some c"
  then obtain n where "p c" "n < length (ad_consents db)" "c = fst (ad_consents db ! n)"
    by (auto simp: find_consent_def find_Some_iff)
  then show ?thesis by (metis nth_mem prod.collapse)
qed

lemma find_None_all: "find p xs = None \<longleftrightarrow> (\<forall>x. x \<in> set xs \<longrightarrow> \<not> p x)"
  by (auto simp: find_None_iff)

text \<open>A step of the table always has its notice, its revocation and its consent.\<close>

lemma audit_inv_joins:
  assumes inv: "audit_inv db" and s: "(sp_ConsentID s, sp_EntityCode s) \<in> fst ` set (ad_notices db)"
  obtains r where "join_notice db s = Some r" and "nr_ConsentID r = sp_ConsentID s" and "nr_EntityCode r = sp_EntityCode s"
    and "nr_Seq r = sp_Seq s" and "nr_Status r = sp_Status s" and "nr_ClaimedUntil r = sp_ClaimedUntil s"
    and "nr_WindowEndsAt r = sp_WindowEndsAt s"
    and "good_id (sp_ConsentID s)" and "sp_EntityCode s \<noteq> []"
proof -
  obtain k where k: "map_of (ad_notices db) (sp_ConsentID s, sp_EntityCode s) = Some k"
    "((sp_ConsentID s, sp_EntityCode s), k) \<in> set (ad_notices db)"
    using s inv by (cases "map_of (ad_notices db) (sp_ConsentID s, sp_EntityCode s)")
      (auto simp: map_of_eq_None_iff dest: map_of_SomeD)
  from inv k(2) obtain rv where rv: "rv \<in> set (ad_revocations db)" "rv_ConsentID rv = sp_ConsentID s" "sp_EntityCode s \<noteq> []"
    unfolding audit_inv_def by blast
  then obtain rv' where rv': "find (\<lambda>r. rv_ConsentID r = sp_ConsentID s) (ad_revocations db) = Some rv'"
    using find_None_all [of "\<lambda>r. rv_ConsentID r = sp_ConsentID s" "ad_revocations db"] by auto
  from inv rv obtain c rec where c: "(c, rec) \<in> set (ad_consents db)" "cn_ID c = sp_ConsentID s"
    unfolding audit_inv_def by metis
  then obtain c' where c': "find_consent (\<lambda>c. cn_ID c = sp_ConsentID s) db = Some c'"
    using find_None_all [of "\<lambda>c. cn_ID c = sp_ConsentID s" "map fst (ad_consents db)"]
    by (cases "find_consent (\<lambda>c. cn_ID c = sp_ConsentID s) db") (force simp: find_consent_def)+
  have "good_id (sp_ConsentID s)" using inv c unfolding audit_inv_def by metis
  moreover obtain r where r: "join_notice db s = Some r" using k(1) rv' c' by (simp add: join_notice_def)
  moreover have "nr_ConsentID r = sp_ConsentID s \<and> nr_EntityCode r = sp_EntityCode s \<and> nr_Seq r = sp_Seq s \<and>
      nr_Status r = sp_Status s \<and> nr_ClaimedUntil r = sp_ClaimedUntil s \<and> nr_WindowEndsAt r = sp_WindowEndsAt s"
    using r k(1) rv' c' by (auto simp: join_notice_def)
  ultimately show ?thesis using that rv(3) by blast
qed

section \<open>The last step\<close>

lemma last_step_eq:
  assumes "steps_numbered db"
  shows "last_step c e db = (if steps_of c e db = [] then None else Some (last (steps_of c e db)))"
proof -
  let ?xs = "steps_of c e db" and ?f = "\<lambda>s. - int (sp_Seq s)"
  have m: "map sp_Seq ?xs = [1..<Suc (length ?xs)]" using assms by (simp add: steps_numbered_def)
  then have d: "distinct (map sp_Seq ?xs)" by simp
  then have i: "inj_on ?f (set ?xs)" by (auto simp: distinct_map inj_on_def)
  have "sorted (map ?f (rev ?xs))"
  proof -
    have "map ?f (rev ?xs) = map (\<lambda>n. - int n) (rev [1..<Suc (length ?xs)])"
      unfolding m [symmetric] by (simp add: rev_map comp_def)
    moreover have "sorted (map (\<lambda>n. - int n) (rev [1..<n]))" for n by (induction n) (auto simp: sorted_append)
    ultimately show ?thesis by simp
  qed
  then have "sort_key ?f (rev ?xs) = rev ?xs" by (rule sort_key_id_if_sorted)
  moreover have "distinct ?xs" using d by (simp add: distinct_map)
  then have "sort_key ?f ?xs = sort_key ?f (rev ?xs)" by (intro sort_key_unique [OF i]) simp_all
  ultimately have "sort_key ?f ?xs = rev ?xs" by simp
  then show ?thesis by (cases ?xs rule: rev_cases) (simp_all add: last_step_def)
qed

section \<open>Appending a step\<close>

abbreviation with_step :: "notice_step \<Rightarrow> audit_db \<Rightarrow> audit_db" where
  "with_step s db \<equiv> db\<lparr>ad_steps := ad_steps db @ [s]\<rparr>"

abbreviation with_event :: "consent_event \<Rightarrow> audit_db \<Rightarrow> audit_db" where
  "with_event e db \<equiv> db\<lparr>ad_events := ad_events db @ [e]\<rparr>"

lemma steps_of_with_step:
  "steps_of c e (with_step s db) = steps_of c e db @ (if sp_ConsentID s = c \<and> sp_EntityCode s = e then [s] else [])"
  by (simp add: steps_of_def)

lemma steps_of_other [simp]:
  "steps_of c e (db\<lparr>ad_events := evs\<rparr>) = steps_of c e db" "steps_of c e (db\<lparr>ad_consents := cs\<rparr>) = steps_of c e db"
  "steps_of c e (db\<lparr>ad_links := ls\<rparr>) = steps_of c e db" "steps_of c e (db\<lparr>ad_receipt_seq := n\<rparr>) = steps_of c e db"
  "steps_of c e (db\<lparr>ad_revocations := rs\<rparr>) = steps_of c e db" "steps_of c e (db\<lparr>ad_notices := ns\<rparr>) = steps_of c e db"
  by (simp_all add: steps_of_def)

lemma join_notice_other [simp]:
  "join_notice (db\<lparr>ad_events := evs\<rparr>) s = join_notice db s" "join_notice (db\<lparr>ad_steps := ss\<rparr>) s = join_notice db s"
  by (simp_all add: join_notice_def find_consent_def)

lemma last_step_other [simp]:
  "last_step c e (db\<lparr>ad_events := evs\<rparr>) = last_step c e db"
  by (simp add: last_step_def)

lemma steps_numbered_seqs: "steps_numbered db \<Longrightarrow> sp_Seq ` set (steps_of c e db) = {1..length (steps_of c e db)}"
  by (metis steps_numbered_def set_map set_upt atLeastLessThanSuc_atLeastAtMost)

lemma insert_step_eq:
  assumes "steps_numbered db" and "1 \<le> sp_Seq s"
  shows "insert_step s db =
    (if sp_Seq s \<le> length (steps_of (sp_ConsentID s) (sp_EntityCode s) db) then None else Some (with_step s db))"
proof -
  let ?xs = "steps_of (sp_ConsentID s) (sp_EntityCode s) db"
  have "list_ex (\<lambda>t. sp_ConsentID t = sp_ConsentID s \<and> sp_EntityCode t = sp_EntityCode s \<and> sp_Seq t = sp_Seq s) (ad_steps db) \<longleftrightarrow>
      sp_Seq s \<in> sp_Seq ` set ?xs"
    unfolding list_ex_iff steps_of_def image_iff by (auto intro: sym dest: sym)
  with assms show ?thesis unfolding insert_step_def steps_numbered_seqs [OF assms(1)] by simp
qed

lemma steps_numbered_with_step:
  assumes "steps_numbered db" and "sp_Seq s = Suc (length (steps_of (sp_ConsentID s) (sp_EntityCode s) db))"
  shows "steps_numbered (with_step s db)"
  using assms unfolding steps_numbered_def by (auto simp: steps_of_with_step)

lemma audit_inv_with_step:
  assumes "audit_inv db" and "(sp_ConsentID s, sp_EntityCode s) \<in> fst ` set (ad_notices db)"
    and "sp_Seq s = Suc (length (steps_of (sp_ConsentID s) (sp_EntityCode s) db))"
  shows "audit_inv (with_step s db)"
  using assms steps_numbered_with_step [OF _ assms(3)] unfolding audit_inv_def by (simp, blast)

lemma audit_inv_with_event:
  assumes "audit_inv db" and "prefix ''evt-'' (cev_EventID ev) \<or>
    (\<exists>s. s \<in> set (ad_steps db) \<and> cev_EventID ev = entity_event_id (sp_ConsentID s) (sp_EntityCode s) (sp_Seq s))"
  shows "audit_inv (with_event ev db)"
  using assms unfolding audit_inv_def by (simp add: steps_numbered_def)

lemma audit_inv_last:
  assumes "audit_inv db" and "last_step c e db = Some l"
  shows "l \<in> set (ad_steps db)" and "sp_ConsentID l = c" and "sp_EntityCode l = e"
    and "sp_Seq l = length (steps_of c e db)" and "(c, e) \<in> fst ` set (ad_notices db)"
proof -
  have nb: "steps_numbered db" using assms(1) by (simp add: audit_inv_def)
  then have ne: "steps_of c e db \<noteq> []" and l: "l = last (steps_of c e db)"
    using assms(2) by (auto simp: last_step_eq split: if_splits)
  from last_in_set [OF ne] l show s: "l \<in> set (ad_steps db)" "sp_ConsentID l = c" "sp_EntityCode l = e"
    by (auto simp: steps_of_def)
  have "map sp_Seq (steps_of c e db) = [1..<Suc (length (steps_of c e db))]" using nb by (simp add: steps_numbered_def)
  then have "last (map sp_Seq (steps_of c e db)) = last [1..<Suc (length (steps_of c e db))]" by simp
  moreover have "1 \<le> length (steps_of c e db)" using ne by (cases "steps_of c e db") simp_all
  ultimately show "sp_Seq l = length (steps_of c e db)" using ne by (simp add: last_map l)
  show "(c, e) \<in> fst ` set (ad_notices db)" using assms(1) s unfolding audit_inv_def by metis
qed

lemma last_step_with_step:
  assumes "steps_numbered (with_step s db)" and "steps_numbered db"
  shows "last_step c e (with_step s db) = (if sp_ConsentID s = c \<and> sp_EntityCode s = e then Some s else last_step c e db)"
  unfolding last_step_eq [OF assms(1)] last_step_eq [OF assms(2)] steps_of_with_step by auto

text \<open>No event has the identifier of a step that does not exist yet.\<close>

lemma event_fresh:
  assumes inv: "audit_inv db" and n: "length (steps_of c e db) < n" and c: "good_id c"
  shows "\<not> list_ex (\<lambda>f. cev_EventID f = entity_event_id c e n) (ad_events db)"
proof
  assume "list_ex (\<lambda>f. cev_EventID f = entity_event_id c e n) (ad_events db)"
  then obtain f where f: "f \<in> set (ad_events db)" "cev_EventID f = entity_event_id c e n" by (auto simp: list_ex_iff)
  with inv entity_event_id_other obtain s where s: "s \<in> set (ad_steps db)"
    "entity_event_id c e n = entity_event_id (sp_ConsentID s) (sp_EntityCode s) (sp_Seq s)"
    unfolding audit_inv_def by metis
  have "(sp_ConsentID s, sp_EntityCode s) \<in> fst ` set (ad_notices db)" using inv s(1) unfolding audit_inv_def by metis
  then have "good_id (sp_ConsentID s)" by (rule audit_inv_joins [OF inv])
  with c s(2) have "c = sp_ConsentID s \<and> e = sp_EntityCode s \<and> n = sp_Seq s"
    by (intro entity_event_id_inject) (simp_all add: good_id_def)
  with s(1) have "n \<in> sp_Seq ` set (steps_of c e db)" by (auto simp: steps_of_def)
  with n steps_numbered_seqs [of db c e] inv show False by (auto simp: audit_inv_def)
qed

section \<open>The contract of the idempotent mechanism\<close>

definition view_notice :: "audit_db \<Rightarrow> string \<Rightarrow> attempt option" where
  "view_notice db i =
    (case ParseNoticeID i of None \<Rightarrow> None
     | Some (c, e) \<Rightarrow> (case last_step c e db of None \<Rightarrow> None
         | Some s \<Rightarrow> map_option NoticeRecord_AttemptState (join_notice db s)))"

text \<open>A record that a claim returned: its step, in progress, and no later step with the same lease.\<close>

definition claimed_notice :: "audit_db \<Rightarrow> notice_record \<Rightarrow> bool" where
  "claimed_notice db r \<longleftrightarrow> (\<exists>s. s \<in> set (ad_steps db) \<and> join_notice db s = Some r \<and> sp_Status s = StatusInProgress) \<and>
     CHR ''/'' \<notin> set (nr_ConsentID r) \<and>
     (\<forall>l. last_step (nr_ConsentID r) (nr_EntityCode r) db = Some l \<longrightarrow> sp_Status l = StatusInProgress \<longrightarrow>
        sp_ClaimedUntil l = nr_ClaimedUntil r \<longrightarrow> sp_Seq l = nr_Seq r)"

definition notice_takes :: "time \<Rightarrow> attempt \<Rightarrow> bool" where
  "notice_takes now a \<longleftrightarrow>
    at_Status a = StatusPending \<and> at_NextAttemptAt a \<noteq> zero_time \<and> at_NextAttemptAt a \<le> now \<or>
    at_Status a = StatusInProgress \<and> at_ClaimedUntil a < now"

text \<open>The view of a notice is the last of its steps.\<close>

definition step_attempt :: "string \<Rightarrow> notice_step \<Rightarrow> attempt" where
  "step_attempt key s = \<lparr>at_ID = NoticeID (sp_ConsentID s) (sp_EntityCode s), at_Key = key, at_Status = sp_Status s,
     at_FailedAttempts = sp_FailedAttempts s, at_WindowEndsAt = sp_WindowEndsAt s,
     at_NextAttemptAt = sp_NextAttemptAt s, at_ClaimedUntil = sp_ClaimedUntil s\<rparr>"

lemma join_step_attempt:
  assumes "join_notice db s = Some r"
  shows "NoticeRecord_AttemptState r = step_attempt (nr_Key r) s"
    and "map_of (ad_notices db) (sp_ConsentID s, sp_EntityCode s) = Some (nr_Key r)"
  using assms by (auto simp: join_notice_def NoticeRecord_AttemptState_def step_attempt_def split: option.splits)

lemma view_notice_last:
  assumes "audit_inv db"
  shows "view_notice db i =
    (case ParseNoticeID i of None \<Rightarrow> None
     | Some (c, e) \<Rightarrow> map_option (step_attempt (the (map_of (ad_notices db) (c, e)))) (last_step c e db))"
proof (cases "ParseNoticeID i")
  case (Some p)
  obtain c e where p: "p = (c, e)" by fastforce
  show ?thesis
  proof (cases "last_step c e db")
    case (Some l)
    note l = audit_inv_last [OF assms Some]
    obtain r where r: "join_notice db l = Some r" using audit_inv_joins [OF assms] l by metis
    from join_step_attempt [OF r] l Some r \<open>ParseNoticeID i = Some p\<close> p show ?thesis by (simp add: view_notice_def)
  qed (simp add: view_notice_def \<open>ParseNoticeID i = Some p\<close> p)
qed (simp add: view_notice_def)

lemma view_notice_with_step:
  assumes "audit_inv db" and "audit_inv (with_step s db)" and "good_id (sp_ConsentID s)" and "sp_EntityCode s \<noteq> []"
    and "map_of (ad_notices db) (sp_ConsentID s, sp_EntityCode s) = Some key"
  shows "view_notice (with_step s db) = (view_notice db)(NoticeID (sp_ConsentID s) (sp_EntityCode s) \<mapsto> step_attempt key s)"
proof
  fix i
  have nb: "steps_numbered (with_step s db)" "steps_numbered db" using assms(1,2) by (simp_all add: audit_inv_def)
  have id: "ParseNoticeID (NoticeID (sp_ConsentID s) (sp_EntityCode s)) = Some (sp_ConsentID s, sp_EntityCode s)"
    using assms(3,4) by (intro ParseNoticeID_NoticeID) (auto simp: good_id_def)
  show "view_notice (with_step s db) i =
      ((view_notice db)(NoticeID (sp_ConsentID s) (sp_EntityCode s) \<mapsto> step_attempt key s)) i"
  proof (cases "i = NoticeID (sp_ConsentID s) (sp_EntityCode s)")
    case True
    then show ?thesis using assms(5) by (simp add: view_notice_last [OF assms(2)] id last_step_with_step [OF nb])
  next
    case False
    have "ParseNoticeID i \<noteq> Some (sp_ConsentID s, sp_EntityCode s)" using ParseNoticeID_SomeD(1) False by blast
    with False show ?thesis
      by (auto simp: view_notice_last [OF assms(1)] view_notice_last [OF assms(2)] last_step_with_step [OF nb]
          split: option.splits)
  qed
qed

text \<open>A claim takes the last step when it is due, and appends the next one.\<close>

lemma notice_takes_step: "notice_takes now (step_attempt key s) \<longleftrightarrow> step_due now s"
  by (simp add: notice_takes_def step_attempt_def step_due_def)

lemma Notice_Claim_eq:
  assumes "audit_inv db"
  shows "Notice_Claim i now lease db =
    (case ParseNoticeID i of None \<Rightarrow> (db, Inr None)
     | Some (c, e) \<Rightarrow> (case last_step c e db of None \<Rightarrow> (db, Inr None)
         | Some l \<Rightarrow>
            if \<not> step_due now l then (db, Inr None)
            else (let s = l\<lparr>sp_Seq := sp_Seq l + 1, sp_Status := StatusInProgress, sp_ClaimedUntil := time_Add now lease,
                        sp_Reference := '''', sp_Reason := ''''\<rparr>
                  in (with_step s db, Inr (join_notice (with_step s db) s)))))"
proof -
  have nb: "steps_numbered db" using assms by (simp add: audit_inv_def)
  show ?thesis
    by (auto simp: Notice_Claim_def Let_def insert_step_eq [OF nb] audit_inv_last [OF assms] split: option.splits)
qed

lemma claimed_step_inv:
  assumes inv: "audit_inv db" and l: "last_step c e db = Some l"
    and s: "sp_ConsentID s = c" "sp_EntityCode s = e" "sp_Seq s = sp_Seq l + 1"
  shows "audit_inv (with_step s db)"
  using audit_inv_last [OF inv l] s by (intro audit_inv_with_step [OF inv]) simp_all

lemma Notice_Claim_some:
  assumes inv: "audit_inv db" and cl: "Notice_Claim i now lease db = (db', Inr (Some r))"
  shows "\<exists>a. view_notice db i = Some a \<and> notice_takes now a \<and> claimed_notice db' r \<and>
    NoticeRecord_AttemptState r = claim_of now lease a \<and> view_notice db' = (view_notice db)(i \<mapsto> claim_of now lease a) \<and>
    audit_inv db'"
proof -
  from cl obtain c e l where p: "ParseNoticeID i = Some (c, e)" and l: "last_step c e db = Some l" and due: "step_due now l"
    unfolding Notice_Claim_eq [OF inv] by (auto split: option.splits if_splits)
  define s where "s = l\<lparr>sp_Seq := sp_Seq l + 1, sp_Status := StatusInProgress, sp_ClaimedUntil := time_Add now lease,
    sp_Reference := '''', sp_Reason := ''''\<rparr>"
  have db': "db' = with_step s db" and r: "join_notice (with_step s db) s = Some r"
    using cl p l due unfolding Notice_Claim_eq [OF inv] s_def by (auto simp: Let_def)
  note ls = audit_inv_last [OF inv l]
  have s: "sp_ConsentID s = c" "sp_EntityCode s = e" "sp_Seq s = sp_Seq l + 1" "sp_Status s = StatusInProgress"
    by (simp_all add: s_def ls)
  have inv': "audit_inv (with_step s db)" by (rule claimed_step_inv [OF inv l s(1-3)])
  have "(sp_ConsentID s, sp_EntityCode s) \<in> fst ` set (ad_notices (with_step s db))" using ls(5) s by simp
  then obtain r' where rr: "join_notice (with_step s db) s = Some r'" "nr_ConsentID r' = c" "nr_EntityCode r' = e"
    "nr_Seq r' = sp_Seq s" "good_id c" "e \<noteq> []"
    by (rule audit_inv_joins [OF inv']) (use s in auto)
  with r have r_eq: "nr_ConsentID r = c" "nr_EntityCode r = e" "nr_Seq r = sp_Seq s" by simp_all
  from join_step_attempt [OF r] s have key: "map_of (ad_notices db) (c, e) = Some (nr_Key r)"
    and ra: "NoticeRecord_AttemptState r = step_attempt (nr_Key r) s" by simp_all
  have claim: "step_attempt (nr_Key r) s = claim_of now lease (step_attempt (nr_Key r) l)"
    by (simp add: step_attempt_def claim_of_def s_def)
  have i: "i = NoticeID c e" by (rule ParseNoticeID_SomeD(1) [OF p])
  have view: "view_notice (with_step s db) = (view_notice db)(i \<mapsto> step_attempt (nr_Key r) s)"
    unfolding i by (subst view_notice_with_step [OF inv inv']) (use s rr(5,6) key in auto)
  have "claimed_notice (with_step s db) r"
    unfolding claimed_notice_def using r s r_eq rr(5) last_step_with_step [of db s c e] inv inv'
    by (auto simp: audit_inv_def good_id_def)
  moreover have "view_notice db i = Some (step_attempt (nr_Key r) l)"
    using p l key by (simp add: view_notice_last [OF inv])
  ultimately show ?thesis using view ra claim due inv' unfolding db' by (auto simp: notice_takes_step)
qed

lemma Notice_Claim_total:
  assumes inv: "audit_inv db"
  shows "\<exists>r. snd (Notice_Claim i now lease db) = Inr r"
    and "snd (Notice_Claim i now lease db) = Inr None \<Longrightarrow>
      fst (Notice_Claim i now lease db) = db \<and> (case view_notice db i of None \<Rightarrow> True | Some a \<Rightarrow> \<not> notice_takes now a)"
proof -
  show "\<exists>r. snd (Notice_Claim i now lease db) = Inr r"
    by (auto simp: Notice_Claim_eq [OF inv] Let_def split: option.splits)
next
  assume none: "snd (Notice_Claim i now lease db) = Inr None"
  show "fst (Notice_Claim i now lease db) = db \<and> (case view_notice db i of None \<Rightarrow> True | Some a \<Rightarrow> \<not> notice_takes now a)"
  proof (cases "ParseNoticeID i")
    case (Some p)
    obtain c e where p: "ParseNoticeID i = Some (c, e)" using Some by (cases p) simp
    show ?thesis
    proof (cases "last_step c e db")
      case (Some l)
      have "\<not> step_due now l"
      proof
        assume due: "step_due now l"
        let ?s = "l\<lparr>sp_Seq := sp_Seq l + 1, sp_Status := StatusInProgress, sp_ClaimedUntil := time_Add now lease,
          sp_Reference := '''', sp_Reason := ''''\<rparr>"
        note ls = audit_inv_last [OF inv Some]
        have inv': "audit_inv (with_step ?s db)" by (rule claimed_step_inv [OF inv Some]) (simp_all add: ls)
        have n: "join_notice (with_step ?s db) ?s = None" using none p Some due by (simp add: Notice_Claim_eq [OF inv] Let_def)
        have "(sp_ConsentID ?s, sp_EntityCode ?s) \<in> fst ` set (ad_notices (with_step ?s db))" using ls by simp
        from audit_inv_joins [OF inv' this] n show False by (metis option.distinct(1))
      qed
      with p Some show ?thesis
        by (simp add: Notice_Claim_eq [OF inv] view_notice_last [OF inv] notice_takes_step)
    qed (simp add: Notice_Claim_eq [OF inv] view_notice_last [OF inv] p)
  qed (simp add: Notice_Claim_eq [OF inv] view_notice_last [OF inv])
qed

lemma Notice_Claim_inv: "audit_inv db \<Longrightarrow> audit_inv (fst (Notice_Claim i now lease db))"
proof -
  assume inv: "audit_inv db"
  obtain r where r: "snd (Notice_Claim i now lease db) = Inr r" using Notice_Claim_total(1) [OF inv] by blast
  show ?thesis
  proof (cases r)
    case None
    with Notice_Claim_total(2) [OF inv] r inv show ?thesis by simp
  next
    case (Some x)
    with r have "Notice_Claim i now lease db = (fst (Notice_Claim i now lease db), Inr (Some x))" by (metis prod.collapse)
    from Notice_Claim_some [OF inv this] show ?thesis by blast
  qed
qed

section \<open>Recording the result\<close>

lemma view_notice_with_event [simp]: "view_notice (db\<lparr>ad_events := evs\<rparr>) = view_notice db"
  by (simp add: view_notice_def fun_eq_iff split: option.splits)

lemma claimed_noticeE:
  assumes inv: "audit_inv db" and cl: "claimed_notice db r"
  obtains l key where "last_step (nr_ConsentID r) (nr_EntityCode r) db = Some l"
    and "good_id (nr_ConsentID r)" and "nr_EntityCode r \<noteq> []" and "1 \<le> nr_Seq r"
    and "nr_Seq r \<le> length (steps_of (nr_ConsentID r) (nr_EntityCode r) db)"
    and "(nr_ConsentID r, nr_EntityCode r) \<in> fst ` set (ad_notices db)"
    and "map_of (ad_notices db) (nr_ConsentID r, nr_EntityCode r) = Some key"
    and "ParseNoticeID (at_ID (NoticeRecord_AttemptState r)) = Some (nr_ConsentID r, nr_EntityCode r)"
    and "view_notice db (at_ID (NoticeRecord_AttemptState r)) = Some (step_attempt key l)"
    and "nr_Seq r = sp_Seq l \<longleftrightarrow> holds_claim (step_attempt key l) (NoticeRecord_AttemptState r)"
proof -
  from cl obtain s where s: "s \<in> set (ad_steps db)" "join_notice db s = Some r" "sp_Status s = StatusInProgress"
    unfolding claimed_notice_def by blast
  have n: "(sp_ConsentID s, sp_EntityCode s) \<in> fst ` set (ad_notices db)" using inv s(1) unfolding audit_inv_def by metis
  obtain r' where r': "join_notice db s = Some r'" "nr_ConsentID r' = sp_ConsentID s" "nr_EntityCode r' = sp_EntityCode s"
    "nr_Seq r' = sp_Seq s" "nr_ClaimedUntil r' = sp_ClaimedUntil s" "good_id (sp_ConsentID s)" "sp_EntityCode s \<noteq> []"
    by (rule audit_inv_joins [OF inv n]) blast
  with s(2) have eqs: "sp_ConsentID s = nr_ConsentID r" "sp_EntityCode s = nr_EntityCode r" "sp_Seq s = nr_Seq r"
    "sp_ClaimedUntil s = nr_ClaimedUntil r" by simp_all
  let ?xs = "steps_of (nr_ConsentID r) (nr_EntityCode r) db"
  have nb: "steps_numbered db" using inv by (simp add: audit_inv_def)
  have mem: "s \<in> set ?xs" using s(1) eqs by (simp add: steps_of_def)
  then have "nr_Seq r \<in> sp_Seq ` set ?xs" using eqs by force
  then have rg: "1 \<le> nr_Seq r" "nr_Seq r \<le> length ?xs" unfolding steps_numbered_seqs [OF nb] by simp_all
  have "?xs \<noteq> []" using mem by auto
  then obtain l where l: "last_step (nr_ConsentID r) (nr_EntityCode r) db = Some l" by (simp add: last_step_eq [OF nb])
  note ls = audit_inv_last [OF inv l]
  note key = join_step_attempt(2) [OF s(2), unfolded eqs]
  have id: "ParseNoticeID (at_ID (NoticeRecord_AttemptState r)) = Some (nr_ConsentID r, nr_EntityCode r)"
    unfolding NoticeRecord_AttemptState_def using r' eqs by simp
  have view: "view_notice db (at_ID (NoticeRecord_AttemptState r)) = Some (step_attempt (nr_Key r) l)"
    using l key by (simp add: view_notice_last [OF inv] id)
  have "nr_Seq r = sp_Seq l \<longleftrightarrow> holds_claim (step_attempt (nr_Key r) l) (NoticeRecord_AttemptState r)"
  proof
    assume seq: "nr_Seq r = sp_Seq l"
    have "distinct (map sp_Seq ?xs)" using nb by (metis steps_numbered_def distinct_upt)
    moreover have "l \<in> set ?xs" using ls by (simp add: steps_of_def)
    ultimately have "s = l" using mem seq eqs by (metis distinct_map inj_onD)
    then show "holds_claim (step_attempt (nr_Key r) l) (NoticeRecord_AttemptState r)"
      using s(3) eqs by (simp add: holds_claim_def step_attempt_def NoticeRecord_AttemptState_def)
  next
    assume "holds_claim (step_attempt (nr_Key r) l) (NoticeRecord_AttemptState r)"
    with cl l show "nr_Seq r = sp_Seq l"
      by (auto simp: holds_claim_def step_attempt_def NoticeRecord_AttemptState_def claimed_notice_def)
  qed
  with that [OF l _ _ rg _ key id view] r' eqs n show ?thesis by simp
qed

definition result_step :: "notice_record \<Rightarrow> status \<Rightarrow> int \<Rightarrow> time \<Rightarrow> string \<Rightarrow> string \<Rightarrow> string \<Rightarrow> notice_step" where
  "result_step r st failedAttempts nextAttempt reference cause reason =
    \<lparr>sp_ConsentID = nr_ConsentID r, sp_EntityCode = nr_EntityCode r, sp_Seq = nr_Seq r + 1, sp_Status = st,
     sp_FailedAttempts = failedAttempts, sp_WindowEndsAt = nr_WindowEndsAt r, sp_NextAttemptAt = nextAttempt,
     sp_ClaimedUntil = zero_time, sp_Reference = reference, sp_Cause = cause, sp_Reason = reason\<rparr>"

lemma result_step_sel [simp]:
  "sp_ConsentID (result_step r st f n ref cause reason) = nr_ConsentID r"
  "sp_EntityCode (result_step r st f n ref cause reason) = nr_EntityCode r"
  "sp_Seq (result_step r st f n ref cause reason) = nr_Seq r + 1"
  "sp_Status (result_step r st f n ref cause reason) = st"
  "sp_NextAttemptAt (result_step r st f n ref cause reason) = n"
  "sp_ClaimedUntil (result_step r st f n ref cause reason) = zero_time"
  "sp_WindowEndsAt (result_step r st f n ref cause reason) = nr_WindowEndsAt r"
  by (simp_all add: result_step_def)

lemma next_step_eq:
  assumes "audit_inv db" and "claimed_notice db r"
  shows "next_step r st f n ref cause reason db =
    (if nr_Seq r = length (steps_of (nr_ConsentID r) (nr_EntityCode r) db)
     then Some (with_step (result_step r st f n ref cause reason) db,
       r\<lparr>nr_Seq := nr_Seq r + 1, nr_Status := st, nr_FailedAttempts := f, nr_NextAttemptAt := n, nr_ClaimedUntil := zero_time,
         nr_Reference := ref, nr_Cause := cause\<rparr>) else None)"
proof -
  have nb: "steps_numbered db" using assms(1) by (simp add: audit_inv_def)
  obtain l where "1 \<le> nr_Seq r" "nr_Seq r \<le> length (steps_of (nr_ConsentID r) (nr_EntityCode r) db)"
    by (rule claimed_noticeE [OF assms])
  then show ?thesis unfolding next_step_def result_step_def [symmetric] by (auto simp: insert_step_eq [OF nb])
qed

text \<open>The result of the last step: the state after it and the view of the notice.\<close>

lemma with_result:
  assumes inv: "audit_inv db" and cl: "claimed_notice db r"
    and seq: "nr_Seq r = length (steps_of (nr_ConsentID r) (nr_EntityCode r) db)"
    and key: "map_of (ad_notices db) (nr_ConsentID r, nr_EntityCode r) = Some key"
    and s: "s = result_step r st f n ref cause reason"
  shows "audit_inv (with_step s db)"
    and "view_notice (with_step s db) = (view_notice db)(at_ID (NoticeRecord_AttemptState r) \<mapsto> step_attempt key s)"
    and "cev_EventID ev = entity_event_id (nr_ConsentID r) (nr_EntityCode r) (nr_Seq r + 1) \<Longrightarrow>
      insert_event ev (with_step s db) = Some (with_event ev (with_step s db)) \<and> audit_inv (with_event ev (with_step s db))"
proof -
  obtain l where c: "good_id (nr_ConsentID r)" "nr_EntityCode r \<noteq> []"
    "(nr_ConsentID r, nr_EntityCode r) \<in> fst ` set (ad_notices db)" by (rule claimed_noticeE [OF inv cl])
  show inv': "audit_inv (with_step s db)" using c seq s by (intro audit_inv_with_step [OF inv]) simp_all
  show "view_notice (with_step s db) = (view_notice db)(at_ID (NoticeRecord_AttemptState r) \<mapsto> step_attempt key s)"
    using view_notice_with_step [OF inv inv'] c key unfolding s by (simp add: NoticeRecord_AttemptState_def)
  assume ev: "cev_EventID ev = entity_event_id (nr_ConsentID r) (nr_EntityCode r) (nr_Seq r + 1)"
  then have "\<not> list_ex (\<lambda>f. cev_EventID f = cev_EventID ev) (ad_events db)"
    using event_fresh [OF inv _ c(1), of "nr_EntityCode r" "nr_Seq r + 1"] seq by simp
  moreover have "audit_inv (with_event ev (with_step s db))"
    by (rule audit_inv_with_event [OF inv'], rule disjI2, rule exI [of _ s]) (simp add: ev s)
  ultimately show "insert_event ev (with_step s db) = Some (with_event ev (with_step s db)) \<and>
      audit_inv (with_event ev (with_step s db))" by (simp add: insert_event_def)
qed

lemma entity_event_sel [simp]:
  "cev_EventID (entity_event c e sq st i rec ref reason d a) = entity_event_id c e sq"
  "cev_ConsentID (entity_event c e sq st i rec ref reason d a) = c"
  "cev_EntityCode (entity_event c e sq st i rec ref reason d a) = e"
  "cev_Status (entity_event c e sq st i rec ref reason d a) = st"
  "cev_OccurredAt (entity_event c e sq st i rec ref reason d a) = i"
  "cev_RecordedAt (entity_event c e sq st i rec ref reason d a) = rec"
  "cev_Details (entity_event c e sq st i rec ref reason d a) = d"
  by (simp_all add: entity_event_def)

text \<open>What a result does, held or lost.\<close>

lemma record_notice_held:
  assumes inv: "audit_inv db" and cl: "claimed_notice db r"
    and a: "view_notice db (at_ID (NoticeRecord_AttemptState r)) = Some a" and h: "holds_claim a (NoticeRecord_AttemptState r)"
  shows "\<exists>db' r' a'. Notice_Confirm rec r now out db = (db', Inr r') \<and> audit_inv db' \<and>
      view_notice db' = (view_notice db)(at_ID a \<mapsto> a') \<and> at_Status a' = StatusConfirmed \<and> at_Key a' = at_Key a"
    and "\<exists>db' r' a'. Notice_Reschedule r now nx cause db = (db', Inr r') \<and> audit_inv db' \<and>
      view_notice db' = (view_notice db)(at_ID a \<mapsto> a') \<and> at_Key a' = at_Key a \<and>
      at_Status a' = StatusPending \<and> at_NextAttemptAt a' = nx"
    and "\<exists>db' r' a'. Notice_Fail rec r now reason cause db = (db', Inr r') \<and> audit_inv db' \<and>
      view_notice db' = (view_notice db)(at_ID a \<mapsto> a') \<and> at_Status a' = StatusFailed \<and> at_Key a' = at_Key a"
proof -
  obtain l key where l: "last_step (nr_ConsentID r) (nr_EntityCode r) db = Some l"
    and key: "map_of (ad_notices db) (nr_ConsentID r, nr_EntityCode r) = Some key"
    and v: "view_notice db (at_ID (NoticeRecord_AttemptState r)) = Some (step_attempt key l)"
    and hold: "nr_Seq r = sp_Seq l \<longleftrightarrow> holds_claim (step_attempt key l) (NoticeRecord_AttemptState r)"
    by (rule claimed_noticeE [OF inv cl])
  have seq: "nr_Seq r = length (steps_of (nr_ConsentID r) (nr_EntityCode r) db)"
    using hold a v h audit_inv_last(4) [OF inv l] by simp
  have ida: "at_ID a = at_ID (NoticeRecord_AttemptState r)" and ka: "at_Key a = key"
    using a v audit_inv_last(2,3) [OF inv l] by (auto simp: step_attempt_def NoticeRecord_AttemptState_def)
  note w = with_result(1,2) [OF inv cl seq key refl] with_result(3) [OF inv cl seq key refl, simplified] and nx = next_step_eq [OF inv cl, unfolded seq [symmetric], simplified]
  show "\<exists>db' r' a'. Notice_Confirm rec r now out db = (db', Inr r') \<and> audit_inv db' \<and>
      view_notice db' = (view_notice db)(at_ID a \<mapsto> a') \<and> at_Status a' = StatusConfirmed \<and> at_Key a' = at_Key a"
    unfolding Notice_Confirm_def nx ida ka by (auto simp: step_with_event_def w step_attempt_def)
  show "\<exists>db' r' a'. Notice_Reschedule r now nx cause db = (db', Inr r') \<and> audit_inv db' \<and>
      view_notice db' = (view_notice db)(at_ID a \<mapsto> a') \<and> at_Key a' = at_Key a \<and>
      at_Status a' = StatusPending \<and> at_NextAttemptAt a' = nx"
    unfolding Notice_Reschedule_def nx ida ka by (auto simp: w step_attempt_def)
  show "\<exists>db' r' a'. Notice_Fail rec r now reason cause db = (db', Inr r') \<and> audit_inv db' \<and>
      view_notice db' = (view_notice db)(at_ID a \<mapsto> a') \<and> at_Status a' = StatusFailed \<and> at_Key a' = at_Key a"
    unfolding Notice_Fail_def nx ida ka by (auto simp: step_with_event_def w step_attempt_def)
qed

lemma record_notice_lost:
  assumes inv: "audit_inv db" and cl: "claimed_notice db r"
    and h: "\<not> (\<exists>a. view_notice db (at_ID (NoticeRecord_AttemptState r)) = Some a \<and> holds_claim a (NoticeRecord_AttemptState r))"
  shows "Notice_Confirm rec r now out db = (db, Inl ErrClaimLost)"
    and "Notice_Reschedule r now nx cause db = (db, Inl ErrClaimLost)"
    and "Notice_Fail rec r now reason cause db = (db, Inl ErrClaimLost)"
proof -
  obtain l key where l: "last_step (nr_ConsentID r) (nr_EntityCode r) db = Some l"
    and v: "view_notice db (at_ID (NoticeRecord_AttemptState r)) = Some (step_attempt key l)"
    and hold: "nr_Seq r = sp_Seq l \<longleftrightarrow> holds_claim (step_attempt key l) (NoticeRecord_AttemptState r)"
    by (rule claimed_noticeE [OF inv cl])
  have "nr_Seq r \<noteq> length (steps_of (nr_ConsentID r) (nr_EntityCode r) db)"
    using hold v h audit_inv_last(4) [OF inv l] by simp
  note nx = next_step_eq [OF inv cl, unfolded if_not_P [OF this]]
  show "Notice_Confirm rec r now out db = (db, Inl ErrClaimLost)" by (simp add: Notice_Confirm_def nx step_with_event_def)
  show "Notice_Reschedule r now nx cause db = (db, Inl ErrClaimLost)" by (simp add: Notice_Reschedule_def nx)
  show "Notice_Fail rec r now reason cause db = (db, Inl ErrClaimLost)" by (simp add: Notice_Fail_def nx step_with_event_def)
qed

lemma notice_store_sel [simp]:
  "st_Claim (notice_store rec) = Notice_Claim" "st_Confirm (notice_store rec) = Notice_Confirm rec"
  "st_Reschedule (notice_store rec) = Notice_Reschedule" "st_Fail (notice_store rec) = Notice_Fail rec"
  by (simp_all add: notice_store_def)

lemma view_notice_id: "audit_inv db \<Longrightarrow> view_notice db i = Some a \<Longrightarrow> at_ID a = i"
  by (auto simp: view_notice_last step_attempt_def audit_inv_last dest!: ParseNoticeID_SomeD(1) split: option.splits)

lemma notice_takes_claimable: "notice_takes now a \<Longrightarrow> claimable now a"
  by (auto simp: notice_takes_def claimable_def)

interpretation notices: attempt_store "notice_store rec" view_notice NoticeRecord_AttemptState audit_inv claimed_notice notice_takes
  for rec
proof (unfold_locales, goal_cases)
  case (1 now a) then show ?case by (rule notice_takes_claimable)
next
  case (2 s i a) then show ?case by (rule view_notice_id)
next
  case (3 s i now lease s' r) then show ?case using Notice_Claim_some [of s i now lease s' r] by auto
next
  case (4 s i now lease s') then show ?case using Notice_Claim_total(2) [of s i now lease] by auto
next
  case (5 s i now lease s' e) then show ?case using Notice_Claim_total(1) [of s i now lease] by auto
next
  case (6 s i now lease) then show ?case using Notice_Claim_inv by simp
next
  case (7 s r a now out) then show ?case using record_notice_held(1) by simp
next
  case (8 s r now out) then show ?case using record_notice_lost(1) by simp
next
  case (9 s r a now nx cause) then show ?case using record_notice_held(2) [of s r a now nx cause] by auto
next
  case (10 s r now nx cause) then show ?case using record_notice_lost(2) by simp
next
  case (11 s r a now reason cause) then show ?case using record_notice_held(3) by simp
next
  case (12 s r now reason cause) then show ?case using record_notice_lost(3) by simp
qed

end
