(* ===== verification/Consent_Service.thy ===== *)
theory Consent_Service
  imports Consent_Notices
begin

text \<open>
  The use cases of the audit service (\<^verbatim>\<open>services/audit/internal/consents\<close>): granting and verifying a
  consent, revoking it as the holder or from the compliance portal, retrying the entities that did
  not confirm, the consents of a holder and the worker of the notices. Every operation takes the
  instants that it reads from the clock, the random bytes that it draws and the instant of the
  database; the channel that wakes the worker, the logs and the rendering of the receipt are not
  modelled.
\<close>

type_synonym random_bytes = "go_error + nat list"

section \<open>Consents\<close>

definition newConsentID :: "random_bytes \<Rightarrow> go_error + string" where
  "newConsentID rnd =
    (case rnd of Inl e \<Rightarrow> Inl (errorf_w ''generate the consent id: '' e) | Inr b \<Rightarrow> Inr (''cns-'' @ hex_encode b))"

definition newRevocationID :: "random_bytes \<Rightarrow> go_error + string" where
  "newRevocationID rnd =
    (case rnd of Inl e \<Rightarrow> Inl (errorf_w ''generate the revocation id: '' e) | Inr b \<Rightarrow> Inr (''rvk-'' @ hex_encode b))"

definition consent_candidate :: "grant_request \<Rightarrow> string \<Rightarrow> time \<Rightarrow> consent" where
  "consent_candidate req i now =
    \<lparr>cn_ID = i, cn_CustomerID = gq_CustomerID req, cn_Holder = GrantRequest_Holder req,
     cn_TermsVersion = tms_Version TermsV1, cn_Scope = tms_Sources TermsV1, cn_Purpose = tms_Purpose TermsV1,
     cn_Channel = gq_Channel req, cn_PartnerID = gq_PartnerID req, cn_ApplicationID = gq_ApplicationID req,
     cn_UserAgent = gq_UserAgent req, cn_GrantedAt = time_Truncate now time_Microsecond\<rparr>"

definition Grant ::
  "unicode_tables \<Rightarrow> grant_request \<Rightarrow> random_bytes \<Rightarrow> time \<Rightarrow> time \<Rightarrow> audit_db \<Rightarrow>
   audit_db \<times> (consent_error + consent \<times> bool)" where
  "Grant u req rnd now rec db =
    (case GrantRequest_Validate u req TermsV1 of
       Some e \<Rightarrow> (db, Inl e)
     | None \<Rightarrow>
        (case newConsentID rnd of
           Inl e \<Rightarrow> (db, Inl (ConsentErr e))
         | Inr i \<Rightarrow>
            (case Consent_Create (consent_candidate req i now) rec db of
               (db', Inl e) \<Rightarrow> (db', Inl (ConsentErr (errorf_w ''record the consent: '' e)))
             | (db', Inr r) \<Rightarrow> (db', Inr r))))"

definition wrapStore :: "go_error \<Rightarrow> go_error" where
  "wrapStore e = (if errors_Is e ErrConsentNotFound then e else errorf_w ''read the consent: '' e)"

definition consents_Get :: "string \<Rightarrow> audit_db \<Rightarrow> go_error + consent" where
  "consents_Get i db = (case Consent_Get i db of Inl e \<Rightarrow> Inl (wrapStore e) | Inr c \<Rightarrow> Inr c)"

definition no_verification :: verification where
  "no_verification = \<lparr>vf_Active = False, vf_ConsentID = '''', vf_GrantedAt = zero_time, vf_ExpiresAt = zero_time,
     vf_Sources = []\<rparr>"

text \<open>\<open>with_events\<close>: the service was built \<^verbatim>\<open>WithEvents\<close>, as the audit service does.\<close>

definition Verify :: "bool \<Rightarrow> string \<Rightarrow> time \<Rightarrow> audit_db \<Rightarrow> go_error + verification" where
  "Verify with_events customerID now db =
    (case LatestByCustomer customerID db of
       Inl e \<Rightarrow> if errors_Is e ErrConsentNotFound then Inr no_verification else Inl (errorf_w ''look up the consent: '' e)
     | Inr c \<Rightarrow>
        (let v = \<lparr>vf_Active = consent_Active c now, vf_ConsentID = cn_ID c, vf_GrantedAt = cn_GrantedAt c,
               vf_ExpiresAt = ExpiresAt c, vf_Sources = ActiveSources c now\<rparr>
         in if \<not> with_events \<or> \<not> vf_Active v then Inr v
            else (let (st, _, _) = DeriveStatus c (ListByConsents [cn_ID c] db (cn_ID c)) now
                  in if \<not> status_Current st then Inr (v\<lparr>vf_Active := False, vf_Sources := []\<rparr>) else Inr v)))"

section \<open>Revocations\<close>

record revoke_command =
  rcm_ConsentID :: string
  rcm_Actor :: actor
  rcm_Channel :: string
  rcm_Request :: revoke_request
  rcm_Reason :: string
  rcm_Reference :: string
  rcm_RequestID :: string

text \<open>\<^verbatim>\<open>RevocationService\<close>: what it is configured with.\<close>

record revocation_service =
  rs_names :: entity_names
  rs_deadline :: duration

definition NewRevocationService :: "entity_names \<Rightarrow> duration \<Rightarrow> revocation_service" where
  "NewRevocationService names deadline =
    \<lparr>rs_names = names, rs_deadline = (if deadline \<le> 0 then RevocationNoticeDeadline else deadline)\<rparr>"

definition RevokeCommand_validate :: "revoke_command \<Rightarrow> consent \<Rightarrow> time \<Rightarrow> field_error list" where
  "RevokeCommand_validate cmd c now =
    (if rcm_Channel cmd = RevocationChannelCompliancePortal
     then ValidatePortalCommand (rcm_Reason cmd) (rcm_Reference cmd) (rvq_RequestedAt (rcm_Request cmd))
     else RevokeRequest_Validate (rcm_Request cmd) c now)"

definition service_view :: "revocation_service \<Rightarrow> consent \<Rightarrow> time \<Rightarrow> audit_db \<Rightarrow> consent_view" where
  "service_view sv c now db = consent_View c (ListByConsents [cn_ID c] db (cn_ID c)) now (rs_names sv)"

definition sameRequest :: "string \<Rightarrow> string \<Rightarrow> audit_db \<Rightarrow> bool" where
  "sameRequest consentID requestID db =
    (case GetByConsent consentID db of Inl _ \<Rightarrow> False | Inr r \<Rightarrow> rv_RequestID r = requestID)"

definition holderConsent :: "unicode_tables \<Rightarrow> string \<Rightarrow> string \<Rightarrow> audit_db \<Rightarrow> go_error + consent" where
  "holderConsent u document consentID db =
    (case Consent_Get consentID db of
       Inl e \<Rightarrow> Inl (wrapStore e)
     | Inr c \<Rightarrow> if NormalizeDocument u (chd_DocumentID (cn_Holder c)) \<noteq> NormalizeDocument u document
               then Inl ErrConsentNotFound else Inr c)"

definition new_revocation :: "revocation_service \<Rightarrow> string \<Rightarrow> consent \<Rightarrow> entity list \<Rightarrow> revoke_command \<Rightarrow> time \<Rightarrow> revocation" where
  "new_revocation sv i c entities cmd now =
    \<lparr>rv_ID = i, rv_ConsentID = cn_ID c, rv_ReceiptNumber = '''', rv_Holder = cn_Holder c, rv_Scope = cn_Scope c,
     rv_Entities = entities, rv_RequestedAt = time_Truncate (rvq_RequestedAt (rcm_Request cmd)) time_Microsecond,
     rv_EffectiveAt = now, rv_NoticeDeadlineAt = time_Add now (rs_deadline sv), rv_Channel = rcm_Channel cmd,
     rv_Device = NormalizedDevice (rcm_Request cmd), rv_ConfirmationMethod = rvq_ConfirmationMethod (rcm_Request cmd),
     rv_Actor = rcm_Actor cmd, rv_Reason = rcm_Reason cmd, rv_Reference = rcm_Reference cmd,
     rv_RequestID = rcm_RequestID cmd\<rparr>"

definition new_notice :: "revocation \<Rightarrow> string \<Rightarrow> string \<Rightarrow> notice_record" where
  "new_notice rvn code key =
    \<lparr>nr_ConsentID = rv_ConsentID rvn, nr_EntityCode = code, nr_Key = key, nr_Seq = 0, nr_Status = StatusPending,
     nr_FailedAttempts = 0, nr_WindowEndsAt = rv_NoticeDeadlineAt rvn, nr_NextAttemptAt = rv_EffectiveAt rvn,
     nr_ClaimedUntil = zero_time, nr_Reference = '''', nr_Cause = '''', nr_CustomerID = '''', nr_EffectiveAt = zero_time\<rparr>"

text \<open>The loop over the entities: the first key that fails ends it.\<close>

fun new_notices :: "revocation \<Rightarrow> entity list \<Rightarrow> go_error + notice_record list" where
  "new_notices rvn [] = Inr []"
| "new_notices rvn (e # es) =
    (case Key ''revocation'' (rv_ConsentID rvn @ ''-'' @ en_Code e) of
       Inl err \<Rightarrow> Inl err
     | Inr key \<Rightarrow>
        (case new_notices rvn es of Inl err \<Rightarrow> Inl err | Inr ns \<Rightarrow> Inr (new_notice rvn (en_Code e) key # ns)))"

text \<open>What the operations that revoke draw: the bytes of the revocation, the identifiers of its two
  events, the second reading of the clock and the instant of the database.\<close>

record revoke_draws =
  rd_random :: random_bytes
  rd_events :: "string \<times> string"
  rd_after :: time
  rd_recorded :: time

text \<open>\<^verbatim>\<open>revoke\<close> up to the transaction: it ends with an error or with the answer of the same request, or
  it goes on with what to record.\<close>

definition prepare_revoke ::
  "revocation_service \<Rightarrow> consent \<Rightarrow> revoke_command \<Rightarrow> time \<Rightarrow> random_bytes \<Rightarrow> audit_db \<Rightarrow>
   (consent_error + consent_view) + revocation \<times> notice_record list" where
  "prepare_revoke sv c cmd clock rnd db =
    (if rcm_RequestID cmd = '''' then Inl (Inl (ConsentInvalid [fe ''Idempotency-Key'' CodeRequired]))
     else
      (let now = time_Truncate clock time_Microsecond; view = service_view sv c now db in
       case CheckRevocable view of
         Some err \<Rightarrow>
           if errors_Is err ErrAlreadyRevoked \<and> sameRequest (cn_ID c) (rcm_RequestID cmd) db then Inl (Inr view)
           else Inl (Inl (ConsentErr err))
       | None \<Rightarrow>
          (let fields = RevokeCommand_validate cmd c now in
           if fields \<noteq> [] then Inl (Inl (ConsentInvalid fields))
           else
            (case newRevocationID rnd of
               Inl err \<Rightarrow> Inl (Inl (ConsentErr err))
             | Inr i \<Rightarrow>
                (let rvn = new_revocation sv i c (cvw_Entities view) cmd now in
                 case new_notices rvn (rv_Entities rvn) of
                   Inl err \<Rightarrow> Inl (Inl (ConsentErr err))
                 | Inr notices \<Rightarrow> Inr (rvn, notices))))))"

definition service_revoke ::
  "revocation_service \<Rightarrow> consent \<Rightarrow> revoke_command \<Rightarrow> time \<Rightarrow> revoke_draws \<Rightarrow> audit_db \<Rightarrow>
   audit_db \<times> (consent_error + consent_view \<times> bool)" where
  "service_revoke sv c cmd clock d db =
    (case prepare_revoke sv c cmd clock (rd_random d) db of
       Inl (Inl err) \<Rightarrow> (db, Inl err)
     | Inl (Inr view) \<Rightarrow> (db, Inr (view, False))
     | Inr (rvn, notices) \<Rightarrow>
        (case Record_revocation rvn notices (rd_events d) (rd_recorded d) db of
           (db', Inl err) \<Rightarrow>
             if errors_Is err ErrAlreadyRevoked \<or> errors_Is err ErrIdempotencyKeyReused
             then (db', Inl (ConsentErr err))
             else (db', Inl (ConsentErr (errorf_w ''record the revocation: '' err)))
         | (db', Inr (_, created)) \<Rightarrow> (db', Inr (service_view sv c (rd_after d) db', created))))"

definition RevokeAsHolder ::
  "unicode_tables \<Rightarrow> revocation_service \<Rightarrow> string \<Rightarrow> string \<Rightarrow> string \<Rightarrow> string \<Rightarrow> revoke_request \<Rightarrow> time \<Rightarrow> revoke_draws \<Rightarrow>
   audit_db \<Rightarrow> audit_db \<times> (consent_error + consent_view \<times> bool)" where
  "RevokeAsHolder u sv document subject consentID requestID req clock d db =
    (case holderConsent u document consentID db of
       Inl err \<Rightarrow> (db, Inl (ConsentErr err))
     | Inr c \<Rightarrow> service_revoke sv c
         \<lparr>rcm_ConsentID = consentID, rcm_Actor = \<lparr>act_Type = ActorHolder, act_ID = subject\<rparr>,
          rcm_Channel = RevocationChannelMobileApp, rcm_Request = req, rcm_Reason = '''', rcm_Reference = '''',
          rcm_RequestID = requestID\<rparr> clock d db)"

definition Revoke ::
  "revocation_service \<Rightarrow> revoke_command \<Rightarrow> time \<Rightarrow> revoke_draws \<Rightarrow> audit_db \<Rightarrow>
   audit_db \<times> (consent_error + consent_view \<times> bool)" where
  "Revoke sv cmd clock d db =
    (case Consent_Get (rcm_ConsentID cmd) db of
       Inl err \<Rightarrow> (db, Inl (ConsentErr (wrapStore err)))
     | Inr c \<Rightarrow> service_revoke sv c cmd clock d db)"

text \<open>The receipt is rendered from the revocation and its consent.\<close>

definition Receipt_data :: "unicode_tables \<Rightarrow> string \<Rightarrow> string \<Rightarrow> audit_db \<Rightarrow> go_error + revocation \<times> consent" where
  "Receipt_data u document consentID db =
    (case holderConsent u document consentID db of
       Inl err \<Rightarrow> Inl err
     | Inr c \<Rightarrow>
        (case GetByConsent (cn_ID c) db of
           Inl err \<Rightarrow> if errors_Is err ErrRevocationNotFound then Inl ErrConsentNotFound
                      else Inl (errorf_w ''read the revocation: '' err)
         | Inr r \<Rightarrow> Inr (r, c)))"

definition RetryPending ::
  "revocation_service \<Rightarrow> string \<Rightarrow> actor \<Rightarrow> time \<Rightarrow> time \<Rightarrow> audit_db \<Rightarrow> audit_db \<times> (go_error + string list)" where
  "RetryPending sv consentID a now rec db =
    (case Consent_Get consentID db of
       Inl err \<Rightarrow> (db, Inl (wrapStore err))
     | Inr _ \<Rightarrow>
        (case Notice_Resume consentID [] now (rs_deadline sv) a rec db of
           (db', Inl err) \<Rightarrow> (db', Inl (errorf_w ''retry the notices: '' err))
         | (db', Inr resumed) \<Rightarrow> (db', Inr resumed)))"

section \<open>The compliance portal\<close>

record compliance_state =
  cst_View :: consent_view
  cst_Record :: "revocation option"
  cst_History :: "consent_event list"

definition lifecycleRank :: "string \<Rightarrow> int" where
  "lifecycleRank st = (if st = HistoryRevocationRequested then 0 else if st = HistoryRevoked then 1 else 2)"

definition complianceHistory :: "consent \<Rightarrow> consent_event list \<Rightarrow> time \<Rightarrow> consent_event list" where
  "complianceHistory c events now =
    (let own = sort_key (\<lambda>e. (cev_OccurredAt e, cev_RecordedAt e, lifecycleRank (cev_Status e), cev_EventID e))
           (filter (\<lambda>e. cev_ConsentID e = cn_ID c) events);
         history = blank_event\<lparr>cev_ConsentID := cn_ID c, cev_Status := HistoryGranted, cev_OccurredAt := cn_GrantedAt c,
             cev_Channel := cn_Channel c\<rparr> # own;
         expires = ExpiresAt c
     in if \<not> now < expires
        then sort_key cev_OccurredAt (history @ [blank_event\<lparr>cev_ConsentID := cn_ID c, cev_Status := HistoryExpired,
               cev_OccurredAt := expires\<rparr>])
        else history)"

definition compliance_State :: "revocation_service \<Rightarrow> string \<Rightarrow> time \<Rightarrow> audit_db \<Rightarrow> go_error + compliance_state" where
  "compliance_State sv consentID now db =
    (case Consent_Get consentID db of
       Inl err \<Rightarrow> Inl (wrapStore err)
     | Inr c \<Rightarrow>
        (let events = ListByConsents [cn_ID c] db (cn_ID c);
             state = \<lparr>cst_View = consent_View c events now (rs_names sv), cst_Record = None,
                      cst_History = complianceHistory c events now\<rparr>
         in if cvw_Revocation (cst_View state) = None then Inr state
            else (case GetByConsent (cn_ID c) db of
                    Inl err \<Rightarrow> if errors_Is err ErrRevocationNotFound then Inr state
                               else Inl (errorf_w ''read the revocation: '' err)
                  | Inr r \<Rightarrow> Inr (state\<lparr>cst_Record := Some r\<rparr>))))"

definition hasNotConfirmed :: "revocation_view \<Rightarrow> bool" where
  "hasNotConfirmed rvw = list_ex (\<lambda>n. nt_Status n = NoticeNotConfirmed) (rvw_Entities rvw)"

text \<open>The clock is read for the request, for the revocation, for its view and for the state.\<close>

definition compliance_Revoke ::
  "revocation_service \<Rightarrow> string \<Rightarrow> string \<Rightarrow> string \<Rightarrow> compliance_revoke_request \<Rightarrow> time \<Rightarrow> time \<Rightarrow> revoke_draws \<Rightarrow> time \<Rightarrow>
   audit_db \<Rightarrow> audit_db \<times> (consent_error + compliance_state \<times> bool)" where
  "compliance_Revoke sv consentID actorSub requestID req t0 clock d t1 db =
    (let fields = ComplianceRevokeRequest_Validate req in
     if fields \<noteq> [] then (db, Inl (ConsentInvalid fields))
     else
      (case Revoke sv
          \<lparr>rcm_ConsentID = consentID, rcm_Actor = \<lparr>act_Type = ActorOperations, act_ID = actorSub\<rparr>,
           rcm_Channel = RevocationChannelCompliancePortal,
           rcm_Request = \<lparr>rvq_RequestedAt = t0, rvq_Device = compliance_Device req,
             rvq_ConfirmationMethod = ConfirmationRoleAttestation\<rparr>,
           rcm_Reason = cmq_Reason req, rcm_Reference = NormalizedReference req, rcm_RequestID = requestID\<rparr> clock d db of
         (db', Inl err) \<Rightarrow> (db', Inl err)
       | (db', Inr (_, created)) \<Rightarrow>
          (case compliance_State sv consentID t1 db' of
             Inl err \<Rightarrow> (db', Inl (ConsentErr err))
           | Inr state \<Rightarrow> (db', Inr (state, created)))))"

text \<open>An error comes with the state that was read, where the code returns it.\<close>

definition compliance_Retry ::
  "revocation_service \<Rightarrow> string \<Rightarrow> string \<Rightarrow> time \<Rightarrow> time \<Rightarrow> time \<Rightarrow> time \<Rightarrow> audit_db \<Rightarrow>
   audit_db \<times> (go_error \<times> compliance_state option + string list \<times> compliance_state)" where
  "compliance_Retry sv consentID actorSub t0 now rec t1 db =
    (case compliance_State sv consentID t0 db of
       Inl err \<Rightarrow> (db, Inl (err, None))
     | Inr state \<Rightarrow>
        (case cvw_Revocation (cst_View state) of
           None \<Rightarrow> (db, Inl (ErrConsentNotRevoked, Some state))
         | Some rvw \<Rightarrow>
            if rvw_Summary rvw \<noteq> NoticePartial \<or> \<not> hasNotConfirmed rvw then (db, Inl (ErrNothingToRetry, Some state))
            else
             (case RetryPending sv consentID \<lparr>act_Type = ActorOperations, act_ID = actorSub\<rparr> now rec db of
                (db', Inl err) \<Rightarrow> (db', Inl (err, None))
              | (db', Inr retried) \<Rightarrow>
                  if retried = [] then (db', Inl (ErrNothingToRetry, Some state))
                  else (case compliance_State sv consentID t1 db' of
                          Inl err \<Rightarrow> (db', Inl (err, None))
                        | Inr after \<Rightarrow> (db', Inr (retried, after))))))"

section \<open>The holder\<close>

definition ErrInvalidHolderLink :: go_error where "ErrInvalidHolderLink = errors_New ''invalid holder link''"

definition invalid_link :: "string \<Rightarrow> go_error" where
  "invalid_link what = errorf_w what ErrInvalidHolderLink"

fun first_invalid_identifier :: "(string \<times> string) list \<Rightarrow> go_error option" where
  "first_invalid_identifier [] = None"
| "first_invalid_identifier ((field, value) # fs) =
    (if value = '''' then Some (invalid_link (field @ '' is required''))
     else if length value > MaxIdentifierLength then Some (invalid_link (field @ '' is too long''))
     else first_invalid_identifier fs)"

definition HolderLink_Validate :: "unicode_tables \<Rightarrow> holder_link \<Rightarrow> go_error option" where
  "HolderLink_Validate u l =
    (case first_invalid_identifier [(''subject'', hl_Subject l), (''customer_id'', hl_CustomerID l), (''event_id'', hl_EventID l)] of
       Some e \<Rightarrow> Some e
     | None \<Rightarrow>
        if hl_DocumentID l = '''' then Some (invalid_link ''document_id is required'')
        else if \<not> documentPattern (hl_DocumentID l) \<or> hl_DocumentID l \<noteq> NormalizeDocument u (hl_DocumentID l)
        then Some (invalid_link ''document_id is not a normalized document'')
        else if time_IsZero (hl_LinkedAt l) then Some (invalid_link ''linked_at is required'')
        else None)"

definition holder_Link :: "unicode_tables \<Rightarrow> holder_link \<Rightarrow> audit_db \<Rightarrow> audit_db \<times> go_error option" where
  "holder_Link u l0 db =
    (let l = l0\<lparr>hl_DocumentID := NormalizeDocument u (hl_DocumentID l0)\<rparr> in
     case HolderLink_Validate u l of
       Some e \<Rightarrow> (db, Some e)
     | None \<Rightarrow> (case store_Link l db of
                 (db', Inl e) \<Rightarrow> (db', Some (errorf_w ''record the holder link: '' e))
               | (db', Inr _) \<Rightarrow> (db', None)))"

definition holder_Resolve :: "string \<Rightarrow> audit_db \<Rightarrow> go_error + string" where
  "holder_Resolve subject db =
    (case DocumentOf subject db of
       Inl e \<Rightarrow> if errors_Is e ErrHolderNotLinked then Inl e else Inl (errorf_w ''resolve the holder: '' e)
     | Inr doc \<Rightarrow> Inr doc)"

definition holder_List :: "unicode_tables \<Rightarrow> entity_names \<Rightarrow> string \<Rightarrow> time \<Rightarrow> audit_db \<Rightarrow> consent_view list" where
  "holder_List u names document now db =
    (let own = ListByHolder u document db; ids = map cn_ID own in
     SortForHolder (map (\<lambda>c. consent_View c (ListByConsents ids db (cn_ID c)) now names) own))"

definition holder_Get :: "unicode_tables \<Rightarrow> entity_names \<Rightarrow> string \<Rightarrow> string \<Rightarrow> time \<Rightarrow> audit_db \<Rightarrow> go_error + consent_view" where
  "holder_Get u names document i now db =
    (case holderConsent u document i db of
       Inl e \<Rightarrow> Inl e
     | Inr c \<Rightarrow> Inr (consent_View c (ListByConsents [cn_ID c] db (cn_ID c)) now names))"

section \<open>The worker of the notices\<close>

record notice_config =
  nwc_Batch :: nat
  nwc_Lease :: duration
  nwc_RetryBase :: duration
  nwc_RetryMax :: duration

text \<open>\<^verbatim>\<open>NewNoticeWorker\<close>: zero values take the defaults; the window is the one of the notice.\<close>

definition notice_defaults :: "int \<Rightarrow> duration \<Rightarrow> duration \<Rightarrow> duration \<Rightarrow> notice_config" where
  "notice_defaults batch lease base mx =
    \<lparr>nwc_Batch = (if batch \<le> 0 then 50 else nat batch), nwc_Lease = (if lease \<le> 0 then 5 * time_Second else lease),
     nwc_RetryBase = (if base \<le> 0 then time_Second else base),
     nwc_RetryMax = (if mx \<le> 0 then 30 * time_Second else mx)\<rparr>"

definition notice_policy :: "notice_config \<Rightarrow> retry_policy" where
  "notice_policy cfg = \<lparr>rp_Base = nwc_RetryBase cfg, rp_Max = nwc_RetryMax cfg, rp_Window = 0\<rparr>"

definition notice_runner :: "notice_config \<Rightarrow> time \<Rightarrow> (audit_db, notice_record) runner" where
  "notice_runner cfg rec = \<lparr>rn_store = notice_store rec, rn_state = NoticeRecord_AttemptState,
     rn_policy = notice_policy cfg, rn_lease = nwc_Lease cfg\<rparr>"

text \<open>One identifier after another: each with the instant of its claim, of its result and of the
  database. The number of claims and the first error that is not a lost claim.\<close>

fun process_notices ::
  "notice_config \<Rightarrow> (audit_db, notice_record) exec \<Rightarrow> (string \<times> time \<times> time \<times> time) list \<Rightarrow> nat \<Rightarrow> go_error option \<Rightarrow>
   audit_db \<Rightarrow> audit_db \<times> nat \<times> go_error option" where
  "process_notices cfg notify [] claimed firstErr db = (db, claimed, firstErr)"
| "process_notices cfg notify ((i, t1, t2, rec) # ids) claimed firstErr db =
    (case Runner_Process (notice_runner cfg rec) i notify t1 t2 db of
       (db', rep, Some e) \<Rightarrow>
         process_notices cfg notify ids claimed
           (if \<not> errors_Is e ErrClaimLost \<and> firstErr = None then Some e else firstErr) db'
     | (db', rep, None) \<Rightarrow>
         process_notices cfg notify ids (if rep_Claimed rep then claimed + 1 else claimed) firstErr db')"

text \<open>The \<open>k\<close>-th notice of the batch has the \<open>k\<close>-th instants of \<open>ts\<close>; a context that ends is a
  shorter \<open>ts\<close>.\<close>

definition notices_ProcessOnce ::
  "notice_config \<Rightarrow> (audit_db, notice_record) exec \<Rightarrow> time \<Rightarrow> (time \<times> time \<times> time) list \<Rightarrow> audit_db \<Rightarrow>
   audit_db \<times> nat \<times> go_error option" where
  "notices_ProcessOnce cfg notify now ts db =
    process_notices cfg notify (zip (Notice_Due now (nwc_Batch cfg) db) ts) 0 None db"

end
