(* ===== verification/Consent_Runs.thy ===== *)
theory Consent_Runs
  imports Consent_Service
begin

text \<open>
  The consents as they run: the grants, the holders and the analysts that revoke, the worker of the
  notices and the retries, each doing one atomic step at a time in any order (\<open>audit_step\<close>). A
  revocation reads the consent in one step and is recorded in a later one, so several may be under
  way for one consent; a worker may stall or die between its claim and its result. The clocks of
  the tasks agree and do not go back, and the database records its transactions at growing
  instants.

  \<open>audit_runs_inv\<close> is the invariant of the runs: what the events of a revocation say of each entity
  is what the last step of its notice says.
\<close>

record audit_sys =
  as_db :: audit_db
  as_revoking :: "(revocation \<times> notice_record list) list"
  as_flight :: "notice_record list"
  as_now :: time

definition good_random :: "random_bytes \<Rightarrow> bool" where
  "good_random rnd \<longleftrightarrow> (case rnd of Inl _ \<Rightarrow> True | Inr b \<Rightarrow> length b = 16 \<and> list_all (\<lambda>x. x < 256) b)"

definition db_clock :: "time \<Rightarrow> audit_db \<Rightarrow> bool" where
  "db_clock rec db \<longleftrightarrow> list_all (\<lambda>e. cev_RecordedAt e < rec) (ad_events db)"

inductive audit_step :: "audit_sys \<Rightarrow> audit_sys \<Rightarrow> bool" where
  tick: "as_now y \<le> t \<Longrightarrow> audit_step y (y\<lparr>as_now := t\<rparr>)"
| grant: "good_random rnd \<Longrightarrow> audit_step y (y\<lparr>as_db := fst (Grant u req rnd (as_now y) rec (as_db y))\<rparr>)"
| link: "audit_step y (y\<lparr>as_db := fst (holder_Link u l (as_db y))\<rparr>)"
| revoke_read: "Consent_Get i (as_db y) = Inr c \<Longrightarrow> 0 < rs_deadline sv \<Longrightarrow>
    prepare_revoke sv c cmd (as_now y) rnd (as_db y) = Inr (rvn, notices) \<Longrightarrow>
    audit_step y (y\<lparr>as_revoking := (rvn, notices) # as_revoking y\<rparr>)"
| revoke_record: "as_revoking y = xs @ (rvn, notices) # ys \<Longrightarrow> db_clock rec (as_db y) \<Longrightarrow>
    audit_step y (y\<lparr>as_db := fst (Record_revocation rvn notices ids rec (as_db y)), as_revoking := xs @ ys\<rparr>)"
| revoke_stop: "as_revoking y = xs @ p # ys \<Longrightarrow> audit_step y (y\<lparr>as_revoking := xs @ ys\<rparr>)"
| claim: "Notice_Claim i (as_now y) lease (as_db y) = (db', Inr (Some r)) \<Longrightarrow> 0 < lease \<Longrightarrow>
    audit_step y (y\<lparr>as_db := db', as_flight := r # as_flight y\<rparr>)"
| write_result: "as_flight y = xs @ r # ys \<Longrightarrow> db_clock rec (as_db y) \<Longrightarrow>
    record_result (notice_runner cfg rec) r (as_now y) res (as_db y) = (stat, reason, db', stored) \<Longrightarrow>
    audit_step y (y\<lparr>as_db := db', as_flight := xs @ ys\<rparr>)"
| crash: "as_flight y = xs @ r # ys \<Longrightarrow> audit_step y (y\<lparr>as_flight := xs @ ys\<rparr>)"
| retry: "0 < rs_deadline sv \<Longrightarrow> db_clock rec (as_db y) \<Longrightarrow>
    audit_step y (y\<lparr>as_db := fst (RetryPending sv i a (as_now y) rec (as_db y))\<rparr>)"

definition audit_init :: "time \<Rightarrow> audit_sys" where
  "audit_init t = \<lparr>as_db = empty_audit_db, as_revoking = [], as_flight = [], as_now = t\<rparr>"

definition audit_reach :: "audit_sys \<Rightarrow> bool" where
  "audit_reach y \<longleftrightarrow> (\<exists>t. 0 < t \<and> audit_step\<^sup>*\<^sup>* (audit_init t) y)"

section \<open>The events of a notice\<close>

text \<open>The state that the events of an entity give, from its first window.\<close>

definition entity_events :: "string \<Rightarrow> string \<Rightarrow> audit_db \<Rightarrow> consent_event list" where
  "entity_events c e db = filter (\<lambda>v. cev_ConsentID v = c \<and> cev_EntityCode v = e) (ad_events db)"

definition events_state :: "string \<Rightarrow> time \<Rightarrow> consent_event list \<Rightarrow> entity_notice \<times> bool" where
  "events_state code d evs = notice_events [] evs \<lparr>ew_Code = code, ew_DeadlineAt = d\<rparr>"

text \<open>What the last step of the notice says, against the state of the events.\<close>

definition step_says :: "notice_step \<Rightarrow> notice_status \<times> time \<Rightarrow> bool" where
  "step_says l p \<longleftrightarrow>
    (case sp_Status l of
       StatusConfirmed \<Rightarrow> fst p = NoticeConfirmed
     | StatusFailed \<Rightarrow> fst p = NoticeNotConfirmed
     | _ \<Rightarrow> fst p = NoticePending \<and> snd p = sp_WindowEndsAt l)"

definition notice_says :: "string \<Rightarrow> string \<Rightarrow> time \<Rightarrow> audit_db \<Rightarrow> bool" where
  "notice_says c e d db \<longleftrightarrow>
    (case last_step c e db of None \<Rightarrow> False
     | Some l \<Rightarrow> (let n = fst (events_state e d (entity_events c e db)) in step_says l (nt_Status n, nt_DeadlineAt n)))"

section \<open>The invariant\<close>

definition revoked_events :: "string \<Rightarrow> audit_db \<Rightarrow> consent_event list" where
  "revoked_events c db =
    filter (\<lambda>v. cev_ConsentID v = c \<and> cev_EntityCode v = '''' \<and> cev_Status v = HistoryRevoked) (ad_events db)"

definition notices_of :: "string \<Rightarrow> audit_db \<Rightarrow> ((string \<times> string) \<times> string) list" where
  "notices_of c db = filter (\<lambda>n. fst (fst n) = c) (ad_notices db)"

text \<open>A revocation has one revoked event, before the expiry, with a window for each of its notices,
  and the events of each notice say what its last step says.\<close>

definition revocation_ok :: "time \<Rightarrow> audit_db \<Rightarrow> revocation \<Rightarrow> bool" where
  "revocation_ok now db r \<longleftrightarrow>
    (\<exists>v ws. revoked_events (rv_ConsentID r) db = [v] \<and> cev_OccurredAt v = rv_EffectiveAt r \<and>
      cev_ReceiptID v = rv_ReceiptNumber r \<and> cev_Details v = RevokedDetails (rv_ID r) ws \<and>
      map ew_Code ws = map (snd \<circ> fst) (notices_of (rv_ConsentID r) db) \<and>
      (\<forall>w. w \<in> set ws \<longrightarrow> notice_says (rv_ConsentID r) (ew_Code w) (ew_DeadlineAt w) db)) \<and>
    rv_EffectiveAt r \<le> now \<and>
    (\<forall>c rec. (c, rec) \<in> set (ad_consents db) \<longrightarrow> cn_ID c = rv_ConsentID r \<longrightarrow> rv_EffectiveAt r < ExpiresAt c) \<and>
    (\<forall>v. v \<in> set (ad_events db) \<longrightarrow> cev_ConsentID v = rv_ConsentID r \<longrightarrow> cev_EntityCode v \<noteq> '''' \<longrightarrow>
       rv_EffectiveAt r \<le> cev_OccurredAt v)"

text \<open>The events of an entity are in the order of their times.\<close>

definition events_ok :: "time \<Rightarrow> audit_db \<Rightarrow> bool" where
  "events_ok now db \<longleftrightarrow>
    (\<forall>c e. e \<noteq> '''' \<longrightarrow> sorted (map event_order (entity_events c e db))) \<and>
    (\<forall>v. v \<in> set (ad_events db) \<longrightarrow> cev_EntityCode v \<noteq> '''' \<longrightarrow> cev_OccurredAt v \<le> now) \<and>
    (\<forall>v. v \<in> set (ad_events db) \<longrightarrow> (\<exists>r. r \<in> set (ad_revocations db) \<and> rv_ConsentID r = cev_ConsentID v))"

text \<open>The entity and the document of every consent, the keys and the receipts, which come from the sequence.\<close>

definition audit_keys_ok :: "audit_db \<Rightarrow> bool" where
  "audit_keys_ok db \<longleftrightarrow>
    (\<forall>c rec. (c, rec) \<in> set (ad_consents db) \<longrightarrow> cn_PartnerID c \<noteq> '''' \<and> documentPattern (chd_DocumentID (cn_Holder c))) \<and>
    (\<forall>c e k. ((c, e), k) \<in> set (ad_notices db) \<longrightarrow> k = ''revocation-'' @ c @ ''-'' @ e) \<and>
    (\<forall>r. r \<in> set (ad_revocations db) \<longrightarrow>
       (\<exists>n. n \<le> ad_receipt_seq db \<and> rv_ReceiptNumber r = FormatReceiptNumber (rv_EffectiveAt r) n))"

text \<open>A claim in flight: once there is a later step its lease has ended, and every later claim has a
  later lease.\<close>

definition notice_flight_ok :: "time \<Rightarrow> audit_db \<Rightarrow> notice_record \<Rightarrow> bool" where
  "notice_flight_ok now db r \<longleftrightarrow>
    (\<exists>s. s \<in> set (ad_steps db) \<and> join_notice db s = Some r \<and> sp_Status s = StatusInProgress) \<and>
    CHR ''/'' \<notin> set (nr_ConsentID r) \<and>
    (nr_Seq r < length (steps_of (nr_ConsentID r) (nr_EntityCode r) db) \<longrightarrow> nr_ClaimedUntil r < now) \<and>
    (\<forall>t. t \<in> set (steps_of (nr_ConsentID r) (nr_EntityCode r) db) \<longrightarrow> nr_Seq r < sp_Seq t \<longrightarrow>
       sp_Status t = StatusInProgress \<longrightarrow> nr_ClaimedUntil r < sp_ClaimedUntil t)"

definition flight_id :: "notice_record \<Rightarrow> string \<times> string \<times> nat" where
  "flight_id r = (nr_ConsentID r, nr_EntityCode r, nr_Seq r)"

text \<open>A revocation that was read but not recorded.\<close>

definition revoking_ok :: "time \<Rightarrow> audit_db \<Rightarrow> revocation \<times> notice_record list \<Rightarrow> bool" where
  "revoking_ok now db p \<longleftrightarrow>
    (let (r, ns) = p in
     (\<exists>c rec. (c, rec) \<in> set (ad_consents db) \<and> cn_ID c = rv_ConsentID r \<and> rv_EffectiveAt r < ExpiresAt c) \<and>
     rv_EffectiveAt r \<le> now \<and> rv_NoticeDeadlineAt r \<noteq> zero_time \<and>
     (\<exists>e. ns = [new_notice r e (''revocation-'' @ rv_ConsentID r @ ''-'' @ e)] \<and> e \<noteq> ''''))"

definition audit_runs_inv :: "audit_sys \<Rightarrow> bool" where
  "audit_runs_inv y \<longleftrightarrow> 0 < as_now y \<and> audit_inv (as_db y) \<and> events_ok (as_now y) (as_db y) \<and> audit_keys_ok (as_db y) \<and>
    (\<forall>r. r \<in> set (ad_revocations (as_db y)) \<longrightarrow> revocation_ok (as_now y) (as_db y) r) \<and>
    (\<forall>r. r \<in> set (as_flight y) \<longrightarrow> notice_flight_ok (as_now y) (as_db y) r) \<and> distinct (map flight_id (as_flight y)) \<and>
    (\<forall>p. p \<in> set (as_revoking y) \<longrightarrow> revoking_ok (as_now y) (as_db y) p)"

end
