(* ===== verification/Consent_Safety.thy ===== *)
theory Consent_Safety
  imports Consent_Runs
begin

text \<open>
  Every step of the runs keeps \<open>audit_runs_inv\<close>. A claim, a result and a resumption are all one
  step appended to a notice, with an event or without one (\<open>advance\<close>); the state of the events
  then moves as the last step does (\<open>moves\<close>).
\<close>

section \<open>Steps and claims\<close>

lemma steps_numbered_inj:
  assumes "steps_numbered db" and "s \<in> set (steps_of c e db)" and "t \<in> set (steps_of c e db)" and "sp_Seq s = sp_Seq t"
  shows "s = t"
proof -
  have "distinct (map sp_Seq (steps_of c e db))" using assms(1) by (metis steps_numbered_def distinct_upt)
  with assms(2-4) show ?thesis by (metis distinct_map inj_onD)
qed

lemma audit_inv_numbered: "audit_inv db \<Longrightarrow> steps_numbered db"
  by (simp add: audit_inv_def)

text \<open>The step that a claim in flight holds, and the last step of its notice.\<close>

lemma flight_step:
  assumes inv: "audit_inv db" and fl: "notice_flight_ok now db r" and l: "last_step (nr_ConsentID r) (nr_EntityCode r) db = Some l"
  shows "nr_Seq r \<le> sp_Seq l"
    and "nr_Seq r = sp_Seq l \<Longrightarrow> sp_Status l = StatusInProgress \<and> sp_ClaimedUntil l = nr_ClaimedUntil r \<and>
      sp_WindowEndsAt l = nr_WindowEndsAt r"
proof -
  from fl obtain s where s: "s \<in> set (ad_steps db)" "join_notice db s = Some r" "sp_Status s = StatusInProgress"
    unfolding notice_flight_ok_def by blast
  then have e: "sp_ConsentID s = nr_ConsentID r" "sp_EntityCode s = nr_EntityCode r" "sp_Seq s = nr_Seq r"
    "sp_ClaimedUntil s = nr_ClaimedUntil r" "sp_WindowEndsAt s = nr_WindowEndsAt r"
    by (auto simp: join_notice_def split: option.splits)
  note ls = audit_inv_last [OF inv l]
  have mem: "s \<in> set (steps_of (nr_ConsentID r) (nr_EntityCode r) db)" using s(1) e by (simp add: steps_of_def)
  then have "nr_Seq r \<in> sp_Seq ` set (steps_of (nr_ConsentID r) (nr_EntityCode r) db)" using e by force
  with ls show "nr_Seq r \<le> sp_Seq l" using steps_numbered_seqs [OF audit_inv_numbered [OF inv]] by simp
  assume "nr_Seq r = sp_Seq l"
  with ls e have "s = l" by (intro steps_numbered_inj [OF audit_inv_numbered [OF inv] mem]) (simp_all add: steps_of_def)
  with s e show "sp_Status l = StatusInProgress \<and> sp_ClaimedUntil l = nr_ClaimedUntil r \<and> sp_WindowEndsAt l = nr_WindowEndsAt r"
    by simp
qed

lemma flight_claimed: "audit_inv db \<Longrightarrow> notice_flight_ok now db r \<Longrightarrow> claimed_notice db r"
proof -
  assume inv: "audit_inv db" and fl: "notice_flight_ok now db r"
  have "sp_Seq l = nr_Seq r" if l: "last_step (nr_ConsentID r) (nr_EntityCode r) db = Some l"
    and st: "sp_Status l = StatusInProgress" "sp_ClaimedUntil l = nr_ClaimedUntil r" for l
  proof (rule ccontr)
    assume "sp_Seq l \<noteq> nr_Seq r"
    then have "nr_Seq r < sp_Seq l" using flight_step(1) [OF inv fl l] by simp
    moreover have "l \<in> set (steps_of (nr_ConsentID r) (nr_EntityCode r) db)"
      using audit_inv_last [OF inv l] by (simp add: steps_of_def)
    ultimately have "nr_ClaimedUntil r < sp_ClaimedUntil l" using fl st unfolding notice_flight_ok_def by blast
    with st(2) show False by simp
  qed
  with fl show ?thesis unfolding notice_flight_ok_def claimed_notice_def by blast
qed

section \<open>The core of the invariant\<close>

definition core_ok :: "time \<Rightarrow> audit_db \<Rightarrow> bool" where
  "core_ok now db \<longleftrightarrow> audit_inv db \<and> events_ok now db \<and> audit_keys_ok db \<and>
    (\<forall>r. r \<in> set (ad_revocations db) \<longrightarrow> revocation_ok now db r)"

lemma audit_runs_inv_core:
  "audit_runs_inv y \<longleftrightarrow> 0 < as_now y \<and> core_ok (as_now y) (as_db y) \<and>
    (\<forall>r. r \<in> set (as_flight y) \<longrightarrow> notice_flight_ok (as_now y) (as_db y) r) \<and> distinct (map flight_id (as_flight y)) \<and>
    (\<forall>p. p \<in> set (as_revoking y) \<longrightarrow> revoking_ok (as_now y) (as_db y) p)"
  by (auto simp: audit_runs_inv_def core_ok_def)

lemma core_okD:
  assumes "core_ok now db"
  shows "audit_inv db" and "events_ok now db" and "audit_keys_ok db"
    and "r \<in> set (ad_revocations db) \<Longrightarrow> revocation_ok now db r"
  using assms by (simp_all add: core_ok_def)

lemma core_ok_later: "core_ok now db \<Longrightarrow> now \<le> t \<Longrightarrow> core_ok t db"
  unfolding core_ok_def events_ok_def revocation_ok_def by (meson order_trans)

lemma notice_flight_ok_later: "notice_flight_ok now db r \<Longrightarrow> now \<le> t \<Longrightarrow> notice_flight_ok t db r"
  unfolding notice_flight_ok_def by (meson order_less_le_trans)

lemma revoking_ok_later: "revoking_ok now db p \<Longrightarrow> now \<le> t \<Longrightarrow> revoking_ok t db p"
  by (auto simp: revoking_ok_def split: prod.splits)

lemma audit_runs_inv_init: "0 < t \<Longrightarrow> audit_runs_inv (audit_init t)"
  by (simp add: audit_runs_inv_core core_ok_def audit_init_def, simp add: empty_audit_db_def events_ok_def audit_keys_ok_def entity_events_def)

section \<open>Appending a step\<close>

definition moves :: "notice_step \<Rightarrow> notice_step \<Rightarrow> consent_event option \<Rightarrow> bool" where
  "moves l s evo \<longleftrightarrow> sp_Status l \<noteq> StatusConfirmed \<and>
    (case evo of
       None \<Rightarrow> sp_Status l \<noteq> StatusFailed \<and> (sp_Status s = StatusPending \<or> sp_Status s = StatusInProgress) \<and>
         sp_WindowEndsAt s = sp_WindowEndsAt l
     | Some ev \<Rightarrow>
         cev_Status ev = HistoryRevocationConfirmed \<and> sp_Status s = StatusConfirmed \<or>
         cev_Status ev = HistoryRevocationNotConfirmed \<and> sp_Status s = StatusFailed \<or>
         cev_Status ev = HistoryRevocationRetryRequested \<and> retry_deadline ev = Some (sp_WindowEndsAt s) \<and>
           sp_Status s = StatusPending)"

lemma moves_says:
  assumes "moves l s evo" and "step_says l (nt_Status (fst p), nt_DeadlineAt (fst p))"
  shows "step_says s (case evo of None \<Rightarrow> (nt_Status (fst p), nt_DeadlineAt (fst p))
    | Some ev \<Rightarrow> (let q = notice_event (cev_EntityCode ev) ev p in (nt_Status (fst q), nt_DeadlineAt (fst q))))"
proof (cases p)
  case (Pair n u)
  have "nt_Status n \<noteq> NoticeConfirmed" using assms Pair by (auto simp: moves_def step_says_def split: status.splits)
  with assms Pair show ?thesis
    by (cases evo; cases "sp_Status l")
      (auto simp: moves_def step_says_def notice_event_def history_defs)
qed

definition advance :: "notice_step \<Rightarrow> consent_event option \<Rightarrow> audit_db \<Rightarrow> audit_db" where
  "advance s evo db = (case evo of None \<Rightarrow> with_step s db | Some ev \<Rightarrow> with_event ev (with_step s db))"

definition event_of_step :: "time \<Rightarrow> notice_step \<Rightarrow> consent_event \<Rightarrow> audit_db \<Rightarrow> bool" where
  "event_of_step now s ev db \<longleftrightarrow>
    cev_EventID ev = entity_event_id (sp_ConsentID s) (sp_EntityCode s) (sp_Seq s) \<and> cev_ConsentID ev = sp_ConsentID s \<and>
    cev_EntityCode ev = sp_EntityCode s \<and> cev_OccurredAt ev = now \<and>
    list_all (\<lambda>f. cev_RecordedAt f < cev_RecordedAt ev) (entity_events (sp_ConsentID s) (sp_EntityCode s) db)"

lemma advance_sel [simp]:
  "ad_consents (advance s evo db) = ad_consents db" "ad_revocations (advance s evo db) = ad_revocations db"
  "ad_notices (advance s evo db) = ad_notices db" "ad_receipt_seq (advance s evo db) = ad_receipt_seq db"
  "ad_steps (advance s evo db) = ad_steps db @ [s]"
  "ad_events (advance s evo db) = ad_events db @ (case evo of None \<Rightarrow> [] | Some ev \<Rightarrow> [ev])"
  "join_notice (advance s evo db) t = join_notice db t" "ad_links (advance s evo db) = ad_links db"
  by (simp_all add: advance_def split: option.split)

lemma advance_steps_of [simp]: "steps_of c e (advance s evo db) = steps_of c e (with_step s db)"
  by (simp add: advance_def split: option.split)

lemma advance_last_step: "last_step c e (advance s evo db) = last_step c e (with_step s db)"
  by (simp add: last_step_def)

lemma advance_audit_inv:
  assumes inv: "audit_inv db" and l: "last_step (sp_ConsentID s) (sp_EntityCode s) db = Some l" and sq: "sp_Seq s = sp_Seq l + 1"
    and ev: "\<And>ev. evo = Some ev \<Longrightarrow> event_of_step now s ev db"
  shows "audit_inv (advance s evo db)"
proof -
  have a: "audit_inv (with_step s db)" by (rule claimed_step_inv [OF inv l refl refl sq])
  show ?thesis
  proof (cases evo)
    case (Some v)
    have "audit_inv (with_event v (with_step s db))"
      by (rule audit_inv_with_event [OF a], rule disjI2, rule exI [of _ s]) (use ev [OF Some] in \<open>simp add: event_of_step_def\<close>)
    then show ?thesis by (simp add: advance_def Some)
  qed (use a in \<open>simp add: advance_def\<close>)
qed

lemma advance_last:
  assumes "audit_inv db" and "last_step (sp_ConsentID s) (sp_EntityCode s) db = Some l" and "sp_Seq s = sp_Seq l + 1"
  shows "last_step c e (advance s evo db) = (if sp_ConsentID s = c \<and> sp_EntityCode s = e then Some s else last_step c e db)"
  using claimed_step_inv [OF assms(1,2) refl refl assms(3)] assms(1)
  by (simp add: advance_last_step last_step_with_step audit_inv_numbered)

lemma advance_notice_says:
  assumes inv: "audit_inv db" and l: "last_step (sp_ConsentID s) (sp_EntityCode s) db = Some l" and sq: "sp_Seq s = sp_Seq l + 1"
    and ev: "\<And>ev. evo = Some ev \<Longrightarrow> event_of_step now s ev db" and mv: "moves l s evo"
    and says: "notice_says c e d db"
  shows "notice_says c e d (advance s evo db)"
proof (cases "sp_ConsentID s = c \<and> sp_EntityCode s = e")
  case True
  let ?p = "events_state e d (entity_events c e db)"
  have old: "step_says l (nt_Status (fst ?p), nt_DeadlineAt (fst ?p))"
    using says l True by (simp add: notice_says_def Let_def)
  have "events_state e d (entity_events c e (advance s evo db)) =
      (case evo of None \<Rightarrow> ?p | Some v \<Rightarrow> notice_event (cev_EntityCode v) v ?p)"
    using ev True by (auto simp: entity_events_def events_state_def notice_events_def event_of_step_def split: option.split)
  with moves_says [OF mv old] True show ?thesis
    by (auto simp: notice_says_def advance_last [OF inv l sq] Let_def split: option.splits)
next
  case False
  then have "entity_events c e (advance s evo db) = entity_events c e db"
    using ev by (auto simp: entity_events_def event_of_step_def split: option.split)
  with says show ?thesis unfolding notice_says_def advance_last [OF inv l sq] if_not_P [OF False] by (simp split: option.splits)
qed

lemma advance_core_ok:
  assumes core: "core_ok now db" and l: "last_step (sp_ConsentID s) (sp_EntityCode s) db = Some l" and sq: "sp_Seq s = sp_Seq l + 1"
    and ev: "\<And>ev. evo = Some ev \<Longrightarrow> event_of_step now s ev db" and mv: "moves l s evo"
  shows "core_ok now (advance s evo db)"
proof -
  note inv = core_okD(1) [OF core] and evs = core_okD(2) [OF core]
  note ls = audit_inv_last [OF inv l]
  from ls(5) inv have code: "sp_EntityCode s \<noteq> ''''" and rvn: "\<exists>r. r \<in> set (ad_revocations db) \<and> rv_ConsentID r = sp_ConsentID s"
    unfolding audit_inv_def by (metis (no_types, lifting) fst_conv imageE surj_pair)+
  have 1: "events_ok now (advance s evo db)"
  proof (cases evo)
    case (Some v)
    note v = ev [OF Some, unfolded event_of_step_def]
    have "event_order f \<le> event_order v" if f: "f \<in> set (entity_events (sp_ConsentID s) (sp_EntityCode s) db)" for f
    proof -
      have "f \<in> set (ad_events db)" "cev_EntityCode f \<noteq> ''''" using f code by (simp_all add: entity_events_def)
      then have "cev_OccurredAt f \<le> now" using evs unfolding events_ok_def by blast
      moreover have "cev_RecordedAt f < cev_RecordedAt v" using v f by (simp add: list_all_iff)
      ultimately show ?thesis using v by (auto simp: event_order_def)
    qed
    moreover have "entity_events c e (advance s evo db) =
        entity_events c e db @ (if c = sp_ConsentID s \<and> e = sp_EntityCode s then [v] else [])" for c e
      using v Some by (auto simp: entity_events_def)
    moreover have "cev_EntityCode v \<noteq> ''''" "cev_OccurredAt v = now" "\<exists>r. r \<in> set (ad_revocations db) \<and> rv_ConsentID r = cev_ConsentID v"
      using v code rvn by simp_all
    ultimately show ?thesis using evs Some unfolding events_ok_def by (auto simp: sorted_append)
  qed (use evs in \<open>simp add: events_ok_def entity_events_def\<close>)
  have 2: "revocation_ok now (advance s evo db) r" if r: "r \<in> set (ad_revocations db)" for r
  proof -
    note ok = core_okD(4) [OF core r]
    have "revoked_events (rv_ConsentID r) (advance s evo db) = revoked_events (rv_ConsentID r) db"
      using ev code by (auto simp: revoked_events_def event_of_step_def split: option.split)
    moreover have "notices_of (rv_ConsentID r) (advance s evo db) = notices_of (rv_ConsentID r) db" by (simp add: notices_of_def)
    moreover have "notice_says (rv_ConsentID r) c d (advance s evo db)" if "notice_says (rv_ConsentID r) c d db" for c d
      by (rule advance_notice_says [OF inv l sq ev mv that])
    moreover have "rv_EffectiveAt r \<le> cev_OccurredAt v" if "v \<in> set (ad_events (advance s evo db))"
      "cev_ConsentID v = rv_ConsentID r" "cev_EntityCode v \<noteq> ''''" for v
      using that ok ev unfolding revocation_ok_def by (auto simp: event_of_step_def split: option.splits)
    ultimately show ?thesis using ok unfolding revocation_ok_def by simp blast
  qed
  from core_okD(3) [OF core] have 3: "audit_keys_ok (advance s evo db)" by (simp add: audit_keys_ok_def)
  from 1 2 3 advance_audit_inv [OF inv l sq ev] show ?thesis unfolding core_ok_def by auto
qed

text \<open>The claims in flight and the revocations under way.\<close>

lemma advance_flight_ok:
  assumes inv: "audit_inv db" and fl: "notice_flight_ok now db r"
    and l: "last_step (sp_ConsentID s) (sp_EntityCode s) db = Some l" and sq: "sp_Seq s = sp_Seq l + 1"
    and live: "sp_Status s = StatusInProgress \<Longrightarrow> now < sp_ClaimedUntil s"
    and other: "nr_ConsentID r = sp_ConsentID s \<Longrightarrow> nr_EntityCode r = sp_EntityCode s \<Longrightarrow> nr_ClaimedUntil r < now"
  shows "notice_flight_ok now (advance s evo db) r"
  using fl live other unfolding notice_flight_ok_def by (auto simp: steps_of_with_step dest: order_less_trans)

lemma advance_revoking_ok: "revoking_ok now (advance s evo db) p = revoking_ok now db p"
  by (simp add: revoking_ok_def)

text \<open>A claim whose notice is not the last step of the store has ended.\<close>

lemma flight_ended:
  assumes inv: "audit_inv db" and fl: "notice_flight_ok now db r" and l: "last_step (nr_ConsentID r) (nr_EntityCode r) db = Some l"
    and "sp_Status l = StatusInProgress \<Longrightarrow> sp_ClaimedUntil l < now \<or> nr_Seq r \<noteq> sp_Seq l"
  shows "nr_ClaimedUntil r < now"
proof (cases "nr_Seq r = sp_Seq l")
  case True
  with flight_step(2) [OF inv fl l] assms(4) show ?thesis by simp
next
  case False
  with flight_step(1) [OF inv fl l] audit_inv_last(4) [OF inv l]
  have "nr_Seq r < length (steps_of (nr_ConsentID r) (nr_EntityCode r) db)" by simp
  with fl show ?thesis unfolding notice_flight_ok_def by blast
qed

section \<open>The worker\<close>

lemma Notice_Claim_advance:
  assumes inv: "audit_inv db" and cl: "Notice_Claim i now lease db = (db', Inr (Some r))"
  shows "\<exists>l s. last_step (sp_ConsentID s) (sp_EntityCode s) db = Some l \<and> step_due now l \<and>
    s = l\<lparr>sp_Seq := sp_Seq l + 1, sp_Status := StatusInProgress, sp_ClaimedUntil := time_Add now lease,
          sp_Reference := '''', sp_Reason := ''''\<rparr> \<and>
    db' = advance s None db \<and> join_notice db s = Some r"
proof -
  from cl obtain c e l where l: "last_step c e db = Some l" "step_due now l"
    and d: "db' = with_step (l\<lparr>sp_Seq := sp_Seq l + 1, sp_Status := StatusInProgress, sp_ClaimedUntil := time_Add now lease,
          sp_Reference := '''', sp_Reason := ''''\<rparr>) db"
      "join_notice db (l\<lparr>sp_Seq := sp_Seq l + 1, sp_Status := StatusInProgress, sp_ClaimedUntil := time_Add now lease,
          sp_Reference := '''', sp_Reason := ''''\<rparr>) = Some r"
    unfolding Notice_Claim_eq [OF inv] by (auto simp: Let_def split: option.splits if_splits)
  from l d audit_inv_last [OF inv l(1)] show ?thesis by (auto simp: advance_def)
qed

lemma flight_ids_fresh:
  assumes inv: "audit_inv db" and fl: "\<And>f. f \<in> set fs \<Longrightarrow> notice_flight_ok now db f"
    and sq: "nr_Seq r = Suc (length (steps_of (nr_ConsentID r) (nr_EntityCode r) db))"
  shows "flight_id r \<notin> flight_id ` set fs"
proof
  assume "flight_id r \<in> flight_id ` set fs"
  then obtain f where f: "f \<in> set fs" "flight_id f = flight_id r" by (metis imageE)
  obtain l where "nr_Seq f \<le> length (steps_of (nr_ConsentID f) (nr_EntityCode f) db)"
    by (rule claimed_noticeE [OF inv flight_claimed [OF inv fl [OF f(1)]]])
  with f(2) sq show False by (simp add: flight_id_def)
qed

lemma claim_keeps:
  assumes y: "audit_runs_inv y" and cl: "Notice_Claim i (as_now y) lease (as_db y) = (db', Inr (Some r))" and lease: "0 < lease"
  shows "audit_runs_inv (y\<lparr>as_db := db', as_flight := r # as_flight y\<rparr>)"
proof -
  let ?db = "as_db y" and ?now = "as_now y"
  note y' = y [unfolded audit_runs_inv_core]
  then have core: "core_ok ?now ?db" and fls: "\<And>f. f \<in> set (as_flight y) \<Longrightarrow> notice_flight_ok ?now ?db f" by auto
  note inv = core_okD(1) [OF core]
  from Notice_Claim_advance [OF inv cl] obtain l s where l: "last_step (sp_ConsentID s) (sp_EntityCode s) ?db = Some l"
    and due: "step_due ?now l" and db': "db' = advance s None ?db" and r: "join_notice ?db s = Some r"
    and s_def: "s = l\<lparr>sp_Seq := sp_Seq l + 1, sp_Status := StatusInProgress, sp_ClaimedUntil := time_Add ?now lease,
          sp_Reference := '''', sp_Reason := ''''\<rparr>"
    by blast
  from s_def have s: "sp_Seq s = sp_Seq l + 1" "sp_Status s = StatusInProgress" "sp_ClaimedUntil s = ?now + lease"
    "sp_WindowEndsAt s = sp_WindowEndsAt l" by simp_all
  note ls = audit_inv_last [OF inv l]
  have mv: "moves l s None" using due s by (auto simp: moves_def step_due_def)
  have c': "core_ok ?now db'" unfolding db' by (rule advance_core_ok [OF core l s(1) _ mv]) simp
  have eqs: "sp_ConsentID s = nr_ConsentID r" "sp_EntityCode s = nr_EntityCode r" "sp_Seq s = nr_Seq r"
    using r by (auto simp: join_notice_def split: option.splits)
  have old: "notice_flight_ok ?now db' f" if f: "f \<in> set (as_flight y)" for f
    unfolding db'
  proof (rule advance_flight_ok [OF inv fls [OF f] l s(1)])
    show "?now < sp_ClaimedUntil s" using s lease by simp
    assume p: "nr_ConsentID f = sp_ConsentID s" "nr_EntityCode f = sp_EntityCode s"
    show "nr_ClaimedUntil f < ?now"
      by (rule flight_ended [OF inv fls [OF f] l [folded p]]) (use due in \<open>auto simp: step_due_def\<close>)
  qed
  have len: "length (steps_of (nr_ConsentID r) (nr_EntityCode r) ?db) = sp_Seq l" using ls(4) eqs by simp
  have "t \<in> set (steps_of (nr_ConsentID r) (nr_EntityCode r) db') \<Longrightarrow> sp_Seq t \<le> nr_Seq r" for t
    using steps_numbered_seqs [OF audit_inv_numbered [OF core_okD(1) [OF c']], of "nr_ConsentID r" "nr_EntityCode r"] len eqs s
    unfolding db' by (force simp: steps_of_with_step)
  moreover have "CHR ''/'' \<notin> set (nr_ConsentID r)"
    using audit_inv_joins [OF inv ls(5) [unfolded ls(2,3) [symmetric]]] ls eqs by (metis good_id_def)
  ultimately have "notice_flight_ok ?now db' r"
    using r s eqs len unfolding notice_flight_ok_def db' by (auto simp: steps_of_with_step not_less [symmetric])
  moreover have "flight_id r \<notin> flight_id ` set (as_flight y)"
    by (rule flight_ids_fresh [OF inv fls]) (use len eqs s in simp_all)
  ultimately show ?thesis using y' c' old by (auto simp: audit_runs_inv_core db' advance_revoking_ok)
qed

lemma notice_runner_eq: "notice_runner cfg rec = notices.the_runner rec (notice_policy cfg) (nwc_Lease cfg)"
  by (simp add: notice_runner_def notices.the_runner_def)

text \<open>A result while the claim is held: the next step, with its event when it is final.\<close>

lemma result_writes:
  assumes inv: "audit_inv db" and cl: "claimed_notice db r"
    and seq: "nr_Seq r = length (steps_of (nr_ConsentID r) (nr_EntityCode r) db)"
  shows "\<exists>s ev r'. Notice_Confirm rec r now out db = (advance s (Some ev) db, Inr r') \<and>
      s = result_step r StatusConfirmed (nr_FailedAttempts r) zero_time (oc_Reference out) '''' '''' \<and>
      cev_Status ev = HistoryRevocationConfirmed \<and> cev_OccurredAt ev = now \<and> cev_RecordedAt ev = rec \<and>
      cev_EventID ev = entity_event_id (nr_ConsentID r) (nr_EntityCode r) (nr_Seq r + 1) \<and>
      cev_ConsentID ev = nr_ConsentID r \<and> cev_EntityCode ev = nr_EntityCode r"
    and "\<exists>s r'. Notice_Reschedule r now nx cause db = (advance s None db, Inr r') \<and>
      s = result_step r StatusPending (nr_FailedAttempts r + 1) nx '''' cause ''''"
    and "\<exists>s ev r'. Notice_Fail rec r now reason cause db = (advance s (Some ev) db, Inr r') \<and>
      s = result_step r StatusFailed (nr_FailedAttempts r + 1) zero_time '''' cause (reason_text reason) \<and>
      cev_Status ev = HistoryRevocationNotConfirmed \<and> cev_OccurredAt ev = now \<and> cev_RecordedAt ev = rec \<and>
      cev_EventID ev = entity_event_id (nr_ConsentID r) (nr_EntityCode r) (nr_Seq r + 1) \<and>
      cev_ConsentID ev = nr_ConsentID r \<and> cev_EntityCode ev = nr_EntityCode r"
proof -
  obtain key where key: "map_of (ad_notices db) (nr_ConsentID r, nr_EntityCode r) = Some key"
    by (rule claimed_noticeE [OF inv cl])
  note w = with_result(3) [OF inv cl seq key refl, simplified] and nx = next_step_eq [OF inv cl, unfolded seq [symmetric], simplified]
  show "\<exists>s ev r'. Notice_Confirm rec r now out db = (advance s (Some ev) db, Inr r') \<and>
      s = result_step r StatusConfirmed (nr_FailedAttempts r) zero_time (oc_Reference out) '''' '''' \<and>
      cev_Status ev = HistoryRevocationConfirmed \<and> cev_OccurredAt ev = now \<and> cev_RecordedAt ev = rec \<and>
      cev_EventID ev = entity_event_id (nr_ConsentID r) (nr_EntityCode r) (nr_Seq r + 1) \<and>
      cev_ConsentID ev = nr_ConsentID r \<and> cev_EntityCode ev = nr_EntityCode r"
    unfolding Notice_Confirm_def nx
    by (intro exI conjI) (simp_all add: step_with_event_def w advance_def, simp_all)
  show "\<exists>s r'. Notice_Reschedule r now nx cause db = (advance s None db, Inr r') \<and>
      s = result_step r StatusPending (nr_FailedAttempts r + 1) nx '''' cause ''''"
    unfolding Notice_Reschedule_def nx by (simp add: advance_def)
  show "\<exists>s ev r'. Notice_Fail rec r now reason cause db = (advance s (Some ev) db, Inr r') \<and>
      s = result_step r StatusFailed (nr_FailedAttempts r + 1) zero_time '''' cause (reason_text reason) \<and>
      cev_Status ev = HistoryRevocationNotConfirmed \<and> cev_OccurredAt ev = now \<and> cev_RecordedAt ev = rec \<and>
      cev_EventID ev = entity_event_id (nr_ConsentID r) (nr_EntityCode r) (nr_Seq r + 1) \<and>
      cev_ConsentID ev = nr_ConsentID r \<and> cev_EntityCode ev = nr_EntityCode r"
    unfolding Notice_Fail_def nx
    by (intro exI conjI) (simp_all add: step_with_event_def w advance_def, simp_all)
qed

definition result_of :: "time \<Rightarrow> audit_db \<Rightarrow> notice_record \<Rightarrow> notice_step \<Rightarrow> consent_event option \<Rightarrow> bool" where
  "result_of now db r s evo \<longleftrightarrow> sp_ConsentID s = nr_ConsentID r \<and> sp_EntityCode s = nr_EntityCode r \<and>
    sp_Seq s = nr_Seq r + 1 \<and> sp_Status s \<noteq> StatusInProgress \<and> (\<forall>ev. evo = Some ev \<longrightarrow> event_of_step now s ev db) \<and>
    (\<forall>l. sp_Status l = StatusInProgress \<longrightarrow> sp_WindowEndsAt l = nr_WindowEndsAt r \<longrightarrow> moves l s evo)"

lemma record_advance:
  assumes inv: "audit_inv db" and cl: "claimed_notice db r" and rec: "db_clock rec db"
    and res: "record_result (notice_runner cfg rec) r now res db = (stat, reason, db', stored)"
  shows "if nr_Seq r = length (steps_of (nr_ConsentID r) (nr_EntityCode r) db)
    then \<exists>s evo r'. result_of now db r s evo \<and> db' = advance s evo db \<and> stored = Inr r' \<and> sp_Status s = stat
    else db' = db \<and> stored = Inl ErrClaimLost"
proof (cases "nr_Seq r = length (steps_of (nr_ConsentID r) (nr_EntityCode r) db)")
  case True
  note w = result_writes [OF inv cl True]
  have conf: "\<exists>s evo r'. result_of now db r s evo \<and> db1 = advance s evo db \<and> st1 = Inr r' \<and> sp_Status s = StatusConfirmed"
    if "Notice_Confirm rec r now out db = (db1, st1)" for out db1 st1
  proof -
    obtain s ev r' where "Notice_Confirm rec r now out db = (advance s (Some ev) db, Inr r')" "result_of now db r s (Some ev)"
      "sp_Status s = StatusConfirmed"
      using w(1) [of rec now out] rec by (auto simp: result_of_def event_of_step_def moves_def db_clock_def entity_events_def list_all_iff)
    with that show ?thesis by auto
  qed
  have fail: "\<exists>s evo r'. result_of now db r s evo \<and> db1 = advance s evo db \<and> st1 = Inr r' \<and> sp_Status s = StatusFailed"
    if "Notice_Fail rec r now why cause db = (db1, st1)" for why cause db1 st1
  proof -
    obtain s ev r' where "Notice_Fail rec r now why cause db = (advance s (Some ev) db, Inr r')" "result_of now db r s (Some ev)"
      "sp_Status s = StatusFailed"
      using w(3) [of rec now why cause] rec by (auto simp: result_of_def event_of_step_def moves_def db_clock_def entity_events_def list_all_iff)
    with that show ?thesis by auto
  qed
  have again: "\<exists>s evo r'. result_of now db r s evo \<and> db1 = advance s evo db \<and> st1 = Inr r' \<and> sp_Status s = StatusPending"
    if "Notice_Reschedule r now nx cause db = (db1, st1)" for nx cause db1 st1
  proof -
    obtain s r' where "Notice_Reschedule r now nx cause db = (advance s None db, Inr r')" "result_of now db r s None"
      "sp_Status s = StatusPending"
      using w(2) [of now nx cause] by (auto simp: result_of_def moves_def)
    with that show ?thesis by auto
  qed
  from res conf fail again True show ?thesis
    by (auto simp: record_result_def notice_runner_def Let_def split: sum.splits prod.splits if_splits)
next
  case False
  have "\<not> notices.held_by db r"
  proof -
    obtain l key where l: "last_step (nr_ConsentID r) (nr_EntityCode r) db = Some l"
      and v: "view_notice db (at_ID (NoticeRecord_AttemptState r)) = Some (step_attempt key l)"
      and hold: "nr_Seq r = sp_Seq l \<longleftrightarrow> holds_claim (step_attempt key l) (NoticeRecord_AttemptState r)"
      by (rule claimed_noticeE [OF inv cl])
    with False audit_inv_last(4) [OF inv l] show ?thesis by (simp add: notices.held_by_def)
  qed
  from notices.record_lost [OF inv cl this, of rec "notice_policy cfg" "nwc_Lease cfg" now res] res False show ?thesis
    by (auto simp: notice_runner_eq)
qed

lemma distinct_without: "distinct (map f (xs @ r # ys)) \<Longrightarrow> x \<in> set (xs @ ys) \<Longrightarrow> f x \<noteq> f r"
  by (auto simp: image_iff)

lemma result_keeps:
  assumes y: "audit_runs_inv y" and fl: "as_flight y = xs @ r # ys" and rec: "db_clock rec (as_db y)"
    and res: "record_result (notice_runner cfg rec) r (as_now y) res (as_db y) = (stat, reason, db', stored)"
  shows "audit_runs_inv (y\<lparr>as_db := db', as_flight := xs @ ys\<rparr>)"
proof -
  let ?db = "as_db y" and ?now = "as_now y"
  note y' = y [unfolded audit_runs_inv_core]
  then have core: "core_ok ?now ?db" and fls: "\<And>f. f \<in> set (as_flight y) \<Longrightarrow> notice_flight_ok ?now ?db f"
    and d: "distinct (map flight_id (xs @ r # ys))" using fl by auto
  note inv = core_okD(1) [OF core]
  have r: "notice_flight_ok ?now ?db r" using fls fl by simp
  note rec' = record_advance [OF inv flight_claimed [OF inv r] rec res]
  have d': "distinct (map flight_id (xs @ ys))" using d by auto
  show ?thesis
  proof (cases "nr_Seq r = length (steps_of (nr_ConsentID r) (nr_EntityCode r) ?db)")
    case False
    with rec' y' fl d' show ?thesis by (auto simp: audit_runs_inv_core)
  next
    case True
    with rec' obtain s evo where s: "result_of ?now ?db r s evo" and db': "db' = advance s evo ?db" by auto
    note s' = s [unfolded result_of_def]
    obtain l0 where "last_step (nr_ConsentID r) (nr_EntityCode r) ?db = Some l0"
      by (rule claimed_noticeE [OF inv flight_claimed [OF inv r]])
    then obtain l where l: "last_step (sp_ConsentID s) (sp_EntityCode s) ?db = Some l" using s' by simp
    have lr: "last_step (nr_ConsentID r) (nr_EntityCode r) ?db = Some l" using l s' by simp
    have sq: "nr_Seq r = sp_Seq l" using audit_inv_last(4) [OF inv lr] True by simp
    have mv: "moves l s evo" using flight_step(2) [OF inv r lr sq] s' by blast
    have sq': "sp_Seq s = sp_Seq l + 1" using s' sq by simp
    have "core_ok ?now db'" unfolding db' by (rule advance_core_ok [OF core l sq' _ mv]) (use s' in blast)
    moreover have "notice_flight_ok ?now db' f" if f: "f \<in> set (xs @ ys)" for f
      unfolding db'
    proof (rule advance_flight_ok [OF inv _ l sq'])
      show ff: "notice_flight_ok ?now ?db f" using fls f fl by auto
      show "?now < sp_ClaimedUntil s" if "sp_Status s = StatusInProgress" using that s' by simp
      assume p: "nr_ConsentID f = sp_ConsentID s" "nr_EntityCode f = sp_EntityCode s"
      have "nr_Seq f \<noteq> sp_Seq l" using distinct_without [OF d f] p s' sq by (auto simp: flight_id_def)
      then show "nr_ClaimedUntil f < ?now" by (intro flight_ended [OF inv ff l [folded p]]) simp
    qed
    ultimately show ?thesis using y' d' by (auto simp: audit_runs_inv_core db' advance_revoking_ok)
  qed
qed

section \<open>Retries\<close>

definition to_resume :: "string \<Rightarrow> time \<Rightarrow> audit_db \<Rightarrow> notice_record \<Rightarrow> bool" where
  "to_resume c rec db r \<longleftrightarrow> nr_ConsentID r = c \<and>
    (\<exists>l. last_step c (nr_EntityCode r) db = Some l \<and> nr_Seq r = sp_Seq l \<and> (sp_Status l = StatusFailed \<or> sp_Status l = StatusPending)) \<and>
    list_all (\<lambda>f. cev_RecordedAt f < rec) (entity_events c (nr_EntityCode r) db)"

lemma resume_step:
  assumes core: "core_ok now db" and r: "to_resume c rec db r" and d: "deadline \<noteq> zero_time"
    and fls: "\<forall>f. f \<in> set fs \<longrightarrow> notice_flight_ok now db f"
    and s: "s = \<lparr>sp_ConsentID = nr_ConsentID r, sp_EntityCode = nr_EntityCode r, sp_Seq = nr_Seq r + 1,
        sp_Status = StatusPending, sp_FailedAttempts = 0, sp_WindowEndsAt = deadline, sp_NextAttemptAt = now,
        sp_ClaimedUntil = zero_time, sp_Reference = '''', sp_Cause = '''', sp_Reason = ''''\<rparr>"
    and ev: "ev = entity_event (nr_ConsentID r) (nr_EntityCode r) (nr_Seq r + 1) HistoryRevocationRetryRequested
            now rec '''' '''' (RetryDetails deadline) a"
  shows "insert_step s db = Some (with_step s db)" and "insert_event ev (with_step s db) = Some (advance s (Some ev) db)"
    and "core_ok now (advance s (Some ev) db)" and "\<And>f. f \<in> set fs \<Longrightarrow> notice_flight_ok now (advance s (Some ev) db) f"
    and "\<And>r'. to_resume c rec db r' \<Longrightarrow> nr_EntityCode r' \<noteq> nr_EntityCode r \<Longrightarrow> to_resume c rec (advance s (Some ev) db) r'"
proof -
  note inv = core_okD(1) [OF core]
  from r obtain l where c: "nr_ConsentID r = c" and l: "last_step c (nr_EntityCode r) db = Some l" "nr_Seq r = sp_Seq l"
    "sp_Status l = StatusFailed \<or> sp_Status l = StatusPending" unfolding to_resume_def by blast
  note ls = audit_inv_last [OF inv l(1)]
  have l': "last_step (sp_ConsentID s) (sp_EntityCode s) db = Some l" and sq: "sp_Seq s = sp_Seq l + 1" using l c s by simp_all
  have good: "good_id c" using audit_inv_joins [OF inv ls(5) [unfolded ls(2,3) [symmetric]]] ls by metis
  show "insert_step s db = Some (with_step s db)"
    using insert_step_eq [OF audit_inv_numbered [OF inv], of s] s c l ls(4) by simp
  have "\<not> list_ex (\<lambda>f. cev_EventID f = cev_EventID ev) (ad_events db)"
    using event_fresh [OF inv _ good, of "nr_EntityCode r" "nr_Seq r + 1"] l ls(4) ev c by simp
  then show "insert_event ev (with_step s db) = Some (advance s (Some ev) db)" by (simp add: insert_event_def advance_def)
  have es: "event_of_step now s ev db" using r c s ev by (simp add: event_of_step_def to_resume_def)
  have mv: "moves l s (Some ev)" using l(3) d s ev by (auto simp: moves_def retry_deadline_def time_IsZero_def)
  show "core_ok now (advance s (Some ev) db)" by (rule advance_core_ok [OF core l' sq _ mv]) (use es in simp)
  show "notice_flight_ok now (advance s (Some ev) db) f" if f: "f \<in> set fs" for f
  proof (rule advance_flight_ok [OF inv fls [rule_format, OF f] l' sq])
    assume p: "nr_ConsentID f = sp_ConsentID s" "nr_EntityCode f = sp_EntityCode s"
    show "nr_ClaimedUntil f < now" by (rule flight_ended [OF inv fls [rule_format, OF f] l' [folded p]]) (use l(3) in auto)
  qed (use s in simp)
  show "to_resume c rec (advance s (Some ev) db) r'" if "to_resume c rec db r'" "nr_EntityCode r' \<noteq> nr_EntityCode r" for r'
    using that s c ev unfolding to_resume_def advance_last [OF inv l' sq] by (auto simp: entity_events_def)
qed

text \<open>What the loop leaves of each notice.\<close>

definition resumed_steps :: "string \<Rightarrow> string list \<Rightarrow> time \<Rightarrow> time \<Rightarrow> audit_db \<Rightarrow> audit_db \<Rightarrow> bool" where
  "resumed_steps c codes now deadline db db' \<longleftrightarrow>
    (\<forall>c' e. if c' = c \<and> e \<in> set codes
       then \<exists>s. last_step c' e db' = Some s \<and> sp_Status s = StatusPending \<and> sp_WindowEndsAt s = deadline \<and>
              sp_NextAttemptAt s = now \<and> sp_FailedAttempts s = 0
       else last_step c' e db' = last_step c' e db)"

lemma resume_loop_keeps:
  assumes "core_ok now db" and "\<forall>r. r \<in> set rs \<longrightarrow> to_resume c rec db r" and "distinct (map nr_EntityCode rs)"
    and "deadline \<noteq> zero_time" and "\<forall>f. f \<in> set fs \<longrightarrow> notice_flight_ok now db f"
  shows "\<exists>db'. resume_loop now deadline rec a rs db = Some (db', map nr_EntityCode rs) \<and> core_ok now db' \<and>
    (\<forall>f. f \<in> set fs \<longrightarrow> notice_flight_ok now db' f) \<and> ad_consents db' = ad_consents db \<and> ad_revocations db' = ad_revocations db \<and>
    resumed_steps c (map nr_EntityCode rs) now deadline db db'"
  using assms
proof (induction rs arbitrary: db)
  case Nil
  then show ?case by (simp add: resumed_steps_def)
next
  case (Cons r rs)
  define s where "s = \<lparr>sp_ConsentID = nr_ConsentID r, sp_EntityCode = nr_EntityCode r, sp_Seq = nr_Seq r + 1,
        sp_Status = StatusPending, sp_FailedAttempts = 0, sp_WindowEndsAt = deadline, sp_NextAttemptAt = now,
        sp_ClaimedUntil = zero_time, sp_Reference = '''', sp_Cause = '''', sp_Reason = ''''\<rparr>"
  define ev where "ev = entity_event (nr_ConsentID r) (nr_EntityCode r) (nr_Seq r + 1) HistoryRevocationRetryRequested
            now rec '''' '''' (RetryDetails deadline) a"
  have r: "to_resume c rec db r" using Cons.prems(2) by simp
  note st = resume_step [OF Cons.prems(1) r Cons.prems(4,5) s_def ev_def]
  have "\<exists>db'. resume_loop now deadline rec a rs (advance s (Some ev) db) = Some (db', map nr_EntityCode rs) \<and> core_ok now db' \<and>
      (\<forall>f. f \<in> set fs \<longrightarrow> notice_flight_ok now db' f) \<and> ad_consents db' = ad_consents (advance s (Some ev) db) \<and>
      ad_revocations db' = ad_revocations (advance s (Some ev) db) \<and>
      resumed_steps c (map nr_EntityCode rs) now deadline (advance s (Some ev) db) db'"
  proof (rule Cons.IH)
    show "\<forall>r'. r' \<in> set rs \<longrightarrow> to_resume c rec (advance s (Some ev) db) r'"
      using Cons.prems(2,3) st(5) by (auto simp: image_iff)
  qed (use st Cons.prems in auto)
  then obtain db' where db': "resume_loop now deadline rec a rs (advance s (Some ev) db) = Some (db', map nr_EntityCode rs)" "core_ok now db'"
    "\<forall>f. f \<in> set fs \<longrightarrow> notice_flight_ok now db' f" "ad_consents db' = ad_consents db" "ad_revocations db' = ad_revocations db"
    "resumed_steps c (map nr_EntityCode rs) now deadline (advance s (Some ev) db) db'" by auto
  from r obtain l where l: "nr_ConsentID r = c" "last_step (sp_ConsentID s) (sp_EntityCode s) db = Some l" "sp_Seq s = sp_Seq l + 1"
    unfolding to_resume_def s_def by auto
  have "if c' = c \<and> e \<in> set (map nr_EntityCode (r # rs))
       then \<exists>s. last_step c' e db' = Some s \<and> sp_Status s = StatusPending \<and> sp_WindowEndsAt s = deadline \<and>
              sp_NextAttemptAt s = now \<and> sp_FailedAttempts s = 0
       else last_step c' e db' = last_step c' e db" for c' e
    using db'(6) [unfolded resumed_steps_def, THEN spec [of _ c'], THEN spec [of _ e]] l(1)
    unfolding advance_last [OF core_okD(1) [OF Cons.prems(1)] l(2,3)] by (auto simp: s_def split: if_splits)
  then have "resumed_steps c (map nr_EntityCode (r # rs)) now deadline db db'" unfolding resumed_steps_def by blast
  with db' show ?case
    unfolding resume_loop.simps(2) s_def [symmetric] ev_def [symmetric] st(1) option.case st(2) by auto
qed

text \<open>The records that \<^verbatim>\<open>Resume\<close> reads: the last steps that failed or whose window ended, each entity once.\<close>

lemma notice_pairs_last:
  assumes inv: "audit_inv db" and p: "(c, e) \<in> set (notice_pairs db)"
  shows "\<exists>l. last_step c e db = Some l"
proof -
  from p obtain s where "s \<in> set (ad_steps db)" "sp_ConsentID s = c" "sp_EntityCode s = e"
    by (auto simp: notice_pairs_def)
  then have "s \<in> set (steps_of c e db)" by (simp add: steps_of_def)
  then show ?thesis by (auto simp: last_step_eq [OF audit_inv_numbered [OF inv]])
qed

lemma last_steps_props:
  assumes inv: "audit_inv db"
  shows "map (\<lambda>s. (sp_ConsentID s, sp_EntityCode s)) (last_steps db) = notice_pairs db"
    and "l \<in> set (last_steps db) \<Longrightarrow> last_step (sp_ConsentID l) (sp_EntityCode l) db = Some l"
proof -
  have "map (\<lambda>s. (sp_ConsentID s, sp_EntityCode s)) (last_steps db) =
      map (\<lambda>p. (sp_ConsentID (the (last_step (fst p) (snd p) db)), sp_EntityCode (the (last_step (fst p) (snd p) db)))) (notice_pairs db)"
    by (simp add: last_steps_def case_prod_beta comp_def)
  also have "\<dots> = map id (notice_pairs db)"
    using notice_pairs_last [OF inv] audit_inv_last(2,3) [OF inv] by (intro map_cong refl) fastforce
  finally show "map (\<lambda>s. (sp_ConsentID s, sp_EntityCode s)) (last_steps db) = notice_pairs db" by simp
  assume "l \<in> set (last_steps db)"
  then obtain c e where p: "(c, e) \<in> set (notice_pairs db)" "l = the (last_step c e db)" by (auto simp: last_steps_def)
  with notice_pairs_last [OF inv p(1)] audit_inv_last(2,3) [OF inv]
  show "last_step (sp_ConsentID l) (sp_EntityCode l) db = Some l" by fastforce
qed

lemma map_filter_total:
  assumes "\<And>x. x \<in> set xs \<Longrightarrow> \<exists>y. f x = Some y \<and> g y = h x"
  shows "map g (List.map_filter f xs) = map h xs"
  using assms by (induction xs) (auto simp: List.map_filter_simps split: option.splits, force+)

text \<open>A retry resumes exactly the entities that it may.\<close>

lemma resume_result:
  assumes core: "core_ok now db" and fls: "\<forall>f. f \<in> set fs \<longrightarrow> notice_flight_ok now db f" and rec: "db_clock rec db"
    and d: "time_Add now window \<noteq> zero_time"
  shows "\<exists>db' codes. Notice_Resume i [] now window a rec db = (db', Inr codes) \<and> core_ok now db' \<and>
    (\<forall>f. f \<in> set fs \<longrightarrow> notice_flight_ok now db' f) \<and> ad_consents db' = ad_consents db \<and> ad_revocations db' = ad_revocations db \<and>
    resumed_steps i codes now (time_Add now window) db db' \<and> distinct codes \<and>
    (\<forall>e. e \<in> set codes \<longleftrightarrow> (\<exists>l. last_step i e db = Some l \<and> resumable now l))"
proof -
  note inv = core_okD(1) [OF core]
  define ls where "ls = sort_key sp_EntityCode (filter (\<lambda>s. sp_ConsentID s = i \<and> resumable now s) (last_steps db))"
  define due where "due = List.map_filter (join_notice db) ls"
  have l: "last_step i (sp_EntityCode l) db = Some l" "sp_ConsentID l = i" "resumable now l" if "l \<in> set ls" for l
    using that last_steps_props(2) [OF inv] by (auto simp: ls_def)
  have join: "\<exists>r. join_notice db l = Some r \<and> nr_EntityCode r = sp_EntityCode l \<and> nr_ConsentID r = i \<and> nr_Seq r = sp_Seq l"
    if "l \<in> set ls" for l
  proof -
    have "(sp_ConsentID l, sp_EntityCode l) \<in> fst ` set (ad_notices db)"
      using audit_inv_last(5) [OF inv l(1) [OF that]] l(2) [OF that] by simp
    with audit_inv_joins [OF inv] l(2) [OF that] show ?thesis by metis
  qed
  have codes: "map nr_EntityCode due = map sp_EntityCode ls"
    unfolding due_def by (rule map_filter_total) (use join in blast)
  have "distinct (map (\<lambda>s. (sp_ConsentID s, sp_EntityCode s)) (last_steps db))"
    by (simp add: last_steps_props(1) [OF inv] notice_pairs_def)
  then have "distinct (map (\<lambda>s. (sp_ConsentID s, sp_EntityCode s)) (filter (\<lambda>s. sp_ConsentID s = i \<and> resumable now s) (last_steps db)))"
    by (rule distinct_map_filter)
  then have "distinct (map sp_EntityCode (filter (\<lambda>s. sp_ConsentID s = i \<and> resumable now s) (last_steps db)))"
    by (auto simp: distinct_map inj_on_def)
  then have dist: "distinct (map nr_EntityCode due)"
    unfolding codes ls_def by (simp add: distinct_map)
  have res: "r \<in> set due \<longrightarrow> to_resume i rec db r" for r
  proof
    assume "r \<in> set due"
    then obtain l where m: "l \<in> set ls" "join_notice db l = Some r" by (auto simp: due_def List.map_filter_def)
    with join [OF m(1)] l [OF m(1)] rec show "to_resume i rec db r"
      by (auto simp: to_resume_def resumable_def db_clock_def entity_events_def list_all_iff)
  qed
  from resume_loop_keeps [OF core _ dist d fls, of i rec a] res
  obtain db' where db': "resume_loop now (time_Add now window) rec a due db = Some (db', map nr_EntityCode due)"
    "core_ok now db'" "\<forall>f. f \<in> set fs \<longrightarrow> notice_flight_ok now db' f" "ad_consents db' = ad_consents db"
    "ad_revocations db' = ad_revocations db" "resumed_steps i (map nr_EntityCode due) now (time_Add now window) db db'"
    by blast
  have "Notice_Resume i [] now window a rec db = (db', Inr (map nr_EntityCode due))"
    using db'(1) by (simp add: Notice_Resume_def due_def ls_def Let_def)
  moreover have "e \<in> set (map nr_EntityCode due) \<longleftrightarrow> (\<exists>l. last_step i e db = Some l \<and> resumable now l)" for e
    unfolding codes
  proof
    assume "e \<in> set (map sp_EntityCode ls)"
    with l show "\<exists>l. last_step i e db = Some l \<and> resumable now l" by force
  next
    assume "\<exists>l. last_step i e db = Some l \<and> resumable now l"
    then obtain l where r: "last_step i e db = Some l" "resumable now l" by blast
    note la = audit_inv_last [OF inv r(1)]
    from la(1-3) have "(i, e) \<in> set (notice_pairs db)" by (force simp: notice_pairs_def)
    with r la have "l \<in> set (last_steps db)" by (force simp: last_steps_def)
    with r la show "e \<in> set (map sp_EntityCode ls)" by (force simp: ls_def)
  qed
  ultimately show ?thesis using db' dist by blast
qed

lemma retry_keeps:
  assumes y: "audit_runs_inv y" and d: "0 < rs_deadline sv" and rec: "db_clock rec (as_db y)"
  shows "audit_runs_inv (y\<lparr>as_db := fst (RetryPending sv i a (as_now y) rec (as_db y))\<rparr>)"
proof -
  note y' = y [unfolded audit_runs_inv_core]
  then have "core_ok (as_now y) (as_db y)" "\<forall>f. f \<in> set (as_flight y) \<longrightarrow> notice_flight_ok (as_now y) (as_db y) f"
    "time_Add (as_now y) (rs_deadline sv) \<noteq> zero_time" using d by auto
  from resume_result [OF this(1,2) rec this(3), of i a] obtain db' codes where
    "Notice_Resume i [] (as_now y) (rs_deadline sv) a rec (as_db y) = (db', Inr codes)" "core_ok (as_now y) db'"
    "\<forall>f. f \<in> set (as_flight y) \<longrightarrow> notice_flight_ok (as_now y) db' f" "ad_consents db' = ad_consents (as_db y)" by blast
  with y' show ?thesis
    by (auto simp: RetryPending_def audit_runs_inv_core revoking_ok_def split: sum.split)
qed

section \<open>Rows added to the other tables\<close>

lemma find_append: "find p (xs @ ys) = (case find p xs of Some x \<Rightarrow> Some x | None \<Rightarrow> find p ys)"
  by (induction xs) auto

definition extends :: "audit_db \<Rightarrow> audit_db \<Rightarrow> bool" where
  "extends db db' \<longleftrightarrow> (\<exists>cs. ad_consents db' = ad_consents db @ cs) \<and> (\<exists>rs. ad_revocations db' = ad_revocations db @ rs) \<and>
    (\<exists>ns. ad_notices db' = ad_notices db @ ns)"

lemma join_extends: "extends db db' \<Longrightarrow> join_notice db s = Some r \<Longrightarrow> join_notice db' s = Some r"
  by (auto simp: extends_def join_notice_def find_consent_def find_append map_add_Some_iff split: option.splits)

lemma flight_extends:
  assumes fl: "notice_flight_ok now db r" and ex: "extends db db'" and st: "ad_steps db' = ad_steps db @ ss"
    and other: "\<And>s. s \<in> set ss \<Longrightarrow> (sp_ConsentID s, sp_EntityCode s) \<notin> (\<lambda>s. (sp_ConsentID s, sp_EntityCode s)) ` set (ad_steps db)"
  shows "notice_flight_ok now db' r"
proof -
  from fl obtain s where s: "s \<in> set (ad_steps db)" "join_notice db s = Some r" "sp_Status s = StatusInProgress"
    unfolding notice_flight_ok_def by blast
  then have e: "sp_ConsentID s = nr_ConsentID r" "sp_EntityCode s = nr_EntityCode r"
    by (auto simp: join_notice_def split: option.splits)
  have "(nr_ConsentID r, nr_EntityCode r) \<in> (\<lambda>s. (sp_ConsentID s, sp_EntityCode s)) ` set (ad_steps db)"
    using s(1) e by (metis (mono_tags, lifting) imageI)
  then have "\<not> (sp_ConsentID x = nr_ConsentID r \<and> sp_EntityCode x = nr_EntityCode r)" if "x \<in> set ss" for x
    using other [OF that] by auto
  then have "steps_of (nr_ConsentID r) (nr_EntityCode r) db' = steps_of (nr_ConsentID r) (nr_EntityCode r) db"
    by (auto simp: steps_of_def st filter_empty_conv)
  with fl s st join_extends [OF ex s(2)] show ?thesis unfolding notice_flight_ok_def by auto
qed

lemma tables_frame [simp]:
  "last_step c e (db\<lparr>ad_consents := cs\<rparr>) = last_step c e db" "last_step c e (db\<lparr>ad_links := ls\<rparr>) = last_step c e db"
  "last_step c e (db\<lparr>ad_receipt_seq := n\<rparr>) = last_step c e db"
  "entity_events c e (db\<lparr>ad_consents := cs\<rparr>) = entity_events c e db" "entity_events c e (db\<lparr>ad_links := ls\<rparr>) = entity_events c e db"
  "entity_events c e (db\<lparr>ad_receipt_seq := n\<rparr>) = entity_events c e db"
  "revoked_events c (db\<lparr>ad_consents := cs\<rparr>) = revoked_events c db" "revoked_events c (db\<lparr>ad_links := ls\<rparr>) = revoked_events c db"
  "revoked_events c (db\<lparr>ad_receipt_seq := n\<rparr>) = revoked_events c db"
  "notices_of c (db\<lparr>ad_consents := cs\<rparr>) = notices_of c db" "notices_of c (db\<lparr>ad_links := ls\<rparr>) = notices_of c db"
  "notices_of c (db\<lparr>ad_receipt_seq := n\<rparr>) = notices_of c db"
  by (simp_all add: last_step_def entity_events_def revoked_events_def notices_of_def)

lemma notice_says_frame [simp]:
  "notice_says c e d (db\<lparr>ad_consents := cs\<rparr>) = notice_says c e d db" "notice_says c e d (db\<lparr>ad_links := ls\<rparr>) = notice_says c e d db"
  "notice_says c e d (db\<lparr>ad_receipt_seq := n\<rparr>) = notice_says c e d db"
  unfolding notice_says_def tables_frame by (rule refl)+

lemma revoking_extends: "revoking_ok now db p \<Longrightarrow> extends db db' \<Longrightarrow> revoking_ok now db' p"
  by (auto simp: revoking_ok_def extends_def split: prod.splits)

text \<open>A consent.\<close>

lemma consent_added_core:
  assumes core: "core_ok now db" and c: "good_id (cn_ID c)" "cn_PartnerID c \<noteq> ''''" "documentPattern (chd_DocumentID (cn_Holder c))"
    and fresh: "find_consent (\<lambda>d. cn_ID d = cn_ID c) db = None"
  shows "core_ok now (db\<lparr>ad_consents := ad_consents db @ [(c, rec)]\<rparr>)"
proof -
  let ?db = "db\<lparr>ad_consents := ad_consents db @ [(c, rec)]\<rparr>"
  note inv = core_okD(1) [OF core]
  have new: "cn_ID d \<noteq> cn_ID c" if "(d, t) \<in> set (ad_consents db)" for d t
    using fresh that by (auto simp: find_consent_def find_None_iff)
  have "cn_ID c \<notin> (cn_ID \<circ> fst) ` set (ad_consents db)" using new by force
  then have dist: "distinct (map (cn_ID \<circ> fst) (ad_consents ?db))" using inv by (simp add: audit_inv_def)
  have "audit_inv ?db"
    using inv c(1) dist unfolding audit_inv_def by (simp add: steps_numbered_def del: upt_Suc) blast
  moreover have "events_ok now ?db" using core_okD(2) [OF core] by (simp add: events_ok_def entity_events_def)
  moreover have "audit_keys_ok ?db" using core_okD(3) [OF core] c unfolding audit_keys_ok_def by auto
  moreover have "revocation_ok now ?db r" if r: "r \<in> set (ad_revocations db)" for r
  proof -
    from inv r obtain d t where "(d, t) \<in> set (ad_consents db)" "cn_ID d = rv_ConsentID r" unfolding audit_inv_def by metis
    with new have "cn_ID c \<noteq> rv_ConsentID r" by metis
    with core_okD(4) [OF core r] show ?thesis
      unfolding revocation_ok_def by auto
  qed
  ultimately show ?thesis by (simp add: core_ok_def)
qed

lemma Grant_cases:
  assumes "good_random rnd"
  obtains "fst (Grant u req rnd now rec db) = db"
  | c where "fst (Grant u req rnd now rec db) = db\<lparr>ad_consents := ad_consents db @ [(c, rec)]\<rparr>"
      "good_id (cn_ID c)" "cn_PartnerID c \<noteq> ''''" "documentPattern (chd_DocumentID (cn_Holder c))" "find_consent (\<lambda>d. cn_ID d = cn_ID c) db = None"
proof (cases "GrantRequest_Validate u req TermsV1 = None \<and> (\<exists>b. rnd = Inr b)")
  case True
  then obtain b where v: "GrantRequest_Validate u req TermsV1 = None" and b: "rnd = Inr b" by blast
  have "fs = []" if "(if fs \<noteq> [] then Some x else if c then Some y else None) = None" for fs :: "field_error list" and c x and y :: consent_error
    using that by (simp split: if_splits)
  from this [OF v [unfolded GrantRequest_Validate_def Let_def]] have
    "grant_identifier ''partner_id'' (gq_PartnerID req) = []"
    "(if TrimSpace (gq_DocumentID req) = '''' then [fe ''document_id'' CodeRequired]
      else if \<not> documentPattern (TrimSpace (gq_DocumentID req)) then [fe ''document_id'' CodeInvalidFormat] else []) = []"
    unfolding append_is_Nil_conv by blast+
  then have p: "gq_PartnerID req \<noteq> ''''" "documentPattern (TrimSpace (gq_DocumentID req))"
    by (auto simp: grant_identifier_def split: if_splits)
  have "list_all is_lower_hex (hex_encode b)" "length (hex_encode b) = 32"
    using assms b by (simp_all add: good_random_def hex_encode_lower_hex)
  moreover have "\<not> is_lower_hex (CHR ''/'')" by code_simp
  ultimately have g: "good_id (''cns-'' @ hex_encode b)" by (auto simp: good_id_def list_all_iff)
  let ?c = "consent_candidate req (''cns-'' @ hex_encode b) now"
  have "fst (Grant u req rnd now rec db) = fst (Consent_Create ?c rec db)"
    by (simp add: Grant_def newConsentID_def v b split: prod.split sum.split)
  moreover have "fst (Consent_Create ?c rec db) = db \<or> fst (Consent_Create ?c rec db) = db\<lparr>ad_consents := ad_consents db @ [(?c, rec)]\<rparr> \<and>
      find_consent (\<lambda>d. cn_ID d = cn_ID ?c) db = None"
    by (auto simp: Consent_Create_def split: option.split)
  moreover have "good_id (cn_ID ?c)" "cn_PartnerID ?c \<noteq> ''''" "documentPattern (chd_DocumentID (cn_Holder ?c))"
    using g p by (simp_all add: consent_candidate_def GrantRequest_Holder_def)
  ultimately show ?thesis using that by metis
next
  case False
  with that(1) show ?thesis by (auto simp: Grant_def newConsentID_def split: option.splits sum.splits)
qed

lemma grant_keeps:
  assumes y: "audit_runs_inv y" and rnd: "good_random rnd"
  shows "audit_runs_inv (y\<lparr>as_db := fst (Grant u req rnd (as_now y) rec (as_db y))\<rparr>)"
proof (rule Grant_cases [OF rnd, of u req "as_now y" rec "as_db y"])
  fix c
  assume eq: "fst (Grant u req rnd (as_now y) rec (as_db y)) = as_db y\<lparr>ad_consents := ad_consents (as_db y) @ [(c, rec)]\<rparr>"
    and c: "good_id (cn_ID c)" "cn_PartnerID c \<noteq> ''''" "documentPattern (chd_DocumentID (cn_Holder c))" "find_consent (\<lambda>d. cn_ID d = cn_ID c) (as_db y) = None"
  have ex: "extends (as_db y) (as_db y\<lparr>ad_consents := ad_consents (as_db y) @ [(c, rec)]\<rparr>)" by (simp add: extends_def)
  show ?thesis
    using y consent_added_core [OF _ c, of "as_now y" rec] flight_extends [OF _ ex, of "as_now y" _ "[]"]
      revoking_extends [OF _ ex, of "as_now y"]
    unfolding eq audit_runs_inv_core by auto
qed (use y in simp)

lemma holder_Link_db:
  obtains ls where "fst (holder_Link u l db) = db\<lparr>ad_links := ls\<rparr>"
proof -
  have "fst (holder_Link u l db) = db \<or> (\<exists>ls. fst (holder_Link u l db) = db\<lparr>ad_links := ls\<rparr>)"
    by (auto simp: holder_Link_def store_Link_def Let_def split: option.splits sum.splits if_splits)
  then have "\<exists>ls. fst (holder_Link u l db) = db\<lparr>ad_links := ls\<rparr>"
    by (elim disjE) (rule exI [of _ "ad_links db"], simp)
  with that show ?thesis by blast
qed

lemma link_keeps:
  assumes y: "audit_runs_inv y"
  shows "audit_runs_inv (y\<lparr>as_db := fst (holder_Link u l (as_db y))\<rparr>)"
proof -
  obtain ls where eq: "fst (holder_Link u l (as_db y)) = as_db y\<lparr>ad_links := ls\<rparr>" by (rule holder_Link_db)
  have "core_ok t (db\<lparr>ad_links := ls\<rparr>) = core_ok t db" for t db
    by (simp add: core_ok_def audit_inv_def steps_numbered_def events_ok_def audit_keys_ok_def revocation_ok_def)
  moreover have "notice_flight_ok t (db\<lparr>ad_links := ls\<rparr>) r = notice_flight_ok t db r" for t db r
    by (simp add: notice_flight_ok_def join_notice_def find_consent_def)
  moreover have "revoking_ok t (db\<lparr>ad_links := ls\<rparr>) p = revoking_ok t db p" for t db p
    by (simp add: revoking_ok_def)
  ultimately show ?thesis using y by (simp add: eq audit_runs_inv_core)
qed

section \<open>Revocations\<close>

lemma derive_active:
  assumes "fst (derive c events now names) = ConsentActive"
  shows "now < ExpiresAt c"
  using assms by (auto simp: derive_def revocationView_def Let_def split: option.splits if_splits prod.splits)

lemma consent_View_sel [simp]:
  "cvw_Status (consent_View c events now names) = fst (derive c events now names)"
  "cvw_Entities (consent_View c events now names) = [names_Entity names (cn_PartnerID c)]"
  "cvw_Revocation (consent_View c events now names) = snd (snd (snd (derive c events now names)))"
  by (simp_all add: consent_View_def Let_def split: prod.split)

lemma names_Entity_code [simp]: "en_Code (names_Entity names code) = code"
  by (simp add: names_Entity_def split: option.split)

lemma CheckRevocable_None: "CheckRevocable v = None \<longleftrightarrow> cvw_Status v = ConsentActive"
  by (simp add: CheckRevocable_def split: consent_status.split)

lemma prepare_revokeE:
  assumes "prepare_revoke sv c cmd clock rnd db = Inr (rvn, notices)"
  obtains i where "CheckRevocable (service_view sv c (time_Truncate clock time_Microsecond) db) = None"
    and "rvn = new_revocation sv i c (cvw_Entities (service_view sv c (time_Truncate clock time_Microsecond) db)) cmd
        (time_Truncate clock time_Microsecond)"
    and "new_notices rvn (rv_Entities rvn) = Inr notices"
  using assms unfolding prepare_revoke_def Let_def by (auto split: if_splits option.splits sum.splits)

lemma prepare_revoke_Inr:
  assumes "prepare_revoke sv c cmd clock rnd db = Inr (rvn, notices)"
  shows "fst (derive c (ListByConsents [cn_ID c] db (cn_ID c)) (time_Truncate clock time_Microsecond) (rs_names sv)) = ConsentActive"
    and "rv_ConsentID rvn = cn_ID c" and "rv_EffectiveAt rvn = time_Truncate clock time_Microsecond"
    and "rv_NoticeDeadlineAt rvn = time_Truncate clock time_Microsecond + rs_deadline sv"
    and "rv_RequestID rvn = rcm_RequestID cmd"
    and "notices = [new_notice rvn (cn_PartnerID c) (''revocation-'' @ cn_ID c @ ''-'' @ cn_PartnerID c)]"
proof -
  obtain i where p: "CheckRevocable (service_view sv c (time_Truncate clock time_Microsecond) db) = None"
    "rvn = new_revocation sv i c (cvw_Entities (service_view sv c (time_Truncate clock time_Microsecond) db)) cmd
        (time_Truncate clock time_Microsecond)" "new_notices rvn (rv_Entities rvn) = Inr notices"
    by (rule prepare_revokeE [OF assms])
  show "fst (derive c (ListByConsents [cn_ID c] db (cn_ID c)) (time_Truncate clock time_Microsecond) (rs_names sv)) = ConsentActive"
    using p(1) by (simp add: CheckRevocable_None service_view_def)
  show rv: "rv_ConsentID rvn = cn_ID c" "rv_EffectiveAt rvn = time_Truncate clock time_Microsecond"
    "rv_NoticeDeadlineAt rvn = time_Truncate clock time_Microsecond + rs_deadline sv" "rv_RequestID rvn = rcm_RequestID cmd"
    by (simp_all add: p(2) new_revocation_def)
  have "rv_Entities rvn = [names_Entity (rs_names sv) (cn_PartnerID c)]" by (simp add: p(2) new_revocation_def service_view_def)
  with p(3) rv show "notices = [new_notice rvn (cn_PartnerID c) (''revocation-'' @ cn_ID c @ ''-'' @ cn_PartnerID c)]"
    by (simp add: Key_def)
qed

lemma revoke_read_keeps:
  assumes y: "audit_runs_inv y" and c: "Consent_Get i (as_db y) = Inr c" and d: "0 < rs_deadline sv"
    and p: "prepare_revoke sv c cmd (as_now y) rnd (as_db y) = Inr (rvn, notices)"
  shows "audit_runs_inv (y\<lparr>as_revoking := (rvn, notices) # as_revoking y\<rparr>)"
proof -
  note pr = prepare_revoke_Inr [OF p]
  from c obtain rec where m: "(c, rec) \<in> set (ad_consents (as_db y))"
    using find_consent_Some by (fastforce simp: Consent_Get_def split: option.splits)
  have "cn_PartnerID c \<noteq> ''''" using y m by (auto simp: audit_runs_inv_core core_ok_def audit_keys_ok_def)
  moreover have "0 \<le> time_Truncate (as_now y) time_Microsecond" "time_Truncate (as_now y) time_Microsecond \<le> as_now y"
    using y by (simp_all add: audit_runs_inv_core time_Truncate_def time_Microsecond_def zmod_le_nonneg_dividend)
  ultimately have "revoking_ok (as_now y) (as_db y) (rvn, notices)"
    using m pr d derive_active [OF pr(1)] by (auto simp: revoking_ok_def)
  with y show ?thesis by (auto simp: audit_runs_inv_core)
qed

text \<open>The transaction either only takes a number of the sequence, or writes the revocation, its two
  events, its notice and the first step.\<close>

lemma record_revocation_cases:
  fixes rvn ids rec db e key
  defines "n \<equiv> new_notice rvn e key" and "sq \<equiv> ad_receipt_seq db + 1"
  defines "r \<equiv> rvn\<lparr>rv_ReceiptNumber := FormatReceiptNumber (rv_EffectiveAt rvn) sq\<rparr>"
  obtains (none) res where "Record_revocation rvn [n] ids rec db = (db\<lparr>ad_receipt_seq := sq\<rparr>, res)"
      "case res of Inl _ \<Rightarrow> True | Inr (_, created) \<Rightarrow> \<not> created"
  | (stored) "Record_revocation rvn [n] ids rec db =
      (db\<lparr>ad_receipt_seq := sq, ad_revocations := ad_revocations db @ [r],
         ad_events := ad_events db @ [fst (revocation_events r [n] ids rec), snd (revocation_events r [n] ids rec)],
         ad_notices := ad_notices db @ [((rv_ConsentID r, e), key)], ad_steps := ad_steps db @ [first_step r n]\<rparr>, Inr (r, True))"
      "\<not> list_ex (revocation_conflict r) (ad_revocations db)"
      "\<And>k'. ((rv_ConsentID r, e), k') \<notin> set (ad_notices db)"
proof (cases "snd (record_revocation rvn [n] ids rec db)")
  case (Inl err)
  then have "record_revocation rvn [n] ids rec db = (db\<lparr>ad_receipt_seq := sq\<rparr>, Inl err)"
    by (auto simp: record_revocation_def Let_def sq_def split: option.splits if_splits prod.splits)
  then show ?thesis using none by (simp add: Record_revocation_def)
next
  case (Inr o')
  show ?thesis
  proof (cases o')
    case None
    with Inr have "record_revocation rvn [n] ids rec db = (db\<lparr>ad_receipt_seq := sq\<rparr>, Inr None)"
      by (auto simp: record_revocation_def Let_def sq_def split: option.splits if_splits prod.splits)
    then show ?thesis using none
      by (auto simp: Record_revocation_def resolveConflict_def split: option.splits sum.splits)
  next
    case (Some r')
    obtain e1 e2 where ev: "revocation_events r [n] ids rec = (e1, e2)" by fastforce
    from Inr Some have "record_revocation rvn [n] ids rec db =
      (db\<lparr>ad_receipt_seq := sq, ad_revocations := ad_revocations db @ [r],
         ad_events := ad_events db @ [fst (revocation_events r [n] ids rec), snd (revocation_events r [n] ids rec)],
         ad_notices := ad_notices db @ [((rv_ConsentID r, e), key)], ad_steps := ad_steps db @ [first_step r n]\<rparr>, Inr (Some r)) \<and>
      \<not> list_ex (revocation_conflict r) (ad_revocations db) \<and> (\<forall>k'. ((rv_ConsentID r, e), k') \<notin> set (ad_notices db))"
      unfolding record_revocation_def Let_def sq_def [symmetric] r_def [symmetric] ev prod.case fst_conv snd_conv
      by (auto simp: insert_event_def insert_notice_def n_def new_notice_def list_ex_iff split: option.splits if_splits)
    then show ?thesis using stored by (auto simp: Record_revocation_def)
  qed
qed

text \<open>The stored transaction keeps the core of the invariant.\<close>

lemma revocation_events_sel:
  "cev_ConsentID (fst (revocation_events r ns ids rec)) = rv_ConsentID r" "cev_ConsentID (snd (revocation_events r ns ids rec)) = rv_ConsentID r"
  "cev_EntityCode (fst (revocation_events r ns ids rec)) = ''''" "cev_EntityCode (snd (revocation_events r ns ids rec)) = ''''"
  "cev_Status (fst (revocation_events r ns ids rec)) = HistoryRevocationRequested"
  "cev_Status (snd (revocation_events r ns ids rec)) = HistoryRevoked"
  "cev_EventID (fst (revocation_events r ns ids rec)) = ''evt-'' @ fst ids" "cev_EventID (snd (revocation_events r ns ids rec)) = ''evt-'' @ snd ids"
  "cev_OccurredAt (snd (revocation_events r ns ids rec)) = rv_EffectiveAt r"
  "cev_ReceiptID (snd (revocation_events r ns ids rec)) = rv_ReceiptNumber r"
  "cev_Details (snd (revocation_events r ns ids rec)) =
    RevokedDetails (rv_ID r) (map (\<lambda>n. \<lparr>ew_Code = nr_EntityCode n, ew_DeadlineAt = nr_WindowEndsAt n\<rparr>) ns)"
  by (simp_all add: revocation_events_def Let_def blank_event_def)

lemma no_revocation:
  assumes core: "core_ok now db" and c: "\<And>r. r \<in> set (ad_revocations db) \<Longrightarrow> rv_ConsentID r \<noteq> c"
  shows "v \<in> set (ad_events db) \<Longrightarrow> cev_ConsentID v \<noteq> c" and "((c, e), k) \<notin> set (ad_notices db)" and "steps_of c e db = []"
proof -
  note inv = core_okD(1) [OF core]
  show "v \<in> set (ad_events db) \<Longrightarrow> cev_ConsentID v \<noteq> c"
    using core_okD(2) [OF core] c unfolding events_ok_def by metis
  show n: "((c, e), k) \<notin> set (ad_notices db)" for k using inv c unfolding audit_inv_def by metis
  have "\<not> (sp_ConsentID s = c \<and> sp_EntityCode s = e)" if "s \<in> set (ad_steps db)" for s
  proof
    assume "sp_ConsentID s = c \<and> sp_EntityCode s = e"
    moreover have "(sp_ConsentID s, sp_EntityCode s) \<in> fst ` set (ad_notices db)" using inv that unfolding audit_inv_def by metis
    ultimately show False using n by fastforce
  qed
  then show "steps_of c e db = []" by (simp add: steps_of_def filter_empty_conv)
qed

definition stored_db :: "revocation \<Rightarrow> notice_record \<Rightarrow> string \<times> string \<Rightarrow> time \<Rightarrow> audit_db \<Rightarrow> audit_db" where
  "stored_db r n ids rec db = db\<lparr>ad_receipt_seq := ad_receipt_seq db + 1, ad_revocations := ad_revocations db @ [r],
     ad_events := ad_events db @ [fst (revocation_events r [n] ids rec), snd (revocation_events r [n] ids rec)],
     ad_notices := ad_notices db @ [((rv_ConsentID r, nr_EntityCode n), nr_Key n)], ad_steps := ad_steps db @ [first_step r n]\<rparr>"

lemma stored_db_sel [simp]:
  "ad_consents (stored_db r n ids rec db) = ad_consents db" "ad_revocations (stored_db r n ids rec db) = ad_revocations db @ [r]"
  "ad_notices (stored_db r n ids rec db) = ad_notices db @ [((rv_ConsentID r, nr_EntityCode n), nr_Key n)]"
  "ad_steps (stored_db r n ids rec db) = ad_steps db @ [first_step r n]"
  "ad_receipt_seq (stored_db r n ids rec db) = ad_receipt_seq db + 1"
  "ad_events (stored_db r n ids rec db) =
    ad_events db @ [fst (revocation_events r [n] ids rec), snd (revocation_events r [n] ids rec)]"
  by (simp_all add: stored_db_def)

lemma stored_steps_of:
  "steps_of c e (stored_db r n ids rec db) = steps_of c e db @ (if c = rv_ConsentID r \<and> e = nr_EntityCode n then [first_step r n] else [])"
  by (auto simp: steps_of_def first_step_def)

lemma stored_entity_events:
  "e \<noteq> '''' \<Longrightarrow> entity_events c e (stored_db r n ids rec db) = entity_events c e db"
  by (simp add: entity_events_def revocation_events_sel)

lemma stored_audit_inv:
  assumes core: "core_ok now db" and conf: "\<not> list_ex (revocation_conflict r) (ad_revocations db)"
    and c: "\<exists>c t. (c, t) \<in> set (ad_consents db) \<and> cn_ID c = rv_ConsentID r" and n: "nr_EntityCode n \<noteq> ''''"
  shows "audit_inv (stored_db r n ids rec db)"
proof -
  note inv = core_okD(1) [OF core]
  have new: "rv_ConsentID q \<noteq> rv_ConsentID r \<and> rv_RequestID q \<noteq> rv_RequestID r \<and> rv_ReceiptNumber q \<noteq> rv_ReceiptNumber r"
    if "q \<in> set (ad_revocations db)" for q
    using conf that by (auto simp: list_ex_iff revocation_conflict_def)
  then have img: "rv_ConsentID r \<notin> rv_ConsentID ` set (ad_revocations db)" "rv_RequestID r \<notin> rv_RequestID ` set (ad_revocations db)"
    "rv_ReceiptNumber r \<notin> rv_ReceiptNumber ` set (ad_revocations db)" by (metis imageE)+
  note none = no_revocation [OF core, of "rv_ConsentID r"]
  have "steps_numbered (stored_db r n ids rec db)"
    using inv none(3) new unfolding audit_inv_def steps_numbered_def by (auto simp: stored_steps_of first_step_def)
  moreover have "distinct (map rv_ConsentID (ad_revocations db @ [r]))" "distinct (map rv_RequestID (ad_revocations db @ [r]))"
    "distinct (map rv_ReceiptNumber (ad_revocations db @ [r]))"
    using inv img by (simp_all add: audit_inv_def)
  moreover have "distinct (map fst (ad_notices (stored_db r n ids rec db)))"
    using inv none(2) new by (fastforce simp: audit_inv_def)
  ultimately show ?thesis
    using inv c n unfolding audit_inv_def
    by (simp add: revocation_events_sel first_step_def image_iff prefix_def del: upt_Suc) blast
qed

lemma consent_unique:
  assumes "audit_inv db" and "(c, t) \<in> set (ad_consents db)" and "(d, u) \<in> set (ad_consents db)" and "cn_ID c = cn_ID d"
  shows "c = d"
proof -
  have "distinct (map (cn_ID \<circ> fst) (ad_consents db))" using assms(1) by (simp add: audit_inv_def)
  then have "inj_on (cn_ID \<circ> fst) (set (ad_consents db))" by (simp add: distinct_map)
  from inj_onD [OF this _ assms(2,3)] assms(4) have "(c, t) = (d, u)" by simp
  then show ?thesis by simp
qed

lemma stored_notice_says_other:
  assumes inv: "audit_inv db" and inv': "audit_inv (stored_db r n ids rec db)" and "c \<noteq> rv_ConsentID r"
    and says: "notice_says c e d db" and e: "e \<noteq> ''''"
  shows "notice_says c e d (stored_db r n ids rec db)"
proof -
  have "steps_of c e (stored_db r n ids rec db) = steps_of c e db" using assms(3) by (simp add: stored_steps_of)
  then have "last_step c e (stored_db r n ids rec db) = last_step c e db" by (simp add: last_step_def)
  with says show ?thesis unfolding notice_says_def stored_entity_events [OF e] by simp
qed

lemma stored_revocation_ok:
  assumes core: "core_ok now db" and inv': "audit_inv (stored_db r n ids rec db)"
    and new: "\<And>q. q \<in> set (ad_revocations db) \<Longrightarrow> rv_ConsentID q \<noteq> rv_ConsentID r"
    and c: "(c, t) \<in> set (ad_consents db)" "cn_ID c = rv_ConsentID r" "rv_EffectiveAt r < ExpiresAt c"
    and now: "rv_EffectiveAt r \<le> now" and e: "nr_EntityCode n \<noteq> ''''"
  shows "revocation_ok now (stored_db r n ids rec db) r"
proof -
  let ?db = "stored_db r n ids rec db" and ?v = "snd (revocation_events r [n] ids rec)" and ?w = "\<lparr>ew_Code = nr_EntityCode n, ew_DeadlineAt = nr_WindowEndsAt n\<rparr>"
  note none = no_revocation [OF core new]
  have "revoked_events (rv_ConsentID r) db = []" using none(1) by (auto simp: revoked_events_def filter_empty_conv)
  then have "revoked_events (rv_ConsentID r) ?db = [?v]"
    by (simp add: revoked_events_def revocation_events_sel history_defs)
  moreover have "notices_of (rv_ConsentID r) ?db = [((rv_ConsentID r, nr_EntityCode n), nr_Key n)]"
    using none(2) by (auto simp: notices_of_def filter_empty_conv)
  moreover have "notice_says (rv_ConsentID r) (nr_EntityCode n) (nr_WindowEndsAt n) ?db"
  proof -
    have "steps_of (rv_ConsentID r) (nr_EntityCode n) ?db = [first_step r n]" using none(3) by (simp add: stored_steps_of)
    then have "last_step (rv_ConsentID r) (nr_EntityCode n) ?db = Some (first_step r n)" by (simp add: last_step_def)
    moreover have "entity_events (rv_ConsentID r) (nr_EntityCode n) ?db = []"
      unfolding stored_entity_events [OF e] using none(1) by (auto simp: entity_events_def filter_empty_conv)
    ultimately show ?thesis
      by (simp add: notice_says_def events_state_def notice_events_def step_says_def first_step_def)
  qed
  moreover have "rv_EffectiveAt r < ExpiresAt d" if "(d, u) \<in> set (ad_consents db)" "cn_ID d = rv_ConsentID r" for d u
    using consent_unique [OF core_okD(1) [OF core] that(1) c(1)] that c by simp
  moreover have "rv_EffectiveAt r \<le> cev_OccurredAt v" if "v \<in> set (ad_events ?db)" "cev_ConsentID v = rv_ConsentID r" "cev_EntityCode v \<noteq> ''''" for v
    using that none(1) by (auto simp: revocation_events_sel)
  ultimately show ?thesis using now unfolding revocation_ok_def
    by (auto simp: revocation_events_sel intro!: exI [of _ ?v] exI [of _ "[?w]"])
qed

lemma stored_core:
  assumes core: "core_ok now db" and conf: "\<not> list_ex (revocation_conflict r) (ad_revocations db)"
    and c: "(c, t) \<in> set (ad_consents db)" "cn_ID c = rv_ConsentID r" "rv_EffectiveAt r < ExpiresAt c"
    and now: "rv_EffectiveAt r \<le> now" and e: "nr_EntityCode n \<noteq> ''''"
    and key: "nr_Key n = ''revocation-'' @ rv_ConsentID r @ ''-'' @ nr_EntityCode n"
    and number: "rv_ReceiptNumber r = FormatReceiptNumber (rv_EffectiveAt r) (ad_receipt_seq db + 1)"
  shows "core_ok now (stored_db r n ids rec db)"
proof -
  let ?db = "stored_db r n ids rec db"
  note inv = core_okD(1) [OF core]
  have new: "rv_ConsentID q \<noteq> rv_ConsentID r" if "q \<in> set (ad_revocations db)" for q
    using conf that by (auto simp: list_ex_iff revocation_conflict_def)
  have inv': "audit_inv ?db" by (rule stored_audit_inv [OF core conf _ e]) (use c in blast)
  have "events_ok now ?db" using core_okD(2) [OF core] unfolding events_ok_def
    by (auto simp: stored_entity_events revocation_events_sel)
  moreover have "audit_keys_ok ?db"
    using core_okD(3) [OF core] key number unfolding audit_keys_ok_def by (simp, metis le_SucI order_refl)
  moreover have "revocation_ok now ?db q" if q: "q \<in> set (ad_revocations db)" for q
  proof -
    note ok = core_okD(4) [OF core q] and nq = new [OF q]
    have "revoked_events (rv_ConsentID q) ?db = revoked_events (rv_ConsentID q) db"
      using nq by (simp add: revoked_events_def revocation_events_sel)
    moreover have "notices_of (rv_ConsentID q) ?db = notices_of (rv_ConsentID q) db" using nq by (simp add: notices_of_def)
    moreover have "notice_says (rv_ConsentID q) c d ?db" if "notice_says (rv_ConsentID q) c d db" for c d
    proof (rule stored_notice_says_other [OF inv inv' nq that])
      from that obtain l where l: "last_step (rv_ConsentID q) c db = Some l" by (auto simp: notice_says_def split: option.splits)
      show "c \<noteq> ''''" using audit_inv_last(5) [OF inv l] inv unfolding audit_inv_def by (metis (no_types, lifting) fst_conv imageE surj_pair)
    qed
    moreover have "rv_EffectiveAt q \<le> cev_OccurredAt v" if "v \<in> set (ad_events ?db)" "cev_ConsentID v = rv_ConsentID q" "cev_EntityCode v \<noteq> ''''" for v
      using that ok unfolding revocation_ok_def by (auto simp: revocation_events_sel)
    ultimately show ?thesis using ok unfolding revocation_ok_def by simp blast
  qed
  moreover have "revocation_ok now ?db r" by (rule stored_revocation_ok [OF core inv' new c now e])
  ultimately show ?thesis using inv' by (auto simp: core_ok_def)
qed

lemma new_notice_sel [simp]:
  "nr_EntityCode (new_notice r e key) = e" "nr_Key (new_notice r e key) = key" "nr_WindowEndsAt (new_notice r e key) = rv_NoticeDeadlineAt r"
  "nr_NextAttemptAt (new_notice r e key) = rv_EffectiveAt r"
  by (simp_all add: new_notice_def)

lemma number_taken:
  assumes "core_ok now db"
  shows "core_ok now (db\<lparr>ad_receipt_seq := ad_receipt_seq db + 1\<rparr>)"
proof -
  let ?db = "db\<lparr>ad_receipt_seq := ad_receipt_seq db + 1\<rparr>"
  have "audit_keys_ok ?db" using core_okD(3) [OF assms] unfolding audit_keys_ok_def by (simp, meson le_SucI)
  with assms show ?thesis
    by (simp add: core_ok_def audit_inv_def steps_numbered_def events_ok_def revocation_ok_def)
qed

lemma revoke_record_keeps:
  assumes y: "audit_runs_inv y" and p: "as_revoking y = xs @ (rvn, notices) # ys"
  shows "audit_runs_inv (y\<lparr>as_db := fst (Record_revocation rvn notices ids rec (as_db y)), as_revoking := xs @ ys\<rparr>)"
proof -
  let ?db = "as_db y" and ?now = "as_now y"
  note y' = y [unfolded audit_runs_inv_core]
  then have core: "core_ok ?now ?db" and ok: "revoking_ok ?now ?db (rvn, notices)"
    and fls: "\<And>f. f \<in> set (as_flight y) \<Longrightarrow> notice_flight_ok ?now ?db f"
    and rest: "\<And>q. q \<in> set (xs @ ys) \<Longrightarrow> revoking_ok ?now ?db q"
    using p by auto
  from ok obtain c t e where c: "(c, t) \<in> set (ad_consents ?db)" "cn_ID c = rv_ConsentID rvn" "rv_EffectiveAt rvn < ExpiresAt c"
    and now: "rv_EffectiveAt rvn \<le> ?now" and n: "notices = [new_notice rvn e (''revocation-'' @ rv_ConsentID rvn @ ''-'' @ e)]" "e \<noteq> ''''"
    by (auto simp: revoking_ok_def)
  have keep: "audit_runs_inv (y\<lparr>as_db := db', as_revoking := xs @ ys\<rparr>)"
    if "core_ok ?now db'" "\<And>f. f \<in> set (as_flight y) \<Longrightarrow> notice_flight_ok ?now db' f" "extends ?db db'" for db'
    using that(1,2) revoking_extends [OF rest that(3)] y' p by (simp add: audit_runs_inv_core del: split_paired_All)
  show ?thesis
    unfolding n(1)
  proof (rule record_revocation_cases [of rvn e "''revocation-'' @ rv_ConsentID rvn @ ''-'' @ e" ids rec ?db], goal_cases)
    case (1 res)
    have ex: "extends ?db (?db\<lparr>ad_receipt_seq := ad_receipt_seq ?db + 1\<rparr>)" by (simp add: extends_def)
    have "audit_runs_inv (y\<lparr>as_db := ?db\<lparr>ad_receipt_seq := ad_receipt_seq ?db + 1\<rparr>, as_revoking := xs @ ys\<rparr>)"
      by (rule keep [OF number_taken [OF core] flight_extends [OF fls ex, where ss = "[]"] ex]) simp_all
    with 1(1) show ?case by simp
  next
    case 2
    let ?k = "''revocation-'' @ rv_ConsentID rvn @ ''-'' @ e" and ?n = "new_notice rvn e (''revocation-'' @ rv_ConsentID rvn @ ''-'' @ e)"
    let ?r = "rvn\<lparr>rv_ReceiptNumber := FormatReceiptNumber (rv_EffectiveAt rvn) (ad_receipt_seq ?db + 1)\<rparr>"
    let ?db' = "stored_db ?r ?n ids rec ?db"
    have eq: "fst (Record_revocation rvn [?n] ids rec ?db) = ?db'" using 2(1) by (simp add: stored_db_def)
    have core': "core_ok ?now ?db'" by (rule stored_core [OF core 2(2), of c t]) (use c now n in simp_all)
    have ex: "extends ?db ?db'" by (simp add: extends_def)
    have "notice_flight_ok ?now ?db' f" if f: "f \<in> set (as_flight y)" for f
    proof (rule flight_extends [OF fls [OF f] ex, of "[first_step ?r ?n]"])
      fix s assume "s \<in> set [first_step ?r ?n]"
      then have s: "(sp_ConsentID s, sp_EntityCode s) = (rv_ConsentID rvn, e)" by (simp add: first_step_def)
      have "(sp_ConsentID q, sp_EntityCode q) \<noteq> (rv_ConsentID rvn, e)" if q: "q \<in> set (ad_steps ?db)" for q
      proof
        assume "(sp_ConsentID q, sp_EntityCode q) = (rv_ConsentID rvn, e)"
        moreover have "(sp_ConsentID q, sp_EntityCode q) \<in> fst ` set (ad_notices ?db)"
          using core_okD(1) [OF core] q unfolding audit_inv_def by metis
        ultimately show False using 2(3) by fastforce
      qed
      then show "(sp_ConsentID s, sp_EntityCode s) \<notin> (\<lambda>s. (sp_ConsentID s, sp_EntityCode s)) ` set (ad_steps ?db)"
        unfolding s by fastforce
    qed simp
    with keep [OF core' _ ex] show ?case unfolding eq by blast
  qed
qed

section \<open>Every step keeps the invariant\<close>

lemma audit_runs_inv_step: "audit_step y y' \<Longrightarrow> audit_runs_inv y \<Longrightarrow> audit_runs_inv y'"
proof (induction rule: audit_step.induct)
  case (tick y t)
  then have "0 < t" by (simp add: audit_runs_inv_core)
  with tick show ?case
    using core_ok_later [of "as_now y" "as_db y" t] notice_flight_ok_later [of "as_now y" "as_db y" _ t]
      revoking_ok_later [of "as_now y" "as_db y" _ t]
    unfolding audit_runs_inv_core by (simp del: split_paired_All)
next
  case (grant rnd y u req rec) then show ?case by (intro grant_keeps)
next
  case (link y u l) then show ?case by (rule link_keeps)
next
  case (revoke_read i y c sv cmd rnd rvn notices) then show ?case by (intro revoke_read_keeps)
next
  case (revoke_record y xs rvn notices ys rec ids) then show ?case by (intro revoke_record_keeps)
next
  case (revoke_stop y xs p ys) then show ?case by (auto simp: audit_runs_inv_core)
next
  case (claim i y lease db' r) then show ?case by (intro claim_keeps)
next
  case (write_result y xs r ys rec cfg res stat reason db' stored) then show ?case by (intro result_keeps)
next
  case (crash y xs r ys) then show ?case by (auto simp: audit_runs_inv_core)
next
  case (retry sv rec y i a) then show ?case by (intro retry_keeps)
qed

lemma audit_runs_inv_reach: "audit_reach y \<Longrightarrow> audit_runs_inv y"
proof -
  assume "audit_reach y"
  then obtain t where t: "0 < t" "audit_step\<^sup>*\<^sup>* (audit_init t) y" by (auto simp: audit_reach_def)
  from t(2) show ?thesis by induction (use audit_runs_inv_init [OF t(1)] audit_runs_inv_step in auto)
qed

end
