(* ===== verification/Consent_Derived.thy ===== *)
theory Consent_Derived
  imports Consent_Safety
begin

text \<open>
  What the events of a reachable state derive: the revocation of a consent and its receipt, the same
  at every instant, and for each entity exactly what the last step of its notice says.
\<close>

section \<open>Looking events up\<close>

lemma find_filter: "find p xs = (case filter p xs of [] \<Rightarrow> None | x # _ \<Rightarrow> Some x)"
  by (induction xs) auto

lemma sortEvents_ListByConsents:
  "sortEvents (ListByConsents [i] db i) = sort_key event_order (filter (\<lambda>e. cev_ConsentID e = i) (ad_events db))"
  by (simp add: sortEvents_def ListByConsents_def sort_key_id_if_sorted)

lemma find_revoked:
  assumes "revoked_events (cn_ID c) db = [v]" and "cev_OccurredAt v < ExpiresAt c"
  shows "find (\<lambda>e. cev_Status e = HistoryRevoked \<and> cev_OccurredAt e < ExpiresAt c)
    (whole_consent c (sortEvents (ListByConsents [cn_ID c] db (cn_ID c)))) = Some v"
proof -
  let ?p = "\<lambda>e. cev_Status e = HistoryRevoked \<and> cev_OccurredAt e < ExpiresAt c"
  have "filter ?p (whole_consent c (sortEvents (ListByConsents [cn_ID c] db (cn_ID c)))) =
      sort_key event_order (filter (\<lambda>e. cev_OccurredAt e < ExpiresAt c) (revoked_events (cn_ID c) db))"
    unfolding sortEvents_ListByConsents whole_consent_def revoked_events_def filter_sort filter_filter
    by (intro arg_cong [where f = "sort_key event_order"] filter_cong) auto
  with assms show ?thesis by (simp add: find_filter)
qed

section \<open>The state of a notice\<close>

lemma fold_notice_event:
  "fold (notice_event code) evs p = fold (notice_event code) (filter (\<lambda>e. cev_EntityCode e = code) evs) p"
proof (induction evs arbitrary: p)
  case (Cons e evs)
  then show ?case by (cases p) (simp add: notice_event_def)
qed simp

lemma notice_event_entity:
  "notice_event code e (n\<lparr>nt_Entity := x\<rparr>, u) = (let (m, w) = notice_event code e (n, u) in (m\<lparr>nt_Entity := x\<rparr>, w))"
  by (simp add: notice_event_def split: option.split)

lemma fold_notice_event_entity:
  "fold (notice_event code) evs (n\<lparr>nt_Entity := x\<rparr>, u) =
    (let (m, w) = fold (notice_event code) evs (n, u) in (m\<lparr>nt_Entity := x\<rparr>, w))"
proof (induction evs arbitrary: n u)
  case (Cons e evs)
  obtain m w where "notice_event code e (n, u) = (m, w)" by fastforce
  then show ?case by (simp add: notice_event_entity Cons.IH)
qed simp

lemma notice_events_names:
  "notice_events names evs w =
    (let (m, u) = events_state (ew_Code w) (ew_DeadlineAt w) evs in (m\<lparr>nt_Entity := names_Entity names (ew_Code w)\<rparr>, u))"
  using fold_notice_event_entity [where code = "ew_Code w" and evs = evs and u = False and x = "names_Entity names (ew_Code w)"
      and n = "\<lparr>nt_Entity = names_Entity [] (ew_Code w), nt_Status = NoticePending,
        nt_ConfirmedAt = zero_time, nt_DeadlineAt = ew_DeadlineAt w\<rparr>"]
  by (simp add: notice_events_def events_state_def)

text \<open>What the store says of an entity at an instant: its last step, and the end of its window.\<close>

definition stored_status :: "time \<Rightarrow> notice_step \<Rightarrow> notice_status" where
  "stored_status now l =
    (case sp_Status l of
       StatusConfirmed \<Rightarrow> NoticeConfirmed
     | StatusFailed \<Rightarrow> NoticeNotConfirmed
     | _ \<Rightarrow> if \<not> time_IsZero (sp_WindowEndsAt l) \<and> \<not> now < sp_WindowEndsAt l then NoticeNotConfirmed else NoticePending)"

lemma window_ended_says:
  "step_says l (nt_Status n, nt_DeadlineAt n) \<Longrightarrow> nt_Status (window_ended now n) = stored_status now l"
  by (simp add: step_says_def stored_status_def window_ended_def split: status.splits)

lemma window_ended_code [simp]: "nt_Entity (window_ended now n) = nt_Entity n"
  by (simp add: window_ended_def)

text \<open>The events of the consent that the view folds over, for one entity.\<close>

lemma view_entity_events:
  assumes ok: "events_ok now db" and e: "e \<noteq> ''''"
    and later: "\<And>v. v \<in> set (ad_events db) \<Longrightarrow> cev_ConsentID v = i \<Longrightarrow> cev_EntityCode v \<noteq> '''' \<Longrightarrow> t \<le> cev_OccurredAt v"
  shows "filter (\<lambda>v. cev_EntityCode v = e)
    (filter (\<lambda>v. cev_ConsentID v = i \<and> cev_EntityCode v \<noteq> '''' \<and> \<not> cev_OccurredAt v < t)
      (sortEvents (ListByConsents [i] db i))) = entity_events i e db"
proof -
  have "filter (\<lambda>v. cev_EntityCode v = e) (filter (\<lambda>v. cev_ConsentID v = i \<and> cev_EntityCode v \<noteq> '''' \<and> \<not> cev_OccurredAt v < t)
      (sortEvents (ListByConsents [i] db i))) = sort_key event_order (entity_events i e db)"
    unfolding sortEvents_ListByConsents entity_events_def filter_sort filter_filter
    using later e by (intro arg_cong [where f = "sort_key event_order"] filter_cong) (auto simp: not_less)
  also have "\<dots> = entity_events i e db" using ok e by (simp add: events_ok_def sort_key_id_if_sorted)
  finally show ?thesis .
qed

text \<open>An entity is unresolved while it has not confirmed and either its notice is not confirmed now or a worker recorded
  once that it was not.\<close>

definition not_confirmed_recorded :: "string \<Rightarrow> string \<Rightarrow> audit_db \<Rightarrow> bool" where
  "not_confirmed_recorded c e db \<longleftrightarrow> list_ex (\<lambda>v. cev_Status v = HistoryRevocationNotConfirmed) (entity_events c e db)"

definition entity_unresolved :: "time \<Rightarrow> string \<Rightarrow> string \<Rightarrow> audit_db \<Rightarrow> bool" where
  "entity_unresolved now c e db \<longleftrightarrow>
    (case stored_status now (the (last_step c e db)) of
       NoticeConfirmed \<Rightarrow> False | NoticeNotConfirmed \<Rightarrow> True | NoticePending \<Rightarrow> not_confirmed_recorded c e db)"

lemma notice_event_unresolved:
  "(snd p \<longleftrightarrow> nt_Status (fst p) \<noteq> NoticeConfirmed \<and> b) \<Longrightarrow>
   snd (notice_event code e p) \<longleftrightarrow> nt_Status (fst (notice_event code e p)) \<noteq> NoticeConfirmed \<and>
     (b \<or> cev_EntityCode e = code \<and> cev_Status e = HistoryRevocationNotConfirmed)"
  by (cases p) (auto simp: notice_event_def HistoryRevocationConfirmed_def HistoryRevocationNotConfirmed_def
    HistoryRevocationRetryRequested_def split: option.split)

lemma fold_notice_unresolved:
  "(snd p \<longleftrightarrow> nt_Status (fst p) \<noteq> NoticeConfirmed \<and> b) \<Longrightarrow>
   snd (fold (notice_event code) evs p) \<longleftrightarrow> nt_Status (fst (fold (notice_event code) evs p)) \<noteq> NoticeConfirmed \<and>
     (b \<or> list_ex (\<lambda>e. cev_EntityCode e = code \<and> cev_Status e = HistoryRevocationNotConfirmed) evs)"
proof (induction evs arbitrary: p b)
  case (Cons e evs)
  from Cons.IH [OF notice_event_unresolved [OF Cons.prems, of code e]] show ?case by (simp add: disj_assoc)
qed simp

lemma window_ended_confirmed: "nt_Status (window_ended now n) = NoticeConfirmed \<longleftrightarrow> nt_Status n = NoticeConfirmed"
  by (simp add: window_ended_def)

section \<open>A revoked consent\<close>

lemma revoked_derive_all:
  assumes core: "core_ok now db" and c: "(c, t) \<in> set (ad_consents db)" and r: "r \<in> set (ad_revocations db)" "rv_ConsentID r = cn_ID c"
  obtains rvw where
    "derive c (ListByConsents [cn_ID c] db (cn_ID c)) tm names = (rvw_Status rvw, rv_EffectiveAt r, rv_ReceiptNumber r, Some rvw)"
    "rvw_Status rvw = ConsentRevoked \<or> rvw_Status rvw = ConsentPartiallyRevoked"
    "rvw_EffectiveAt rvw = rv_EffectiveAt r" "rvw_ReceiptNumber rvw = rv_ReceiptNumber r"
    "map (\<lambda>n. (en_Code (nt_Entity n), nt_Status n)) (rvw_Entities rvw) =
      map (\<lambda>n. (snd (fst n), stored_status tm (the (last_step (cn_ID c) (snd (fst n)) db)))) (notices_of (cn_ID c) db)"
    "rvw_Status rvw = ConsentPartiallyRevoked \<longleftrightarrow> (\<exists>n \<in> set (notices_of (cn_ID c) db). entity_unresolved tm (cn_ID c) (snd (fst n)) db)"
    "rvw_Summary rvw = NoticePartial \<longleftrightarrow> rvw_Status rvw = ConsentPartiallyRevoked"
proof -
  note ok = core_okD(4) [OF core r(1), unfolded revocation_ok_def r(2)] and inv = core_okD(1) [OF core]
  from ok obtain v ws where v: "revoked_events (cn_ID c) db = [v]" "cev_OccurredAt v = rv_EffectiveAt r"
    "cev_ReceiptID v = rv_ReceiptNumber r" "cev_Details v = RevokedDetails (rv_ID r) ws"
    "map ew_Code ws = map (snd \<circ> fst) (notices_of (cn_ID c) db)"
    "\<And>w. w \<in> set ws \<Longrightarrow> notice_says (cn_ID c) (ew_Code w) (ew_DeadlineAt w) db" by blast
  have ex: "cev_OccurredAt v < ExpiresAt c" using ok c v(2) by auto
  define srt where "srt = sortEvents (ListByConsents [cn_ID c] db (cn_ID c))"
  define rvw where "rvw = revocationView c v (whole_consent c srt) srt tm names"
  have fs: "cev_OccurredAt v = rvw_EffectiveAt rvw" "cev_ReceiptID v = rvw_ReceiptNumber rvw"
    "rvw_Status rvw = ConsentRevoked \<or> rvw_Status rvw = ConsentPartiallyRevoked"
    by (simp_all add: rvw_def revocationView_def Let_def split: prod.split)
  have d: "derive c (ListByConsents [cn_ID c] db (cn_ID c)) tm names = (rvw_Status rvw, rv_EffectiveAt r, rv_ReceiptNumber r, Some rvw)"
    using find_revoked [OF v(1) ex] v by (simp add: derive_def Let_def rvw_def srt_def)
  define evs where "evs = filter (\<lambda>e. cev_ConsentID e = cn_ID c \<and> cev_EntityCode e \<noteq> '''' \<and> \<not> cev_OccurredAt e < cev_OccurredAt v) srt"
  have ents: "rvw_Entities rvw = map (\<lambda>w. window_ended tm (fst (notice_events names evs w))) ws"
    by (simp add: rvw_def revocationView_def deriveNotices_def event_windows_def v(4) evs_def Let_def case_prod_beta comp_def)
  have parts: "rvw_Status rvw = ConsentPartiallyRevoked \<longleftrightarrow>
      list_ex (\<lambda>w. nt_Status (window_ended tm (fst (notice_events names evs w))) = NoticeNotConfirmed \<or> snd (notice_events names evs w)) ws"
    "rvw_Summary rvw = NoticePartial \<longleftrightarrow> rvw_Status rvw = ConsentPartiallyRevoked"
    by (simp_all add: rvw_def revocationView_def deriveNotices_def event_windows_def v(4) evs_def Let_def case_prod_beta list_ex_iff
      summarize_def)
  have one: "(en_Code (nt_Entity (window_ended tm (fst (notice_events names evs w)))), nt_Status (window_ended tm (fst (notice_events names evs w)))) =
      (ew_Code w, stored_status tm (the (last_step (cn_ID c) (ew_Code w) db)))"
    and un: "nt_Status (window_ended tm (fst (notice_events names evs w))) = NoticeNotConfirmed \<or> snd (notice_events names evs w) \<longleftrightarrow>
      entity_unresolved tm (cn_ID c) (ew_Code w) db" if w: "w \<in> set ws" for w
  proof -
    note says = v(6) [OF w]
    then obtain l where l: "last_step (cn_ID c) (ew_Code w) db = Some l" by (auto simp: notice_says_def split: option.splits)
    have code: "ew_Code w \<noteq> ''''" using audit_inv_last(5) [OF inv l] inv unfolding audit_inv_def
      by (metis (no_types, lifting) fst_conv imageE surj_pair)
    have own: "filter (\<lambda>e. cev_EntityCode e = ew_Code w) evs = entity_events (cn_ID c) (ew_Code w) db"
      unfolding evs_def srt_def v(2) by (rule view_entity_events [OF core_okD(2) [OF core] code]) (use ok in blast)
    then have "events_state (ew_Code w) (ew_DeadlineAt w) evs = events_state (ew_Code w) (ew_DeadlineAt w) (entity_events (cn_ID c) (ew_Code w) db)"
      by (simp add: events_state_def notice_events_def fold_notice_event [of _ evs])
    then have st: "fst (notice_events names evs w) =
        (fst (events_state (ew_Code w) (ew_DeadlineAt w) (entity_events (cn_ID c) (ew_Code w) db)))\<lparr>nt_Entity := names_Entity names (ew_Code w)\<rparr>"
      by (simp add: notice_events_names Let_def case_prod_beta)
    have "step_says l (nt_Status (fst (notice_events names evs w)), nt_DeadlineAt (fst (notice_events names evs w)))"
      using says l by (simp add: notice_says_def st Let_def)
    note st' = window_ended_says [OF this, of tm]
    from st' l show "(en_Code (nt_Entity (window_ended tm (fst (notice_events names evs w)))),
        nt_Status (window_ended tm (fst (notice_events names evs w)))) =
      (ew_Code w, stored_status tm (the (last_step (cn_ID c) (ew_Code w) db)))" by (simp add: st)
    have "snd (notice_events names evs w) \<longleftrightarrow> nt_Status (fst (notice_events names evs w)) \<noteq> NoticeConfirmed \<and>
        list_ex (\<lambda>e. cev_EntityCode e = ew_Code w \<and> cev_Status e = HistoryRevocationNotConfirmed) evs"
      using fold_notice_unresolved [where b = False] by (simp add: notice_events_def)
    also have "list_ex (\<lambda>e. cev_EntityCode e = ew_Code w \<and> cev_Status e = HistoryRevocationNotConfirmed) evs \<longleftrightarrow>
        not_confirmed_recorded (cn_ID c) (ew_Code w) db"
      unfolding not_confirmed_recorded_def own [symmetric] by (auto simp: list_ex_iff)
    finally show "nt_Status (window_ended tm (fst (notice_events names evs w))) = NoticeNotConfirmed \<or> snd (notice_events names evs w) \<longleftrightarrow>
      entity_unresolved tm (cn_ID c) (ew_Code w) db"
      using st' l window_ended_confirmed [of tm "fst (notice_events names evs w)"]
      by (auto simp: entity_unresolved_def split: notice_status.split)
  qed
  have "map (\<lambda>n. (en_Code (nt_Entity n), nt_Status n)) (rvw_Entities rvw) =
      map (\<lambda>w. (ew_Code w, stored_status tm (the (last_step (cn_ID c) (ew_Code w) db)))) ws"
    unfolding ents map_map using one by (intro map_cong) (simp_all add: comp_def)
  also have "\<dots> = map (\<lambda>e. (e, stored_status tm (the (last_step (cn_ID c) e db)))) (map ew_Code ws)" by (simp add: comp_def)
  also have "\<dots> = map (\<lambda>n. (snd (fst n), stored_status tm (the (last_step (cn_ID c) (snd (fst n)) db)))) (notices_of (cn_ID c) db)"
    unfolding v(5) by (simp add: comp_def)
  finally have "map (\<lambda>n. (en_Code (nt_Entity n), nt_Status n)) (rvw_Entities rvw) =
      map (\<lambda>n. (snd (fst n), stored_status tm (the (last_step (cn_ID c) (snd (fst n)) db)))) (notices_of (cn_ID c) db)" .
  moreover have "list_ex (\<lambda>w. entity_unresolved tm (cn_ID c) (ew_Code w) db) ws \<longleftrightarrow>
      (\<exists>e \<in> set (map ew_Code ws). entity_unresolved tm (cn_ID c) e db)" by (simp add: list_ex_iff)
  then have "rvw_Status rvw = ConsentPartiallyRevoked \<longleftrightarrow> (\<exists>n \<in> set (notices_of (cn_ID c) db). entity_unresolved tm (cn_ID c) (snd (fst n)) db)"
    unfolding v(5) using parts(1) un by (simp add: list_ex_iff)
  ultimately show ?thesis using that [OF d] fs v(2,3) parts(2) by simp
qed

lemma revoked_derive:
  assumes core: "core_ok now db" and c: "(c, t) \<in> set (ad_consents db)" and r: "r \<in> set (ad_revocations db)" "rv_ConsentID r = cn_ID c"
  obtains rvw where
    "derive c (ListByConsents [cn_ID c] db (cn_ID c)) tm names = (rvw_Status rvw, rv_EffectiveAt r, rv_ReceiptNumber r, Some rvw)"
    "rvw_Status rvw = ConsentRevoked \<or> rvw_Status rvw = ConsentPartiallyRevoked"
    "rvw_EffectiveAt rvw = rv_EffectiveAt r" "rvw_ReceiptNumber rvw = rv_ReceiptNumber r"
    "map (\<lambda>n. (en_Code (nt_Entity n), nt_Status n)) (rvw_Entities rvw) =
      map (\<lambda>n. (snd (fst n), stored_status tm (the (last_step (cn_ID c) (snd (fst n)) db)))) (notices_of (cn_ID c) db)"
  by (rule revoked_derive_all [OF assms]) (rule that)

end
