(* ===== verification/Consent_Scenario.thy ===== *)
theory Consent_Scenario
  imports Consent_Derived
begin

text \<open>
  Runs of the consents, evaluated. \<open>exec_audit\<close> runs one command on the definitions of the model; every
  command is at most one step of \<^const>\<open>audit_step\<close>, so what a list of commands reaches from the start
  is reachable. In the run the holder revokes a consent, its entity first rejects the notice, an
  analyst retries and the entity confirms.
\<close>

section \<open>Commands\<close>

datatype audit_cmd =
    ATick time | AGrant grant_request "nat list" time | ARead string revocation_service revoke_command "nat list"
  | ARecord "string \<times> string" time | AClaim string duration | AResult notice_config time "go_error + outcome"
  | ARetry revocation_service string actor time

text \<open>The tables of the letters of ASCII.\<close>

definition ascii_tables :: unicode_tables where
  "ascii_tables = \<lparr>uc_letter = (\<lambda>r. 65 \<le> r \<and> r \<le> 90 \<or> 97 \<le> r \<and> r \<le> 122), uc_upper = (\<lambda>r. r)\<rparr>"

fun exec_audit :: "audit_cmd \<Rightarrow> audit_sys \<Rightarrow> audit_sys" where
  "exec_audit (ATick t) y = (if as_now y \<le> t then y\<lparr>as_now := t\<rparr> else y)"
| "exec_audit (AGrant req b rec) y =
    (if good_random (Inr b) then y\<lparr>as_db := fst (Grant ascii_tables req (Inr b) (as_now y) rec (as_db y))\<rparr> else y)"
| "exec_audit (ARead i sv cmd b) y =
    (case Consent_Get i (as_db y) of
       Inl _ \<Rightarrow> y
     | Inr c \<Rightarrow>
        (case prepare_revoke sv c cmd (as_now y) (Inr b) (as_db y) of
           Inl _ \<Rightarrow> y
         | Inr p \<Rightarrow> if 0 < rs_deadline sv then y\<lparr>as_revoking := p # as_revoking y\<rparr> else y))"
| "exec_audit (ARecord ids rec) y =
    (case as_revoking y of
       [] \<Rightarrow> y
     | (rvn, notices) # ys \<Rightarrow>
        if db_clock rec (as_db y)
        then y\<lparr>as_db := fst (Record_revocation rvn notices ids rec (as_db y)), as_revoking := ys\<rparr> else y)"
| "exec_audit (AClaim i lease) y =
    (case Notice_Claim i (as_now y) lease (as_db y) of
       (db', Inr (Some r)) \<Rightarrow> if 0 < lease then y\<lparr>as_db := db', as_flight := r # as_flight y\<rparr> else y
     | _ \<Rightarrow> y)"
| "exec_audit (AResult cfg rec res) y =
    (case as_flight y of
       [] \<Rightarrow> y
     | r # ys \<Rightarrow>
        (let (stat, reason, db', stored) = record_result (notice_runner cfg rec) r (as_now y) res (as_db y) in
         if db_clock rec (as_db y) then y\<lparr>as_db := db', as_flight := ys\<rparr> else y))"
| "exec_audit (ARetry sv i a rec) y =
    (if 0 < rs_deadline sv \<and> db_clock rec (as_db y)
     then y\<lparr>as_db := fst (RetryPending sv i a (as_now y) rec (as_db y))\<rparr> else y)"

lemma exec_audit_steps: "audit_step\<^sup>*\<^sup>* y (exec_audit cmd y)"
proof (cases cmd)
  case (ATick t)
  then show ?thesis by (auto intro: audit_step.tick)
next
  case (AGrant req b rec)
  then show ?thesis by (auto intro: audit_step.grant)
next
  case (ARead i sv c b)
  then show ?thesis by (auto intro: audit_step.revoke_read split: sum.split)
next
  case (ARecord ids rec)
  then show ?thesis
    using audit_step.revoke_record [of y "[]" _ _ _ rec ids] by (auto split: list.split)
next
  case (AClaim i lease)
  then show ?thesis by (auto intro: audit_step.claim split: prod.split sum.split option.split)
next
  case (AResult cfg rec res)
  then show ?thesis using audit_step.write_result [of y "[]"] by (auto split: list.split prod.split)
next
  case (ARetry sv i a rec)
  then show ?thesis by (auto intro: audit_step.retry)
qed

definition audit_run :: "audit_cmd list \<Rightarrow> time \<Rightarrow> audit_sys" where
  "audit_run cmds t = foldl (\<lambda>y c. exec_audit c y) (audit_init t) cmds"

lemma audit_run_reachable: "0 < t \<Longrightarrow> audit_reach (audit_run cmds t)"
proof -
  assume t: "0 < t"
  have "audit_step\<^sup>*\<^sup>* y (foldl (\<lambda>y c. exec_audit c y) y cmds)" for y
    by (induction cmds arbitrary: y) (auto intro: rtranclp_trans exec_audit_steps)
  with t show ?thesis by (auto simp: audit_reach_def audit_run_def)
qed

section \<open>One consent\<close>

definition run_grant :: grant_request where
  "run_grant = \<lparr>gq_CustomerID = ''ana'', gq_DocumentID = ''CC12345'', gq_FullName = ''Ana Gil'', gq_TermsVersion = ''v1'',
     gq_AcceptedSources = [''open_finance'', ''open_data'', ''kyc''], gq_AcceptedDataPolicy = True, gq_Channel = ''embedded'',
     gq_PartnerID = ''bank'', gq_ApplicationID = ''app1'', gq_UserAgent = ''''\<rparr>"

definition run_revocations :: revocation_service where
  "run_revocations = NewRevocationService [] 5000000"

definition run_consent_id :: string where "run_consent_id = ''cns-'' @ replicate 32 (CHR ''0'')"

definition run_command :: "string \<Rightarrow> revoke_command" where
  "run_command request = \<lparr>rcm_ConsentID = run_consent_id, rcm_Actor = \<lparr>act_Type = ActorHolder, act_ID = ''sub''\<rparr>,
     rcm_Channel = RevocationChannelMobileApp,
     rcm_Request = \<lparr>rvq_RequestedAt = 1500000, rvq_Device = ''phone'', rvq_ConfirmationMethod = ''biometric''\<rparr>,
     rcm_Reason = '''', rcm_Reference = '''', rcm_RequestID = request\<rparr>"

definition run_notice_config :: notice_config where
  "run_notice_config = notice_defaults 0 1000 1000 1000"

definition run_granted :: "audit_cmd list" where
  "run_granted = [AGrant run_grant (replicate 16 0) 1, ATick 2000000]"

definition run_revoked :: "audit_cmd list" where
  "run_revoked = run_granted @ [ARead run_consent_id run_revocations (run_command ''req1'') (replicate 16 0),
     ARead run_consent_id run_revocations (run_command ''req2'') (replicate 16 1), ARecord (''1'', ''2'') 2]"

definition run_taken :: "audit_cmd list" where
  "run_taken = run_revoked @ [ATick 2001000, AClaim (run_consent_id @ ''/bank'') 1000]"

definition run_rejected :: "audit_cmd list" where
  "run_rejected = run_taken @ [ATick 2001500, AResult run_notice_config 3 (Inl ErrRejected)]"

definition run_confirmed :: "audit_cmd list" where
  "run_confirmed = run_rejected @ [ATick 2002000, ARetry run_revocations run_consent_id \<lparr>act_Type = ActorOperations, act_ID = ''ops''\<rparr> 4,
     ATick 2003000, AClaim (run_consent_id @ ''/bank'') 1000, ATick 2003500,
     AResult run_notice_config 5 (Inr \<lparr>oc_Reference = ''ok''\<rparr>)]"

definition run_consent :: consent where
  "run_consent = consent_candidate run_grant run_consent_id 1000000"

definition run_revocation :: revocation where
  "run_revocation = hd (ad_revocations (as_db (audit_run run_revoked 1000000)))"

end
