(* ===== verification/Consent_Lasting.thy ===== *)
theory Consent_Lasting
  imports Consent_Scenario
begin

text \<open>
  What no step of the runs undoes: a revocation that was recorded, and a notice that an entity
  confirmed. With what the events derive (\<open>Consent_Derived\<close>) they are the promises of the audit
  service about a revoked consent.
\<close>

section \<open>What lasts\<close>

definition lasts :: "audit_db \<Rightarrow> audit_db \<Rightarrow> bool" where
  "lasts db db' \<longleftrightarrow> set (ad_revocations db) \<subseteq> set (ad_revocations db') \<and> set (ad_consents db) \<subseteq> set (ad_consents db') \<and>
    (\<forall>c e l. last_step c e db = Some l \<longrightarrow> sp_Status l = StatusConfirmed \<longrightarrow> last_step c e db' = Some l)"

lemma lasts_refl [simp]: "lasts db db"
  by (simp add: lasts_def)

lemma lasts_trans: "lasts a b \<Longrightarrow> lasts b c \<Longrightarrow> lasts a c"
  unfolding lasts_def by blast

lemma lasts_advance:
  assumes "audit_inv db" and "last_step (sp_ConsentID s) (sp_EntityCode s) db = Some l" and "sp_Seq s = sp_Seq l + 1"
    and "sp_Status l \<noteq> StatusConfirmed"
  shows "lasts db (advance s evo db)"
  using assms(2,4) by (auto simp: lasts_def advance_last [OF assms(1-3)])

lemma lasts_grant: "good_random rnd \<Longrightarrow> lasts db (fst (Grant u req rnd now rec db))"
  by (erule Grant_cases [of rnd u req now rec db]) (auto simp: lasts_def)

lemma lasts_record:
  assumes inv: "audit_inv db"
  shows "lasts db (fst (Record_revocation rvn [new_notice rvn e key] ids rec db))"
proof (rule record_revocation_cases [of rvn e key ids rec db], goal_cases)
  case (1 res)
  then show ?case by (simp add: lasts_def)
next
  case 2
  let ?r = "rvn\<lparr>rv_ReceiptNumber := FormatReceiptNumber (rv_EffectiveAt rvn) (ad_receipt_seq db + 1)\<rparr>"
  have eq: "fst (Record_revocation rvn [new_notice rvn e key] ids rec db) = stored_db ?r (new_notice rvn e key) ids rec db"
    using 2(1) by (simp add: stored_db_def)
  have "last_step c f (stored_db ?r (new_notice rvn e key) ids rec db) = last_step c f db" if l: "last_step c f db = Some l" for c f l
  proof -
    have "(c, f) \<noteq> (rv_ConsentID ?r, e)" using audit_inv_last(5) [OF inv l] 2(3) by force
    then have "steps_of c f (stored_db ?r (new_notice rvn e key) ids rec db) = steps_of c f db" by (auto simp: stored_steps_of)
    then show ?thesis by (simp add: last_step_def)
  qed
  then show ?case unfolding eq lasts_def by auto
qed

lemma lasts_step: "audit_step y z \<Longrightarrow> audit_runs_inv y \<Longrightarrow> lasts (as_db y) (as_db z)"
proof (induction rule: audit_step.induct)
  case (grant rnd y u req rec) then show ?case by (simp add: lasts_grant)
next
  case (link y u l)
  obtain ls where "fst (holder_Link u l (as_db y)) = as_db y\<lparr>ad_links := ls\<rparr>" by (rule holder_Link_db)
  then show ?case by (simp add: lasts_def)
next
  case (revoke_record y xs rvn notices ys rec ids)
  then have "revoking_ok (as_now y) (as_db y) (rvn, notices)" by (simp add: audit_runs_inv_core)
  then obtain e key where "notices = [new_notice rvn e key]" by (auto simp: revoking_ok_def)
  moreover have "audit_inv (as_db y)" using revoke_record by (simp add: audit_runs_inv_def)
  ultimately show ?case by (simp add: lasts_record)
next
  case (claim i y lease db' r)
  then have inv: "audit_inv (as_db y)" by (simp add: audit_runs_inv_def)
  from Notice_Claim_advance [OF inv claim(1)] obtain l s where l: "last_step (sp_ConsentID s) (sp_EntityCode s) (as_db y) = Some l"
    "step_due (as_now y) l" "s = l\<lparr>sp_Seq := sp_Seq l + 1, sp_Status := StatusInProgress,
      sp_ClaimedUntil := time_Add (as_now y) lease, sp_Reference := '''', sp_Reason := ''''\<rparr>" "db' = advance s None (as_db y)"
    by blast
  then show ?case using lasts_advance [OF inv l(1), of None] by (auto simp: step_due_def)
next
  case (write_result y xs r ys rec cfg res stat reason db' stored)
  then have inv: "audit_inv (as_db y)" and fl: "notice_flight_ok (as_now y) (as_db y) r" by (auto simp: audit_runs_inv_def)
  note ra = record_advance [OF inv flight_claimed [OF inv fl] write_result(2,3)]
  show ?case
  proof (cases "nr_Seq r = length (steps_of (nr_ConsentID r) (nr_EntityCode r) (as_db y))")
    case True
    with ra obtain s evo where s: "result_of (as_now y) (as_db y) r s evo" "db' = advance s evo (as_db y)" by auto
    note s' = s(1) [unfolded result_of_def]
    obtain l where l: "last_step (nr_ConsentID r) (nr_EntityCode r) (as_db y) = Some l"
      by (rule claimed_noticeE [OF inv flight_claimed [OF inv fl]])
    with True audit_inv_last(4) [OF inv l] have "nr_Seq r = sp_Seq l" by simp
    with flight_step(2) [OF inv fl l] l s s' show ?thesis by (auto intro: lasts_advance [OF inv])
  qed (use ra in simp)
next
  case (retry sv rec y i a)
  then have core: "core_ok (as_now y) (as_db y)" and d: "time_Add (as_now y) (rs_deadline sv) \<noteq> zero_time"
    and fl: "\<forall>f. f \<in> set (as_flight y) \<longrightarrow> notice_flight_ok (as_now y) (as_db y) f"
    by (auto simp: audit_runs_inv_core)
  from resume_result [OF core fl retry(2) d, of i a] obtain db' codes where res:
    "Notice_Resume i [] (as_now y) (rs_deadline sv) a rec (as_db y) = (db', Inr codes)" "ad_consents db' = ad_consents (as_db y)"
    "ad_revocations db' = ad_revocations (as_db y)"
    "resumed_steps i codes (as_now y) (time_Add (as_now y) (rs_deadline sv)) (as_db y) db'"
    "\<forall>e. e \<in> set codes \<longleftrightarrow> (\<exists>l. last_step i e (as_db y) = Some l \<and> resumable (as_now y) l)" by blast
  have "last_step c e db' = Some l" if "last_step c e (as_db y) = Some l" "sp_Status l = StatusConfirmed" for c e l
  proof -
    have "\<not> (c = i \<and> e \<in> set codes)" using that res(5) by (auto simp: resumable_def)
    with res(4) [unfolded resumed_steps_def, THEN spec [of _ c], THEN spec [of _ e]] that show ?thesis by simp
  qed
  then have "lasts (as_db y) db'" using res(2,3) by (simp add: lasts_def)
  with res(1) show ?case by (auto simp: RetryPending_def split: sum.split)
qed (simp_all)

lemma audit_reach_inv: "audit_reach y \<Longrightarrow> audit_step\<^sup>*\<^sup>* y z \<Longrightarrow> audit_reach z"
  unfolding audit_reach_def by (meson rtranclp_trans)

lemma lasts_steps: "audit_step\<^sup>*\<^sup>* y z \<Longrightarrow> audit_reach y \<Longrightarrow> lasts (as_db y) (as_db z)"
proof (induction rule: rtranclp_induct)
  case (step z w)
  from audit_reach_inv [OF step.prems step.hyps(1)] have "audit_runs_inv z" by (rule audit_runs_inv_reach)
  with step show ?case by (blast intro: lasts_trans lasts_step)
qed simp

section \<open>Lookups\<close>

lemma Consent_Get_in:
  assumes "audit_inv db" and "(c, t) \<in> set (ad_consents db)"
  shows "Consent_Get (cn_ID c) db = Inr c"
proof -
  obtain d where d: "find_consent (\<lambda>k. cn_ID k = cn_ID c) db = Some d"
    using assms(2) by (cases "find_consent (\<lambda>k. cn_ID k = cn_ID c) db") (force simp: find_consent_def find_None_iff)+
  with find_consent_Some [OF d] consent_unique [OF assms(1) assms(2)] have "c = d" by metis
  with d show ?thesis by (simp add: Consent_Get_def)
qed

lemma Consent_Get_ok: "Consent_Get i db = Inr c \<Longrightarrow> cn_ID c = i \<and> (\<exists>t. (c, t) \<in> set (ad_consents db))"
  using find_consent_Some [of "\<lambda>k. cn_ID k = i" db] by (auto simp: Consent_Get_def split: option.splits)

lemma GetByConsent_in:
  assumes "audit_inv db" and "r \<in> set (ad_revocations db)"
  shows "GetByConsent (rv_ConsentID r) db = Inr r"
proof -
  obtain d where d: "find (\<lambda>k. rv_ConsentID k = rv_ConsentID r) (ad_revocations db) = Some d"
    using assms(2) by (cases "find (\<lambda>k. rv_ConsentID k = rv_ConsentID r) (ad_revocations db)") (auto simp: find_None_iff)
  then have "d \<in> set (ad_revocations db)" "rv_ConsentID d = rv_ConsentID r" by (auto simp: find_Some_iff)
  moreover have "inj_on rv_ConsentID (set (ad_revocations db))" using assms(1) by (simp add: audit_inv_def distinct_map)
  ultimately have "d = r" using assms(2) by (metis inj_onD)
  with d show ?thesis by (simp add: GetByConsent_def)
qed

lemma LatestByCustomer_in: "LatestByCustomer cust db = Inr c \<Longrightarrow> \<exists>t. (c, t) \<in> set (ad_consents db)"
proof -
  assume l: "LatestByCustomer cust db = Inr c"
  let ?xs = "filter (\<lambda>(c, rec). cn_CustomerID c = cust) (ad_consents db)"
  from l obtain t zs where "sort_key (\<lambda>(c, rec). (- cn_GrantedAt c, - rec)) ?xs = (c, t) # zs"
    by (auto simp: LatestByCustomer_def split: list.splits prod.splits)
  then have "(c, t) \<in> set (sort_key (\<lambda>(c, rec). (- cn_GrantedAt c, - rec)) ?xs)" by simp
  then show ?thesis by auto
qed

end
