(* ===== verification/Consent_Properties.thy ===== *)
theory Consent_Properties
  imports Consent_Lasting
begin

text \<open>
  The properties of the consents and their revocations, over the runs of \<open>Consent_Runs\<close>, each with a
  witness on the run of \<open>Consent_Scenario\<close>.
\<close>

section \<open>The states of the run\<close>

lemma run_revoked_state:
  "run_revocation \<in> set (ad_revocations (as_db (audit_run run_revoked 1000000)))"
  "(run_consent, 1) \<in> set (ad_consents (as_db (audit_run run_revoked 1000000)))"
  "rv_ConsentID run_revocation = cn_ID run_consent" "rv_RequestID run_revocation = ''req2''"
  "length (ad_revocations (as_db (audit_run run_revoked 1000000))) = 1"
proof -
  have "let y = audit_run run_revoked 1000000; rs = ad_revocations (as_db y); r = hd rs in
      length rs = 1 \<and> (run_consent, 1) \<in> set (ad_consents (as_db y)) \<and> rv_ConsentID r = cn_ID run_consent \<and> rv_RequestID r = ''req2''"
    by code_simp
  note st = this [unfolded Let_def run_revocation_def [symmetric]]
  then show "(run_consent, 1) \<in> set (ad_consents (as_db (audit_run run_revoked 1000000)))"
    "rv_ConsentID run_revocation = cn_ID run_consent" "rv_RequestID run_revocation = ''req2''"
    "length (ad_revocations (as_db (audit_run run_revoked 1000000))) = 1" by blast+
  from st show "run_revocation \<in> set (ad_revocations (as_db (audit_run run_revoked 1000000)))"
    unfolding run_revocation_def by (intro hd_in_set) auto
qed

lemma run_reach [simp]: "audit_reach (audit_run cmds 1000000)"
  by (rule audit_run_reachable) simp

section \<open>Verification\<close>

text \<open>C11. A revocation is for good: from the moment it is recorded, in every later state and at every
  instant, before and after the expiry, the derived status of the consent is revoked or partially
  revoked, whatever the workers, the retries and the other requests do. The verification that
  origination asks for never answers that the consent is active, and lists no source of it.\<close>

theorem revoked_for_good:
  assumes "audit_reach y" and "r \<in> set (ad_revocations (as_db y))" and "audit_step\<^sup>*\<^sup>* y z"
  shows "\<exists>c. Consent_Get (rv_ConsentID r) (as_db z) = Inr c \<and>
    (\<forall>tm. fst (DeriveStatus c (ListByConsents [cn_ID c] (as_db z) (cn_ID c)) tm) \<in> {ConsentRevoked, ConsentPartiallyRevoked}) \<and>
    (\<forall>customer tm v. Verify True customer tm (as_db z) = Inr v \<longrightarrow> vf_ConsentID v = rv_ConsentID r \<longrightarrow>
       \<not> vf_Active v \<and> vf_Sources v = [])"
proof -
  have "audit_runs_inv z" by (rule audit_runs_inv_reach [OF audit_reach_inv [OF assms(1,3)]])
  then have core: "core_ok (as_now z) (as_db z)" by (simp add: audit_runs_inv_core)
  note inv = core_okD(1) [OF core]
  have r: "r \<in> set (ad_revocations (as_db z))" using lasts_steps [OF assms(3,1)] assms(2) by (auto simp: lasts_def)
  from inv r obtain c t where c: "(c, t) \<in> set (ad_consents (as_db z))" "cn_ID c = rv_ConsentID r" unfolding audit_inv_def by metis
  have st: "fst (DeriveStatus c (ListByConsents [cn_ID c] (as_db z) (cn_ID c)) tm) \<in> {ConsentRevoked, ConsentPartiallyRevoked}" for tm
  proof -
    obtain rvw where "derive c (ListByConsents [cn_ID c] (as_db z) (cn_ID c)) tm [] =
        (rvw_Status rvw, rv_EffectiveAt r, rv_ReceiptNumber r, Some rvw)"
      "rvw_Status rvw = ConsentRevoked \<or> rvw_Status rvw = ConsentPartiallyRevoked"
      by (rule revoked_derive [OF core c(1) r c(2) [symmetric]])
    then show ?thesis by (simp add: DeriveStatus_def)
  qed
  have "\<not> vf_Active v \<and> vf_Sources v = []"
    if v: "Verify True customer tm (as_db z) = Inr v" "vf_ConsentID v = rv_ConsentID r" for customer tm v
  proof (cases "LatestByCustomer customer (as_db z)")
    case (Inl e)
    with v(1) show ?thesis by (auto simp: Verify_def no_verification_def split: if_splits)
  next
    case (Inr d)
    from v Inr have "cn_ID d = rv_ConsentID r" by (auto simp: Verify_def Let_def split: if_splits prod.splits)
    with LatestByCustomer_in [OF Inr] consent_unique [OF inv c(1)] c(2) have "d = c" by metis
    with v(1) Inr st [of tm] show ?thesis
      by (auto simp: Verify_def Let_def status_Current_def ActiveSources_def ActiveFor_def split: if_splits prod.splits option.splits)
  qed
  with st Consent_Get_in [OF inv c(1)] c(2) show ?thesis by auto
qed

theorem revoked_for_good_witness:
  "\<exists>c. Consent_Get (rv_ConsentID run_revocation) (as_db (audit_run run_revoked 1000000)) = Inr c \<and>
    (\<forall>tm. fst (DeriveStatus c (ListByConsents [cn_ID c] (as_db (audit_run run_revoked 1000000)) (cn_ID c)) tm)
      \<in> {ConsentRevoked, ConsentPartiallyRevoked})"
  using revoked_for_good [OF run_reach run_revoked_state(1) rtranclp.rtrancl_refl] by blast

section \<open>The notices\<close>

text \<open>C12. What is shown of a revocation is what the store of the notices says. The view derives the
  revocation only from the events of the consent, and the worker decides only on the last steps of
  the notices; in every reachable state and at every instant both give the same receipt, the same
  effective instant and, entity by entity, the same state: confirmed, not confirmed (the entity
  rejected the notice, or the window ended) or pending.\<close>

theorem view_refines_the_store:
  assumes "audit_reach y" and "(c, t) \<in> set (ad_consents (as_db y))" and "r \<in> set (ad_revocations (as_db y))"
    and "rv_ConsentID r = cn_ID c"
  shows "\<exists>rvw. cvw_Revocation (service_view sv c tm (as_db y)) = Some rvw \<and>
    rvw_EffectiveAt rvw = rv_EffectiveAt r \<and> rvw_ReceiptNumber rvw = rv_ReceiptNumber r \<and>
    map (\<lambda>n. (en_Code (nt_Entity n), nt_Status n)) (rvw_Entities rvw) =
      map (\<lambda>n. (snd (fst n), stored_status tm (the (last_step (cn_ID c) (snd (fst n)) (as_db y))))) (notices_of (cn_ID c) (as_db y))"
proof -
  have core: "core_ok (as_now y) (as_db y)" using audit_runs_inv_reach [OF assms(1)] by (simp add: audit_runs_inv_core)
  show ?thesis
    by (rule revoked_derive [OF core assms(2-4), of tm "rs_names sv"]) (simp add: service_view_def)
qed

theorem view_refines_the_store_witness:
  "\<exists>rvw. cvw_Revocation (service_view run_revocations run_consent 3000000 (as_db (audit_run run_revoked 1000000))) = Some rvw \<and>
    rvw_EffectiveAt rvw = rv_EffectiveAt run_revocation"
  using view_refines_the_store [OF run_reach run_revoked_state(2,1,3), of run_revocations 3000000] by blast

text \<open>C13. A confirmed notice is final: once an entity confirmed, no claim, result, retry or other request
  of any later state adds a step to its notice, and the worker does not call it again.\<close>

theorem confirmed_notice_is_final:
  assumes "audit_reach y" and "audit_step\<^sup>*\<^sup>* y z" and "last_step c e (as_db y) = Some l" and "sp_Status l = StatusConfirmed"
  shows "last_step c e (as_db z) = Some l \<and>
    Runner_Process (notice_runner cfg rec) (NoticeID c e) notify t1 t2 (as_db z) = (as_db z, empty_report, None)"
proof -
  have l: "last_step c e (as_db z) = Some l" using lasts_steps [OF assms(2,1)] assms(3,4) by (auto simp: lasts_def)
  have inv: "audit_inv (as_db z)"
    using audit_runs_inv_reach [OF audit_reach_inv [OF assms(1,2)]] by (simp add: audit_runs_inv_def)
  note la = audit_inv_last [OF inv l]
  obtain q where g: "good_id c" "e \<noteq> []" using audit_inv_joins [OF inv la(5) [unfolded la(2,3) [symmetric]]] la by metis
  obtain a where "view_notice (as_db z) (NoticeID c e) = Some a" "at_Status a = StatusConfirmed"
    using l assms(4) g by (simp add: view_notice_last [OF inv] step_attempt_def)
  with l notices.confirmed_final [OF inv this] show ?thesis by (simp add: notice_runner_eq)
qed

lemma run_confirmed_state:
  "\<exists>l. last_step run_consent_id ''bank'' (as_db (audit_run run_confirmed 1000000)) = Some l \<and> sp_Status l = StatusConfirmed \<and> sp_Seq l = 6"
proof -
  have "map_option (\<lambda>l. (sp_Status l, sp_Seq l)) (last_step run_consent_id ''bank'' (as_db (audit_run run_confirmed 1000000))) =
      Some (StatusConfirmed, 6)" by code_simp
  then show ?thesis by auto
qed

theorem confirmed_notice_is_final_witness:
  "\<exists>l. last_step run_consent_id ''bank'' (as_db (audit_run run_confirmed 1000000)) = Some l \<and>
    Runner_Process (notice_runner run_notice_config 9) (NoticeID run_consent_id ''bank'') (\<lambda>r db. (db, Inl ErrRejected)) 5000000 5000001
      (as_db (audit_run run_confirmed 1000000)) = (as_db (audit_run run_confirmed 1000000), empty_report, None)"
  using run_confirmed_state confirmed_notice_is_final [OF run_reach rtranclp.rtrancl_refl] by blast

end
