(* ===== verification/Consent_Requests.thy ===== *)
theory Consent_Requests
  imports Consent_Properties
begin

text \<open>
  The requests about a consent in the states that the runs reach: what a request to revoke answers
  when the consent is active, when it was revoked before and when another request was recorded
  first, and what a retry does to the notices.
\<close>

section \<open>A revoked consent\<close>

lemma reach_core: "audit_reach y \<Longrightarrow> core_ok (as_now y) (as_db y)"
  using audit_runs_inv_reach by (simp add: audit_runs_inv_core)

lemma reach_inv: "audit_reach y \<Longrightarrow> audit_inv (as_db y)"
  using audit_runs_inv_reach by (simp add: audit_runs_inv_def)

lemma revoked_CheckRevocable:
  assumes "core_ok now db" and "(c, t) \<in> set (ad_consents db)" and "r \<in> set (ad_revocations db)" and "rv_ConsentID r = cn_ID c"
  shows "CheckRevocable (service_view sv c tm db) = Some ErrAlreadyRevoked"
    and "\<exists>rvw. cvw_Revocation (service_view sv c tm db) = Some rvw \<and> rvw_ReceiptNumber rvw = rv_ReceiptNumber r"
proof -
  obtain rvw where d: "derive c (ListByConsents [cn_ID c] db (cn_ID c)) tm (rs_names sv) =
      (rvw_Status rvw, rv_EffectiveAt r, rv_ReceiptNumber r, Some rvw)"
    "rvw_Status rvw = ConsentRevoked \<or> rvw_Status rvw = ConsentPartiallyRevoked" "rvw_ReceiptNumber rvw = rv_ReceiptNumber r"
    by (rule revoked_derive [OF assms])
  then show "CheckRevocable (service_view sv c tm db) = Some ErrAlreadyRevoked"
    by (auto simp: CheckRevocable_def service_view_def)
  from d show "\<exists>rvw. cvw_Revocation (service_view sv c tm db) = Some rvw \<and> rvw_ReceiptNumber rvw = rv_ReceiptNumber r"
    by (simp add: service_view_def)
qed

lemma ErrAlreadyRevoked_is [simp]: "errors_Is ErrAlreadyRevoked ErrAlreadyRevoked"
  by code_simp

text \<open>C15. A second request changes nothing. Once a consent is revoked, in every reachable state, a
  request with the identifier of the recorded one answers again with the same receipt and says that
  nothing was created; a request with any other identifier is refused because the consent is
  already revoked; neither writes to the database, whatever else the request says.\<close>

theorem revoking_again_changes_nothing:
  assumes "audit_reach y" and "(c, t) \<in> set (ad_consents (as_db y))" and "r \<in> set (ad_revocations (as_db y))"
    and "rv_ConsentID r = cn_ID c" and "rcm_RequestID cmd \<noteq> ''''"
  shows "\<exists>view rvw. service_revoke sv c cmd clock d (as_db y) =
      (as_db y, if rcm_RequestID cmd = rv_RequestID r then Inr (view, False) else Inl (ConsentErr ErrAlreadyRevoked)) \<and>
    cvw_Revocation view = Some rvw \<and> rvw_ReceiptNumber rvw = rv_ReceiptNumber r"
proof -
  note rev = revoked_CheckRevocable [OF reach_core [OF assms(1)] assms(2-4)]
  have "GetByConsent (cn_ID c) (as_db y) = Inr r" using GetByConsent_in [OF reach_inv [OF assms(1)] assms(3)] assms(4) by simp
  then have "prepare_revoke sv c cmd clock (rd_random d) (as_db y) =
      (if rcm_RequestID cmd = rv_RequestID r then Inl (Inr (service_view sv c (time_Truncate clock time_Microsecond) (as_db y)))
       else Inl (Inl (ConsentErr ErrAlreadyRevoked)))"
    using assms(5) by (auto simp: prepare_revoke_def Let_def rev(1) sameRequest_def)
  with rev(2) [of sv "time_Truncate clock time_Microsecond"] show ?thesis by (auto simp: service_revoke_def)
qed

definition run_draws :: "nat list \<Rightarrow> revoke_draws" where
  "run_draws b = \<lparr>rd_random = Inr b, rd_events = (''8'', ''9''), rd_after = 2500000, rd_recorded = 9\<rparr>"

theorem revoking_again_changes_nothing_witness:
  "\<exists>view rvw. service_revoke run_revocations run_consent (run_command ''req2'') 2400000 (run_draws (replicate 16 2))
      (as_db (audit_run run_revoked 1000000)) = (as_db (audit_run run_revoked 1000000), Inr (view, False)) \<and>
    cvw_Revocation view = Some rvw \<and> rvw_ReceiptNumber rvw = rv_ReceiptNumber run_revocation"
proof -
  have "rcm_RequestID (run_command ''req2'') = ''req2''" by (simp add: run_command_def)
  with revoking_again_changes_nothing [OF run_reach run_revoked_state(2,1,3), of "run_command ''req2''"
      run_revocations 2400000 "run_draws (replicate 16 2)"]
  show ?thesis by (simp add: run_revoked_state(4))
qed

section \<open>Requests at once\<close>

text \<open>C16. One revocation per consent, per receipt and per request. In every reachable state no two
  revocations share the consent, the receipt number or the request; and of the requests that read the
  consent while it was active, one that is recorded after another stores nothing: it is answered
  with the stored revocation when it repeats the same request, and with an error when it is another
  one.\<close>

theorem one_revocation_per_consent:
  assumes "audit_reach y" and "r \<in> set (ad_revocations (as_db y))"
  shows "(\<forall>q \<in> set (ad_revocations (as_db y)). rv_ConsentID q = rv_ConsentID r \<or> rv_RequestID q = rv_RequestID r \<or>
      rv_ReceiptNumber q = rv_ReceiptNumber r \<longrightarrow> q = r) \<and>
    (\<forall>(rvn, notices) \<in> set (as_revoking y). rv_ConsentID rvn = rv_ConsentID r \<longrightarrow>
      Record_revocation rvn notices ids rec (as_db y) =
        (as_db y\<lparr>ad_receipt_seq := ad_receipt_seq (as_db y) + 1\<rparr>,
         if rv_RequestID rvn = rv_RequestID r then Inr (r, False)
         else if list_ex (\<lambda>q. rv_RequestID q = rv_RequestID rvn) (ad_revocations (as_db y)) then Inl ErrIdempotencyKeyReused
         else Inl ErrAlreadyRevoked))"
proof (rule conjI)
  note inv = reach_inv [OF assms(1)]
  have inj: "inj_on rv_ConsentID (set (ad_revocations (as_db y)))" "inj_on rv_RequestID (set (ad_revocations (as_db y)))"
    "inj_on rv_ReceiptNumber (set (ad_revocations (as_db y)))"
    using inv by (auto simp: audit_inv_def distinct_map)
  then show uniq: "\<forall>q \<in> set (ad_revocations (as_db y)). rv_ConsentID q = rv_ConsentID r \<or> rv_RequestID q = rv_RequestID r \<or>
      rv_ReceiptNumber q = rv_ReceiptNumber r \<longrightarrow> q = r"
    using assms(2) by (metis inj_onD)
  have "Record_revocation rvn notices ids rec (as_db y) =
      (as_db y\<lparr>ad_receipt_seq := ad_receipt_seq (as_db y) + 1\<rparr>,
       if rv_RequestID rvn = rv_RequestID r then Inr (r, False)
       else if list_ex (\<lambda>q. rv_RequestID q = rv_RequestID rvn) (ad_revocations (as_db y)) then Inl ErrIdempotencyKeyReused
       else Inl ErrAlreadyRevoked)"
    if rv: "rv_ConsentID rvn = rv_ConsentID r" for rvn notices
  proof -
    obtain c t where "(c, t) \<in> set (ad_consents (as_db y))" "cn_ID c = rv_ConsentID rvn"
      using inv assms(2) rv unfolding audit_inv_def by metis
    with Consent_Get_in [OF inv this(1)] have "find_consent (\<lambda>c. cn_ID c = rv_ConsentID rvn) (as_db y) \<noteq> None"
      by (auto simp: Consent_Get_def split: option.splits)
    then have "record_revocation rvn notices ids rec (as_db y) = (as_db y\<lparr>ad_receipt_seq := ad_receipt_seq (as_db y) + 1\<rparr>, Inr None)"
      using assms(2) rv by (auto simp: record_revocation_def Let_def revocation_conflict_def list_ex_iff)
    moreover have "resolveConflict rvn (as_db y\<lparr>ad_receipt_seq := n\<rparr>) =
       (if rv_RequestID rvn = rv_RequestID r then Inr (r, False)
        else if list_ex (\<lambda>q. rv_RequestID q = rv_RequestID rvn) (ad_revocations (as_db y)) then Inl ErrIdempotencyKeyReused
        else Inl ErrAlreadyRevoked)" for n
    proof (cases "find (\<lambda>q. rv_RequestID q = rv_RequestID rvn) (ad_revocations (as_db y))")
      case None
      with assms(2) have "rv_RequestID rvn \<noteq> rv_RequestID r" "\<not> list_ex (\<lambda>q. rv_RequestID q = rv_RequestID rvn) (ad_revocations (as_db y))"
        by (auto simp: find_None_iff list_ex_iff)
      moreover have "GetByConsent (rv_ConsentID rvn) (as_db y\<lparr>ad_receipt_seq := n\<rparr>) = Inr r"
        using GetByConsent_in [OF inv assms(2)] rv by (simp add: GetByConsent_def)
      ultimately show ?thesis using None by (simp add: resolveConflict_def)
    next
      case (Some q)
      then have q: "q \<in> set (ad_revocations (as_db y))" "rv_RequestID q = rv_RequestID rvn" by (auto simp: find_Some_iff)
      then have "list_ex (\<lambda>q. rv_RequestID q = rv_RequestID rvn) (ad_revocations (as_db y))" by (auto simp: list_ex_iff)
      moreover have "rv_ConsentID q = rv_ConsentID rvn \<longleftrightarrow> rv_RequestID rvn = rv_RequestID r" using uniq q rv by metis
      moreover have "rv_RequestID rvn = rv_RequestID r \<Longrightarrow> q = r" using uniq q by metis
      ultimately show ?thesis using Some by (auto simp: resolveConflict_def)
    qed
    ultimately show ?thesis by (simp add: Record_revocation_def)
  qed
  then show "\<forall>(rvn, notices) \<in> set (as_revoking y). rv_ConsentID rvn = rv_ConsentID r \<longrightarrow>
      Record_revocation rvn notices ids rec (as_db y) =
        (as_db y\<lparr>ad_receipt_seq := ad_receipt_seq (as_db y) + 1\<rparr>,
         if rv_RequestID rvn = rv_RequestID r then Inr (r, False)
         else if list_ex (\<lambda>q. rv_RequestID q = rv_RequestID rvn) (ad_revocations (as_db y)) then Inl ErrIdempotencyKeyReused
         else Inl ErrAlreadyRevoked)" by auto
qed

text \<open>The other request of the run is still under way when the first is stored.\<close>

lemma run_race_state:
  "let y = audit_run run_revoked 1000000; p = hd (as_revoking y) in
   as_revoking y = [p] \<and> rv_ConsentID (fst p) = run_consent_id \<and> rv_RequestID (fst p) = ''req1'' \<and>
   list_ex (\<lambda>q. rv_RequestID q = ''req1'') (ad_revocations (as_db y)) = False"
  by code_simp

theorem one_revocation_per_consent_witness:
  "snd (Record_revocation (fst (hd (as_revoking (audit_run run_revoked 1000000))))
      (snd (hd (as_revoking (audit_run run_revoked 1000000)))) (''5'', ''6'') 9 (as_db (audit_run run_revoked 1000000))) =
    Inl ErrAlreadyRevoked"
proof -
  note st = run_race_state [unfolded Let_def]
  have "rv_ConsentID run_revocation = run_consent_id" by (simp add: run_revoked_state(3) run_consent_def consent_candidate_def)
  with one_revocation_per_consent [OF run_reach run_revoked_state(1), of "(''5'', ''6'')" 9] st run_revoked_state(4)
  show ?thesis by (cases "hd (as_revoking (audit_run run_revoked 1000000))") (auto simp: case_prod_beta)
qed

section \<open>An active consent\<close>

lemma FormatReceiptNumber_inject: "FormatReceiptNumber t n = FormatReceiptNumber u m \<Longrightarrow> n = m"
proof -
  have no_dash: "CHR ''-'' \<notin> set (pad_dec 4 k)" for k
    using pad_dec_digits [of 4 k] by (auto simp: list_all_iff is_digit_def byte_def)
  assume "FormatReceiptNumber t n = FormatReceiptNumber u m"
  then have "(''REV-'' @ FormatInt (time_Year (time_Add t receiptZone))) @ CHR ''-'' # pad_dec 4 n =
      (''REV-'' @ FormatInt (time_Year (time_Add u receiptZone))) @ CHR ''-'' # pad_dec 4 m"
    by (simp add: FormatReceiptNumber_def)
  from append_last_dash [OF this no_dash no_dash] show "n = m" by (metis dec_val_pad_dec)
qed

lemma notice_key_fresh:
  assumes core: "core_ok now db" and c: "(c, t) \<in> set (ad_consents db)"
    and new: "\<And>q. q \<in> set (ad_revocations db) \<Longrightarrow> rv_ConsentID q \<noteq> cn_ID c"
    and n: "((d, f), k) \<in> set (ad_notices db)"
  shows "d \<noteq> cn_ID c" and "k \<noteq> ''revocation-'' @ cn_ID c @ ''-'' @ e"
proof -
  note inv = core_okD(1) [OF core]
  from inv n obtain q where q: "q \<in> set (ad_revocations db)" "rv_ConsentID q = d" unfolding audit_inv_def by blast
  then show d: "d \<noteq> cn_ID c" using new by blast
  from inv q obtain e' u where "(e', u) \<in> set (ad_consents db)" "cn_ID e' = d" unfolding audit_inv_def by metis
  with inv c have "length d = length (cn_ID c)" unfolding audit_inv_def good_id_def by metis
  moreover have "k = ''revocation-'' @ d @ ''-'' @ f" using core_okD(3) [OF core] n unfolding audit_keys_ok_def by blast
  ultimately show "k \<noteq> ''revocation-'' @ cn_ID c @ ''-'' @ e" using d by auto
qed

lemma record_fresh:
  fixes rvn db rec ids e
  defines "r \<equiv> rvn\<lparr>rv_ReceiptNumber := FormatReceiptNumber (rv_EffectiveAt rvn) (ad_receipt_seq db + 1)\<rparr>"
    and "n \<equiv> new_notice rvn e (''revocation-'' @ rv_ConsentID rvn @ ''-'' @ e)"
  assumes core: "core_ok now db" and c: "(c, t) \<in> set (ad_consents db)" "cn_ID c = rv_ConsentID rvn"
    and new: "\<And>q. q \<in> set (ad_revocations db) \<Longrightarrow> rv_ConsentID q \<noteq> cn_ID c \<and> rv_RequestID q \<noteq> rv_RequestID rvn \<and> rv_ID q \<noteq> rv_ID rvn"
    and ids: "fst ids \<noteq> snd ids" "\<And>v. v \<in> set (ad_events db) \<Longrightarrow> cev_EventID v \<noteq> ''evt-'' @ fst ids \<and> cev_EventID v \<noteq> ''evt-'' @ snd ids"
  shows "Record_revocation rvn [n] ids rec db = (stored_db r n ids rec db, Inr (r, True))"
    and "\<not> list_ex (revocation_conflict r) (ad_revocations db)"
proof -
  have "rv_ReceiptNumber q \<noteq> rv_ReceiptNumber r" if q: "q \<in> set (ad_revocations db)" for q
  proof
    from core_okD(3) [OF core] q obtain k where k: "k \<le> ad_receipt_seq db" "rv_ReceiptNumber q = FormatReceiptNumber (rv_EffectiveAt q) k"
      unfolding audit_keys_ok_def by blast
    assume "rv_ReceiptNumber q = rv_ReceiptNumber r"
    with k show False using FormatReceiptNumber_inject by (fastforce simp: r_def)
  qed
  with new c(2) show conf: "\<not> list_ex (revocation_conflict r) (ad_revocations db)"
    by (auto simp: list_ex_iff revocation_conflict_def r_def)
  have find: "find_consent (\<lambda>c. cn_ID c = rv_ConsentID r) db \<noteq> None"
    using Consent_Get_in [OF core_okD(1) [OF core] c(1)] c(2) by (auto simp: Consent_Get_def r_def split: option.splits)
  note none = no_revocation [OF core, of "cn_ID c"]
  have "d \<noteq> rv_ConsentID r \<and> k \<noteq> nr_Key n" if "((d, f), k) \<in> set (ad_notices db)" for d f k
    using notice_key_fresh(1) [OF core c(1) _ that] notice_key_fresh(2) [OF core c(1) _ that, of e] new c(2) by (simp add: r_def n_def)
  then have nots: "\<not> list_ex (\<lambda>((d, f), k). (d, f) = (rv_ConsentID r, nr_EntityCode n) \<or> k = nr_Key n) (ad_notices db)"
    by (fastforce simp: list_ex_iff)
  have steps: "\<not> list_ex (\<lambda>s. sp_ConsentID s = rv_ConsentID r \<and> sp_EntityCode s = nr_EntityCode n \<and> sp_Seq s = 1) (ad_steps db)"
    using none(3) [of "nr_EntityCode n"] new c(2) by (auto simp: list_ex_iff steps_of_def filter_empty_conv r_def)
  obtain e1 e2 where ev: "revocation_events r [n] ids rec = (e1, e2)" by fastforce
  have evid: "cev_EventID e1 = ''evt-'' @ fst ids" "cev_EventID e2 = ''evt-'' @ snd ids"
    using revocation_events_sel(7,8) [of r "[n]" ids rec] by (simp_all add: ev)
  have e12: "\<not> list_ex (\<lambda>f. cev_EventID f = cev_EventID e1) (ad_events db)" "\<not> list_ex (\<lambda>f. cev_EventID f = cev_EventID e2) (ad_events db @ [e1])"
    using ids by (auto simp: list_ex_iff evid)
  have "record_revocation rvn [n] ids rec db = (stored_db r n ids rec db, Inr (Some r))"
    unfolding record_revocation_def Let_def r_def [symmetric] ev prod.case using find conf e12 nots steps
    by (simp add: insert_event_def insert_notice_def stored_db_def ev)
  then show "Record_revocation rvn [n] ids rec db = (stored_db r n ids rec db, Inr (r, True))"
    by (simp add: Record_revocation_def)
qed

text \<open>C14. An active consent can always be revoked. In every reachable state, for a consent that is shown as
  active and a valid request with identifiers that were not used, the revocation is recorded: the
  answer says that it was created, from its receipt and the instant of the request on the consent is
  revoked, and the notice of its entity waits for the worker until the deadline, due at once.\<close>

theorem active_consent_is_revoked:
  assumes "audit_reach y" and "Consent_Get i (as_db y) = Inr c" and "now = time_Truncate (as_now y) time_Microsecond"
    and "cvw_Status (service_view sv c now (as_db y)) = ConsentActive" and "RevokeCommand_validate cmd c now = []"
    and "rcm_RequestID cmd \<noteq> ''''" and "rd_random d = Inr b"
    and "\<forall>q \<in> set (ad_revocations (as_db y)). rv_RequestID q \<noteq> rcm_RequestID cmd \<and> rv_ID q \<noteq> ''rvk-'' @ hex_encode b"
    and "fst (rd_events d) \<noteq> snd (rd_events d)"
    and "\<forall>v \<in> set (ad_events (as_db y)). cev_EventID v \<noteq> ''evt-'' @ fst (rd_events d) \<and> cev_EventID v \<noteq> ''evt-'' @ snd (rd_events d)"
  shows "\<exists>db' view rvw r s. service_revoke sv c cmd (as_now y) d (as_db y) = (db', Inr (view, True)) \<and>
    GetByConsent i db' = Inr r \<and> rv_RequestID r = rcm_RequestID cmd \<and> rv_EffectiveAt r = now \<and>
    CheckRevocable view = Some ErrAlreadyRevoked \<and> cvw_Revocation view = Some rvw \<and> rvw_ReceiptNumber rvw = rv_ReceiptNumber r \<and>
    last_step i (cn_PartnerID c) db' = Some s \<and> sp_Status s = StatusPending \<and> sp_NextAttemptAt s = now \<and>
    sp_WindowEndsAt s = now + rs_deadline sv"
proof -
  note core = reach_core [OF assms(1)] and inv = reach_inv [OF assms(1)]
  from Consent_Get_ok [OF assms(2)] obtain t where c: "(c, t) \<in> set (ad_consents (as_db y))" "cn_ID c = i" by blast
  have rvk: "CheckRevocable (service_view sv c now (as_db y)) = None" using assms(4) by (simp add: CheckRevocable_None)
  have new: "rv_ConsentID q \<noteq> cn_ID c" if "q \<in> set (ad_revocations (as_db y))" for q
    using revoked_CheckRevocable(1) [OF core c(1) that] rvk by force
  define rvn where "rvn = new_revocation sv (''rvk-'' @ hex_encode b) c [names_Entity (rs_names sv) (cn_PartnerID c)] cmd now"
  have rv: "rv_ConsentID rvn = cn_ID c" "rv_EffectiveAt rvn = now" "rv_NoticeDeadlineAt rvn = now + rs_deadline sv"
    "rv_RequestID rvn = rcm_RequestID cmd" "rv_ID rvn = ''rvk-'' @ hex_encode b"
    "rv_Entities rvn = [names_Entity (rs_names sv) (cn_PartnerID c)]"
    by (simp_all add: rvn_def new_revocation_def)
  have partner: "cn_PartnerID c \<noteq> ''''" using core_okD(3) [OF core] c(1) unfolding audit_keys_ok_def by blast
  define n where "n = new_notice rvn (cn_PartnerID c) (''revocation-'' @ rv_ConsentID rvn @ ''-'' @ cn_PartnerID c)"
  define r where "r = rvn\<lparr>rv_ReceiptNumber := FormatReceiptNumber (rv_EffectiveAt rvn) (ad_receipt_seq (as_db y) + 1)\<rparr>"
  have "cvw_Entities (service_view sv c now (as_db y)) = [names_Entity (rs_names sv) (cn_PartnerID c)]" by (simp add: service_view_def)
  then have prep: "prepare_revoke sv c cmd (as_now y) (rd_random d) (as_db y) = Inr (rvn, [n])"
    unfolding prepare_revoke_def assms(3) [symmetric] Let_def assms(7)
    using assms(5,6) rvk rv(1,6) by (simp add: newRevocationID_def rvn_def [symmetric, simplified] n_def Key_def)
  have new': "rv_ConsentID q \<noteq> cn_ID c \<and> rv_RequestID q \<noteq> rv_RequestID rvn \<and> rv_ID q \<noteq> rv_ID rvn"
    if "q \<in> set (ad_revocations (as_db y))" for q
    using new [OF that] assms(8) that unfolding rv(4,5) by blast
  have idf: "cev_EventID v \<noteq> ''evt-'' @ fst (rd_events d) \<and> cev_EventID v \<noteq> ''evt-'' @ snd (rd_events d)"
    if "v \<in> set (ad_events (as_db y))" for v
    using assms(10) that by blast
  have fr: "Record_revocation rvn [n] (rd_events d) (rd_recorded d) (as_db y) =
      (stored_db r n (rd_events d) (rd_recorded d) (as_db y), Inr (r, True))" "\<not> list_ex (revocation_conflict r) (ad_revocations (as_db y))"
    unfolding n_def r_def by (rule record_fresh [OF core c(1) rv(1) [symmetric] new' assms(9) idf]; assumption)+
  let ?db = "stored_db r n (rd_events d) (rd_recorded d) (as_db y)"
  have svc: "service_revoke sv c cmd (as_now y) d (as_db y) = (?db, Inr (service_view sv c (rd_after d) ?db, True))"
    by (simp add: service_revoke_def prep fr(1))
  have "now < ExpiresAt c" using assms(4) derive_active by (simp add: service_view_def)
  moreover have "now \<le> as_now y" using audit_runs_inv_reach [OF assms(1)]
    by (simp add: assms(3) audit_runs_inv_core time_Truncate_def time_Microsecond_def)
  ultimately have core': "core_ok (as_now y) ?db"
    by (intro stored_core [OF core fr(2) c(1)]) (use c rv partner in \<open>simp_all add: r_def n_def\<close>)
  have r: "r \<in> set (ad_revocations ?db)" "rv_ConsentID r = cn_ID c" using rv by (simp_all add: r_def)
  note rev = revoked_CheckRevocable [OF core' _ r, of t sv "rd_after d"]
  have "steps_of i (cn_PartnerID c) (as_db y) = []" using no_revocation(3) [OF core, of i] new c(2) by blast
  then have "last_step i (cn_PartnerID c) ?db = Some (first_step r n)"
    using c(2) r(2) by (simp add: last_step_def stored_steps_of n_def)
  moreover have "GetByConsent i ?db = Inr r" using GetByConsent_in [OF core_okD(1) [OF core'] r(1)] r(2) c(2) by simp
  moreover have "rv_RequestID r = rcm_RequestID cmd" "rv_EffectiveAt r = now" using rv by (simp_all add: r_def)
  moreover have "sp_Status (first_step r n) = StatusPending" "sp_NextAttemptAt (first_step r n) = now"
    "sp_WindowEndsAt (first_step r n) = now + rs_deadline sv" using rv by (simp_all add: first_step_def n_def)
  ultimately show ?thesis using svc rev c(1) by (simp del: split_paired_Ex)
qed

lemma run_granted_state:
  "\<exists>c. Consent_Get run_consent_id (as_db (audit_run run_granted 1000000)) = Inr c \<and>
     cvw_Status (service_view run_revocations c (time_Truncate (as_now (audit_run run_granted 1000000)) time_Microsecond)
       (as_db (audit_run run_granted 1000000))) = ConsentActive \<and>
     RevokeCommand_validate (run_command ''req1'') c (time_Truncate (as_now (audit_run run_granted 1000000)) time_Microsecond) = [] \<and>
     ad_revocations (as_db (audit_run run_granted 1000000)) = [] \<and> ad_events (as_db (audit_run run_granted 1000000)) = []"
proof -
  let ?y = "audit_run run_granted 1000000" and ?n = "\<lambda>y. time_Truncate (as_now y) time_Microsecond"
  have "let y = ?y; n = ?n y in case Consent_Get run_consent_id (as_db y) of Inl _ \<Rightarrow> False
    | Inr c \<Rightarrow> cvw_Status (service_view run_revocations c n (as_db y)) = ConsentActive \<and>
        RevokeCommand_validate (run_command ''req1'') c n = [] \<and> ad_revocations (as_db y) = [] \<and> ad_events (as_db y) = []" by code_simp
  then show ?thesis unfolding Let_def by (auto split: sum.splits)
qed

theorem active_consent_is_revoked_witness:
  "\<exists>c db' view r. service_revoke run_revocations c (run_command ''req1'') (as_now (audit_run run_granted 1000000))
      (run_draws (replicate 16 7)) (as_db (audit_run run_granted 1000000)) = (db', Inr (view, True)) \<and>
    GetByConsent run_consent_id db' = Inr r \<and> rv_RequestID r = ''req1''"
proof -
  obtain c where c: "Consent_Get run_consent_id (as_db (audit_run run_granted 1000000)) = Inr c"
    "cvw_Status (service_view run_revocations c (time_Truncate (as_now (audit_run run_granted 1000000)) time_Microsecond)
       (as_db (audit_run run_granted 1000000))) = ConsentActive"
    "RevokeCommand_validate (run_command ''req1'') c (time_Truncate (as_now (audit_run run_granted 1000000)) time_Microsecond) = []"
    "ad_revocations (as_db (audit_run run_granted 1000000)) = []" "ad_events (as_db (audit_run run_granted 1000000)) = []"
    using run_granted_state by blast
  from active_consent_is_revoked [OF run_reach c(1) refl c(2,3), of "run_draws (replicate 16 7)" "replicate 16 7"] c(4,5)
  show ?thesis by (simp add: run_command_def run_draws_def) blast
qed

section \<open>Retries\<close>

text \<open>C17. A retry notifies again the entities that did not confirm, and only them. In every reachable
  state the retry of a consent answers with exactly the entities whose notice was given up or whose
  window ended while it waited; each gets a new step, due at once, with no failed attempts and a new
  window; every other notice of this or of any other consent keeps its last step, and no consent and
  no revocation changes.\<close>

theorem retry_resumes_the_unconfirmed:
  assumes "audit_reach y" and "Consent_Get i (as_db y) = Inr c" and "0 < rs_deadline sv" and "db_clock rec (as_db y)"
  shows "\<exists>db' codes. RetryPending sv i a (as_now y) rec (as_db y) = (db', Inr codes) \<and> distinct codes \<and>
    (\<forall>e. e \<in> set codes \<longleftrightarrow> (\<exists>l. last_step i e (as_db y) = Some l \<and>
       (sp_Status l = StatusFailed \<or> sp_Status l = StatusPending \<and> sp_WindowEndsAt l \<le> as_now y))) \<and>
    (\<forall>e. e \<in> set codes \<longrightarrow> (\<exists>s. last_step i e db' = Some s \<and> sp_Status s = StatusPending \<and> sp_FailedAttempts s = 0 \<and>
       sp_NextAttemptAt s = as_now y \<and> sp_WindowEndsAt s = as_now y + rs_deadline sv)) \<and>
    (\<forall>d e. \<not> (d = i \<and> e \<in> set codes) \<longrightarrow> last_step d e db' = last_step d e (as_db y)) \<and>
    ad_consents db' = ad_consents (as_db y) \<and> ad_revocations db' = ad_revocations (as_db y)"
proof -
  note y' = audit_runs_inv_reach [OF assms(1), unfolded audit_runs_inv_core]
  then have "core_ok (as_now y) (as_db y)" "\<forall>f. f \<in> set (as_flight y) \<longrightarrow> notice_flight_ok (as_now y) (as_db y) f"
    "time_Add (as_now y) (rs_deadline sv) \<noteq> zero_time" using assms(3) by auto
  from resume_result [OF this(1,2) assms(4) this(3), of i a] obtain db' codes where res:
    "Notice_Resume i [] (as_now y) (rs_deadline sv) a rec (as_db y) = (db', Inr codes)" "ad_consents db' = ad_consents (as_db y)"
    "ad_revocations db' = ad_revocations (as_db y)" "distinct codes"
    "\<forall>e. e \<in> set codes \<longleftrightarrow> (\<exists>l. last_step i e (as_db y) = Some l \<and> resumable (as_now y) l)"
    and steps: "resumed_steps i codes (as_now y) (as_now y + rs_deadline sv) (as_db y) db'" by auto
  have "RetryPending sv i a (as_now y) rec (as_db y) = (db', Inr codes)" using assms(2) res(1) by (simp add: RetryPending_def)
  moreover have "\<exists>s. last_step i e db' = Some s \<and> sp_Status s = StatusPending \<and> sp_FailedAttempts s = 0 \<and>
      sp_NextAttemptAt s = as_now y \<and> sp_WindowEndsAt s = as_now y + rs_deadline sv" if "e \<in> set codes" for e
    using steps [unfolded resumed_steps_def, THEN spec [of _ i], THEN spec [of _ e]] that by auto
  moreover have "last_step d e db' = last_step d e (as_db y)" if "\<not> (d = i \<and> e \<in> set codes)" for d e
    using steps [unfolded resumed_steps_def, THEN spec [of _ d], THEN spec [of _ e]] that by (simp only: if_False)
  ultimately show ?thesis using res(2-5) unfolding resumable_def by blast
qed

lemma run_rejected_state:
  "let y = audit_run run_rejected 1000000 in
     (case Consent_Get run_consent_id (as_db y) of Inl _ \<Rightarrow> False | Inr _ \<Rightarrow> True) \<and> db_clock 4 (as_db y) \<and>
     map_option sp_Status (last_step run_consent_id ''bank'' (as_db y)) = Some StatusFailed \<and> 0 < rs_deadline run_revocations"
  by code_simp

theorem retry_resumes_the_unconfirmed_witness:
  "\<exists>db' codes. RetryPending run_revocations run_consent_id \<lparr>act_Type = ActorOperations, act_ID = ''ops''\<rparr>
      (as_now (audit_run run_rejected 1000000)) 4 (as_db (audit_run run_rejected 1000000)) = (db', Inr codes) \<and> ''bank'' \<in> set codes"
proof -
  note st = run_rejected_state [unfolded Let_def]
  then obtain c l where "Consent_Get run_consent_id (as_db (audit_run run_rejected 1000000)) = Inr c"
    "last_step run_consent_id ''bank'' (as_db (audit_run run_rejected 1000000)) = Some l" "sp_Status l = StatusFailed"
    by (auto split: sum.splits)
  with retry_resumes_the_unconfirmed [OF run_reach this(1)] st show ?thesis by meson
qed

text \<open>
  A consent whose window ended while no worker ran, before and after a retry.
\<close>

definition run_missed :: "audit_cmd list" where
  "run_missed = run_revoked @ [ATick 8000000]"

definition run_retried :: "audit_cmd list" where
  "run_retried = run_missed @ [ARetry run_revocations run_consent_id \<lparr>act_Type = ActorOperations, act_ID = ''ops''\<rparr> 4]"

text \<open>C18. A revocation is shown as partial exactly while an entity is unresolved. In every reachable state and at every
  instant the status of a revoked consent is partially revoked when some entity that did not confirm has
  rejected the notice, or has let its window end, or is recorded in the events as not confirmed; the
  summary of its notices is partial in the same cases, and in all the others the consent is revoked. So
  the retry keeps a revocation partial only for an entity whose event a worker wrote: when the window
  ended and nobody recorded it, the new window of the retry makes the revocation whole again, which is
  not what the comment of \<^verbatim>\<open>Retry\<close> says.\<close>

theorem partial_while_unresolved:
  assumes "audit_reach y" and "(c, t) \<in> set (ad_consents (as_db y))" and "r \<in> set (ad_revocations (as_db y))"
    and "rv_ConsentID r = cn_ID c"
  shows "\<exists>rvw. cvw_Revocation (service_view sv c tm (as_db y)) = Some rvw \<and> cvw_Status (service_view sv c tm (as_db y)) = rvw_Status rvw \<and>
    rvw_Status rvw = (if \<exists>n \<in> set (notices_of (cn_ID c) (as_db y)). entity_unresolved tm (cn_ID c) (snd (fst n)) (as_db y)
      then ConsentPartiallyRevoked else ConsentRevoked) \<and>
    (rvw_Summary rvw = NoticePartial \<longleftrightarrow> rvw_Status rvw = ConsentPartiallyRevoked)"
  by (rule revoked_derive_all [OF reach_core [OF assms(1)] assms(2-4), of tm "rs_names sv"]) (auto simp: service_view_def)

lemma run_retried_state:
  "let y = audit_run run_missed 1000000; z = audit_run run_retried 1000000 in as_now y = 8000000 \<and> as_now z = 8000000 \<and>
     map fst (ad_consents (as_db y)) = [run_consent] \<and> map rv_ConsentID (ad_revocations (as_db y)) = [cn_ID run_consent] \<and>
     map fst (ad_consents (as_db z)) = [run_consent] \<and> map rv_ConsentID (ad_revocations (as_db z)) = [cn_ID run_consent] \<and>
     list_ex (\<lambda>n. entity_unresolved 8000000 (cn_ID run_consent) (snd (fst n)) (as_db y)) (notices_of (cn_ID run_consent) (as_db y)) \<and>
     \<not> list_ex (\<lambda>n. entity_unresolved 8000000 (cn_ID run_consent) (snd (fst n)) (as_db z)) (notices_of (cn_ID run_consent) (as_db z))"
  by code_simp

text \<open>The window of the bank ended and no worker recorded it: the consent is partially revoked, and revoked again right after
  the retry.\<close>

theorem partial_while_unresolved_witness:
  "\<exists>v w. cvw_Revocation (service_view run_revocations run_consent 8000000 (as_db (audit_run run_missed 1000000))) = Some v \<and>
    rvw_Status v = ConsentPartiallyRevoked \<and> rvw_Summary v = NoticePartial \<and>
    cvw_Revocation (service_view run_revocations run_consent 8000000 (as_db (audit_run run_retried 1000000))) = Some w \<and>
    rvw_Status w = ConsentRevoked \<and> rvw_Summary w \<noteq> NoticePartial"
proof -
  note st = run_retried_state [unfolded Let_def]
  have single: "\<exists>t r. (c, t) \<in> set cs \<and> r \<in> set rs \<and> rv_ConsentID r = i"
    if "map fst cs = [c]" "map rv_ConsentID rs = [i]" for cs :: "(consent \<times> time) list" and c rs i
    using that by (cases cs; cases rs) auto
  from st single obtain t q where y: "(run_consent, t) \<in> set (ad_consents (as_db (audit_run run_missed 1000000)))"
    "q \<in> set (ad_revocations (as_db (audit_run run_missed 1000000)))" "rv_ConsentID q = cn_ID run_consent" by metis
  from st single obtain u r where z: "(run_consent, u) \<in> set (ad_consents (as_db (audit_run run_retried 1000000)))"
    "r \<in> set (ad_revocations (as_db (audit_run run_retried 1000000)))" "rv_ConsentID r = cn_ID run_consent" by metis
  from partial_while_unresolved [OF run_reach y, of run_revocations 8000000] partial_while_unresolved [OF run_reach z, of run_revocations 8000000] st
  show ?thesis by (auto simp: list_ex_iff)
qed

section \<open>What a holder sees\<close>

lemma document_TrimSpace:
  assumes "documentPattern s"
  shows "TrimSpace s = s"
proof (rule TrimSpace_graphic)
  from assms show s: "s \<noteq> []" by (auto simp: documentPattern_def class_match_def)
  have "graphic c" if "c \<in> set s" for c
    using assms that by (auto simp: documentPattern_def class_match_def list_all_iff graphic_def is_alnum_def is_lower_def is_upper_def is_digit_def)
  with s show "graphic (hd s)" "graphic (last s)" by simp_all
qed

text \<open>C19. A holder sees exactly their own consents. In every reachable state the list of a document, which the
  database selects on the stored document, has the consents whose holder has that document, up to its
  case and the spaces around it, and no others; a consent is returned by its identifier under the same
  condition, which the service checks on its own, and with the same view; the consent of another
  holder gets the error of a consent that does not exist.\<close>

theorem holder_sees_own_consents:
  fixes u doc now names
  assumes "audit_reach y" and "(c, t) \<in> set (ad_consents (as_db y))"
  defines "own \<equiv> NormalizeDocument u (chd_DocumentID (cn_Holder c)) = NormalizeDocument u doc"
    and "view \<equiv> consent_View c (ListByConsents [cn_ID c] (as_db y) (cn_ID c)) now names"
  shows "holder_Get u names doc (cn_ID c) now (as_db y) = (if own then Inr view else Inl ErrConsentNotFound) \<and>
    (view \<in> set (holder_List u names doc now (as_db y)) \<longleftrightarrow> own) \<and>
    (\<forall>v \<in> set (holder_List u names doc now (as_db y)). cvw_Consent v \<in> fst ` set (ad_consents (as_db y)) \<and>
       NormalizeDocument u (chd_DocumentID (cn_Holder (cvw_Consent v))) = NormalizeDocument u doc)"
proof -
  have core: "core_ok (as_now y) (as_db y)" using audit_runs_inv_reach [OF assms(1)] by (simp add: audit_runs_inv_core)
  have up: "ToUpper u (chd_DocumentID (cn_Holder d)) = NormalizeDocument u (chd_DocumentID (cn_Holder d))"
    if "(d, s) \<in> set (ad_consents (as_db y))" for d s
    using core_okD(3) [OF core] that document_TrimSpace unfolding audit_keys_ok_def by (metis NormalizeDocument_def)
  define cs where "cs = ListByHolder u doc (as_db y)"
  have cs: "d \<in> set cs \<longleftrightarrow> (\<exists>s. (d, s) \<in> set (ad_consents (as_db y))) \<and> NormalizeDocument u (chd_DocumentID (cn_Holder d)) = NormalizeDocument u doc"
    for d using up by (force simp: cs_def ListByHolder_def)
  have consent [simp]: "cvw_Consent (consent_View d evs now names) = d" for d evs
    by (simp add: consent_View_def Let_def split: prod.split)
  have list: "set (holder_List u names doc now (as_db y)) =
      (\<lambda>d. consent_View d (ListByConsents [cn_ID d] (as_db y) (cn_ID d)) now names) ` set cs"
  proof -
    have "ListByConsents (map cn_ID cs) (as_db y) (cn_ID d) = ListByConsents [cn_ID d] (as_db y) (cn_ID d)" if "d \<in> set cs" for d
      using that by (auto simp: ListByConsents_def)
    then show ?thesis by (simp add: holder_List_def Let_def cs_def [symmetric] SortForHolder_def cong: image_cong)
  qed
  have "holder_Get u names doc (cn_ID c) now (as_db y) = (if own then Inr view else Inl ErrConsentNotFound)"
    using Consent_Get_in [OF core_okD(1) [OF core] assms(2)] by (simp add: holder_Get_def holderConsent_def own_def view_def)
  moreover have "view \<in> set (holder_List u names doc now (as_db y)) \<longleftrightarrow> own"
  proof
    assume "view \<in> set (holder_List u names doc now (as_db y))"
    then obtain d where "d \<in> set cs" "view = consent_View d (ListByConsents [cn_ID d] (as_db y) (cn_ID d)) now names"
      unfolding list by blast
    then have "c \<in> set cs" using consent [of c] consent [of d] unfolding view_def by metis
    then show own by (simp add: cs own_def)
  next
    assume own
    with assms(2) have "c \<in> set cs" by (auto simp: cs own_def)
    then show "view \<in> set (holder_List u names doc now (as_db y))" unfolding list view_def by blast
  qed
  moreover have "cvw_Consent v \<in> fst ` set (ad_consents (as_db y)) \<and>
      NormalizeDocument u (chd_DocumentID (cn_Holder (cvw_Consent v))) = NormalizeDocument u doc"
    if v: "v \<in> set (holder_List u names doc now (as_db y))" for v
  proof -
    from v obtain d where "d \<in> set cs" "cvw_Consent v = d" unfolding list by auto
    then show ?thesis by (auto simp: cs intro: rev_image_eqI)
  qed
  ultimately show ?thesis by blast
qed

lemma run_holder_own:
  "NormalizeDocument ascii_tables (chd_DocumentID (cn_Holder run_consent)) = NormalizeDocument ascii_tables ''cc12345''"
  by code_simp

theorem holder_sees_own_consents_witness:
  "\<exists>v. holder_Get ascii_tables [] ''cc12345'' (cn_ID run_consent) 3000000 (as_db (audit_run run_revoked 1000000)) = Inr v \<and>
    v \<in> set (holder_List ascii_tables [] ''cc12345'' 3000000 (as_db (audit_run run_revoked 1000000)))"
  using holder_sees_own_consents [OF run_reach run_revoked_state(2), where u = ascii_tables and doc = "''cc12345''" and now = 3000000 and names = "[]"] run_holder_own by auto

end
