(* ===== verification/Renewals.thy ===== *)
theory Renewals
  imports Charges Security
begin

text \<open>
  The renewal of a policy (\<^verbatim>\<open>services/origination\<close>): \<^verbatim>\<open>internal/domain/renewal.go\<close>, with the rules of the
  window and the charge of a renewal, and the two tables of \<^verbatim>\<open>internal/adapters/postgres/renewals.go\<close>
  and \<^verbatim>\<open>policies.go\<close>. A table is the list of its rows in the order they were inserted; every
  statement is one function, with the constraints of migration 0012 that it can violate. \<^verbatim>\<open>NULL\<close> is
  the zero value, and amounts are stored in minor units, as the adapters translate them.
\<close>

section \<open>Policies\<close>

record orig_policy =
  op_ID :: string
  op_AcceptanceID :: string
  op_CustomerID :: string
  op_Holder :: applicant
  op_Premium :: float64
  op_Currency :: string
  op_InsuredAmount :: float64
  op_Coverages :: "orig_coverage list"
  op_CoverageStart :: time
  op_CoverageEnd :: time
  op_RenewalOf :: string

definition PolicyFrom :: "coverage_activated \<Rightarrow> orig_policy" where
  "PolicyFrom e = \<lparr>op_ID = ev_PolicyID e, op_AcceptanceID = ev_AcceptanceID e, op_CustomerID = ev_CustomerID e,
     op_Holder = ev_Holder e, op_Premium = ev_Premium e, op_Currency = ev_Currency e,
     op_InsuredAmount = ev_InsuredAmount e, op_Coverages = ev_Coverages e, op_CoverageStart = ev_CoverageStart e,
     op_CoverageEnd = ev_CoverageEnd e, op_RenewalOf = ev_RenewalOf e\<rparr>"

section \<open>The rules of the window\<close>

record renewal_policy =
  rpo_WindowDays :: int
  rpo_TermMonths :: int
  rpo_RetryWithin :: duration
  rpo_GraceDays :: int

definition DefaultRenewalPolicy :: renewal_policy where
  "DefaultRenewalPolicy = \<lparr>rpo_WindowDays = 30, rpo_TermMonths = 12, rpo_RetryWithin = 72 * time_Hour, rpo_GraceDays = 0\<rparr>"

definition RenewalPolicy_Validate :: "renewal_policy \<Rightarrow> go_error option" where
  "RenewalPolicy_Validate p =
    (if rpo_WindowDays p \<le> 0 \<or> rpo_WindowDays p > 365 then
       Some (errors_New ''the renewal window must be between 1 and 365 days'')
     else if rpo_TermMonths p \<le> 0 \<or> rpo_TermMonths p > 600 then
       Some (errors_New ''the renewal term must be between 1 and 600 months'')
     else if rpo_RetryWithin p \<le> 0 then Some (errors_New ''the payment retry period must be positive'')
     else if rpo_GraceDays p < 0 \<or> rpo_GraceDays p > 90 then
       Some (errors_New ''the grace period must be between 0 and 90 days'')
     else None)"

definition WindowOpensAt :: "renewal_policy \<Rightarrow> orig_policy \<Rightarrow> time" where
  "WindowOpensAt rules p = AddDays (op_CoverageEnd p) (- rpo_WindowDays rules)"

definition InWindow :: "renewal_policy \<Rightarrow> orig_policy \<Rightarrow> time \<Rightarrow> bool" where
  "InWindow rules p now \<longleftrightarrow> \<not> now < WindowOpensAt rules p \<and> now < op_CoverageEnd p"

section \<open>Renewals\<close>

datatype renewal_status = RenewalAccepted | RenewalRenewed | RenewalNotRenewed
datatype not_renewed_reason = NotRenewedNoReason | NotRenewedNoResponse | NotRenewedPaymentFailed

record renewal =
  rw_ID :: string
  rw_PolicyID :: string
  rw_CustomerID :: string
  rw_PeriodEnd :: time
  rw_Status :: renewal_status
  rw_Reason :: not_renewed_reason
  rw_Terms :: coverage_terms
  rw_Premium :: float64
  rw_Currency :: string
  rw_DiscountRate :: float64
  rw_Requoted :: bool
  rw_ChargeID :: string
  rw_NewPolicyID :: string
  rw_AcceptedAt :: time
  rw_RetryUntil :: time
  rw_ClosedAt :: time
  rw_NotifiedAt :: time
  rw_NotificationFailed :: bool
  rw_CreatedAt :: time

text \<open>\<^verbatim>\<open>periodEnd.UTC().Format("20060102")\<close>\<close>

definition format_yyyymmdd :: "time \<Rightarrow> string" where
  "format_yyyymmdd t = (let (y, m, d) = civil_of_days (t div day_ns) in pad_dec 4 (nat y) @ pad_dec 2 m @ pad_dec 2 d)"

definition RenewalID :: "string \<Rightarrow> time \<Rightarrow> string" where
  "RenewalID policyID periodEnd = ''ren-'' @ policyID @ ''-'' @ format_yyyymmdd periodEnd"

definition RenewalChargeID :: "string \<Rightarrow> string" where
  "RenewalChargeID renewalID = renewalID"

definition RenewalDiscountRate :: float64 where "RenewalDiscountRate = fl64 (8 / 100)"
definition MaxNoClaimsYear :: int where "MaxNoClaimsYear = 0"

definition ErrRenewalNotAvailable :: go_error where
  "ErrRenewalNotAvailable = errors_New ''the policy is not in its renewal window''"
definition ErrRenewalClosed :: go_error where
  "ErrRenewalClosed = errors_New ''the renewal of this period is already closed''"

definition Renewal_Validate :: "renewal \<Rightarrow> go_error option" where
  "Renewal_Validate r =
    (if rw_PolicyID r = '''' \<or> rw_CustomerID r = '''' \<or> time_IsZero (rw_PeriodEnd r)
     then Some (errors_New (''renewal '' @ rw_ID r @ '': policy, customer and period are required'')) else None)"

record renewal_notice =
  rnt_To :: string
  rnt_HolderName :: string
  rnt_PolicyID :: string
  rnt_CoverageEnded :: time
  rnt_Reason :: not_renewed_reason
  rnt_GraceDays :: int
  rnt_IdempotencyKey :: string

definition ChannelRenewal :: string where "ChannelRenewal = ''renewal''"

definition NewRenewalCharge :: "orig_policy \<Rightarrow> renewal \<Rightarrow> time \<Rightarrow> charge" where
  "NewRenewalCharge p r now =
    \<lparr>ch_AcceptanceID = rw_ChargeID r, ch_IdempotencyKey = ChargeKeyFor (rw_ChargeID r) 1, ch_OfferID = rw_ID r,
     ch_CustomerID = op_CustomerID p, ch_Channel = ChannelRenewal, ch_AcceptedAt = rw_AcceptedAt r,
     ch_OfferExpiresAt = zero_time, ch_Holder = op_Holder p,
     ch_AmountMinor = ToMinorUnits (rw_Premium r), ch_Currency = rw_Currency r, ch_Terms = rw_Terms r,
     ch_Status = StatusPending, ch_Attempts = 0, ch_NextAttemptAt = zero_time, ch_ClaimedUntil = zero_time,
     ch_WindowStartedAt = rw_AcceptedAt r, ch_WindowEndsAt = rw_RetryUntil r, ch_LastAttemptAt = zero_time,
     ch_LastFailureAt = zero_time, ch_FailureReason = NoChargeFailure, ch_LastError = '''', ch_DeclineCode = '''',
     ch_ProviderReference = '''', ch_ConfirmedAt = zero_time, ch_PolicyID = '''', ch_ActivationEventID = '''',
     ch_ActivatedAt = zero_time, ch_CoverageStart = zero_time, ch_CoverageEnd = zero_time, ch_RenewalOf = op_ID p,
     ch_CoverageNotBefore = op_CoverageEnd p, ch_ActivationPublishedAt = zero_time, ch_ActivationAttempts = 0,
     ch_ActivationNextAttemptAt = zero_time, ch_ActivationLastError = '''', ch_PaymentMethod = no_payment_method,
     ch_PaymentAttempt = 0, ch_ResumeCount = 0, ch_LastResumedBy = '''', ch_LastResumedAt = zero_time,
     ch_ResumeNote = '''', ch_CreatedAt = now, ch_UpdatedAt = now\<rparr>"

section \<open>The tables\<close>

record renewal_db =
  rb_policies :: "orig_policy list"
  rb_renewals :: "renewal list"
  rb_charges :: charge_db

definition empty_renewal_db :: renewal_db where
  "empty_renewal_db = \<lparr>rb_policies = [], rb_renewals = [], rb_charges = empty_charge_db\<rparr>"

definition ErrOrigPolicyNotFound :: go_error where "ErrOrigPolicyNotFound = errors_New ''policy not found''"
definition ErrRenewalNotFound :: go_error where "ErrRenewalNotFound = errors_New ''renewal not found''"

definition stored_coverages :: "orig_coverage list \<Rightarrow> orig_coverage list" where
  "stored_coverages cs = map (\<lambda>c. c\<lparr>ocv_InsuredAmount := FromMinorUnits (ToMinorUnits (ocv_InsuredAmount c))\<rparr>) cs"

definition stored_policy :: "orig_policy \<Rightarrow> orig_policy" where
  "stored_policy p = p\<lparr>op_Premium := FromMinorUnits (ToMinorUnits (op_Premium p)),
     op_InsuredAmount := FromMinorUnits (ToMinorUnits (op_InsuredAmount p)), op_Coverages := stored_coverages (op_Coverages p)\<rparr>"

definition find_policy :: "string \<Rightarrow> renewal_db \<Rightarrow> orig_policy option" where
  "find_policy i db = find (\<lambda>p. op_ID p = i) (rb_policies db)"

definition Policy_Create :: "orig_policy \<Rightarrow> renewal_db \<Rightarrow> renewal_db \<times> go_error option" where
  "Policy_Create p db =
    (if ToMinorUnits (op_Premium p) \<le> 0 then
       (db, Some (constraint_error (''store policy '' @ op_ID p @ '': '') ''policy_premium_minor_check''))
     else if find_policy (op_ID p) db \<noteq> None then (db, None)
     else (db\<lparr>rb_policies := rb_policies db @ [stored_policy p]\<rparr>, None))"

definition Policy_Get :: "string \<Rightarrow> renewal_db \<Rightarrow> go_error + orig_policy" where
  "Policy_Get i db = (case find_policy i db of None \<Rightarrow> Inl ErrOrigPolicyNotFound | Some p \<Rightarrow> Inr p)"

text \<open>\<^verbatim>\<open>ORDER BY coverage_end DESC, policy_id\<close>\<close>

definition ListByCustomer :: "string \<Rightarrow> renewal_db \<Rightarrow> orig_policy list" where
  "ListByCustomer cust db = sort_key (\<lambda>p. (- op_CoverageEnd p, op_ID p)) (filter (\<lambda>p. op_CustomerID p = cust) (rb_policies db))"

definition find_renewal :: "string \<Rightarrow> time \<Rightarrow> renewal_db \<Rightarrow> renewal option" where
  "find_renewal policyID periodEnd db = find (\<lambda>r. rw_PolicyID r = policyID \<and> rw_PeriodEnd r = periodEnd) (rb_renewals db)"

text \<open>\<^verbatim>\<open>ORDER BY coverage_end LIMIT\<close>: rows that end together come in the order of the table.\<close>

definition lapsed :: "time \<Rightarrow> time \<Rightarrow> renewal_db \<Rightarrow> orig_policy \<Rightarrow> bool" where
  "lapsed since now db p \<longleftrightarrow> since \<le> op_CoverageEnd p \<and> op_CoverageEnd p \<le> now \<and> find_renewal (op_ID p) (op_CoverageEnd p) db = None"

definition ListLapsed :: "time \<Rightarrow> time \<Rightarrow> nat \<Rightarrow> renewal_db \<Rightarrow> orig_policy list" where
  "ListLapsed since now limit db = take limit (sort_key op_CoverageEnd (filter (lapsed since now db) (rb_policies db)))"

definition stored_renewal :: "renewal \<Rightarrow> renewal" where
  "stored_renewal r = r\<lparr>rw_Terms := stored_terms (rw_Terms r), rw_Premium := FromMinorUnits (ToMinorUnits (rw_Premium r))\<rparr>"

definition Renewal_Get :: "string \<Rightarrow> time \<Rightarrow> renewal_db \<Rightarrow> go_error + renewal" where
  "Renewal_Get policyID periodEnd db =
    (case find_renewal policyID periodEnd db of None \<Rightarrow> Inl ErrRenewalNotFound | Some r \<Rightarrow> Inr r)"

text \<open>\<^verbatim>\<open>ON CONFLICT (policy_id, period_end) DO NOTHING\<close>; the primary key and the foreign key are errors.\<close>

definition Renewal_Create :: "renewal \<Rightarrow> renewal_db \<Rightarrow> renewal_db \<times> (go_error + renewal \<times> bool)" where
  "Renewal_Create r db =
    (let what = ''store renewal '' @ rw_ID r @ '': '' in
     if rw_Status r = RenewalNotRenewed \<and> rw_Reason r = NotRenewedNoReason
     then (db, Inl (constraint_error what ''renewal_check''))
     else (case find_renewal (rw_PolicyID r) (rw_PeriodEnd r) db of
             Some existing \<Rightarrow> (db, Inr (existing, False))
           | None \<Rightarrow>
              if list_ex (\<lambda>q. rw_ID q = rw_ID r) (rb_renewals db) then (db, Inl (constraint_error what ''renewal_pkey''))
              else if find_policy (rw_PolicyID r) db = None
              then (db, Inl (constraint_error what ''renewal_policy_id_fkey''))
              else (db\<lparr>rb_renewals := rb_renewals db @ [stored_renewal r]\<rparr>, Inr (stored_renewal r, True))))"

definition ListByPolicies :: "string list \<Rightarrow> renewal_db \<Rightarrow> renewal list" where
  "ListByPolicies ids db = filter (\<lambda>r. rw_PolicyID r \<in> set ids) (rb_renewals db)"

text \<open>\<^verbatim>\<open>UPDATE renewal SET f WHERE renewal_id = i AND cond\<close>, and whether a row changed.\<close>

definition update_renewals :: "(renewal \<Rightarrow> bool) \<Rightarrow> (renewal \<Rightarrow> renewal) \<Rightarrow> renewal_db \<Rightarrow> renewal_db" where
  "update_renewals cond f db = db\<lparr>rb_renewals := map (\<lambda>r. if cond r then f r else r) (rb_renewals db)\<rparr>"

definition open_renewal :: "string \<Rightarrow> renewal \<Rightarrow> bool" where
  "open_renewal i r \<longleftrightarrow> rw_ID r = i \<and> rw_Status r = RenewalAccepted"

definition MarkRenewed :: "string \<Rightarrow> string \<Rightarrow> time \<Rightarrow> renewal_db \<Rightarrow> renewal_db \<times> bool" where
  "MarkRenewed i newPolicyID t db =
    (update_renewals (open_renewal i) (\<lambda>r. r\<lparr>rw_Status := RenewalRenewed, rw_NewPolicyID := newPolicyID, rw_ClosedAt := t\<rparr>) db,
     list_ex (open_renewal i) (rb_renewals db))"

definition MarkNotRenewed :: "string \<Rightarrow> not_renewed_reason \<Rightarrow> time \<Rightarrow> renewal_db \<Rightarrow> renewal_db \<times> bool" where
  "MarkNotRenewed i reason t db =
    (update_renewals (open_renewal i) (\<lambda>r. r\<lparr>rw_Status := RenewalNotRenewed, rw_Reason := reason, rw_ClosedAt := t\<rparr>) db,
     list_ex (open_renewal i) (rb_renewals db))"

text \<open>\<^verbatim>\<open>ORDER BY retry_until\<close> and \<^verbatim>\<open>ORDER BY created_at\<close>\<close>

definition ListAccepted :: "nat \<Rightarrow> renewal_db \<Rightarrow> renewal list" where
  "ListAccepted limit db = take limit (sort_key rw_RetryUntil (filter (\<lambda>r. rw_Status r = RenewalAccepted) (rb_renewals db)))"

definition unnotified :: "renewal \<Rightarrow> bool" where
  "unnotified r \<longleftrightarrow> rw_Status r = RenewalNotRenewed \<and> time_IsZero (rw_NotifiedAt r) \<and> \<not> rw_NotificationFailed r"

definition ListUnnotified :: "nat \<Rightarrow> renewal_db \<Rightarrow> renewal list" where
  "ListUnnotified limit db = take limit (sort_key rw_CreatedAt (filter unnotified (rb_renewals db)))"

definition MarkNotified :: "string \<Rightarrow> time \<Rightarrow> bool \<Rightarrow> renewal_db \<Rightarrow> renewal_db" where
  "MarkNotified i t failed db =
    update_renewals (\<lambda>r. rw_ID r = i) (\<lambda>r. if failed then r\<lparr>rw_NotificationFailed := True\<rparr> else r\<lparr>rw_NotifiedAt := t\<rparr>) db"

text \<open>A statement of the charges.\<close>

definition on_charges :: "(charge_db \<Rightarrow> charge_db \<times> 'a) \<Rightarrow> renewal_db \<Rightarrow> renewal_db \<times> 'a" where
  "on_charges f db = (let (cs, r) = f (rb_charges db) in (db\<lparr>rb_charges := cs\<rparr>, r))"

section \<open>Identifiers\<close>

text \<open>The date of an identifier has only digits, so what is before the last dash is the policy.\<close>

lemma format_yyyymmdd_digits: "c \<in> set (format_yyyymmdd t) \<Longrightarrow> is_digit c"
  using pad_dec_digits by (auto simp: format_yyyymmdd_def list_all_iff split: prod.splits)

lemma pad_dec_length: "w \<le> length (pad_dec w n)"
  by (simp add: pad_dec_def Let_def)

lemma format_yyyymmdd_length: "8 \<le> length (format_yyyymmdd t)"
proof -
  obtain y m d where "civil_of_days (t div day_ns) = (y, m, d)" using prod_cases3 by blast
  with pad_dec_length [of 4 "nat y"] pad_dec_length [of 2 m] pad_dec_length [of 2 d] show ?thesis
    by (simp add: format_yyyymmdd_def)
qed

lemma RenewalID_length: "length i + 13 \<le> length (RenewalID i t)"
  using format_yyyymmdd_length [of t] by (simp add: RenewalID_def)

lemma RenewalID_policy:
  assumes "RenewalID i t = RenewalID j u"
  shows "i = j"
proof -
  have "dropWhile is_digit (rev (RenewalID k v)) = CHR ''-'' # rev (''ren-'' @ k)" for k v
  proof -
    have "rev (RenewalID k v) = rev (format_yyyymmdd v) @ CHR ''-'' # rev (''ren-'' @ k)" by (simp add: RenewalID_def)
    moreover have "dropWhile is_digit (rev (format_yyyymmdd v) @ CHR ''-'' # rev (''ren-'' @ k)) =
        dropWhile is_digit (CHR ''-'' # rev (''ren-'' @ k))"
      by (rule dropWhile_append2) (simp add: format_yyyymmdd_digits)
    ultimately show ?thesis by (simp add: is_digit_def byte_def)
  qed
  from this [of i t] this [of j u] assms show ?thesis by simp
qed

end
