(* ===== verification/Renewal_Service.thy ===== *)
theory Renewal_Service
  imports Renewals
begin

text \<open>
  \<^verbatim>\<open>services/origination/internal/renewal\<close>: the service behind the renewal routes (\<^verbatim>\<open>service.go\<close>) and the sweep
  that closes what nobody closed (\<^verbatim>\<open>worker.go\<close>). The instants that the code reads from the clock are
  arguments, in the order they are read; the customers, the profiles, the rating engine, the history of
  claims and the notifier are arguments too. The wake-up of the charge worker and the logs are left out.
\<close>

section \<open>The price of a renewal\<close>

record renewal_customer =
  rcu_ID :: string
  rcu_BirthDate :: time

record 'p rating_input =
  rin_Age :: int
  rin_InsuredAmount :: float64
  rin_TermMonths :: int
  rin_Profile :: 'p

record engine_rating =
  erg_Premium :: float64
  erg_Currency :: string
  erg_Coverages :: "orig_coverage list"

text \<open>What the service is built with; \<open>None\<close> is a dependency that was not given.\<close>

record 'p renewal_engine =
  eng_customer :: "(string \<Rightarrow> go_error + renewal_customer) option"
  eng_profile :: "(string \<Rightarrow> go_error + 'p) option"
  eng_rate :: "'p rating_input \<Rightarrow> go_error + engine_rating"
  eng_claims :: "string \<Rightarrow> go_error + int"

definition AgeAt :: "time \<Rightarrow> time \<Rightarrow> int" where
  "AgeAt birth now =
    (let (ny, nm, nd) = civil_of_days (now div day_ns); (y, m, d) = civil_of_days (birth div day_ns); years = ny - y
     in if nm < m \<or> nm = m \<and> nd < d then years - 1 else years)"

record renewal_quote =
  rqt_Terms :: coverage_terms
  rqt_Premium :: float64
  rqt_Currency :: string
  rqt_DiscountRate :: float64
  rqt_Requoted :: bool

definition same_conditions :: "renewal_policy \<Rightarrow> orig_policy \<Rightarrow> renewal_quote" where
  "same_conditions rules p =
    \<lparr>rqt_Terms = \<lparr>ct_InsuredAmount = op_InsuredAmount p, ct_TermMonths = rpo_TermMonths rules, ct_Coverages = op_Coverages p\<rparr>,
     rqt_Premium = op_Premium p, rqt_Currency = op_Currency p, rqt_DiscountRate = 0, rqt_Requoted = False\<rparr>"

text \<open>\<^verbatim>\<open>math.Round(premium*(1-DiscountRate)/100) * 100\<close>; the constant is exact until it is multiplied.\<close>

definition discounted :: "float64 \<Rightarrow> float64" where
  "discounted premium = fl64 (of_int (math_Round (fl64 (fl64 (premium * fl64 (92 / 100)) / 100))) * 100)"

definition requote :: "renewal_policy \<Rightarrow> 'p renewal_engine \<Rightarrow> orig_policy \<Rightarrow> time \<Rightarrow> renewal_quote" where
  "requote rules eng p now =
    (let same = same_conditions rules p in
     case (eng_customer eng, eng_profile eng) of
       (Some customers, Some profiles) \<Rightarrow>
         (case customers (op_CustomerID p) of
            Inl _ \<Rightarrow> same
          | Inr cust \<Rightarrow>
             (case profiles (rcu_ID cust) of
                Inl _ \<Rightarrow> same
              | Inr profile \<Rightarrow>
                 (case eng_rate eng \<lparr>rin_Age = AgeAt (rcu_BirthDate cust) now, rin_InsuredAmount = op_InsuredAmount p,
                      rin_TermMonths = rpo_TermMonths rules, rin_Profile = profile\<rparr> of
                    Inl _ \<Rightarrow> same
                  | Inr rated \<Rightarrow>
                     if erg_Premium rated \<le> 0 then same
                     else
                      (let q = same\<lparr>rqt_Premium := erg_Premium rated,
                             rqt_Currency := (if erg_Currency rated = '''' then op_Currency p else erg_Currency rated),
                             rqt_Requoted := True,
                             rqt_Terms := (if erg_Coverages rated = [] then rqt_Terms same
                                           else (rqt_Terms same)\<lparr>ct_Coverages := erg_Coverages rated\<rparr>)\<rparr>
                       in case eng_claims eng (op_ID p) of
                            Inr n \<Rightarrow> if n \<le> MaxNoClaimsYear
                                     then q\<lparr>rqt_DiscountRate := RenewalDiscountRate, rqt_Premium := discounted (rqt_Premium q)\<rparr>
                                     else q
                          | Inl _ \<Rightarrow> q))))
     | _ \<Rightarrow> same)"

section \<open>The service\<close>

datatype renewal_error = RenewalAuth auth_error | RenewalErr go_error

definition ownedPolicy :: "sec_context \<Rightarrow> string \<Rightarrow> renewal_db \<Rightarrow> renewal_error + orig_policy" where
  "ownedPolicy ctx policyID db =
    (case Policy_Get policyID db of
       Inl e \<Rightarrow> Inl (RenewalErr e)
     | Inr p \<Rightarrow> (case RequireOwnerOrRole ctx (op_CustomerID p) [] of Some e \<Rightarrow> Inl (RenewalAuth e) | None \<Rightarrow> Inr p))"

definition closedError :: "renewal \<Rightarrow> go_error" where
  "closedError r = (if rw_Status r = RenewalNotRenewed then ErrRenewalNotAvailable else ErrRenewalClosed)"

definition registeredMethod :: "orig_policy \<Rightarrow> renewal_db \<Rightarrow> payment_method option" where
  "registeredMethod p db =
    (case db_Get (op_AcceptanceID p) (rb_charges db) of
       Inl _ \<Rightarrow> None
     | Inr c \<Rightarrow> if \<not> Captured (ch_PaymentMethod c) then None else Some ((ch_PaymentMethod c)\<lparr>pm_Token := ''''\<rparr>))"

record renewal_terms =
  rtm_Premium :: float64
  rtm_Currency :: string
  rtm_InsuredAmount :: float64
  rtm_Coverages :: "orig_coverage list"
  rtm_CoverageStart :: time
  rtm_CoverageEnd :: time

record renewal_conditions =
  rcd_Policy :: orig_policy
  rcd_Current :: renewal_terms
  rcd_Renewal :: renewal_terms
  rcd_WindowOpensAt :: time
  rcd_WindowClosesAt :: time
  rcd_Requoted :: bool
  rcd_DiscountRate :: float64
  rcd_PaymentMethod :: "payment_method option"

definition conditionsOf :: "renewal_policy \<Rightarrow> orig_policy \<Rightarrow> renewal_quote \<Rightarrow> payment_method option \<Rightarrow> renewal_conditions" where
  "conditionsOf rules p q method =
    (let start = op_CoverageEnd p in
     \<lparr>rcd_Policy = p,
      rcd_Current = \<lparr>rtm_Premium = op_Premium p, rtm_Currency = op_Currency p, rtm_InsuredAmount = op_InsuredAmount p,
        rtm_Coverages = op_Coverages p, rtm_CoverageStart = op_CoverageStart p, rtm_CoverageEnd = op_CoverageEnd p\<rparr>,
      rcd_Renewal = \<lparr>rtm_Premium = rqt_Premium q, rtm_Currency = rqt_Currency q,
        rtm_InsuredAmount = ct_InsuredAmount (rqt_Terms q), rtm_Coverages = ct_Coverages (rqt_Terms q),
        rtm_CoverageStart = start, rtm_CoverageEnd = AddMonths start (ct_TermMonths (rqt_Terms q))\<rparr>,
      rcd_WindowOpensAt = WindowOpensAt rules p, rcd_WindowClosesAt = op_CoverageEnd p,
      rcd_Requoted = rqt_Requoted q, rcd_DiscountRate = rqt_DiscountRate q, rcd_PaymentMethod = method\<rparr>)"

definition Conditions ::
  "renewal_policy \<Rightarrow> 'p renewal_engine \<Rightarrow> sec_context \<Rightarrow> string \<Rightarrow> time \<Rightarrow> renewal_db \<Rightarrow> renewal_error + renewal_conditions" where
  "Conditions rules eng ctx policyID now db =
    (case ownedPolicy ctx policyID db of
       Inl e \<Rightarrow> Inl e
     | Inr p \<Rightarrow>
        (case Renewal_Get (op_ID p) (op_CoverageEnd p) db of
           Inr existing \<Rightarrow> Inl (RenewalErr (closedError existing))
         | Inl e \<Rightarrow>
            if \<not> errors_Is e ErrRenewalNotFound then Inl (RenewalErr e)
            else if \<not> InWindow rules p now then Inl (RenewalErr ErrRenewalNotAvailable)
            else Inr (conditionsOf rules p (requote rules eng p now) (registeredMethod p db))))"

record accepted_renewal =
  acd_Renewal :: renewal
  acd_Charge :: charge
  acd_Created :: bool

text \<open>\<^verbatim>\<open>finish\<close>: the charge of a stored renewal.\<close>

definition finish :: "orig_policy \<Rightarrow> renewal \<Rightarrow> bool \<Rightarrow> time \<Rightarrow> renewal_db \<Rightarrow> renewal_db \<times> (renewal_error + accepted_renewal)" where
  "finish p r created now db =
    (let c = NewRenewalCharge p r now in
     case ValidateActivation c now of
       Some e \<Rightarrow> (db, Inl (RenewalErr (errorf_w (''the renewal of '' @ op_ID p @ '' cannot activate its coverage: '') e)))
     | None \<Rightarrow>
        (case on_charges (CreatePending c) db of
           (db1, Inl e) \<Rightarrow> (db1, Inl (RenewalErr (errorf_w (''could not store the charge of renewal '' @ rw_ID r @ '': '') e)))
         | (db1, Inr (stored, False)) \<Rightarrow> (db1, Inr \<lparr>acd_Renewal = r, acd_Charge = stored, acd_Created = created\<rparr>)
         | (db1, Inr (stored, True)) \<Rightarrow>
            (case db_Get (op_AcceptanceID p) (rb_charges db1) of
               Inl _ \<Rightarrow> (db1, Inr \<lparr>acd_Renewal = r, acd_Charge = stored, acd_Created = created\<rparr>)
             | Inr orig \<Rightarrow>
                if \<not> Captured (ch_PaymentMethod orig)
                then (db1, Inr \<lparr>acd_Renewal = r, acd_Charge = stored, acd_Created = created\<rparr>)
                else
                 (case on_charges (db_AttachPaymentMethod (rw_ChargeID r) (ch_PaymentMethod orig) now) db1 of
                    (db2, Inr attached) \<Rightarrow> (db2, Inr \<lparr>acd_Renewal = r, acd_Charge = attached, acd_Created = created\<rparr>)
                  | (db2, Inl e) \<Rightarrow>
                     if \<not> errors_Is e ErrChargeNotPayable
                     then (db2, Inl (RenewalErr (errorf_w (''could not attach the payment method of renewal '' @ rw_ID r @ '': '') e)))
                     else (db2, Inr \<lparr>acd_Renewal = r, acd_Charge = stored, acd_Created = created\<rparr>)))))"

definition new_renewal :: "renewal_policy \<Rightarrow> orig_policy \<Rightarrow> renewal_quote \<Rightarrow> time \<Rightarrow> renewal" where
  "new_renewal rules p q now =
    (let i = RenewalID (op_ID p) (op_CoverageEnd p) in
     \<lparr>rw_ID = i, rw_PolicyID = op_ID p, rw_CustomerID = op_CustomerID p, rw_PeriodEnd = op_CoverageEnd p,
      rw_Status = RenewalAccepted, rw_Reason = NotRenewedNoReason, rw_Terms = rqt_Terms q, rw_Premium = rqt_Premium q,
      rw_Currency = rqt_Currency q, rw_DiscountRate = rqt_DiscountRate q, rw_Requoted = rqt_Requoted q,
      rw_ChargeID = RenewalChargeID i, rw_NewPolicyID = '''', rw_AcceptedAt = now,
      rw_RetryUntil = time_Add now (rpo_RetryWithin rules), rw_ClosedAt = zero_time, rw_NotifiedAt = zero_time,
      rw_NotificationFailed = False, rw_CreatedAt = now\<rparr>)"

definition Accept ::
  "renewal_policy \<Rightarrow> 'p renewal_engine \<Rightarrow> sec_context \<Rightarrow> string \<Rightarrow> time \<Rightarrow> time \<Rightarrow> renewal_db \<Rightarrow>
   renewal_db \<times> (renewal_error + accepted_renewal)" where
  "Accept rules eng ctx policyID now now' db =
    (case ownedPolicy ctx policyID db of
       Inl e \<Rightarrow> (db, Inl e)
     | Inr p \<Rightarrow>
        (case Renewal_Get (op_ID p) (op_CoverageEnd p) db of
           Inr existing \<Rightarrow>
             if rw_Status existing = RenewalNotRenewed then (db, Inl (RenewalErr (closedError existing)))
             else finish p existing False now' db
         | Inl e \<Rightarrow>
            if \<not> errors_Is e ErrRenewalNotFound then (db, Inl (RenewalErr e))
            else if \<not> InWindow rules p now then (db, Inl (RenewalErr ErrRenewalNotAvailable))
            else
             (let r = new_renewal rules p (requote rules eng p now) now in
              case Renewal_Validate r of
                Some e \<Rightarrow> (db, Inl (RenewalErr e))
              | None \<Rightarrow>
                 (case Renewal_Create r db of
                    (db1, Inl e) \<Rightarrow> (db1, Inl (RenewalErr e))
                  | (db1, Inr (stored, created)) \<Rightarrow>
                     if \<not> created \<and> rw_Status stored = RenewalNotRenewed
                     then (db1, Inl (RenewalErr (closedError stored)))
                     else finish p stored created now' db1))))"

definition past_deadline :: "renewal \<Rightarrow> charge \<Rightarrow> time \<Rightarrow> bool" where
  "past_deadline r c now \<longleftrightarrow> \<not> now < rw_RetryUntil r \<and>
    (ch_Status c = StatusFailed \<or> ch_Status c = StatusPending \<and> ch_Attempts c = 0)"

definition settle :: "renewal \<Rightarrow> time \<Rightarrow> renewal_db \<Rightarrow> renewal_db \<times> renewal" where
  "settle r now db =
    (if rw_Status r \<noteq> RenewalAccepted \<or> rw_ChargeID r = '''' then (db, r)
     else
      (case db_Get (rw_ChargeID r) (rb_charges db) of
         Inl _ \<Rightarrow> (db, r)
       | Inr c \<Rightarrow>
          if ch_Status c = StatusConfirmed then
            (case MarkRenewed (rw_ID r) (ch_PolicyID c) now db of
               (db', True) \<Rightarrow> (db', r\<lparr>rw_Status := RenewalRenewed, rw_NewPolicyID := ch_PolicyID c, rw_ClosedAt := now\<rparr>)
             | (db', False) \<Rightarrow> (db', r))
          else if past_deadline r c now then
            (case MarkNotRenewed (rw_ID r) NotRenewedPaymentFailed now db of
               (db', True) \<Rightarrow>
                 (db', r\<lparr>rw_Status := RenewalNotRenewed, rw_Reason := NotRenewedPaymentFailed, rw_ClosedAt := now\<rparr>)
             | (db', False) \<Rightarrow> (db', r))
          else (db, r)))"

text \<open>\<^verbatim>\<open>Status\<close>: \<open>None\<close> is the empty charge of a renewal that has none.\<close>

definition renewal_Status ::
  "sec_context \<Rightarrow> string \<Rightarrow> time \<Rightarrow> renewal_db \<Rightarrow> renewal_db \<times> (renewal_error + renewal \<times> charge option)" where
  "renewal_Status ctx policyID now db =
    (case ownedPolicy ctx policyID db of
       Inl e \<Rightarrow> (db, Inl e)
     | Inr p \<Rightarrow>
        (case Renewal_Get (op_ID p) (op_CoverageEnd p) db of
           Inl e \<Rightarrow> (db, Inl (RenewalErr e))
         | Inr r0 \<Rightarrow>
            (let (db', r) = settle r0 now db in
             if rw_ChargeID r = '''' then (db', Inr (r, None))
             else (case db_Get (rw_ChargeID r) (rb_charges db') of
                     Inr c \<Rightarrow> (db', Inr (r, Some c))
                   | Inl e \<Rightarrow> if \<not> errors_Is e ErrChargeNotFound then (db', Inl (RenewalErr e)) else (db', Inr (r, None))))))"

record policy_view =
  pvw_Policy :: orig_policy
  pvw_Renewal :: "renewal option"
  pvw_CanRenew :: bool
  pvw_WindowOpensAt :: time
  pvw_WindowClosesAt :: time

text \<open>\<^verbatim>\<open>Format(time.RFC3339)\<close> shows whole seconds.\<close>

definition period_key :: "string \<Rightarrow> time \<Rightarrow> string" where
  "period_key policyID periodEnd = policyID @ ''|'' @ format_rfc3339nano (time_Truncate periodEnd time_Second)"

fun policy_views :: "renewal_policy \<Rightarrow> (string, renewal) gomap \<Rightarrow> time \<Rightarrow> orig_policy list \<Rightarrow> renewal_db \<Rightarrow> renewal_db \<times> policy_view list" where
  "policy_views rules byPeriod now [] db = (db, [])"
| "policy_views rules byPeriod now (p # ps) db =
    (let (db1, found) =
       (case gm_get byPeriod (period_key (op_ID p) (op_CoverageEnd p)) of
          None \<Rightarrow> (db, None) | Some r \<Rightarrow> (let (db1, r') = settle r now db in (db1, Some r')));
         (db2, vs) = policy_views rules byPeriod now ps db1
     in (db2, \<lparr>pvw_Policy = p, pvw_Renewal = found, pvw_CanRenew = (found = None \<and> InWindow rules p now),
               pvw_WindowOpensAt = WindowOpensAt rules p, pvw_WindowClosesAt = op_CoverageEnd p\<rparr> # vs))"

definition ListPolicies ::
  "renewal_policy \<Rightarrow> sec_context \<Rightarrow> time \<Rightarrow> renewal_db \<Rightarrow> renewal_db \<times> (renewal_error + policy_view list)" where
  "ListPolicies rules ctx now db =
    (case ctx of
       None \<Rightarrow> (db, Inl (RenewalAuth ErrUnauthenticated))
     | Some claims \<Rightarrow>
        (let policies = ListByCustomer (sc_Subject claims) db;
             byPeriod = fold (\<lambda>r m. gm_put (period_key (rw_PolicyID r) (rw_PeriodEnd r)) r m) (ListByPolicies (map op_ID policies) db) [];
             (db', views) = policy_views rules byPeriod now policies db
         in (db', Inr views)))"

section \<open>The sweep\<close>

definition sweepBatch :: nat where "sweepBatch = 100"
definition LapseLookback :: duration where "LapseLookback = 30 * 24 * time_Hour"

definition no_terms :: coverage_terms where
  "no_terms = \<lparr>ct_InsuredAmount = 0, ct_TermMonths = 0, ct_Coverages = []\<rparr>"

definition lapse_of :: "orig_policy \<Rightarrow> time \<Rightarrow> renewal" where
  "lapse_of p now =
    \<lparr>rw_ID = RenewalID (op_ID p) (op_CoverageEnd p), rw_PolicyID = op_ID p, rw_CustomerID = op_CustomerID p,
     rw_PeriodEnd = op_CoverageEnd p, rw_Status = RenewalNotRenewed, rw_Reason = NotRenewedNoResponse, rw_Terms = no_terms,
     rw_Premium = 0, rw_Currency = op_Currency p, rw_DiscountRate = 0, rw_Requoted = False, rw_ChargeID = '''',
     rw_NewPolicyID = '''', rw_AcceptedAt = zero_time, rw_RetryUntil = zero_time, rw_ClosedAt = now,
     rw_NotifiedAt = zero_time, rw_NotificationFailed = False, rw_CreatedAt = now\<rparr>"

fun record_lapses :: "time \<Rightarrow> orig_policy list \<Rightarrow> nat \<Rightarrow> renewal_db \<Rightarrow> renewal_db \<times> nat" where
  "record_lapses now [] n db = (db, n)"
| "record_lapses now (p # ps) n db =
    (case Renewal_Create (lapse_of p now) db of
       (db', Inr (_, True)) \<Rightarrow> record_lapses now ps (n + 1) db'
     | (db', _) \<Rightarrow> record_lapses now ps n db')"

definition lapse_notice :: "renewal_policy \<Rightarrow> orig_policy \<Rightarrow> renewal \<Rightarrow> renewal_notice" where
  "lapse_notice rules p r =
    \<lparr>rnt_To = ap_Email (op_Holder p), rnt_HolderName = ap_FullName (op_Holder p), rnt_PolicyID = op_ID p,
     rnt_CoverageEnded = op_CoverageEnd p, rnt_Reason = rw_Reason r, rnt_GraceDays = rpo_GraceDays rules,
     rnt_IdempotencyKey = ''renewal-lapsed:'' @ rw_ID r\<rparr>"

fun lapse_loop ::
  "renewal_policy \<Rightarrow> (renewal_notice \<Rightarrow> go_error option) \<Rightarrow> time \<Rightarrow> renewal list \<Rightarrow> renewal_db \<Rightarrow> renewal_db" where
  "lapse_loop rules send now [] db = db"
| "lapse_loop rules send now (r # rs) db =
    (case Policy_Get (rw_PolicyID r) db of
       Inl _ \<Rightarrow> lapse_loop rules send now rs db
     | Inr p \<Rightarrow>
        (case send (lapse_notice rules p r) of
           Some _ \<Rightarrow> lapse_loop rules send now rs db
         | None \<Rightarrow> lapse_loop rules send now rs (MarkNotified (rw_ID r) now False db)))"

definition notifyLapses ::
  "renewal_policy \<Rightarrow> (renewal_notice \<Rightarrow> go_error option) option \<Rightarrow> time \<Rightarrow> renewal_db \<Rightarrow> renewal_db" where
  "notifyLapses rules notifier now db =
    (case notifier of None \<Rightarrow> db | Some send \<Rightarrow> lapse_loop rules send now (ListUnnotified sweepBatch db) db)"

definition renewal_Sweep ::
  "renewal_policy \<Rightarrow> (renewal_notice \<Rightarrow> go_error option) option \<Rightarrow> time \<Rightarrow> renewal_db \<Rightarrow> renewal_db \<times> nat" where
  "renewal_Sweep rules notifier now db =
    (let (db1, recorded) = record_lapses now (ListLapsed (time_Add now (- LapseLookback)) now sweepBatch db) 0 db;
         db2 = fold (\<lambda>r d. fst (settle r now d)) (ListAccepted sweepBatch db1) db1
     in (notifyLapses rules notifier now db2, recorded))"

text \<open>\<^verbatim>\<open>Projector.Receive\<close>\<close>

definition Projector_Receive :: "coverage_activated \<Rightarrow> renewal_db \<Rightarrow> renewal_db \<times> go_error option" where
  "Projector_Receive e db = Policy_Create (PolicyFrom e) db"

end
