(* ===== verification/Renewal_Runs.thy ===== *)
theory Renewal_Runs
  imports Renewal_Service
begin

text \<open>
  The renewals as they run: insured people that accept, the worker of the charges, analysts, the projector
  of the policies and the sweep, one atomic statement at a time in any order (\<open>renewal_step\<close>). An
  acceptance reads, stores its renewal and creates its charge in three steps; a settlement reads the
  renewal and its charge in one step and writes in a later one. What the gateway answers to the worker
  is arbitrary, and so is the quote of the engine. The clocks agree and do not go back.

  \<open>renewal_inv\<close> is the invariant of the runs: one renewal per period, each with its own charge, and every
  policy the activation of a confirmed charge.
\<close>

section \<open>Steps\<close>

record renewal_sys =
  ry_db :: renewal_db
  ry_reading :: "(orig_policy \<times> renewal) list"
  ry_finishing :: "(orig_policy \<times> renewal) list"
  ry_settling :: "(renewal \<times> charge \<times> time) list"
  ry_flight :: "charge list"
  ry_now :: time

text \<open>The other statements on a charge, which neither confirm it nor claim it.\<close>

inductive charge_statement :: "charge_db \<Rightarrow> charge_db \<Rightarrow> bool" where
  start: "fresh_charge c \<Longrightarrow> \<not> IsRenewalCharge (ch_AcceptanceID c) \<Longrightarrow> ch_RenewalOf c = '''' \<Longrightarrow>
    charge_statement db (fst (CreatePending c db))"
| attach: "charge_statement db (fst (db_AttachPaymentMethod i m t db))"
| reschedule: "charge_statement db (fst (db_Reschedule c t next cause db))"
| fail: "charge_statement db (fst (db_Fail c t reason cause db))"
| resume: "charge_statement db (fst (db_Resume i r db))"
| decline: "charge_statement db (db_RecordDecline i code reference db)"
| expire: "charge_statement db (fst (db_ExpireWithoutPaymentMethod t db))"
| claim_activation: "charge_statement db (fst (db_ClaimActivation i t lease db))"
| published: "charge_statement db (fst (db_MarkActivationPublished c t db))"
| reschedule_activation: "charge_statement db (fst (db_RescheduleActivation c t next cause db))"

inductive renewal_step :: "renewal_policy \<Rightarrow> renewal_sys \<Rightarrow> renewal_sys \<Rightarrow> bool" for rules where
  tick: "ry_now y \<le> t \<Longrightarrow> renewal_step rules y (y\<lparr>ry_now := t\<rparr>)"
| charge: "charge_statement (rb_charges (ry_db y)) cs \<Longrightarrow> renewal_step rules y (y\<lparr>ry_db := (ry_db y)\<lparr>rb_charges := cs\<rparr>\<rparr>)"
| claim: "db_Claim i (ry_now y) lease (rb_charges (ry_db y)) = (cs, Inr (Some c)) \<Longrightarrow>
    renewal_step rules y (y\<lparr>ry_db := (ry_db y)\<lparr>rb_charges := cs\<rparr>, ry_flight := c # ry_flight y\<rparr>)"
| confirm: "c \<in> set (ry_flight y) \<Longrightarrow>
    renewal_step rules y (y\<lparr>ry_db := (ry_db y)\<lparr>rb_charges := fst (db_Confirm c (ry_now y) out (rb_charges (ry_db y)))\<rparr>\<rparr>)"
| project: "gm_get (db_charges (rb_charges (ry_db y))) i = Some c \<Longrightarrow> ch_Status c = StatusConfirmed \<Longrightarrow>
    renewal_step rules y (y\<lparr>ry_db := fst (Projector_Receive (ActivationEvent c) (ry_db y))\<rparr>)"
| accept_read: "find_policy i (ry_db y) = Some p \<Longrightarrow> InWindow rules p (ry_now y) \<Longrightarrow>
    r = new_renewal rules p q (ry_now y) \<Longrightarrow> Renewal_Validate r = None \<Longrightarrow>
    renewal_step rules y (y\<lparr>ry_reading := (p, r) # ry_reading y\<rparr>)"
| accept_store: "ry_reading y = xs @ (p, r) # ys \<Longrightarrow> Renewal_Create r (ry_db y) = (db', Inr (stored, created)) \<Longrightarrow>
    renewal_step rules y (y\<lparr>ry_db := db', ry_reading := xs @ ys,
      ry_finishing := (if rw_Status stored = RenewalNotRenewed then ry_finishing y else (p, stored) # ry_finishing y)\<rparr>)"
| accept_again: "find_policy i (ry_db y) = Some p \<Longrightarrow> find_renewal (op_ID p) (op_CoverageEnd p) (ry_db y) = Some r \<Longrightarrow>
    rw_Status r \<noteq> RenewalNotRenewed \<Longrightarrow> renewal_step rules y (y\<lparr>ry_finishing := (p, r) # ry_finishing y\<rparr>)"
| finish: "(p, r) \<in> set (ry_finishing y) \<Longrightarrow> ValidateActivation (NewRenewalCharge p r (ry_now y)) (ry_now y) = None \<Longrightarrow>
    renewal_step rules y (y\<lparr>ry_db := fst (on_charges (CreatePending (NewRenewalCharge p r (ry_now y))) (ry_db y))\<rparr>)"
| settle_read: "r \<in> set (rb_renewals (ry_db y)) \<Longrightarrow> rw_Status r = RenewalAccepted \<Longrightarrow>
    gm_get (db_charges (rb_charges (ry_db y))) (rw_ChargeID r) = Some c \<Longrightarrow> t \<le> ry_now y \<Longrightarrow>
    renewal_step rules y (y\<lparr>ry_settling := (r, c, t) # ry_settling y\<rparr>)"
| settle_renewed: "(r, c, t) \<in> set (ry_settling y) \<Longrightarrow> ch_Status c = StatusConfirmed \<Longrightarrow>
    renewal_step rules y (y\<lparr>ry_db := fst (MarkRenewed (rw_ID r) (ch_PolicyID c) t (ry_db y))\<rparr>)"
| settle_failed: "(r, c, t) \<in> set (ry_settling y) \<Longrightarrow> past_deadline r c t \<Longrightarrow>
    renewal_step rules y (y\<lparr>ry_db := fst (MarkNotRenewed (rw_ID r) NotRenewedPaymentFailed t (ry_db y))\<rparr>)"
| lapse: "p \<in> set (rb_policies (ry_db y)) \<Longrightarrow> op_CoverageEnd p \<le> t \<Longrightarrow> t \<le> ry_now y \<Longrightarrow>
    renewal_step rules y (y\<lparr>ry_db := fst (Renewal_Create (lapse_of p t) (ry_db y))\<rparr>)"
| notified: "renewal_step rules y (y\<lparr>ry_db := MarkNotified i t failed (ry_db y)\<rparr>)"

definition renewal_init :: "time \<Rightarrow> renewal_sys" where
  "renewal_init t = \<lparr>ry_db = empty_renewal_db, ry_reading = [], ry_finishing = [], ry_settling = [], ry_flight = [], ry_now = t\<rparr>"

definition renewal_reach :: "renewal_policy \<Rightarrow> renewal_sys \<Rightarrow> bool" where
  "renewal_reach rules y \<longleftrightarrow> (\<exists>t. 0 < t \<and> (renewal_step rules)\<^sup>*\<^sup>* (renewal_init t) y)"

section \<open>What no statement changes of a charge\<close>

definition charge_terms :: "charge \<Rightarrow> string \<times> string \<times> string \<times> applicant \<times> int \<times> string \<times> coverage_terms \<times> string \<times> time" where
  "charge_terms c = (ch_AcceptanceID c, ch_OfferID c, ch_CustomerID c, ch_Holder c, ch_AmountMinor c, ch_Currency c, ch_Terms c,
     ch_RenewalOf c, ch_CoverageNotBefore c)"

definition charge_activation :: "charge \<Rightarrow> string \<times> string \<times> time \<times> time \<times> time \<times> time" where
  "charge_activation c = (ch_PolicyID c, ch_ActivationEventID c, ch_ConfirmedAt c, ch_ActivatedAt c, ch_CoverageStart c, ch_CoverageEnd c)"

definition charge_lasts :: "charge \<Rightarrow> charge \<Rightarrow> bool" where
  "charge_lasts c d \<longleftrightarrow> charge_terms d = charge_terms c \<and>
    (ch_Status c = StatusConfirmed \<longrightarrow> ch_Status d = StatusConfirmed \<and> charge_activation d = charge_activation c)"

definition charges_last :: "charge_db \<Rightarrow> charge_db \<Rightarrow> bool" where
  "charges_last db db' \<longleftrightarrow>
    (\<forall>i c. gm_get (db_charges db) i = Some c \<longrightarrow> (\<exists>d. gm_get (db_charges db') i = Some d \<and> charge_lasts c d))"

lemma charge_lasts_refl [simp]: "charge_lasts c c"
  by (simp add: charge_lasts_def)

lemma charge_lasts_trans: "charge_lasts a b \<Longrightarrow> charge_lasts b c \<Longrightarrow> charge_lasts a c"
  by (simp add: charge_lasts_def)

lemma charges_last_refl [simp]: "charges_last db db"
  by (auto simp: charges_last_def)

lemma charges_lastD: "charges_last db db' \<Longrightarrow> gm_get (db_charges db) i = Some c \<Longrightarrow>
    \<exists>d. gm_get (db_charges db') i = Some d \<and> charge_lasts c d"
  unfolding charges_last_def by blast

lemma charges_last_put:
  assumes "\<And>c. gm_get (db_charges db) (ch_AcceptanceID d) = Some c \<Longrightarrow> charge_lasts c d"
  shows "charges_last db (put_charge d db)"
  unfolding charges_last_def
proof (intro allI impI)
  fix i c assume "gm_get (db_charges db) i = Some c"
  with assms show "\<exists>d'. gm_get (db_charges (put_charge d db)) i = Some d' \<and> charge_lasts c d'"
    by (cases "i = ch_AcceptanceID d") simp_all
qed

section \<open>The charge of a renewal\<close>

definition charge_of_renewal :: "renewal \<Rightarrow> charge \<Rightarrow> bool" where
  "charge_of_renewal r c \<longleftrightarrow> ch_OfferID c = rw_ID r \<and> ch_CustomerID c = rw_CustomerID r \<and>
     ch_AmountMinor c = ToMinorUnits (rw_Premium r) \<and> ch_Currency c = rw_Currency r \<and> ch_Terms c = stored_terms (rw_Terms r) \<and>
     ch_RenewalOf c = rw_PolicyID r \<and> ch_CoverageNotBefore c = rw_PeriodEnd r"

text \<open>A charge under the key of a renewal is the charge of a renewal of the table.\<close>

definition row_of :: "renewal list \<Rightarrow> string \<Rightarrow> charge \<Rightarrow> bool" where
  "row_of rs i c \<longleftrightarrow>
    (if IsRenewalCharge i then \<exists>r. r \<in> set rs \<and> rw_ChargeID r = i \<and> charge_of_renewal r c else ch_RenewalOf c = '''')"

text \<open>What a confirmation writes: the coverage starts when it is confirmed or when the old one ends,
  whatever is later.\<close>

definition confirmed_ok :: "charge \<Rightarrow> bool" where
  "confirmed_ok c \<longleftrightarrow> ch_PolicyID c = PolicyIDFor (ch_AcceptanceID c) \<and>
     ch_CoverageStart c = max (ch_CoverageNotBefore c) (ch_ConfirmedAt c) \<and>
     ch_CoverageEnd c = AddMonths (ch_CoverageStart c) (ct_TermMonths (ch_Terms c)) \<and> ch_ActivatedAt c = ch_ConfirmedAt c"

text \<open>The rows of a statement come from the row it found, or are new.\<close>

definition charges_step :: "renewal list \<Rightarrow> charge_db \<Rightarrow> charge_db \<Rightarrow> bool" where
  "charges_step rs db db' \<longleftrightarrow> charge_inv db' \<and> charges_last db db' \<and>
    (\<forall>i d. gm_get (db_charges db') i = Some d \<longrightarrow>
      (\<exists>c. gm_get (db_charges db) i = Some c \<and>
         (ch_Status d = StatusConfirmed \<longrightarrow> ch_Status c = StatusConfirmed \<or> confirmed_ok d)) \<or>
      row_of rs i d \<and> ch_Status d \<noteq> StatusConfirmed)"

lemma charges_step_refl: "charge_inv db \<Longrightarrow> charges_step rs db db"
  by (auto simp: charges_step_def)

lemma charges_step_update:
  assumes inv: "charge_inv db" and f: "\<And>c. cond c \<Longrightarrow> charge_lasts c (f c)"
    and st: "\<And>c. cond c \<Longrightarrow> ch_Status (f c) = StatusConfirmed \<Longrightarrow> ch_Status c = StatusConfirmed \<or> confirmed_ok (f c)"
  shows "charges_step rs db (fst (update_one i cond f db))"
proof (rule update_one_cases [of db i cond f])
  fix c assume c: "gm_get (db_charges db) i = Some c" "cond c" and eq: "update_one i cond f db = (put_charge (f c) db, Some (f c))"
  have id: "ch_AcceptanceID (f c) = i" using f [OF c(2)] charge_invD [OF inv c(1)] by (simp add: charge_lasts_def charge_terms_def)
  have "charges_last db (put_charge (f c) db)" by (rule charges_last_put) (use id c f in auto)
  with inv c st id show ?thesis unfolding eq by (auto simp: charges_step_def)
next
  assume "update_one i cond f db = (db, None)"
  with inv show ?thesis by (simp add: charges_step_refl)
qed

lemma charges_step_actions [simp]: "charges_step rs db (db'\<lparr>db_actions := as\<rparr>) = charges_step rs db db'"
  by (simp add: charges_step_def charges_last_def)

lemma charges_step_create:
  assumes inv: "charge_inv db" and c: "row_of rs (ch_AcceptanceID c) (inserted_row c)"
  shows "charges_step rs db (fst (CreatePending c db))"
proof (cases "0 < ch_AmountMinor c \<and> gm_get (db_charges db) (ch_AcceptanceID c) = None \<and> \<not> key_taken (ch_AcceptanceID c) (ch_IdempotencyKey c) db")
  case True
  then have eq: "fst (CreatePending c db) = put_charge (inserted_row c) db" by (simp add: CreatePending_def)
  have id: "ch_AcceptanceID (inserted_row c) = ch_AcceptanceID c" by (simp add: inserted_row_def)
  have "charges_last db (put_charge (inserted_row c) db)" by (rule charges_last_put) (use True id in simp)
  moreover have "ch_Status (inserted_row c) = StatusPending" by (simp add: inserted_row_def)
  ultimately show ?thesis unfolding eq using inv id c by (auto simp: charges_step_def)
next
  case False
  then have "fst (CreatePending c db) = db" by (auto simp: CreatePending_def split: sum.split)
  with inv show ?thesis by (simp add: charges_step_refl)
qed

lemma charges_step_attach:
  assumes inv: "charge_inv db"
  shows "charges_step rs db (fst (db_AttachPaymentMethod i m t db))"
proof (cases "\<exists>c. gm_get (db_charges db) i = Some c \<and> attach_where c \<and>
    \<not> key_taken i (ch_IdempotencyKey (attached_row (charge_key i) m t c)) db")
  case True
  then obtain c where c: "gm_get (db_charges db) i = Some c" "attach_where c" by blast
  with True have eq: "fst (db_AttachPaymentMethod i m t db) = fst (update_one i attach_where (attached_row (charge_key i) m t) db)"
    by (auto simp: db_AttachPaymentMethod_def update_one_def Let_def)
  show ?thesis unfolding eq
    by (rule charges_step_update [OF inv]) (auto simp: charge_lasts_def charge_terms_def attached_row_def attach_where_def)
next
  case False
  then have "fst (db_AttachPaymentMethod i m t db) = db" by (auto simp: db_AttachPaymentMethod_def Let_def split: option.split)
  with inv show ?thesis by (simp add: charges_step_refl)
qed

lemma charges_step_expire:
  assumes inv: "charge_inv db"
  shows "charges_step rs db (fst (db_ExpireWithoutPaymentMethod t db))"
proof -
  let ?f = "\<lambda>c. if expire_where t c then expired_row t c else c"
  have get: "gm_get (db_charges (fst (db_ExpireWithoutPaymentMethod t db))) i = map_option ?f (gm_get (db_charges db) i)" for i
    by (simp add: db_ExpireWithoutPaymentMethod_def gm_get_def map_of_map)
  have "gm_ok (db_charges (fst (db_ExpireWithoutPaymentMethod t db)))"
    using inv by (simp add: charge_inv_def db_ExpireWithoutPaymentMethod_def gm_ok_def case_prod_beta' comp_def)
  moreover have "ch_AcceptanceID d = j" if d: "gm_get (db_charges (fst (db_ExpireWithoutPaymentMethod t db))) j = Some d" for j d
  proof -
    from d obtain c where "gm_get (db_charges db) j = Some c" "d = ?f c" unfolding get by blast
    with charge_invD [OF inv] show ?thesis by (simp add: expired_row_def)
  qed
  ultimately have "charge_inv (fst (db_ExpireWithoutPaymentMethod t db))" unfolding charge_inv_def by blast
  moreover have f: "charge_lasts c (?f c)" "ch_Status (?f c) = StatusConfirmed \<Longrightarrow> ch_Status c = StatusConfirmed" for c
    by (auto simp: charge_lasts_def charge_terms_def expired_row_def expire_where_def split: if_splits)
  have "charges_last db (fst (db_ExpireWithoutPaymentMethod t db))"
    unfolding charges_last_def get using f(1) by (metis option.simps(9))
  moreover have "\<exists>c. gm_get (db_charges db) i = Some c \<and> (ch_Status d = StatusConfirmed \<longrightarrow> ch_Status c = StatusConfirmed)"
    if "gm_get (db_charges (fst (db_ExpireWithoutPaymentMethod t db))) i = Some d" for i d
    using that f(2) unfolding get by blast
  ultimately show ?thesis unfolding charges_step_def by blast
qed

lemma charge_statement_step: "charge_statement db db' \<Longrightarrow> charge_inv db \<Longrightarrow> charges_step rs db db'"
proof (induction rule: charge_statement.induct)
  case (start c db)
  then show ?case by (intro charges_step_create) (simp_all add: row_of_def inserted_row_def)
next
  case (attach db i m t) then show ?case by (intro charges_step_attach)
next
  case (reschedule db c t "next" cause)
  then show ?case unfolding db_Reschedule_def fst_held_one
    by (intro charges_step_update) (auto simp: charge_held_def charge_lasts_def charge_terms_def rescheduled_row_def)
next
  case (fail db c t reason cause)
  then show ?case unfolding db_Fail_def fst_held_one
    by (intro charges_step_update) (auto simp: charge_held_def charge_lasts_def charge_terms_def failed_row_def)
next
  case (resume db i r)
  have "charges_step rs db (fst (update_one i (\<lambda>c. ch_Status c = StatusFailed) (resumed_row r) db))"
    by (rule charges_step_update [OF resume]) (auto simp: charge_lasts_def charge_terms_def resumed_row_def)
  then show ?case by (auto simp: db_Resume_def split: prod.splits option.splits sum.splits)
next
  case (decline db i code reference)
  show ?case
  proof (cases "code = '''' \<and> reference = ''''")
    case True with decline show ?thesis by (simp add: db_RecordDecline_def charges_step_refl)
  next
    case False
    then have "db_RecordDecline i code reference db = fst (update_one i
       (\<lambda>c. ch_Status c = StatusFailed \<and> ch_FailureReason c = ChargePaymentRejected)
       (\<lambda>c. c\<lparr>ch_DeclineCode := (if code = '''' then ch_DeclineCode c else code),
              ch_ProviderReference := (if reference = '''' then ch_ProviderReference c else reference)\<rparr>) db)"
      by (auto simp: db_RecordDecline_def)
    then show ?thesis by (simp only:) (rule charges_step_update [OF decline], auto simp: charge_lasts_def charge_terms_def)
  qed
next
  case (expire db t) then show ?case by (intro charges_step_expire)
next
  case (claim_activation db i t lease)
  then show ?case unfolding db_ClaimActivation_def
    by (intro charges_step_update) (auto simp: charge_lasts_def charge_terms_def charge_activation_def)
next
  case (published db c t)
  then show ?case unfolding db_MarkActivationPublished_def fst_held_one
    by (intro charges_step_update) (auto simp: charge_lasts_def charge_terms_def charge_activation_def)
next
  case (reschedule_activation db c t "next" cause)
  then show ?case unfolding db_RescheduleActivation_def fst_held_one
    by (intro charges_step_update) (auto simp: charge_lasts_def charge_terms_def charge_activation_def)
qed

lemma charges_step_claim: "charge_inv db \<Longrightarrow> charges_step rs db (fst (db_Claim i t lease db))"
proof -
  assume inv: "charge_inv db"
  have "charges_step rs db (fst (update_one i (charge_due t) (claimed_row t lease) db))"
    by (rule charges_step_update [OF inv]) (auto simp: charge_lasts_def charge_terms_def claimed_row_def charge_due_def)
  then show ?thesis by (simp add: db_Claim_def Let_def case_prod_beta)
qed

lemma charges_step_confirm:
  assumes inv: "charge_inv db" and f: "gm_get (db_charges db) (ch_AcceptanceID f) = Some c" "charge_terms c = charge_terms f"
  shows "charges_step rs db (fst (db_Confirm f t out db))"
proof (cases "charge_held f c")
  case True
  let ?d = "confirmed_row f t out c"
  have eq: "fst (db_Confirm f t out db) = put_charge ?d db"
    using held_one_Some [OF f(1), of "charge_held f", OF True] by (simp add: db_Confirm_def)
  have terms: "charge_terms ?d = charge_terms c" by (simp add: charge_terms_def confirmed_row_def Let_def)
  have id: "ch_AcceptanceID ?d = ch_AcceptanceID f" "ch_AcceptanceID c = ch_AcceptanceID f"
    using f(2) terms by (simp_all add: charge_terms_def)
  have ok: "confirmed_ok ?d" using f(2)
    by (auto simp: confirmed_ok_def confirmed_row_def Charge_Confirmed_def Let_def charge_terms_def)
  have "ch_Status c = StatusInProgress" using True by (simp add: charge_held_def)
  then have "charge_lasts c ?d" using terms by (simp add: charge_lasts_def)
  then have "charges_last db (put_charge ?d db)" by (intro charges_last_put) (use id f(1) in auto)
  with inv id ok f(1) show ?thesis unfolding eq by (auto simp: charges_step_def)
next
  case False
  with held_one_None [of db "ch_AcceptanceID f" "charge_held f"] f(1) have "fst (db_Confirm f t out db) = db"
    by (simp add: db_Confirm_def)
  with inv show ?thesis by (simp add: charges_step_refl)
qed

end
