(* ===== verification/Renewal_Calls.thy ===== *)
theory Renewal_Calls
  imports Renewal_Runs
begin

text \<open>
  The calls of the service as runs: what an acceptance, a status request, the list of the policies of a
  customer and a sweep do to the tables is a sequence of the statements of \<open>renewal_step\<close>, so what holds in
  every reachable state holds before and after each of them.
\<close>

section \<open>Calls\<close>

definition renewal_leads :: "renewal_policy \<Rightarrow> renewal_sys \<Rightarrow> renewal_db \<Rightarrow> bool" where
  "renewal_leads rules y db \<longleftrightarrow>
    (\<exists>z. (renewal_step rules)\<^sup>*\<^sup>* y z \<and> ry_db z = db \<and> ry_now z = ry_now y \<and> ry_flight z = ry_flight y)"

lemma leads_refl [simp, intro]: "renewal_leads rules y (ry_db y)"
  by (auto simp: renewal_leads_def)

lemma leads_step:
  assumes "renewal_step rules y z" and "ry_now z = ry_now y" and "ry_flight z = ry_flight y" and "renewal_leads rules z db"
  shows "renewal_leads rules y db"
  using assms unfolding renewal_leads_def by (metis converse_rtranclp_into_rtranclp)

lemma leads_steps:
  assumes "(renewal_step rules)\<^sup>*\<^sup>* y z" and "ry_now z = ry_now y" and "ry_flight z = ry_flight y" and "renewal_leads rules z db"
  shows "renewal_leads rules y db"
  using assms unfolding renewal_leads_def by (metis rtranclp_trans)

section \<open>Acceptances\<close>

lemma finish_cases:
  fixes p r created t db
  defines "c \<equiv> NewRenewalCharge p r t"
  obtains "ValidateActivation c t \<noteq> None" and "fst (finish p r created t db) = db"
  | "ValidateActivation c t = None" and "fst (finish p r created t db) = fst (on_charges (CreatePending c) db)"
  | m where "ValidateActivation c t = None" and "fst (finish p r created t db) =
      fst (on_charges (db_AttachPaymentMethod (rw_ChargeID r) m t) (fst (on_charges (CreatePending c) db)))"
proof -
  obtain db1 res where cp: "on_charges (CreatePending c) db = (db1, res)" by fastforce
  have "ValidateActivation c t \<noteq> None \<and> fst (finish p r created t db) = db \<or>
    ValidateActivation c t = None \<and> (fst (finish p r created t db) = db1 \<or>
      (\<exists>m. fst (finish p r created t db) = fst (on_charges (db_AttachPaymentMethod (rw_ChargeID r) m t) db1)))"
    unfolding finish_def c_def [symmetric] Let_def
    by (auto simp: cp split: option.split sum.split prod.split bool.split) (metis fst_conv)+
  with that show ?thesis by (auto simp: cp)
qed

lemma finish_leads:
  assumes "(p, r) \<in> set (ry_finishing y)"
  shows "renewal_leads rules y (fst (finish p r created (ry_now y) (ry_db y)))"
proof (cases rule: finish_cases [of p r "ry_now y" created "ry_db y"])
  case 1
  then show ?thesis by simp
next
  case 2
  show ?thesis unfolding 2(2) by (rule leads_step [OF renewal_step.finish [OF assms 2(1)]]) (auto intro: leads_refl [of _ "y\<lparr>ry_db := _\<rparr>", simplified])
next
  case (3 m)
  let ?y = "y\<lparr>ry_db := fst (on_charges (CreatePending (NewRenewalCharge p r (ry_now y))) (ry_db y))\<rparr>"
  let ?z = "?y\<lparr>ry_db := (ry_db ?y)\<lparr>rb_charges := fst (db_AttachPaymentMethod (rw_ChargeID r) m (ry_now y) (rb_charges (ry_db ?y)))\<rparr>\<rparr>"
  have z: "ry_db ?z = fst (finish p r created (ry_now y) (ry_db y))" unfolding 3(2) by (simp add: on_charges_def case_prod_beta)
  have "renewal_leads rules ?z (fst (finish p r created (ry_now y) (ry_db y)))" unfolding z [symmetric] by (rule leads_refl)
  then have "renewal_leads rules ?y (fst (finish p r created (ry_now y) (ry_db y)))"
    by (rule leads_step [OF renewal_step.charge [OF charge_statement.attach], rotated 2]) simp_all
  then show ?thesis by (rule leads_step [OF renewal_step.finish [OF assms 3(1)], rotated 2]) simp_all
qed

lemma find_policy_id: "find_policy i db = Some p \<Longrightarrow> op_ID p = i"
  by (auto simp: find_policy_def find_Some_iff)

lemma ownedPolicy_found: "ownedPolicy ctx i db = Inr p \<Longrightarrow> find_policy i db = Some p"
  by (auto simp: ownedPolicy_def Policy_Get_def split: sum.splits option.splits)

text \<open>\<^verbatim>\<open>Accept\<close> up to the renewal it found or stored: what is left is \<^const>\<open>finish\<close>, at a later reading of the clock.\<close>

definition Accept_store ::
  "renewal_policy \<Rightarrow> 'p renewal_engine \<Rightarrow> sec_context \<Rightarrow> string \<Rightarrow> time \<Rightarrow> renewal_db \<Rightarrow>
   renewal_db \<times> (renewal_error + orig_policy \<times> renewal \<times> bool)" where
  "Accept_store rules eng ctx policyID now db =
    (case ownedPolicy ctx policyID db of
       Inl e \<Rightarrow> (db, Inl e)
     | Inr p \<Rightarrow>
        (case Renewal_Get (op_ID p) (op_CoverageEnd p) db of
           Inr existing \<Rightarrow>
             if rw_Status existing = RenewalNotRenewed then (db, Inl (RenewalErr (closedError existing)))
             else (db, Inr (p, existing, False))
         | Inl e \<Rightarrow>
            if \<not> errors_Is e ErrRenewalNotFound then (db, Inl (RenewalErr e))
            else if \<not> InWindow rules p now then (db, Inl (RenewalErr ErrRenewalNotAvailable))
            else
             (let r = new_renewal rules p (requote rules eng p now) now in
              case Renewal_Validate r of
                Some e \<Rightarrow> (db, Inl (RenewalErr e))
              | None \<Rightarrow>
                 (case Renewal_Create r db of
                    (db1, Inl e) \<Rightarrow> (db1, Inl (RenewalErr e))
                  | (db1, Inr (stored, created)) \<Rightarrow>
                     if \<not> created \<and> rw_Status stored = RenewalNotRenewed
                     then (db1, Inl (RenewalErr (closedError stored)))
                     else (db1, Inr (p, stored, created))))))"

lemma Accept_split:
  "Accept rules eng ctx i t t' db =
    (case Accept_store rules eng ctx i t db of
       (db1, Inl e) \<Rightarrow> (db1, Inl e) | (db1, Inr (p, r, created)) \<Rightarrow> finish p r created t' db1)"
  by (simp add: Accept_def Accept_store_def Let_def split: sum.split prod.split option.split)

definition store_leads :: "renewal_policy \<Rightarrow> renewal_sys \<Rightarrow> renewal_db \<times> ('e + orig_policy \<times> renewal \<times> bool) \<Rightarrow> bool" where
  "store_leads rules y res \<longleftrightarrow>
    (\<exists>w. (renewal_step rules)\<^sup>*\<^sup>* y w \<and> ry_db w = fst res \<and> ry_now w = ry_now y \<and> ry_flight w = ry_flight y \<and>
      (\<forall>p r created. snd res = Inr (p, r, created) \<longrightarrow> (p, r) \<in> set (ry_finishing w)))"

lemma store_leadsI:
  "(renewal_step rules)\<^sup>*\<^sup>* y w \<Longrightarrow> ry_db w = db \<Longrightarrow> ry_now w = ry_now y \<Longrightarrow> ry_flight w = ry_flight y \<Longrightarrow>
   (\<And>p r created. res = Inr (p, r, created) \<Longrightarrow> (p, r) \<in> set (ry_finishing w)) \<Longrightarrow> store_leads rules y (db, res)"
  by (auto simp: store_leads_def)

lemma store_leads_stop [simp]: "store_leads rules y (ry_db y, Inl e)"
  by (rule store_leadsI [of rules y y]) simp_all

lemma Accept_store_leads: "store_leads rules y (Accept_store rules eng ctx i (ry_now y) (ry_db y))"
proof (cases "ownedPolicy ctx i (ry_db y)")
  case (Inl e) then show ?thesis by (simp add: Accept_store_def)
next
  case (Inr p)
  then have p: "find_policy i (ry_db y) = Some p" by (rule ownedPolicy_found)
  let ?r = "new_renewal rules p (requote rules eng p (ry_now y)) (ry_now y)"
  let ?y = "y\<lparr>ry_reading := (p, ?r) # ry_reading y\<rparr>"
  consider (found) r where "find_renewal (op_ID p) (op_CoverageEnd p) (ry_db y) = Some r"
    | (refused) "find_renewal (op_ID p) (op_CoverageEnd p) (ry_db y) = None" "\<not> (InWindow rules p (ry_now y) \<and> Renewal_Validate ?r = None)"
    | (store) "find_renewal (op_ID p) (op_CoverageEnd p) (ry_db y) = None" "InWindow rules p (ry_now y)" "Renewal_Validate ?r = None"
    by fastforce
  then show ?thesis
  proof cases
    case (found r)
    let ?z = "y\<lparr>ry_finishing := (p, r) # ry_finishing y\<rparr>"
    show ?thesis
    proof (cases "rw_Status r = RenewalNotRenewed")
      case False
      then have "renewal_step rules y ?z" by (rule renewal_step.accept_again [OF p found])
      then have "store_leads rules y (ry_db y, Inr (p, r, False))"
        by (intro store_leadsI [of rules y ?z]) auto
      with Inr found False show ?thesis by (simp add: Accept_store_def Renewal_Get_def)
    qed (use Inr found in \<open>simp add: Accept_store_def Renewal_Get_def\<close>)
  next
    case refused
    have "\<exists>e. Accept_store rules eng ctx i (ry_now y) (ry_db y) = (ry_db y, Inl e)"
      using Inr refused by (auto simp: Accept_store_def Renewal_Get_def Let_def ErrRenewalNotFound_def)
    then show ?thesis by auto
  next
    case store
    obtain db1 res where rc: "Renewal_Create ?r (ry_db y) = (db1, res)" by fastforce
    note call = Accept_store_def Renewal_Get_def ErrRenewalNotFound_def Inr store rc
    have read: "renewal_step rules y ?y" using store by (intro renewal_step.accept_read [OF p]) simp_all
    show ?thesis
    proof (cases res)
      case (Inl e)
      then have "db1 = ry_db y" using rc by (auto simp: Renewal_Create_def Let_def split: if_splits option.splits)
      with Inl show ?thesis by (simp add: call)
    next
      case res: (Inr sc)
      obtain stored created where sc: "sc = (stored, created)" by fastforce
      let ?z = "?y\<lparr>ry_db := db1, ry_reading := [] @ ry_reading y,
        ry_finishing := (if rw_Status stored = RenewalNotRenewed then ry_finishing ?y else (p, stored) # ry_finishing ?y)\<rparr>"
      have step: "renewal_step rules ?y ?z" using rc res sc by (intro renewal_step.accept_store) simp_all
      with read have steps: "(renewal_step rules)\<^sup>*\<^sup>* y ?z" by (meson converse_rtranclp_into_rtranclp r_into_rtranclp)
      have "created \<Longrightarrow> rw_Status stored \<noteq> RenewalNotRenewed"
        using rc res sc by (auto simp: Renewal_Create_def Let_def new_renewal_def stored_renewal_def split: if_splits option.splits)
      then show ?thesis by (auto simp: call res sc intro!: store_leadsI [OF steps])
    qed
  qed
qed

lemma tick_steps:
  assumes "ry_now y \<le> t" and "(renewal_step rules)\<^sup>*\<^sup>* (y\<lparr>ry_now := t\<rparr>) z"
  shows "(renewal_step rules)\<^sup>*\<^sup>* y z"
proof -
  have "renewal_step rules y (y\<lparr>ry_now := t\<rparr>)" using assms(1) by (rule renewal_step.tick)
  with assms(2) show ?thesis by (rule converse_rtranclp_into_rtranclp [rotated])
qed

lemma finishing_stays: "(renewal_step rules)\<^sup>*\<^sup>* y z \<Longrightarrow> set (ry_finishing y) \<subseteq> set (ry_finishing z)"
proof (induction rule: rtranclp_induct)
  case (step x z)
  from step(2) have "set (ry_finishing x) \<subseteq> set (ry_finishing z)" by cases auto
  with step(3) show ?case by blast
qed simp

text \<open>An acceptance takes two readings of the clock, which does not go back. Between them, when the renewal is
  stored, the others may go on.\<close>

lemma finish_later:
  assumes "(p, r) \<in> set (ry_finishing w)" and "(renewal_step rules)\<^sup>*\<^sup>* w z" and "ry_now z \<le> t"
  shows "\<exists>z'. (renewal_step rules)\<^sup>*\<^sup>* z z' \<and> ry_db z' = fst (finish p r created t (ry_db z)) \<and> ry_now z' = t \<and> ry_flight z' = ry_flight z"
proof -
  let ?z = "z\<lparr>ry_now := t\<rparr>"
  have "(p, r) \<in> set (ry_finishing ?z)" using assms(1) finishing_stays [OF assms(2)] by auto
  from finish_leads [OF this, of rules created] tick_steps [OF assms(3)] show ?thesis by (fastforce simp: renewal_leads_def)
qed

lemma Accept_store_later:
  assumes "ry_now y \<le> t" and "Accept_store rules eng ctx i t (ry_db y) = (db1, res)"
  shows "\<exists>w. (renewal_step rules)\<^sup>*\<^sup>* y w \<and> ry_db w = db1 \<and> ry_now w = t \<and> ry_flight w = ry_flight y \<and>
    (\<forall>p r created. res = Inr (p, r, created) \<longrightarrow> (p, r) \<in> set (ry_finishing w))"
proof -
  let ?y = "y\<lparr>ry_now := t\<rparr>"
  from Accept_store_leads [of rules ?y eng ctx i] assms(2) obtain w where
    "(renewal_step rules)\<^sup>*\<^sup>* ?y w" "ry_db w = db1" "ry_now w = t" "ry_flight w = ry_flight y"
    "\<forall>p r created. res = Inr (p, r, created) \<longrightarrow> (p, r) \<in> set (ry_finishing w)"
    by (auto simp: store_leads_def)
  with tick_steps [OF assms(1), of rules w] show ?thesis by blast
qed

lemma Accept_clocked:
  assumes "ry_now y \<le> t" and "t \<le> t'"
  shows "\<exists>z. (renewal_step rules)\<^sup>*\<^sup>* y z \<and> ry_db z = fst (Accept rules eng ctx i t t' (ry_db y)) \<and> ry_now z = t' \<and> ry_flight z = ry_flight y"
proof -
  obtain db1 res where st: "Accept_store rules eng ctx i t (ry_db y) = (db1, res)" by fastforce
  obtain w :: renewal_sys where w: "(renewal_step rules)\<^sup>*\<^sup>* y w" "ry_db w = db1" "ry_now w = t" "ry_flight w = ry_flight y"
    "\<forall>p r created. res = Inr (p, r, created) \<longrightarrow> (p, r) \<in> set (ry_finishing w)"
    using Accept_store_later [OF assms(1) st] by blast
  show ?thesis
  proof (cases res)
    case (Inl e)
    have "(renewal_step rules)\<^sup>*\<^sup>* w (w\<lparr>ry_now := t'\<rparr>)" by (rule tick_steps [OF _ rtranclp.rtrancl_refl]) (use w(3) assms(2) in simp)
    with w(1) have "(renewal_step rules)\<^sup>*\<^sup>* y (w\<lparr>ry_now := t'\<rparr>)" by (rule rtranclp_trans)
    with w st Inl show ?thesis by (intro exI [of _ "w\<lparr>ry_now := t'\<rparr>"]) (simp add: Accept_split)
  next
    case (Inr x)
    then obtain p r created where x: "res = Inr (p, r, created)" by (metis prod_cases3)
    have "ry_now w \<le> t'" using w(3) assms(2) by simp
    have "(p, r) \<in> set (ry_finishing w)" using w(5) x by blast
    from finish_later [OF this rtranclp.rtrancl_refl \<open>ry_now w \<le> t'\<close>, of rules created] obtain z where
      "(renewal_step rules)\<^sup>*\<^sup>* w z" "ry_db z = fst (finish p r created t' (ry_db w))" "ry_now z = t'" "ry_flight z = ry_flight w" by blast
    with w(1,2,4) st x show ?thesis by (intro exI [of _ z]) (auto simp: Accept_split intro: rtranclp_trans)
  qed
qed

lemma Accept_leads: "renewal_leads rules y (fst (Accept rules eng ctx i (ry_now y) (ry_now y) (ry_db y)))"
  using Accept_clocked [of y "ry_now y" "ry_now y" rules eng ctx i] by (simp add: renewal_leads_def)

text \<open>The other calls read the clock once.\<close>

lemma leads_later:
  assumes "ry_now y \<le> t" and "renewal_leads rules (y\<lparr>ry_now := t\<rparr>) db"
  shows "\<exists>z. (renewal_step rules)\<^sup>*\<^sup>* y z \<and> ry_now z = t \<and> ry_db z = db"
  using assms(2) tick_steps [OF assms(1)] by (fastforce simp: renewal_leads_def)

section \<open>Settlements\<close>

text \<open>What a settlement of \<open>r\<close> reads has been read.\<close>

definition settle_ready :: "renewal_sys \<Rightarrow> renewal \<Rightarrow> bool" where
  "settle_ready y r \<longleftrightarrow> (\<forall>c. rw_Status r = RenewalAccepted \<longrightarrow>
     gm_get (db_charges (rb_charges (ry_db y))) (rw_ChargeID r) = Some c \<longrightarrow> (r, c, ry_now y) \<in> set (ry_settling y))"

lemma settle_charges [simp]: "rb_charges (fst (settle r t db)) = rb_charges db"
  by (auto simp: settle_def MarkRenewed_def MarkNotRenewed_def update_renewals_def split: sum.split bool.split)

lemma settle_ready_db: "rb_charges db = rb_charges (ry_db y) \<Longrightarrow> settle_ready (y\<lparr>ry_db := db\<rparr>) r = settle_ready y r"
  by (simp add: settle_ready_def)

lemma settle_steps:
  assumes "settle_ready y r"
  shows "(renewal_step rules)\<^sup>*\<^sup>* y (y\<lparr>ry_db := fst (settle r (ry_now y) (ry_db y))\<rparr>)"
proof (cases "rw_Status r = RenewalAccepted \<and> rw_ChargeID r \<noteq> '''' \<and> (\<exists>c. gm_get (db_charges (rb_charges (ry_db y))) (rw_ChargeID r) = Some c)")
  case True
  then obtain c where c: "gm_get (db_charges (rb_charges (ry_db y))) (rw_ChargeID r) = Some c" by blast
  with assms True have ready: "(r, c, ry_now y) \<in> set (ry_settling y)" by (simp add: settle_ready_def)
  consider "ch_Status c = StatusConfirmed" | "ch_Status c \<noteq> StatusConfirmed" "past_deadline r c (ry_now y)"
    | "ch_Status c \<noteq> StatusConfirmed" "\<not> past_deadline r c (ry_now y)" by blast
  then show ?thesis
  proof cases
    case 1
    have "fst (settle r (ry_now y) (ry_db y)) = fst (MarkRenewed (rw_ID r) (ch_PolicyID c) (ry_now y) (ry_db y))"
      using True c 1 by (simp add: settle_def db_Get_def split: prod.split bool.split)
    with renewal_step.settle_renewed [OF ready 1] show ?thesis by auto
  next
    case 2
    have "fst (settle r (ry_now y) (ry_db y)) = fst (MarkNotRenewed (rw_ID r) NotRenewedPaymentFailed (ry_now y) (ry_db y))"
      using True c 2 by (simp add: settle_def db_Get_def split: prod.split bool.split)
    with renewal_step.settle_failed [OF ready 2(2)] show ?thesis by auto
  next
    case 3
    with True c have "fst (settle r (ry_now y) (ry_db y)) = ry_db y" by (simp add: settle_def db_Get_def)
    then show ?thesis by simp
  qed
next
  case False
  then have "fst (settle r (ry_now y) (ry_db y)) = ry_db y" by (auto simp: settle_def db_Get_def split: option.split)
  then show ?thesis by simp
qed

lemma settle_all_steps:
  "\<forall>r \<in> set rs. settle_ready y r \<Longrightarrow>
   (renewal_step rules)\<^sup>*\<^sup>* y (y\<lparr>ry_db := fold (\<lambda>r d. fst (settle r (ry_now y) d)) rs (ry_db y)\<rparr>)"
proof (induction rs arbitrary: y)
  case (Cons r rs)
  let ?y = "y\<lparr>ry_db := fst (settle r (ry_now y) (ry_db y))\<rparr>"
  have "\<forall>r \<in> set rs. settle_ready ?y r" using Cons.prems by (simp add: settle_ready_db)
  from rtranclp_trans [OF settle_steps Cons.IH [OF this]] Cons.prems show ?case by simp
qed simp

lemma settle_reads:
  "set rs \<subseteq> set (rb_renewals (ry_db y)) \<Longrightarrow>
   \<exists>ss. (renewal_step rules)\<^sup>*\<^sup>* y (y\<lparr>ry_settling := ss\<rparr>) \<and> (\<forall>r \<in> set rs. settle_ready (y\<lparr>ry_settling := ss\<rparr>) r)"
proof (induction rs)
  case Nil
  have "(renewal_step rules)\<^sup>*\<^sup>* y (y\<lparr>ry_settling := ry_settling y\<rparr>)" by simp
  then show ?case by fastforce
next
  case (Cons r rs)
  then obtain ss where ss: "(renewal_step rules)\<^sup>*\<^sup>* y (y\<lparr>ry_settling := ss\<rparr>)" "\<forall>r \<in> set rs. settle_ready (y\<lparr>ry_settling := ss\<rparr>) r"
    by auto
  show ?case
  proof (cases "rw_Status r = RenewalAccepted \<and> (\<exists>c. gm_get (db_charges (rb_charges (ry_db y))) (rw_ChargeID r) = Some c)")
    case True
    then obtain c where c: "gm_get (db_charges (rb_charges (ry_db y))) (rw_ChargeID r) = Some c" by blast
    let ?ss = "(r, c, ry_now y) # ss"
    have "renewal_step rules (y\<lparr>ry_settling := ss\<rparr>) (y\<lparr>ry_settling := ?ss\<rparr>)"
      using renewal_step.settle_read [of r "y\<lparr>ry_settling := ss\<rparr>" c "ry_now y" rules] True c Cons.prems by simp
    with ss(1) have "(renewal_step rules)\<^sup>*\<^sup>* y (y\<lparr>ry_settling := ?ss\<rparr>)" by simp
    moreover have "settle_ready (y\<lparr>ry_settling := ?ss\<rparr>) q" if "q \<in> set (r # rs)" for q
      using that ss(2) c by (auto simp: settle_ready_def)
    ultimately show ?thesis by blast
  next
    case False
    then have "settle_ready (y\<lparr>ry_settling := ss\<rparr>) r" by (auto simp: settle_ready_def)
    with ss show ?thesis by auto
  qed
qed

lemma settle_all_leads:
  assumes "set rs \<subseteq> set (rb_renewals (ry_db y))"
    and "\<And>z. ry_db z = fold (\<lambda>r d. fst (settle r (ry_now y) d)) rs (ry_db y) \<Longrightarrow> ry_now z = ry_now y \<Longrightarrow> ry_flight z = ry_flight y \<Longrightarrow>
      renewal_leads rules z db"
  shows "renewal_leads rules y db"
proof -
  from settle_reads [OF assms(1)] obtain ss where ss: "(renewal_step rules)\<^sup>*\<^sup>* y (y\<lparr>ry_settling := ss\<rparr>)"
    "\<forall>r \<in> set rs. settle_ready (y\<lparr>ry_settling := ss\<rparr>) r" by blast
  from rtranclp_trans [OF ss(1) settle_all_steps [OF ss(2)]] show ?thesis
    by (rule leads_steps) (simp_all add: assms(2))
qed

lemma Status_leads: "renewal_leads rules y (fst (renewal_Status ctx i (ry_now y) (ry_db y)))"
proof (cases "ownedPolicy ctx i (ry_db y)")
  case (Inl e) then show ?thesis by (simp add: renewal_Status_def)
next
  case (Inr p)
  show ?thesis
  proof (cases "find_renewal (op_ID p) (op_CoverageEnd p) (ry_db y)")
    case None with Inr show ?thesis by (simp add: renewal_Status_def Renewal_Get_def)
  next
    case (Some r)
    then have "set [r] \<subseteq> set (rb_renewals (ry_db y))" by (auto simp: find_renewal_def find_Some_iff)
    moreover have "fst (renewal_Status ctx i (ry_now y) (ry_db y)) = fold (\<lambda>r d. fst (settle r (ry_now y) d)) [r] (ry_db y)"
      using Inr Some by (auto simp: renewal_Status_def Renewal_Get_def Let_def split: prod.split sum.split)
    ultimately show ?thesis by (metis settle_all_leads leads_refl)
  qed
qed

text \<open>The renewals that the list of the policies of a customer settles.\<close>

definition shown_renewals :: "(string, renewal) gomap \<Rightarrow> orig_policy list \<Rightarrow> renewal list" where
  "shown_renewals m ps = List.map_filter (\<lambda>p. gm_get m (period_key (op_ID p) (op_CoverageEnd p))) ps"

lemma policy_views_settle:
  "fst (policy_views rules m now ps db) = fold (\<lambda>r d. fst (settle r now d)) (shown_renewals m ps) db"
  by (induction ps arbitrary: db)
     (simp_all add: shown_renewals_def List.map_filter_simps case_prod_beta Let_def split: option.split)

lemma by_period_in: "gm_get (fold (\<lambda>r m. gm_put (f r) r m) rs m) k = Some r \<Longrightarrow> r \<in> set rs \<or> gm_get m k = Some r"
proof (induction rs arbitrary: m)
  case (Cons a rs)
  from Cons.prems Cons.IH [of "gm_put (f a) a m"] show ?case by (auto split: if_splits)
qed simp

lemma shown_renewals_in: "set (shown_renewals (fold (\<lambda>r m. gm_put (f r) r m) rs []) ps) \<subseteq> set rs"
proof
  fix r assume "r \<in> set (shown_renewals (fold (\<lambda>r m. gm_put (f r) r m) rs []) ps)"
  then obtain k where "gm_get (fold (\<lambda>r m. gm_put (f r) r m) rs []) k = Some r"
    by (auto simp: shown_renewals_def List.map_filter_def)
  from by_period_in [OF this] show "r \<in> set rs" by auto
qed

lemma ListPolicies_leads: "renewal_leads rules y (fst (ListPolicies rules ctx (ry_now y) (ry_db y)))"
proof (cases ctx)
  case None then show ?thesis by (simp add: ListPolicies_def)
next
  case (Some claims)
  let ?ps = "ListByCustomer (sc_Subject claims) (ry_db y)"
  let ?rs = "ListByPolicies (map op_ID ?ps) (ry_db y)"
  let ?m = "fold (\<lambda>r m. gm_put (period_key (rw_PolicyID r) (rw_PeriodEnd r)) r m) ?rs []"
  have eq: "fst (ListPolicies rules ctx (ry_now y) (ry_db y)) = fst (policy_views rules ?m (ry_now y) ?ps (ry_db y))"
    by (simp add: ListPolicies_def Some case_prod_beta Let_def)
  have "set (shown_renewals ?m ?ps) \<subseteq> set (rb_renewals (ry_db y))"
    by (rule subset_trans [OF shown_renewals_in]) (auto simp: ListByPolicies_def)
  then show ?thesis unfolding eq policy_views_settle by (rule settle_all_leads) (metis leads_refl)
qed

section \<open>The sweep\<close>

lemma Renewal_Create_policies [simp]: "rb_policies (fst (Renewal_Create r db)) = rb_policies db"
  by (simp add: Renewal_Create_def Let_def split: option.split)

lemma record_lapses_fold:
  "fst (record_lapses now ps n db) = fold (\<lambda>p d. fst (Renewal_Create (lapse_of p now) d)) ps db"
proof (induction ps arbitrary: n db)
  case (Cons p ps)
  obtain db' res where "Renewal_Create (lapse_of p now) db = (db', res)" by fastforce
  with Cons show ?case by (auto split: sum.split prod.split bool.split)
qed simp

lemma lapses_leads:
  assumes "set ps \<subseteq> set (rb_policies (ry_db y))" and "\<forall>p \<in> set ps. op_CoverageEnd p \<le> ry_now y"
    and "\<And>z. ry_db z = fold (\<lambda>p d. fst (Renewal_Create (lapse_of p (ry_now y)) d)) ps (ry_db y) \<Longrightarrow> ry_now z = ry_now y \<Longrightarrow>
      ry_flight z = ry_flight y \<Longrightarrow> renewal_leads rules z db"
  shows "renewal_leads rules y db"
  using assms
proof (induction ps arbitrary: y)
  case Nil
  show ?case by (rule Nil.prems(3)) simp_all
next
  case (Cons p ps)
  let ?y = "y\<lparr>ry_db := fst (Renewal_Create (lapse_of p (ry_now y)) (ry_db y))\<rparr>"
  have "renewal_step rules y ?y" by (rule renewal_step.lapse) (use Cons.prems in auto)
  moreover have "renewal_leads rules ?y db"
  proof (rule Cons.IH)
    fix z :: renewal_sys
    assume "ry_db z = fold (\<lambda>p d. fst (Renewal_Create (lapse_of p (ry_now ?y)) d)) ps (ry_db ?y)"
      and "ry_now z = ry_now ?y" and "ry_flight z = ry_flight ?y"
    then show "renewal_leads rules z db" by (intro Cons.prems(3)) simp_all
  qed (use Cons.prems(1,2) in simp_all)
  ultimately show ?case by (intro leads_step [of rules y ?y]) simp_all
qed

lemma notify_leads: "renewal_leads rules y (lapse_loop rules' send now rs (ry_db y))"
proof (induction rs arbitrary: y)
  case (Cons r rs)
  show ?case
  proof (cases "\<exists>p. Policy_Get (rw_PolicyID r) (ry_db y) = Inr p \<and> send (lapse_notice rules' p r) = None")
    case True
    let ?y = "y\<lparr>ry_db := MarkNotified (rw_ID r) now False (ry_db y)\<rparr>"
    from True have "lapse_loop rules' send now (r # rs) (ry_db y) = lapse_loop rules' send now rs (ry_db ?y)" by auto
    moreover have "renewal_leads rules ?y (lapse_loop rules' send now rs (ry_db ?y))" by (rule Cons.IH)
    then have "renewal_leads rules y (lapse_loop rules' send now rs (ry_db ?y))"
      by (rule leads_step [OF renewal_step.notified, rotated 2]) simp_all
    ultimately show ?thesis by simp
  next
    case False
    then have "lapse_loop rules' send now (r # rs) (ry_db y) = lapse_loop rules' send now rs (ry_db y)"
      by (auto split: sum.split option.split)
    with Cons show ?thesis by simp
  qed
qed simp

lemma Sweep_leads: "renewal_leads rules y (fst (renewal_Sweep rules' notifier (ry_now y) (ry_db y)))"
proof -
  let ?ps = "ListLapsed (time_Add (ry_now y) (- LapseLookback)) (ry_now y) sweepBatch (ry_db y)"
  let ?db1 = "fst (record_lapses (ry_now y) ?ps 0 (ry_db y))"
  let ?db2 = "fold (\<lambda>r d. fst (settle r (ry_now y) d)) (ListAccepted sweepBatch ?db1) ?db1"
  have eq: "fst (renewal_Sweep rules' notifier (ry_now y) (ry_db y)) = notifyLapses rules' notifier (ry_now y) ?db2"
    by (simp add: renewal_Sweep_def Let_def case_prod_beta)
  have notify: "renewal_leads rules z (notifyLapses rules' notifier (ry_now y) (ry_db z))" for z
    by (simp add: notifyLapses_def notify_leads split: option.split)
  have accepted: "set (ListAccepted n db) \<subseteq> set (rb_renewals db)" for n db
    by (auto simp: ListAccepted_def dest: in_set_takeD)
  have ps: "p \<in> set (rb_policies (ry_db y)) \<and> op_CoverageEnd p \<le> ry_now y" if "p \<in> set ?ps" for p
    using that by (auto simp: ListLapsed_def lapsed_def dest: in_set_takeD)
  show ?thesis unfolding eq
  proof (rule lapses_leads)
    fix z :: renewal_sys
    assume z: "ry_db z = fold (\<lambda>p d. fst (Renewal_Create (lapse_of p (ry_now y)) d)) ?ps (ry_db y)" "ry_now z = ry_now y"
    then have db1: "ry_db z = ?db1" by (simp add: record_lapses_fold)
    show "renewal_leads rules z (notifyLapses rules' notifier (ry_now y) ?db2)"
    proof (rule settle_all_leads)
      show "set (ListAccepted sweepBatch ?db1) \<subseteq> set (rb_renewals (ry_db z))" unfolding db1 by (rule accepted)
    qed (use notify z(2) db1 in metis)
  qed (use ps in auto)
qed

end
