(* ===== verification/Renewal_Safety.thy ===== *)
theory Renewal_Safety
  imports Renewal_Runs
begin

text \<open>
  The invariant of the renewals and its preservation by every step: one renewal per period and
  identifier, a charge of its own for each, the outcome of a renewed one a confirmed charge, and the
  policies the activations of confirmed charges. What is under way agrees with the table.
\<close>

section \<open>The invariant\<close>

text \<open>What a renewal keeps from the moment it is stored.\<close>

definition agreed :: "renewal \<Rightarrow> (string \<times> string \<times> string \<times> time) \<times> (coverage_terms \<times> float64 \<times> string \<times> float64 \<times> bool) \<times> string \<times> time \<times> time \<times> time" where
  "agreed r = ((rw_ID r, rw_PolicyID r, rw_CustomerID r, rw_PeriodEnd r),
     (rw_Terms r, rw_Premium r, rw_Currency r, rw_DiscountRate r, rw_Requoted r), rw_ChargeID r, rw_AcceptedAt r, rw_RetryUntil r,
     rw_CreatedAt r)"

definition renewal_ok :: "renewal_db \<Rightarrow> renewal \<Rightarrow> bool" where
  "renewal_ok db r \<longleftrightarrow>
    (\<exists>p. p \<in> set (rb_policies db) \<and> op_ID p = rw_PolicyID r \<and> op_CoverageEnd p = rw_PeriodEnd r \<and> op_CustomerID p = rw_CustomerID r) \<and>
    rw_ID r = RenewalID (rw_PolicyID r) (rw_PeriodEnd r) \<and>
    rw_ChargeID r = (if rw_Reason r = NotRenewedNoResponse then '''' else rw_ID r) \<and>
    (rw_Reason r = NotRenewedNoReason \<longleftrightarrow> rw_Status r \<noteq> RenewalNotRenewed) \<and>
    (rw_Status r = RenewalRenewed \<longrightarrow>
      (\<exists>c. gm_get (db_charges (rb_charges db)) (rw_ChargeID r) = Some c \<and> ch_Status c = StatusConfirmed \<and> rw_NewPolicyID r = ch_PolicyID c))"

definition projected_ok :: "charge_db \<Rightarrow> orig_policy \<Rightarrow> bool" where
  "projected_ok cs p \<longleftrightarrow> (\<exists>c. gm_get (db_charges cs) (op_AcceptanceID p) = Some c \<and> ch_Status c = StatusConfirmed \<and>
     p = stored_policy (PolicyFrom (ActivationEvent c)))"

definition renewal_db_inv :: "renewal_db \<Rightarrow> bool" where
  "renewal_db_inv db \<longleftrightarrow>
    charge_inv (rb_charges db) \<and> distinct (map op_ID (rb_policies db)) \<and> distinct (map rw_ID (rb_renewals db)) \<and>
    distinct (map (\<lambda>r. (rw_PolicyID r, rw_PeriodEnd r)) (rb_renewals db)) \<and>
    (\<forall>r. r \<in> set (rb_renewals db) \<longrightarrow> renewal_ok db r) \<and>
    (\<forall>i c. gm_get (db_charges (rb_charges db)) i = Some c \<longrightarrow> row_of (rb_renewals db) i c \<and>
       (ch_Status c = StatusConfirmed \<longrightarrow> confirmed_ok c)) \<and>
    (\<forall>p. p \<in> set (rb_policies db) \<longrightarrow> projected_ok (rb_charges db) p)"

definition renewal_for :: "orig_policy \<Rightarrow> renewal \<Rightarrow> bool" where
  "renewal_for p r \<longleftrightarrow> rw_PolicyID r = op_ID p \<and> rw_CustomerID r = op_CustomerID p \<and> rw_PeriodEnd r = op_CoverageEnd p \<and>
     rw_ID r = RenewalID (op_ID p) (op_CoverageEnd p) \<and> rw_ChargeID r = rw_ID r"

definition in_table :: "renewal_db \<Rightarrow> renewal \<Rightarrow> bool" where
  "in_table db r \<longleftrightarrow> (\<exists>q. q \<in> set (rb_renewals db) \<and> agreed q = agreed r)"

definition reading_ok :: "renewal_db \<Rightarrow> orig_policy \<times> renewal \<Rightarrow> bool" where
  "reading_ok db = (\<lambda>(p, r). p \<in> set (rb_policies db) \<and> renewal_for p r \<and> rw_Status r = RenewalAccepted \<and> rw_Reason r = NotRenewedNoReason)"

definition finishing_ok :: "renewal_db \<Rightarrow> orig_policy \<times> renewal \<Rightarrow> bool" where
  "finishing_ok db = (\<lambda>(p, r). p \<in> set (rb_policies db) \<and> renewal_for p r \<and> in_table db r)"

definition settling_ok :: "renewal_db \<Rightarrow> renewal \<times> charge \<times> time \<Rightarrow> bool" where
  "settling_ok db = (\<lambda>(r, c, t). in_table db r \<and> rw_ChargeID r = rw_ID r \<and>
     (\<exists>d. gm_get (db_charges (rb_charges db)) (rw_ChargeID r) = Some d \<and> charge_lasts c d))"

definition working_ok :: "renewal_db \<Rightarrow> charge \<Rightarrow> bool" where
  "working_ok db f \<longleftrightarrow> (\<exists>c. gm_get (db_charges (rb_charges db)) (ch_AcceptanceID f) = Some c \<and> charge_terms c = charge_terms f)"

definition renewal_tasks :: "renewal_sys \<Rightarrow> renewal_db \<Rightarrow> bool" where
  "renewal_tasks y db \<longleftrightarrow> list_all (reading_ok db) (ry_reading y) \<and> list_all (finishing_ok db) (ry_finishing y) \<and>
     list_all (settling_ok db) (ry_settling y) \<and> list_all (working_ok db) (ry_flight y)"

definition renewal_inv :: "renewal_sys \<Rightarrow> bool" where
  "renewal_inv y \<longleftrightarrow> renewal_db_inv (ry_db y) \<and> renewal_tasks y (ry_db y)"

lemma renewal_db_invD:
  assumes "renewal_db_inv db"
  shows "charge_inv (rb_charges db)" and "distinct (map op_ID (rb_policies db))" and "distinct (map rw_ID (rb_renewals db))"
    and "distinct (map (\<lambda>r. (rw_PolicyID r, rw_PeriodEnd r)) (rb_renewals db))"
    and "r \<in> set (rb_renewals db) \<Longrightarrow> renewal_ok db r"
    and "gm_get (db_charges (rb_charges db)) i = Some c \<Longrightarrow> row_of (rb_renewals db) i c"
    and "gm_get (db_charges (rb_charges db)) i = Some c \<Longrightarrow> ch_Status c = StatusConfirmed \<Longrightarrow> confirmed_ok c"
    and "p \<in> set (rb_policies db) \<Longrightarrow> projected_ok (rb_charges db) p"
  using assms by (simp_all add: renewal_db_inv_def)

section \<open>What grows\<close>

definition renewal_grows :: "renewal_db \<Rightarrow> renewal_db \<Rightarrow> bool" where
  "renewal_grows db db' \<longleftrightarrow> set (rb_policies db) \<subseteq> set (rb_policies db') \<and> charges_last (rb_charges db) (rb_charges db') \<and>
    (\<forall>r. r \<in> set (rb_renewals db) \<longrightarrow> in_table db' r)"

lemma in_table_refl [simp]: "r \<in> set (rb_renewals db) \<Longrightarrow> in_table db r"
  by (auto simp: in_table_def)

lemma renewal_grows_refl [simp]: "renewal_grows db db"
  by (simp add: renewal_grows_def)

lemma in_table_grows: "in_table db r \<Longrightarrow> renewal_grows db db' \<Longrightarrow> in_table db' r"
  unfolding in_table_def renewal_grows_def by metis

lemma renewal_tasks_grow:
  assumes t: "renewal_tasks y db" and g: "renewal_grows db db'"
  shows "renewal_tasks y db'"
proof -
  have cs: "\<exists>d'. gm_get (db_charges (rb_charges db')) i = Some d' \<and> charge_lasts d d'"
    if "gm_get (db_charges (rb_charges db)) i = Some d" for i d
    using g that charges_lastD unfolding renewal_grows_def by blast
  have ps: "p \<in> set (rb_policies db) \<Longrightarrow> p \<in> set (rb_policies db')" for p using g by (auto simp: renewal_grows_def)
  have "reading_ok db' x" if "reading_ok db x" for x using that ps by (auto simp: reading_ok_def)
  moreover have "finishing_ok db' x" if "finishing_ok db x" for x using that ps in_table_grows [OF _ g] by (auto simp: finishing_ok_def)
  moreover have "settling_ok db' x" if "settling_ok db x" for x
    using that in_table_grows [OF _ g] cs charge_lasts_trans unfolding settling_ok_def case_prod_beta by meson
  moreover have "working_ok db' f" if "working_ok db f" for f using that cs unfolding working_ok_def charge_lasts_def by metis
  ultimately show ?thesis using t by (auto simp: renewal_tasks_def list_all_iff)
qed

section \<open>The charges\<close>

lemma lasts_ActivationEvent:
  "charge_lasts c d \<Longrightarrow> ch_Status c = StatusConfirmed \<Longrightarrow> ActivationEvent d = ActivationEvent c"
  by (simp add: charge_lasts_def charge_terms_def charge_activation_def ActivationEvent_def)

lemma lasts_row_of: "charge_lasts c d \<Longrightarrow> row_of rs i c \<Longrightarrow> row_of rs i d"
  by (auto simp: charge_lasts_def charge_terms_def row_of_def charge_of_renewal_def)

lemma lasts_confirmed_ok: "charge_lasts c d \<Longrightarrow> ch_Status c = StatusConfirmed \<Longrightarrow> confirmed_ok c \<Longrightarrow> confirmed_ok d"
  by (simp add: charge_lasts_def charge_terms_def charge_activation_def confirmed_ok_def)

lemma renewal_ok_grows:
  assumes ok: "renewal_ok db r" and p: "set (rb_policies db) \<subseteq> set (rb_policies db')" and cs: "charges_last (rb_charges db) (rb_charges db')"
  shows "renewal_ok db' r"
proof -
  have "\<exists>d. gm_get (db_charges (rb_charges db')) (rw_ChargeID r) = Some d \<and> ch_Status d = StatusConfirmed \<and> rw_NewPolicyID r = ch_PolicyID d"
    if "rw_Status r = RenewalRenewed"
  proof -
    from ok that obtain c where c: "gm_get (db_charges (rb_charges db)) (rw_ChargeID r) = Some c" "ch_Status c = StatusConfirmed"
      "rw_NewPolicyID r = ch_PolicyID c" by (auto simp: renewal_ok_def)
    from charges_lastD [OF cs c(1)] c(2,3) show ?thesis by (auto simp: charge_lasts_def charge_activation_def)
  qed
  then show ?thesis using ok p unfolding renewal_ok_def by blast
qed

lemma projected_ok_last:
  assumes "projected_ok cs p" and "charges_last cs cs'"
  shows "projected_ok cs' p"
proof -
  from assms(1) obtain c where c: "gm_get (db_charges cs) (op_AcceptanceID p) = Some c" "ch_Status c = StatusConfirmed"
    "p = stored_policy (PolicyFrom (ActivationEvent c))" unfolding projected_ok_def by blast
  from charges_lastD [OF assms(2) c(1)] obtain d where "gm_get (db_charges cs') (op_AcceptanceID p) = Some d" "charge_lasts c d" by blast
  with c lasts_ActivationEvent show ?thesis unfolding projected_ok_def by (metis charge_lasts_def)
qed

lemma charges_step_keeps:
  assumes inv: "renewal_db_inv db" and st: "charges_step (rb_renewals db) (rb_charges db) cs"
  shows "renewal_db_inv (db\<lparr>rb_charges := cs\<rparr>)" and "renewal_grows db (db\<lparr>rb_charges := cs\<rparr>)"
proof -
  have last: "charges_last (rb_charges db) cs" and ci: "charge_inv cs" using st by (simp_all add: charges_step_def)
  show "renewal_grows db (db\<lparr>rb_charges := cs\<rparr>)" using last by (auto simp: renewal_grows_def in_table_def)
  have row: "row_of (rb_renewals db) i d \<and> (ch_Status d = StatusConfirmed \<longrightarrow> confirmed_ok d)" if d: "gm_get (db_charges cs) i = Some d" for i d
  proof -
    from st d consider (old) c where "gm_get (db_charges (rb_charges db)) i = Some c"
        "ch_Status d = StatusConfirmed \<Longrightarrow> ch_Status c = StatusConfirmed \<or> confirmed_ok d"
      | (new) "row_of (rb_renewals db) i d" "ch_Status d \<noteq> StatusConfirmed" unfolding charges_step_def by blast
    then show ?thesis
    proof cases
      case old
      from charges_lastD [OF last old(1)] d have l: "charge_lasts c d" by simp
      with old lasts_row_of [OF l renewal_db_invD(6) [OF inv old(1)]] lasts_confirmed_ok [OF l] renewal_db_invD(7) [OF inv old(1)]
      show ?thesis by blast
    qed simp
  qed
  have "renewal_ok (db\<lparr>rb_charges := cs\<rparr>) r" if "r \<in> set (rb_renewals db)" for r
    by (rule renewal_ok_grows [OF renewal_db_invD(5) [OF inv that]]) (use last in simp_all)
  moreover have "projected_ok cs p" if "p \<in> set (rb_policies db)" for p
    by (rule projected_ok_last [OF renewal_db_invD(8) [OF inv that] last])
  ultimately show "renewal_db_inv (db\<lparr>rb_charges := cs\<rparr>)"
    using inv ci row by (simp add: renewal_db_inv_def)
qed

section \<open>The policies\<close>

lemma find_policy_Some: "find_policy i db = Some p \<Longrightarrow> p \<in> set (rb_policies db) \<and> op_ID p = i"
  by (auto simp: find_policy_def find_Some_iff)

lemma project_keeps:
  assumes inv: "renewal_db_inv db" and c: "gm_get (db_charges (rb_charges db)) i = Some c" "ch_Status c = StatusConfirmed"
  shows "renewal_db_inv (fst (Projector_Receive (ActivationEvent c) db))" and "renewal_grows db (fst (Projector_Receive (ActivationEvent c) db))"
proof -
  let ?p = "stored_policy (PolicyFrom (ActivationEvent c))"
  have sel: "op_ID ?p = ch_PolicyID c" "op_AcceptanceID ?p = ch_AcceptanceID c" "op_ID (PolicyFrom (ActivationEvent c)) = ch_PolicyID c"
    by (simp_all add: stored_policy_def PolicyFrom_def ActivationEvent_def)
  have "fst (Projector_Receive (ActivationEvent c) db) =
      (if ToMinorUnits (op_Premium (PolicyFrom (ActivationEvent c))) \<le> 0 \<or> find_policy (ch_PolicyID c) db \<noteq> None then db
       else db\<lparr>rb_policies := rb_policies db @ [?p]\<rparr>)"
    by (simp add: Projector_Receive_def Policy_Create_def sel(3))
  then consider (same) "fst (Projector_Receive (ActivationEvent c) db) = db"
    | (new) "fst (Projector_Receive (ActivationEvent c) db) = db\<lparr>rb_policies := rb_policies db @ [?p]\<rparr>" "find_policy (ch_PolicyID c) db = None"
    by metis
  then have "renewal_db_inv (fst (Projector_Receive (ActivationEvent c) db)) \<and> renewal_grows db (fst (Projector_Receive (ActivationEvent c) db))"
  proof cases
    case new
    let ?db = "db\<lparr>rb_policies := rb_policies db @ [?p]\<rparr>"
    have "projected_ok (rb_charges db) ?p" using c charge_invD [OF renewal_db_invD(1) [OF inv] c(1)] by (auto simp: projected_ok_def sel)
    moreover have "op_ID ?p \<notin> op_ID ` set (rb_policies db)" using new(2) sel by (auto simp: find_policy_def find_None_iff)
    moreover have "renewal_ok ?db r" if "r \<in> set (rb_renewals db)" for r
      by (rule renewal_ok_grows [OF renewal_db_invD(5) [OF inv that]]) auto
    moreover have "renewal_grows db ?db" by (auto simp: renewal_grows_def in_table_def)
    ultimately show ?thesis unfolding new(1) using inv by (auto simp: renewal_db_inv_def)
  qed (simp add: inv)
  then show "renewal_db_inv (fst (Projector_Receive (ActivationEvent c) db))" "renewal_grows db (fst (Projector_Receive (ActivationEvent c) db))"
    by blast+
qed

section \<open>The renewals\<close>

lemma row_of_agreed:
  assumes "\<And>r. r \<in> set rs \<Longrightarrow> \<exists>q. q \<in> set rs' \<and> agreed q = agreed r" and "row_of rs i c"
  shows "row_of rs' i c"
  using assms by (fastforce simp: row_of_def charge_of_renewal_def agreed_def)

lemma stored_renewal_sel [simp]:
  "rw_ID (stored_renewal r) = rw_ID r" "rw_PolicyID (stored_renewal r) = rw_PolicyID r" "rw_CustomerID (stored_renewal r) = rw_CustomerID r"
  "rw_PeriodEnd (stored_renewal r) = rw_PeriodEnd r" "rw_Status (stored_renewal r) = rw_Status r" "rw_Reason (stored_renewal r) = rw_Reason r"
  "rw_ChargeID (stored_renewal r) = rw_ChargeID r" "rw_NewPolicyID (stored_renewal r) = rw_NewPolicyID r"
  "rw_NotifiedAt (stored_renewal r) = rw_NotifiedAt r" "rw_RetryUntil (stored_renewal r) = rw_RetryUntil r"
  by (simp_all add: stored_renewal_def)

lemma Renewal_Create_cases:
  obtains (same) res where "Renewal_Create r db = (db, res)"
      "\<And>q b. res = Inr (q, b) \<Longrightarrow> \<not> b \<and> find_renewal (rw_PolicyID r) (rw_PeriodEnd r) db = Some q"
  | (new) "Renewal_Create r db = (db\<lparr>rb_renewals := rb_renewals db @ [stored_renewal r]\<rparr>, Inr (stored_renewal r, True))"
      "find_renewal (rw_PolicyID r) (rw_PeriodEnd r) db = None" "\<not> list_ex (\<lambda>q. rw_ID q = rw_ID r) (rb_renewals db)"
proof (cases "\<exists>res. Renewal_Create r db = (db, res) \<and>
    (\<forall>q b. res = Inr (q, b) \<longrightarrow> \<not> b \<and> find_renewal (rw_PolicyID r) (rw_PeriodEnd r) db = Some q)")
  case True then show ?thesis using same by blast
next
  case False
  then show ?thesis using new by (auto simp: Renewal_Create_def Let_def split: option.splits if_splits)
qed

lemma create_keeps:
  assumes inv: "renewal_db_inv db" and ok: "renewal_ok db r"
  shows "renewal_db_inv (fst (Renewal_Create r db))" and "renewal_grows db (fst (Renewal_Create r db))"
proof -
  have "renewal_db_inv (fst (Renewal_Create r db)) \<and> renewal_grows db (fst (Renewal_Create r db))"
  proof (cases rule: Renewal_Create_cases [of r db])
    case (same res) then show ?thesis using inv by simp
  next
    case new
    let ?db = "db\<lparr>rb_renewals := rb_renewals db @ [stored_renewal r]\<rparr>"
    have g: "renewal_grows db ?db" by (auto simp: renewal_grows_def in_table_def)
    have "rw_ID r \<notin> rw_ID ` set (rb_renewals db)" using new(3) by (auto simp: list_ex_iff)
    moreover have "(rw_PolicyID r, rw_PeriodEnd r) \<notin> (\<lambda>r. (rw_PolicyID r, rw_PeriodEnd r)) ` set (rb_renewals db)"
      using new(2) by (auto simp: find_renewal_def find_None_iff)
    moreover have "renewal_ok ?db q" if "q \<in> set (rb_renewals db)" for q
      by (rule renewal_ok_grows [OF renewal_db_invD(5) [OF inv that]]) simp_all
    moreover have "renewal_ok ?db (stored_renewal r)" using ok unfolding renewal_ok_def by auto
    moreover have "row_of (rb_renewals db @ [stored_renewal r]) i c" if "row_of (rb_renewals db) i c" for i c
      by (rule row_of_agreed [OF _ that]) auto
    ultimately have "renewal_db_inv ?db" using inv by (auto simp: renewal_db_inv_def)
    with g show ?thesis by (simp add: new(1))
  qed
  then show "renewal_db_inv (fst (Renewal_Create r db))" "renewal_grows db (fst (Renewal_Create r db))" by blast+
qed

text \<open>An update of the rows of the renewals that keeps what was agreed.\<close>

lemma update_renewals_sel [simp]:
  "rb_policies (update_renewals cond f db) = rb_policies db" "rb_charges (update_renewals cond f db) = rb_charges db"
  "rb_renewals (update_renewals cond f db) = map (\<lambda>r. if cond r then f r else r) (rb_renewals db)"
  by (simp_all add: update_renewals_def)

lemma update_keeps:
  assumes inv: "renewal_db_inv db" and ag: "\<And>r. r \<in> set (rb_renewals db) \<Longrightarrow> cond r \<Longrightarrow> agreed (f r) = agreed r"
    and ok: "\<And>r. r \<in> set (rb_renewals db) \<Longrightarrow> cond r \<Longrightarrow> renewal_ok db r \<Longrightarrow> renewal_ok db (f r)"
  shows "renewal_db_inv (update_renewals cond f db)" and "renewal_grows db (update_renewals cond f db)"
proof -
  let ?g = "\<lambda>r. if cond r then f r else r"
  have agree: "agreed (?g r) = agreed r" if "r \<in> set (rb_renewals db)" for r using ag that by simp
  then have maps: "map rw_ID (map ?g (rb_renewals db)) = map rw_ID (rb_renewals db)"
    "map (\<lambda>r. (rw_PolicyID r, rw_PeriodEnd r)) (map ?g (rb_renewals db)) = map (\<lambda>r. (rw_PolicyID r, rw_PeriodEnd r)) (rb_renewals db)"
    by (auto simp: agreed_def)
  have tab: "\<exists>q. q \<in> set (map ?g (rb_renewals db)) \<and> agreed q = agreed r" if "r \<in> set (rb_renewals db)" for r
  proof -
    have "?g r \<in> set (map ?g (rb_renewals db))" using that unfolding set_map by (rule imageI)
    with agree [OF that] show ?thesis by blast
  qed
  have "row_of (map ?g (rb_renewals db)) i c" if "row_of (rb_renewals db) i c" for i c
    by (rule row_of_agreed [OF tab that])
  moreover have "renewal_ok (update_renewals cond f db) (?g r)" if r: "r \<in> set (rb_renewals db)" for r
    using renewal_ok_grows [of db "?g r" "update_renewals cond f db"] ok [OF r] renewal_db_invD(5) [OF inv r]
    by auto
  then have "\<forall>r. r \<in> set (map ?g (rb_renewals db)) \<longrightarrow> renewal_ok (update_renewals cond f db) r" unfolding set_map by blast
  moreover have "distinct (map rw_ID (map ?g (rb_renewals db)))" "distinct (map (\<lambda>r. (rw_PolicyID r, rw_PeriodEnd r)) (map ?g (rb_renewals db)))"
    unfolding maps using inv by (simp_all add: renewal_db_inv_def)
  ultimately show "renewal_db_inv (update_renewals cond f db)"
    using inv unfolding renewal_db_inv_def update_renewals_sel by blast
  show "renewal_grows db (update_renewals cond f db)"
    using tab unfolding renewal_grows_def in_table_def update_renewals_sel by simp
qed

lemma renewal_ok_same:
  assumes "renewal_ok db r" and "agreed q = agreed r" and "rw_Reason q = rw_Reason r" and "rw_Status q = rw_Status r"
    and "rw_NewPolicyID q = rw_NewPolicyID r"
  shows "renewal_ok db q"
proof -
  have "rw_ID q = rw_ID r" "rw_PolicyID q = rw_PolicyID r" "rw_CustomerID q = rw_CustomerID r" "rw_PeriodEnd q = rw_PeriodEnd r"
    "rw_ChargeID q = rw_ChargeID r" using assms(2) by (simp_all add: agreed_def)
  note eqs = this
  show ?thesis using assms(1) unfolding renewal_ok_def eqs assms(3-5) .
qed

lemma notified_keeps:
  assumes inv: "renewal_db_inv db"
  shows "renewal_db_inv (MarkNotified i t failed db)" and "renewal_grows db (MarkNotified i t failed db)"
proof -
  let ?f = "\<lambda>r. if failed then r\<lparr>rw_NotificationFailed := True\<rparr> else r\<lparr>rw_NotifiedAt := t\<rparr>"
  have "agreed (?f r) = agreed r" "rw_Reason (?f r) = rw_Reason r" "rw_Status (?f r) = rw_Status r" "rw_NewPolicyID (?f r) = rw_NewPolicyID r" for r
    by (simp_all add: agreed_def)
  note f = this
  have ok: "renewal_ok db (?f r)" if "renewal_ok db r" for r by (rule renewal_ok_same [OF that f])
  show "renewal_db_inv (MarkNotified i t failed db)" "renewal_grows db (MarkNotified i t failed db)"
    unfolding MarkNotified_def by (rule update_keeps [OF inv f(1) ok]; assumption)+
qed

lemma by_id:
  assumes "renewal_db_inv db" and "r \<in> set (rb_renewals db)" and "q \<in> set (rb_renewals db)" and "rw_ID r = rw_ID q"
  shows "r = q"
  using renewal_db_invD(3) [OF assms(1)] assms(2-4) by (auto simp: distinct_map dest: inj_onD)

lemma mark_keeps:
  assumes inv: "renewal_db_inv db"
  shows "renewal_db_inv (fst (MarkNotRenewed i NotRenewedPaymentFailed t db))" and "renewal_grows db (fst (MarkNotRenewed i NotRenewedPaymentFailed t db))"
    and "gm_get (db_charges (rb_charges db)) i = Some c \<Longrightarrow> ch_Status c = StatusConfirmed \<Longrightarrow>
      renewal_db_inv (fst (MarkRenewed i (ch_PolicyID c) t db)) \<and> renewal_grows db (fst (MarkRenewed i (ch_PolicyID c) t db))"
proof -
  let ?n = "\<lambda>r. r\<lparr>rw_Status := RenewalNotRenewed, rw_Reason := NotRenewedPaymentFailed, rw_ClosedAt := t\<rparr>"
  have ag: "agreed (?n r) = agreed r" for r by (simp add: agreed_def)
  have ok: "renewal_ok db (?n r)" if "open_renewal i r" "renewal_ok db r" for r
    using that by (auto simp: renewal_ok_def open_renewal_def)
  show "renewal_db_inv (fst (MarkNotRenewed i NotRenewedPaymentFailed t db))" "renewal_grows db (fst (MarkNotRenewed i NotRenewedPaymentFailed t db))"
    unfolding MarkNotRenewed_def fst_conv by (rule update_keeps [OF inv ag ok]; assumption)+
  assume c: "gm_get (db_charges (rb_charges db)) i = Some c" "ch_Status c = StatusConfirmed"
  let ?m = "\<lambda>r. r\<lparr>rw_Status := RenewalRenewed, rw_NewPolicyID := ch_PolicyID c, rw_ClosedAt := t\<rparr>"
  have ag': "agreed (?m r) = agreed r" for r by (simp add: agreed_def)
  have ok': "renewal_ok db (?m r)" if "open_renewal i r" "renewal_ok db r" for r
    using that c by (auto simp: renewal_ok_def open_renewal_def)
  show "renewal_db_inv (fst (MarkRenewed i (ch_PolicyID c) t db)) \<and> renewal_grows db (fst (MarkRenewed i (ch_PolicyID c) t db))"
    unfolding MarkRenewed_def fst_conv
    by (intro conjI; rule update_keeps [OF inv ag' ok']; assumption)
qed

section \<open>Every step keeps the invariant\<close>

lemma renewal_tasks_frame [simp]:
  "renewal_tasks (y\<lparr>ry_db := d\<rparr>) db = renewal_tasks y db" "renewal_tasks (y\<lparr>ry_now := t\<rparr>) db = renewal_tasks y db"
  unfolding renewal_tasks_def by simp_all

lemma renewal_inv_db:
  assumes "renewal_inv y" and "renewal_db_inv db'" and "renewal_grows (ry_db y) db'"
  shows "renewal_inv (y\<lparr>ry_db := db'\<rparr>)"
  using assms(1,2) renewal_tasks_grow [OF _ assms(3)] by (simp add: renewal_inv_def)

lemma renewal_for_ID: "renewal_for p r \<Longrightarrow> IsRenewalCharge (rw_ChargeID r) \<and> rw_ChargeID r \<noteq> []"
  by (simp add: renewal_for_def RenewalID_def IsRenewalCharge_def)

lemma renewal_inv_step: "renewal_step rules y z \<Longrightarrow> renewal_inv y \<Longrightarrow> renewal_inv z"
proof (induction rule: renewal_step.induct)
  case (tick y t) then show ?case by (simp add: renewal_inv_def)
next
  case (charge y cs)
  then have inv: "renewal_db_inv (ry_db y)" by (simp add: renewal_inv_def)
  from charge_statement_step [OF charge(1) renewal_db_invD(1) [OF inv]] charges_step_keeps [OF inv] charge(2)
  show ?case by (intro renewal_inv_db) blast+
next
  case (claim i y lease cs c)
  then have inv: "renewal_db_inv (ry_db y)" by (simp add: renewal_inv_def)
  have cs: "cs = fst (db_Claim i (ry_now y) lease (rb_charges (ry_db y)))" using claim(1) by simp
  have st: "charges_step (rb_renewals (ry_db y)) (rb_charges (ry_db y)) cs"
    unfolding cs by (rule charges_step_claim [OF renewal_db_invD(1) [OF inv]])
  from claim(1) obtain d where d: "gm_get (db_charges (rb_charges (ry_db y))) i = Some d" "c = claimed_row (ry_now y) lease d"
    "cs = put_charge c (rb_charges (ry_db y))" by (auto simp: db_Claim_def update_one_def split: option.splits if_splits)
  have "gm_get (db_charges cs) (ch_AcceptanceID c) = Some c" unfolding d(3) by simp
  moreover have "renewal_inv (y\<lparr>ry_db := (ry_db y)\<lparr>rb_charges := cs\<rparr>\<rparr>)"
    using charges_step_keeps [OF inv st] claim(2) by (intro renewal_inv_db)
  ultimately show ?case by (auto simp: renewal_inv_def renewal_tasks_def working_ok_def)
next
  case (confirm c y out)
  then have inv: "renewal_db_inv (ry_db y)" and t: "renewal_tasks y (ry_db y)" by (simp_all add: renewal_inv_def)
  from t confirm(1) obtain d where "gm_get (db_charges (rb_charges (ry_db y))) (ch_AcceptanceID c) = Some d" "charge_terms d = charge_terms c"
    by (auto simp: renewal_tasks_def list_all_iff working_ok_def)
  from charges_step_keeps [OF inv charges_step_confirm [OF renewal_db_invD(1) [OF inv] this]] confirm(2)
  show ?case by (intro renewal_inv_db)
next
  case (project y i c)
  then have inv: "renewal_db_inv (ry_db y)" by (simp add: renewal_inv_def)
  from project_keeps [OF inv project(1,2)] project(3) show ?case by (intro renewal_inv_db)
next
  case (accept_read i y p r q)
  then show ?case using find_policy_Some [OF accept_read(1)]
    by (auto simp: renewal_inv_def renewal_tasks_def reading_ok_def renewal_for_def new_renewal_def Let_def RenewalChargeID_def)
next
  case (accept_store y xs p r ys db' stored created)
  then have inv: "renewal_db_inv (ry_db y)" and t: "renewal_tasks y (ry_db y)" by (simp_all add: renewal_inv_def)
  from t accept_store(1) have r: "p \<in> set (rb_policies (ry_db y))" "renewal_for p r" "rw_Status r = RenewalAccepted" "rw_Reason r = NotRenewedNoReason"
    by (auto simp: renewal_tasks_def reading_ok_def)
  then have "renewal_ok (ry_db y) r" by (auto simp: renewal_ok_def renewal_for_def)
  from create_keeps [OF inv this] accept_store(2,3) have keep: "renewal_inv (y\<lparr>ry_db := db'\<rparr>)"
    and g: "renewal_grows (ry_db y) db'" by (auto intro: renewal_inv_db)
  have st: "stored \<in> set (rb_renewals db') \<and> rw_PolicyID stored = rw_PolicyID r \<and> rw_PeriodEnd stored = rw_PeriodEnd r"
    using accept_store(2)
    by (cases rule: Renewal_Create_cases [of r "ry_db y"]) (auto simp: find_renewal_def find_Some_iff)
  have pols: "p \<in> set (rb_policies db')" using g r(1) by (auto simp: renewal_grows_def)
  have "renewal_for p stored" if ns: "rw_Status stored \<noteq> RenewalNotRenewed"
  proof -
    have db': "renewal_db_inv db'" using keep by (simp add: renewal_inv_def)
    from renewal_db_invD(5) [OF db'] st have ok: "renewal_ok db' stored" by blast
    then obtain q where q: "q \<in> set (rb_policies db')" "op_ID q = rw_PolicyID stored" "rw_CustomerID stored = op_CustomerID q"
      unfolding renewal_ok_def by metis
    have "inj_on op_ID (set (rb_policies db'))" using renewal_db_invD(2) [OF db'] by (simp add: distinct_map)
    then have "q = p" using q(1,2) pols st r(2) by (auto simp: renewal_for_def dest: inj_onD)
    with ok ns q st r(2) show ?thesis by (auto simp: renewal_for_def renewal_ok_def)
  qed
  with keep st pols accept_store(1) show ?case by (auto simp: renewal_inv_def renewal_tasks_def finishing_ok_def)
next
  case (accept_again i y p r)
  then have inv: "renewal_db_inv (ry_db y)" by (simp add: renewal_inv_def)
  from accept_again(2) have r: "r \<in> set (rb_renewals (ry_db y))" "rw_PolicyID r = op_ID p" "rw_PeriodEnd r = op_CoverageEnd p"
    by (auto simp: find_renewal_def find_Some_iff)
  have p: "p \<in> set (rb_policies (ry_db y))" using find_policy_Some [OF accept_again(1)] by simp
  from renewal_db_invD(5) [OF inv r(1)] obtain q where q: "q \<in> set (rb_policies (ry_db y))" "op_ID q = rw_PolicyID r" "rw_CustomerID r = op_CustomerID q"
    unfolding renewal_ok_def by metis
  have "inj_on op_ID (set (rb_policies (ry_db y)))" using renewal_db_invD(2) [OF inv] by (simp add: distinct_map)
  then have "q = p" using q(1,2) p r(2) by (auto dest: inj_onD)
  with renewal_db_invD(5) [OF inv r(1)] r q accept_again(3) have "renewal_for p r" by (auto simp: renewal_for_def renewal_ok_def)
  with p r(1) accept_again(4) show ?case by (auto simp: renewal_inv_def renewal_tasks_def finishing_ok_def)
next
  case (finish p r y)
  then have inv: "renewal_db_inv (ry_db y)" and t: "renewal_tasks y (ry_db y)" by (simp_all add: renewal_inv_def)
  from t finish(1) have r: "renewal_for p r" "in_table (ry_db y) r" by (auto simp: renewal_tasks_def list_all_iff finishing_ok_def)
  then obtain q where q: "q \<in> set (rb_renewals (ry_db y))" "agreed q = agreed r" by (auto simp: in_table_def)
  let ?c = "NewRenewalCharge p r (ry_now y)"
  have "charge_of_renewal q (inserted_row ?c)"
    using r(1) q(2) by (simp add: charge_of_renewal_def inserted_row_def NewRenewalCharge_def renewal_for_def agreed_def)
  moreover have "rw_ChargeID q = ch_AcceptanceID ?c" using q(2) by (simp add: agreed_def NewRenewalCharge_def)
  moreover have "IsRenewalCharge (ch_AcceptanceID ?c)" using renewal_for_ID [OF r(1)] by (simp add: NewRenewalCharge_def)
  ultimately have "row_of (rb_renewals (ry_db y)) (ch_AcceptanceID ?c) (inserted_row ?c)" using q(1) by (auto simp: row_of_def)
  from charges_step_keeps [OF inv charges_step_create [OF renewal_db_invD(1) [OF inv] this]] finish(3)
  show ?case by (auto simp: on_charges_def case_prod_beta intro: renewal_inv_db)
next
  case (settle_read r y c t)
  then have "renewal_ok (ry_db y) r" by (simp add: renewal_inv_def renewal_db_inv_def)
  with settle_read have "rw_ChargeID r = rw_ID r" by (auto simp: renewal_ok_def)
  with settle_read show ?case by (auto simp: renewal_inv_def renewal_tasks_def settling_ok_def)
next
  case (settle_renewed r c t y)
  then have inv: "renewal_db_inv (ry_db y)" and ta: "renewal_tasks y (ry_db y)" by (simp_all add: renewal_inv_def)
  from ta settle_renewed(1) obtain d where d: "gm_get (db_charges (rb_charges (ry_db y))) (rw_ID r) = Some d" "charge_lasts c d"
    by (auto simp: renewal_tasks_def list_all_iff settling_ok_def)
  then have "ch_Status d = StatusConfirmed" "ch_PolicyID d = ch_PolicyID c"
    using settle_renewed(2) by (simp_all add: charge_lasts_def charge_activation_def)
  with mark_keeps(3) [OF inv d(1)] settle_renewed(3) show ?case by (auto intro: renewal_inv_db)
next
  case (settle_failed r c t y)
  then have inv: "renewal_db_inv (ry_db y)" by (simp add: renewal_inv_def)
  from mark_keeps(1,2) [OF inv] settle_failed(3) show ?case by (intro renewal_inv_db)
next
  case (lapse p y t)
  then have inv: "renewal_db_inv (ry_db y)" by (simp add: renewal_inv_def)
  have "renewal_ok (ry_db y) (lapse_of p t)" using lapse(1) by (auto simp: renewal_ok_def lapse_of_def)
  from create_keeps [OF inv this] lapse(4) show ?case by (intro renewal_inv_db)
next
  case (notified y i t failed)
  then have inv: "renewal_db_inv (ry_db y)" by (simp add: renewal_inv_def)
  from notified_keeps [OF inv] notified show ?case by (intro renewal_inv_db)
qed

lemma renewal_inv_init: "renewal_inv (renewal_init t)"
  by (simp add: renewal_inv_def renewal_init_def renewal_db_inv_def renewal_tasks_def empty_renewal_db_def empty_charge_db_def charge_inv_def)

lemma renewal_inv_reach: "renewal_reach rules y \<Longrightarrow> renewal_inv y"
proof -
  have "renewal_inv y" if "(renewal_step rules)\<^sup>*\<^sup>* (renewal_init t) y" for t
    using that by (induction rule: rtranclp_induct) (auto intro: renewal_inv_step renewal_inv_init)
  then show "renewal_reach rules y \<Longrightarrow> renewal_inv y" by (auto simp: renewal_reach_def)
qed

end
