(* ===== verification/Renewal_Scenario.thy ===== *)
theory Renewal_Scenario
  imports Renewal_Calls Renewal_Safety Billing_Scenario
begin

text \<open>
  Runs of the renewals, evaluated. \<open>exec_renewal\<close> runs one command on the definitions of the model; a call of
  the service is the call itself, and \<open>Renewal_Calls\<close> makes it a sequence of the steps of
  \<^const>\<open>renewal_step\<close>. What a list of commands leaves in the tables is therefore the tables of a
  reachable state: \<open>run_matches\<close> says so, and that the state reached is on the way to the next one.
\<close>

section \<open>Commands\<close>

datatype renewal_cmd =
    RTick time | RStart charge | RAttach string payment_method | RTake string duration | RConfirm outcome | RProject string
  | RAccept "unit renewal_engine" sec_context string | RStatus sec_context string | RSweep "(renewal_notice \<Rightarrow> go_error option) option"

fun exec_renewal :: "renewal_policy \<Rightarrow> renewal_cmd \<Rightarrow> renewal_sys \<Rightarrow> renewal_sys" where
  "exec_renewal rules (RTick t) y = (if ry_now y \<le> t then y\<lparr>ry_now := t\<rparr> else y)"
| "exec_renewal rules (RStart c) y =
    (if fresh_charge c \<and> \<not> IsRenewalCharge (ch_AcceptanceID c) \<and> ch_RenewalOf c = ''''
     then y\<lparr>ry_db := fst (on_charges (CreatePending c) (ry_db y))\<rparr> else y)"
| "exec_renewal rules (RAttach i m) y = y\<lparr>ry_db := fst (on_charges (db_AttachPaymentMethod i m (ry_now y)) (ry_db y))\<rparr>"
| "exec_renewal rules (RTake i lease) y =
    (case on_charges (db_Claim i (ry_now y) lease) (ry_db y) of
       (db', Inr (Some c)) \<Rightarrow> y\<lparr>ry_db := db', ry_flight := c # ry_flight y\<rparr>
     | _ \<Rightarrow> y)"
| "exec_renewal rules (RConfirm out) y =
    (case ry_flight y of
       [] \<Rightarrow> y | c # _ \<Rightarrow> y\<lparr>ry_db := fst (on_charges (db_Confirm c (ry_now y) out) (ry_db y))\<rparr>)"
| "exec_renewal rules (RProject i) y =
    (case gm_get (db_charges (rb_charges (ry_db y))) i of
       None \<Rightarrow> y
     | Some c \<Rightarrow> if ch_Status c = StatusConfirmed then y\<lparr>ry_db := fst (Projector_Receive (ActivationEvent c) (ry_db y))\<rparr> else y)"
| "exec_renewal rules (RAccept eng ctx i) y = y\<lparr>ry_db := fst (Accept rules eng ctx i (ry_now y) (ry_now y) (ry_db y))\<rparr>"
| "exec_renewal rules (RStatus ctx i) y = y\<lparr>ry_db := fst (renewal_Status ctx i (ry_now y) (ry_db y))\<rparr>"
| "exec_renewal rules (RSweep notifier) y = y\<lparr>ry_db := fst (renewal_Sweep rules notifier (ry_now y) (ry_db y))\<rparr>"

text \<open>The tables, the clock and what the worker of the charges holds.\<close>

definition run_matches :: "renewal_sys \<Rightarrow> renewal_sys \<Rightarrow> bool" where
  "run_matches y s \<longleftrightarrow> ry_db y = ry_db s \<and> ry_now y = ry_now s \<and> ry_flight y = ry_flight s"

lemma matches_leads:
  assumes "run_matches y s" and "renewal_leads rules y db"
  shows "\<exists>z. (renewal_step rules)\<^sup>*\<^sup>* y z \<and> run_matches z (s\<lparr>ry_db := db\<rparr>)"
  using assms by (auto simp: run_matches_def renewal_leads_def)

lemma matches_step:
  "renewal_step rules y z \<Longrightarrow> run_matches z s \<Longrightarrow> \<exists>z. (renewal_step rules)\<^sup>*\<^sup>* y z \<and> run_matches z s"
  by blast

lemma matches_charge:
  assumes "run_matches y s" and "charge_statement (rb_charges (ry_db s)) (fst (f (rb_charges (ry_db s))))"
  shows "\<exists>z. (renewal_step rules)\<^sup>*\<^sup>* y z \<and> run_matches z (s\<lparr>ry_db := fst (on_charges f (ry_db s))\<rparr>)"
proof (rule matches_step [OF renewal_step.charge])
  show "charge_statement (rb_charges (ry_db y)) (fst (f (rb_charges (ry_db s))))" using assms by (simp add: run_matches_def)
qed (use assms(1) in \<open>simp add: run_matches_def on_charges_def case_prod_beta\<close>)

lemma exec_renewal_steps:
  assumes m: "run_matches y s"
  shows "\<exists>z. (renewal_step rules)\<^sup>*\<^sup>* y z \<and> run_matches z (exec_renewal rules cmd s)"
proof -
  have eq: "ry_db y = ry_db s" "ry_now y = ry_now s" "ry_flight y = ry_flight s" using m by (simp_all add: run_matches_def)
  have same: "\<exists>z. (renewal_step rules)\<^sup>*\<^sup>* y z \<and> run_matches z s" using m by blast
  show ?thesis
  proof (cases cmd)
    case (RTick t)
    show ?thesis
    proof (cases "ry_now s \<le> t")
      case True
      with eq have st: "renewal_step rules y (y\<lparr>ry_now := t\<rparr>)" by (intro renewal_step.tick) simp
      with True RTick show ?thesis by (intro matches_step [OF st]) (simp_all add: run_matches_def eq)
    qed (simp add: RTick same)
  next
    case (RStart c)
    with matches_charge [OF m, of "CreatePending c"] charge_statement.start [of c] same show ?thesis by simp
  next
    case (RAttach i a)
    with matches_charge [OF m, of "db_AttachPaymentMethod i a (ry_now s)"] charge_statement.attach show ?thesis by simp
  next
    case (RTake i lease)
    show ?thesis
    proof (cases "\<exists>cs c. db_Claim i (ry_now s) lease (rb_charges (ry_db s)) = (cs, Inr (Some c))")
      case True
      then obtain cs c where cl: "db_Claim i (ry_now s) lease (rb_charges (ry_db s)) = (cs, Inr (Some c))" by blast
      then have st: "renewal_step rules y (y\<lparr>ry_db := (ry_db y)\<lparr>rb_charges := cs\<rparr>, ry_flight := c # ry_flight y\<rparr>)"
        by (intro renewal_step.claim) (simp add: eq)
      with cl RTake show ?thesis by (intro matches_step [OF st]) (simp_all add: run_matches_def eq on_charges_def)
    next
      case False
      then have "exec_renewal rules cmd s = s" by (auto simp: RTake on_charges_def split: prod.split sum.split option.split)
      with same show ?thesis by simp
    qed
  next
    case (RConfirm out)
    show ?thesis
    proof (cases "ry_flight s")
      case (Cons c cs)
      then have st: "renewal_step rules y
          (y\<lparr>ry_db := (ry_db y)\<lparr>rb_charges := fst (db_Confirm c (ry_now y) out (rb_charges (ry_db y)))\<rparr>\<rparr>)"
        by (intro renewal_step.confirm) (simp add: eq)
      with Cons RConfirm show ?thesis by (intro matches_step [OF st]) (simp_all add: run_matches_def eq on_charges_def case_prod_beta)
    qed (simp add: RConfirm same)
  next
    case (RProject i)
    show ?thesis
    proof (cases "\<exists>c. gm_get (db_charges (rb_charges (ry_db s))) i = Some c \<and> ch_Status c = StatusConfirmed")
      case True
      then obtain c where c: "gm_get (db_charges (rb_charges (ry_db s))) i = Some c" "ch_Status c = StatusConfirmed" by blast
      then have st: "renewal_step rules y (y\<lparr>ry_db := fst (Projector_Receive (ActivationEvent c) (ry_db y))\<rparr>)"
        by (intro renewal_step.project) (simp_all add: eq)
      with c RProject show ?thesis by (intro matches_step [OF st]) (simp_all add: run_matches_def eq)
    next
      case False
      then have "exec_renewal rules cmd s = s" by (auto simp: RProject split: option.split)
      with same show ?thesis by simp
    qed
  next
    case (RAccept eng ctx i)
    with matches_leads [OF m Accept_leads] show ?thesis by (simp add: eq)
  next
    case (RStatus ctx i)
    with matches_leads [OF m Status_leads] show ?thesis by (simp add: eq)
  next
    case (RSweep notifier)
    with matches_leads [OF m Sweep_leads] show ?thesis by (simp add: eq)
  qed
qed

definition renewal_run :: "renewal_policy \<Rightarrow> renewal_cmd list \<Rightarrow> renewal_sys \<Rightarrow> renewal_sys" where
  "renewal_run rules cmds s = foldl (\<lambda>y c. exec_renewal rules c y) s cmds"

lemma renewal_run_append: "renewal_run rules (as @ bs) s = renewal_run rules bs (renewal_run rules as s)"
  by (simp add: renewal_run_def)

lemma renewal_run_steps:
  "run_matches y s \<Longrightarrow> \<exists>z. (renewal_step rules)\<^sup>*\<^sup>* y z \<and> run_matches z (renewal_run rules cmds s)"
proof (induction cmds arbitrary: y s)
  case (Cons cmd cmds)
  obtain x where x: "(renewal_step rules)\<^sup>*\<^sup>* y x" "run_matches x (exec_renewal rules cmd s)"
    using exec_renewal_steps [OF Cons.prems] by blast
  from Cons.IH [OF x(2)] x(1) show ?case by (auto simp: renewal_run_def intro: rtranclp_trans)
qed (auto simp: renewal_run_def)

lemma renewal_run_reachable: "0 < t \<Longrightarrow> \<exists>y. renewal_reach rules y \<and> run_matches y (renewal_run rules cmds (renewal_init t))"
  using renewal_run_steps [of "renewal_init t" "renewal_init t" rules cmds] by (auto simp: renewal_reach_def run_matches_def)

section \<open>One policy\<close>

definition run_engine :: "unit renewal_engine" where
  "run_engine = \<lparr>eng_customer = None, eng_profile = None, eng_rate = (\<lambda>_. Inl (errors_New ''no engine'')),
     eng_claims = (\<lambda>_. Inr 0)\<rparr>"

definition run_customer :: sec_context where
  "run_customer = Some \<lparr>sc_Subject = ''ana'', sc_Username = ''ana'', sc_Email = '''', sc_PartnerID = '''',
     sc_TokenUse = ''access'', sc_ClientID = '''', sc_Roles = [], sc_IssuedAt = 0, sc_ExpiresAt = 0\<rparr>"

definition run_charge :: "string \<Rightarrow> charge" where
  "run_charge i = NewCharge (run_acceptance\<lparr>ac_ID := i\<rparr>) run_offer run_coverage_terms 100 (WindowEnd run_policy 100)"

definition run_policy_of :: "string \<Rightarrow> renewal_cmd list" where
  "run_policy_of i = [RStart (run_charge i), RAttach i (run_card ''tok_11111''), RTick 120, RTake i 30, RConfirm \<lparr>oc_Reference = ''ok''\<rparr>, RProject i]"

text \<open>A policy that is renewed: the window opens 335 days after the coverage starts.\<close>

definition run_renewal_id :: string where
  "run_renewal_id = ''ren-pol-a1-00020101''"

definition run_accepts :: "renewal_cmd list" where
  "run_accepts = run_policy_of ''a1'' @ [RTick (336 * day_ns), RAccept run_engine run_customer (PolicyIDFor ''a1'')]"

definition run_pays :: "renewal_cmd list" where
  "run_pays = [RTick (337 * day_ns), RTake run_renewal_id 30, RConfirm \<lparr>oc_Reference = ''ok2''\<rparr>, RProject run_renewal_id,
     RStatus run_customer (PolicyIDFor ''a1'')]"

text \<open>The worker of the charges takes the charge after the deadline, when a sweep has closed the renewal.\<close>

definition run_late :: "renewal_cmd list" where
  "run_late = [RTick (340 * day_ns), RSweep None, RTick (341 * day_ns), RTake run_renewal_id 30, RConfirm \<lparr>oc_Reference = ''ok2''\<rparr>, RProject run_renewal_id]"

section \<open>What the runs reach\<close>

definition run_renewed :: renewal_sys where
  "run_renewed = renewal_run DefaultRenewalPolicy (run_accepts @ run_pays) (renewal_init 50)"

definition run_closed :: renewal_sys where
  "run_closed = renewal_run DefaultRenewalPolicy (run_accepts @ run_late) (renewal_init 50)"

definition run_insured :: "string \<Rightarrow> renewal_sys" where
  "run_insured i = renewal_run DefaultRenewalPolicy (run_policy_of i) (renewal_init 50)"

lemma run_states_reachable:
  "\<exists>y. renewal_reach DefaultRenewalPolicy y \<and> run_matches y run_renewed"
  "\<exists>y. renewal_reach DefaultRenewalPolicy y \<and> run_matches y run_closed"
  "\<exists>y. renewal_reach DefaultRenewalPolicy y \<and> run_matches y (run_insured i)"
  unfolding run_renewed_def run_closed_def run_insured_def by (rule renewal_run_reachable, simp)+

lemma run_renewed_state:
  "list_ex (\<lambda>r. rw_ID r = ''ren-pol-a1-00020101'' \<and> rw_Status r = RenewalRenewed) (rb_renewals (ry_db run_renewed)) \<and>
   list_ex (\<lambda>p. op_ID p = ''pol-ren-pol-a1-00020101'' \<and> op_RenewalOf p = ''pol-a1'') (rb_policies (ry_db run_renewed))"
proof -
  have "let y = run_renewed in list_ex (\<lambda>r. rw_ID r = ''ren-pol-a1-00020101'' \<and> rw_Status r = RenewalRenewed) (rb_renewals (ry_db y)) \<and>
     list_ex (\<lambda>p. op_ID p = ''pol-ren-pol-a1-00020101'' \<and> op_RenewalOf p = ''pol-a1'') (rb_policies (ry_db y))"
    by code_simp
  then show ?thesis unfolding Let_def .
qed

lemma run_closed_state:
  "list_ex (\<lambda>r. rw_Status r = RenewalNotRenewed \<and> rw_Reason r = NotRenewedPaymentFailed \<and>
     (case gm_get (db_charges (rb_charges (ry_db run_closed))) (rw_ChargeID r) of None \<Rightarrow> False
      | Some c \<Rightarrow> ch_Status c = StatusConfirmed \<and> rw_ClosedAt r < ch_ConfirmedAt c \<and>
          list_ex (\<lambda>p. op_ID p = ch_PolicyID c \<and> op_RenewalOf p = rw_PolicyID r) (rb_policies (ry_db run_closed))))
   (rb_renewals (ry_db run_closed))"
proof -
  have "let y = run_closed in list_ex (\<lambda>r. rw_Status r = RenewalNotRenewed \<and> rw_Reason r = NotRenewedPaymentFailed \<and>
     (case gm_get (db_charges (rb_charges (ry_db y))) (rw_ChargeID r) of None \<Rightarrow> False
      | Some c \<Rightarrow> ch_Status c = StatusConfirmed \<and> rw_ClosedAt r < ch_ConfirmedAt c \<and>
          list_ex (\<lambda>p. op_ID p = ch_PolicyID c \<and> op_RenewalOf p = rw_PolicyID r) (rb_policies (ry_db y))))
     (rb_renewals (ry_db y))"
    by code_simp
  then show ?thesis unfolding Let_def .
qed

lemma run_insured_state:
  "find_policy (PolicyIDFor (replicate 110 CHR ''a'')) (ry_db (run_insured (replicate 110 CHR ''a''))) \<noteq> None"
  "ListLapsed (time_Add (366 * day_ns) (- LapseLookback)) (366 * day_ns) sweepBatch (ry_db (run_insured ''a1'')) \<noteq> []"
  "\<not> isl (snd (Accept DefaultRenewalPolicy run_engine run_customer (PolicyIDFor ''a1'') (336 * day_ns) (336 * day_ns)
     (ry_db (run_insured ''a1''))))"
  by code_simp+

end
