(* ===== verification/Renewal_Properties.thy ===== *)
theory Renewal_Properties
  imports Renewal_Scenario
begin

text \<open>
  The properties of the renewals: over the runs of \<open>Renewal_Runs\<close>, with the invariant of
  \<open>Renewal_Safety\<close>, and of the service itself.
\<close>

section \<open>Outcomes\<close>

definition outcome_of :: "renewal \<Rightarrow> renewal_status \<times> not_renewed_reason \<times> string \<times> time" where
  "outcome_of r = (rw_Status r, rw_Reason r, rw_NewPolicyID r, rw_ClosedAt r)"

definition stays :: "renewal \<Rightarrow> renewal \<Rightarrow> bool" where
  "stays r q \<longleftrightarrow> agreed q = agreed r \<and> (rw_Status r \<noteq> RenewalAccepted \<longrightarrow> outcome_of q = outcome_of r)"

definition renewals_stay :: "renewal_db \<Rightarrow> renewal_db \<Rightarrow> bool" where
  "renewals_stay db db' \<longleftrightarrow> (\<forall>r. r \<in> set (rb_renewals db) \<longrightarrow> (\<exists>q. q \<in> set (rb_renewals db') \<and> stays r q))"

lemma stays_refl [simp]: "stays r r"
  by (simp add: stays_def)

lemma stays_trans: "stays a b \<Longrightarrow> stays b c \<Longrightarrow> stays a c"
  by (auto simp: stays_def outcome_of_def)

lemma renewals_stay_refl [simp]: "renewals_stay db db"
  by (auto simp: renewals_stay_def)

lemma renewals_stay_same: "rb_renewals db' = rb_renewals db \<Longrightarrow> renewals_stay db db'"
  by (auto simp: renewals_stay_def)

lemma renewals_stay_trans: "renewals_stay a b \<Longrightarrow> renewals_stay b c \<Longrightarrow> renewals_stay a c"
  unfolding renewals_stay_def by (meson stays_trans)

lemma renewals_stay_create: "renewals_stay db (fst (Renewal_Create r db))"
  by (rule Renewal_Create_cases [of r db]) (auto simp: renewals_stay_def)

lemma renewals_stay_update:
  assumes "\<And>r. cond r \<Longrightarrow> stays r (f r)"
  shows "renewals_stay db (update_renewals cond f db)"
  unfolding renewals_stay_def
proof (intro allI impI)
  fix r assume r: "r \<in> set (rb_renewals db)"
  have "(if cond r then f r else r) \<in> set (rb_renewals (update_renewals cond f db))" using r by auto
  with assms show "\<exists>q. q \<in> set (rb_renewals (update_renewals cond f db)) \<and> stays r q" by (metis stays_refl)
qed

lemma renewals_stay_marks:
  "renewals_stay db (fst (MarkRenewed i n t db))" "renewals_stay db (fst (MarkNotRenewed i reason t db))"
  "renewals_stay db (MarkNotified i t failed db)"
  unfolding MarkRenewed_def MarkNotRenewed_def MarkNotified_def fst_conv
  by (rule renewals_stay_update, simp add: stays_def agreed_def outcome_of_def open_renewal_def)+

lemma renewals_stay_step: "renewal_step rules y z \<Longrightarrow> renewals_stay (ry_db y) (ry_db z)"
proof (induction rule: renewal_step.induct)
  case (project y i c)
  then show ?case by (intro renewals_stay_same) (auto simp: Projector_Receive_def Policy_Create_def)
next
  case (accept_store y xs p r ys db' stored created)
  then show ?case using renewals_stay_create [of "ry_db y" r] by simp
next
  case (finish p r y)
  then show ?case by (intro renewals_stay_same) (simp add: on_charges_def case_prod_beta)
qed (simp_all add: renewals_stay_same renewals_stay_marks renewals_stay_create)

lemma renewals_stay_steps: "(renewal_step rules)\<^sup>*\<^sup>* y z \<Longrightarrow> renewals_stay (ry_db y) (ry_db z)"
  by (induction rule: rtranclp_induct) (auto intro: renewals_stay_trans renewals_stay_step)

lemma renewal_reach_steps: "renewal_reach rules y \<Longrightarrow> (renewal_step rules)\<^sup>*\<^sup>* y z \<Longrightarrow> renewal_reach rules z"
  unfolding renewal_reach_def by (meson rtranclp_trans)

lemma reach_renewal_db: "renewal_reach rules y \<Longrightarrow> renewal_db_inv (ry_db y)"
  using renewal_inv_reach by (auto simp: renewal_inv_def)

lemma by_period:
  assumes "renewal_db_inv db" and "r \<in> set (rb_renewals db)" and "q \<in> set (rb_renewals db)"
    and "rw_PolicyID q = rw_PolicyID r" and "rw_PeriodEnd q = rw_PeriodEnd r"
  shows "q = r"
proof -
  have "inj_on (\<lambda>r. (rw_PolicyID r, rw_PeriodEnd r)) (set (rb_renewals db))"
    using renewal_db_invD(4) [OF assms(1)] by (simp add: distinct_map)
  from inj_onD [OF this _ assms(3,2)] assms(4,5) show ?thesis by simp
qed

lemma find_renewal_Some: "find_renewal i t db = Some r \<Longrightarrow> r \<in> set (rb_renewals db) \<and> rw_PolicyID r = i \<and> rw_PeriodEnd r = t"
  by (auto simp: find_renewal_def find_Some_iff)

lemma find_renewal_in:
  assumes "renewal_db_inv db" and "r \<in> set (rb_renewals db)"
  shows "find_renewal (rw_PolicyID r) (rw_PeriodEnd r) db = Some r"
proof (cases "find_renewal (rw_PolicyID r) (rw_PeriodEnd r) db")
  case None
  with assms(2) show ?thesis unfolding find_renewal_def find_None_iff by blast
next
  case (Some q)
  then have "q \<in> set (rb_renewals db)" "rw_PolicyID q = rw_PolicyID r" "rw_PeriodEnd q = rw_PeriodEnd r"
    using find_renewal_Some by blast+
  from by_period [OF assms this] Some show ?thesis by simp
qed

lemma filter_single:
  "distinct xs \<Longrightarrow> q \<in> set xs \<Longrightarrow> P q \<Longrightarrow> (\<And>k. k \<in> set xs \<Longrightarrow> P k \<Longrightarrow> k = q) \<Longrightarrow> filter P xs = [q]"
proof (induction xs)
  case (Cons x xs)
  note only = Cons.prems(4)
  show ?case
  proof (cases "x = q")
    case True
    have "\<not> P k" if "k \<in> set xs" for k using only [of k] Cons.prems(1) that True by auto
    then have "filter P xs = []" by (simp add: filter_empty_conv)
    with True Cons.prems(3) show ?thesis by simp
  next
    case False
    with only [of x] have "\<not> P x" by auto
    moreover have "filter P xs = [q]" by (rule Cons.IH) (use Cons.prems(1-3) False only in auto)
    ultimately show ?thesis by simp
  qed
qed simp

text \<open>C22. There is one renewal per policy and period, and its outcome is final. Whatever happens after it is
  stored, the period keeps that one renewal with the conditions, the charge and the deadline that were
  accepted; once it is renewed or not renewed, neither the outcome, nor its reason, nor the new policy,
  nor the instant it was closed changes.\<close>

theorem one_outcome_per_period:
  assumes "renewal_reach rules y" and "(renewal_step rules)\<^sup>*\<^sup>* y z" and "r \<in> set (rb_renewals (ry_db y))"
  shows "\<exists>q. filter (\<lambda>k. rw_PolicyID k = rw_PolicyID r \<and> rw_PeriodEnd k = rw_PeriodEnd r) (rb_renewals (ry_db z)) = [q] \<and>
    agreed q = agreed r \<and> (rw_Status r \<noteq> RenewalAccepted \<longrightarrow> outcome_of q = outcome_of r)"
proof -
  have inv: "renewal_db_inv (ry_db z)" by (rule reach_renewal_db [OF renewal_reach_steps [OF assms(1,2)]])
  from renewals_stay_steps [OF assms(2)] assms(3) obtain q where q: "q \<in> set (rb_renewals (ry_db z))" "stays r q"
    unfolding renewals_stay_def by blast
  let ?p = "\<lambda>k. rw_PolicyID k = rw_PolicyID r \<and> rw_PeriodEnd k = rw_PeriodEnd r"
  have pq: "?p q" using q(2) by (simp add: stays_def agreed_def)
  have "filter ?p (rb_renewals (ry_db z)) = [q]"
  proof (rule filter_single)
    show "distinct (rb_renewals (ry_db z))" using renewal_db_invD(3) [OF inv] by (simp add: distinct_map)
    show "k = q" if "k \<in> set (rb_renewals (ry_db z))" "?p k" for k
      by (rule by_period [OF inv q(1) that(1)]) (use that(2) pq in simp_all)
  qed (use q(1) pq in simp_all)
  with q(2) show ?thesis by (auto simp: stays_def)
qed

theorem one_outcome_per_period_witness:
  "\<exists>y z r q. renewal_reach DefaultRenewalPolicy y \<and> (renewal_step DefaultRenewalPolicy)\<^sup>*\<^sup>* y z \<and>
    run_matches z (renewal_run DefaultRenewalPolicy [RTick (400 * day_ns), RSweep None] run_renewed) \<and>
    r \<in> set (rb_renewals (ry_db y)) \<and> rw_Status r = RenewalRenewed \<and>
    filter (\<lambda>k. rw_PolicyID k = rw_PolicyID r \<and> rw_PeriodEnd k = rw_PeriodEnd r) (rb_renewals (ry_db z)) = [q] \<and>
    outcome_of q = outcome_of r"
proof -
  obtain y where y: "renewal_reach DefaultRenewalPolicy y" "run_matches y run_renewed" using run_states_reachable(1) by blast
  obtain r where r: "r \<in> set (rb_renewals (ry_db y))" "rw_Status r = RenewalRenewed"
    using run_renewed_state y(2) by (auto simp: list_ex_iff run_matches_def)
  obtain z where z: "(renewal_step DefaultRenewalPolicy)\<^sup>*\<^sup>* y z"
    "run_matches z (renewal_run DefaultRenewalPolicy [RTick (400 * day_ns), RSweep None] run_renewed)"
    using renewal_run_steps [OF y(2)] by blast
  from one_outcome_per_period [OF y(1) z(1) r(1)] r(2) obtain q where
    "filter (\<lambda>k. rw_PolicyID k = rw_PolicyID r \<and> rw_PeriodEnd k = rw_PeriodEnd r) (rb_renewals (ry_db z)) = [q]"
    "outcome_of q = outcome_of r" by auto
  with y(1) z r show ?thesis by blast
qed

section \<open>The charge and the policy of a renewal\<close>

lemma charge_of_stored_renewal:
  assumes inv: "renewal_db_inv db" and r: "r \<in> set (rb_renewals db)" and c: "gm_get (db_charges (rb_charges db)) (rw_ChargeID r) = Some c"
    and "rw_ChargeID r \<noteq> ''''"
  shows "charge_of_renewal r c"
proof -
  have ok: "renewal_ok db r" by (rule renewal_db_invD(5) [OF inv r])
  with assms(4) have id: "rw_ChargeID r = rw_ID r" "IsRenewalCharge (rw_ID r)"
    by (auto simp: renewal_ok_def IsRenewalCharge_def RenewalID_def split: if_splits)
  with renewal_db_invD(6) [OF inv c] obtain q where q: "q \<in> set (rb_renewals db)" "rw_ChargeID q = rw_ID r" "charge_of_renewal q c"
    by (auto simp: row_of_def)
  have "renewal_ok db q" by (rule renewal_db_invD(5) [OF inv q(1)])
  moreover have "rw_ID r \<noteq> []" using id(2) by (auto simp: IsRenewalCharge_def)
  ultimately have "rw_ID q = rw_ID r" using q(2) by (simp add: renewal_ok_def split: if_splits)
  with by_id [OF inv q(1) r] q(3) show ?thesis by simp
qed

text \<open>C20. A renewed policy was paid: in every reachable state a renewal that shows as renewed has a confirmed
  charge under its own key, of exactly the premium and the currency that the insured accepted, for the
  customer and the policy of the renewal; the policy it names is the one that charge activates, and its
  coverage starts at the end of the renewed period, or at the confirmation if that is later, for the
  accepted term.\<close>

theorem renewed_was_paid:
  assumes "renewal_reach rules y" and "r \<in> set (rb_renewals (ry_db y))" and "rw_Status r = RenewalRenewed"
  shows "\<exists>c. gm_get (db_charges (rb_charges (ry_db y))) (rw_ID r) = Some c \<and> ch_Status c = StatusConfirmed \<and>
    ch_AmountMinor c = ToMinorUnits (rw_Premium r) \<and> ch_Currency c = rw_Currency r \<and> ch_CustomerID c = rw_CustomerID r \<and>
    ch_RenewalOf c = rw_PolicyID r \<and> rw_NewPolicyID r = PolicyIDFor (rw_ID r) \<and> ch_PolicyID c = rw_NewPolicyID r \<and>
    ch_CoverageStart c = max (rw_PeriodEnd r) (ch_ConfirmedAt c) \<and>
    ch_CoverageEnd c = AddMonths (ch_CoverageStart c) (ct_TermMonths (rw_Terms r))"
proof -
  note inv = reach_renewal_db [OF assms(1)]
  note ok = renewal_db_invD(5) [OF inv assms(2)]
  from ok assms(3) have "rw_ChargeID r = rw_ID r" by (auto simp: renewal_ok_def)
  with ok assms(3) obtain c where c: "gm_get (db_charges (rb_charges (ry_db y))) (rw_ID r) = Some c" "ch_Status c = StatusConfirmed"
    "rw_NewPolicyID r = ch_PolicyID c" by (auto simp: renewal_ok_def)
  have "rw_ID r \<noteq> ''''" using ok by (simp add: renewal_ok_def RenewalID_def)
  with charge_of_stored_renewal [OF inv assms(2)] c(1) \<open>rw_ChargeID r = rw_ID r\<close> have "charge_of_renewal r c" by simp
  with renewal_db_invD(7) [OF inv c(1,2)] charge_invD [OF renewal_db_invD(1) [OF inv] c(1)] c show ?thesis
    by (auto simp: charge_of_renewal_def confirmed_ok_def stored_terms_def)
qed

theorem renewed_was_paid_witness:
  "\<exists>y r c. renewal_reach DefaultRenewalPolicy y \<and> r \<in> set (rb_renewals (ry_db y)) \<and> rw_ID r = ''ren-pol-a1-00020101'' \<and>
    rw_Status r = RenewalRenewed \<and> gm_get (db_charges (rb_charges (ry_db y))) (rw_ID r) = Some c \<and>
    ch_Status c = StatusConfirmed \<and> ch_AmountMinor c = ToMinorUnits (rw_Premium r)"
proof -
  obtain y where y: "renewal_reach DefaultRenewalPolicy y" "run_matches y run_renewed" using run_states_reachable(1) by blast
  obtain r where r: "r \<in> set (rb_renewals (ry_db y))" "rw_ID r = ''ren-pol-a1-00020101''" "rw_Status r = RenewalRenewed"
    using run_renewed_state y(2) by (auto simp: list_ex_iff run_matches_def)
  from renewed_was_paid [OF y(1) r(1,3)] y(1) r show ?thesis by blast
qed

text \<open>C21. A policy is renewed at most once, and the new coverage never overlaps the old one. In every
  reachable state a policy that renews another names a policy of the same customer; it starts when
  that one ends or, when its premium was confirmed later, at the confirmation, so a payment within the
  retry period can leave a gap but no overlap; and no other policy renews the same one.\<close>

theorem policies_follow_without_overlap:
  assumes "renewal_reach rules y" and "p \<in> set (rb_policies (ry_db y))" and "op_RenewalOf p \<noteq> ''''"
  shows "\<exists>old c. old \<in> set (rb_policies (ry_db y)) \<and> op_ID old = op_RenewalOf p \<and> op_CustomerID old = op_CustomerID p \<and>
    gm_get (db_charges (rb_charges (ry_db y))) (op_AcceptanceID p) = Some c \<and>
    op_CoverageStart p = max (op_CoverageEnd old) (ch_ConfirmedAt c) \<and>
    (\<forall>p' \<in> set (rb_policies (ry_db y)). op_RenewalOf p' = op_RenewalOf p \<longrightarrow> p' = p)"
proof -
  note inv = reach_renewal_db [OF assms(1)]
  have inj: "inj_on op_ID (set (rb_policies (ry_db y)))" using renewal_db_invD(2) [OF inv] by (simp add: distinct_map)
  have renewal: "\<exists>c r old. gm_get (db_charges (rb_charges (ry_db y))) (op_AcceptanceID q) = Some c \<and> ch_PolicyID c = op_ID q \<and>
      r \<in> set (rb_renewals (ry_db y)) \<and> rw_ChargeID r = op_AcceptanceID q \<and> old \<in> set (rb_policies (ry_db y)) \<and> op_ID old = op_RenewalOf q \<and>
      op_CustomerID old = op_CustomerID q \<and> rw_PolicyID r = op_ID old \<and> rw_PeriodEnd r = op_CoverageEnd old \<and>
      op_CoverageStart q = max (op_CoverageEnd old) (ch_ConfirmedAt c) \<and> op_ID q = PolicyIDFor (op_AcceptanceID q)"
    if q: "q \<in> set (rb_policies (ry_db y))" "op_RenewalOf q \<noteq> ''''" for q
  proof -
    from renewal_db_invD(8) [OF inv q(1)] obtain c where c: "gm_get (db_charges (rb_charges (ry_db y))) (op_AcceptanceID q) = Some c"
      "ch_Status c = StatusConfirmed" "q = stored_policy (PolicyFrom (ActivationEvent c))" by (auto simp: projected_ok_def)
    have sel: "op_RenewalOf q = ch_RenewalOf c" "op_CustomerID q = ch_CustomerID c" "op_CoverageStart q = ch_CoverageStart c" "op_ID q = ch_PolicyID c"
      by (subst c(3), simp add: stored_policy_def PolicyFrom_def ActivationEvent_def)+
    from renewal_db_invD(6) [OF inv c(1)] q(2) sel(1) obtain r where r: "r \<in> set (rb_renewals (ry_db y))" "rw_ChargeID r = op_AcceptanceID q"
      "charge_of_renewal r c" by (auto simp: row_of_def split: if_splits)
    from renewal_db_invD(5) [OF inv r(1)] obtain old where "old \<in> set (rb_policies (ry_db y))" "op_ID old = rw_PolicyID r"
      "op_CoverageEnd old = rw_PeriodEnd r" "op_CustomerID old = rw_CustomerID r" by (auto simp: renewal_ok_def)
    with c r sel renewal_db_invD(7) [OF inv c(1,2)] charge_invD [OF renewal_db_invD(1) [OF inv] c(1)] show ?thesis
      by (intro exI [of _ c] exI [of _ r] exI [of _ old]) (simp add: charge_of_renewal_def confirmed_ok_def)
  qed
  from renewal [OF assms(2,3)] obtain c r old where a: "gm_get (db_charges (rb_charges (ry_db y))) (op_AcceptanceID p) = Some c"
    "r \<in> set (rb_renewals (ry_db y))" "rw_ChargeID r = op_AcceptanceID p" "old \<in> set (rb_policies (ry_db y))" "op_ID old = op_RenewalOf p"
    "op_CustomerID old = op_CustomerID p" "rw_PolicyID r = op_ID old" "rw_PeriodEnd r = op_CoverageEnd old"
    "op_CoverageStart p = max (op_CoverageEnd old) (ch_ConfirmedAt c)" "op_ID p = PolicyIDFor (op_AcceptanceID p)" by blast
  have "p' = p" if p': "p' \<in> set (rb_policies (ry_db y))" "op_RenewalOf p' = op_RenewalOf p" for p'
  proof -
    from renewal [OF p'(1)] p'(2) assms(3) obtain r' old' where b: "r' \<in> set (rb_renewals (ry_db y))" "rw_ChargeID r' = op_AcceptanceID p'"
      "old' \<in> set (rb_policies (ry_db y))" "op_ID old' = op_RenewalOf p" "rw_PolicyID r' = op_ID old'" "rw_PeriodEnd r' = op_CoverageEnd old'"
      "op_ID p' = PolicyIDFor (op_AcceptanceID p')" by metis
    have "old' = old" using inj_onD [OF inj _ b(3) a(4)] a(5) b(4) by simp
    with by_period [OF inv a(2) b(1)] a(7,8) b(5,6) have "r' = r" by simp
    with a(3,10) b(2,7) have "op_ID p' = op_ID p" by simp
    then show ?thesis using inj_onD [OF inj _ p'(1) assms(2)] by simp
  qed
  with a show ?thesis by blast
qed

theorem policies_follow_without_overlap_witness:
  "\<exists>y p old. renewal_reach DefaultRenewalPolicy y \<and> p \<in> set (rb_policies (ry_db y)) \<and> op_ID p = ''pol-ren-pol-a1-00020101'' \<and>
    old \<in> set (rb_policies (ry_db y)) \<and> op_ID old = ''pol-a1'' \<and> op_CoverageEnd old \<le> op_CoverageStart p"
proof -
  obtain y where y: "renewal_reach DefaultRenewalPolicy y" "run_matches y run_renewed" using run_states_reachable(1) by blast
  obtain p where p: "p \<in> set (rb_policies (ry_db y))" "op_ID p = ''pol-ren-pol-a1-00020101''" "op_RenewalOf p = ''pol-a1''"
    using run_renewed_state y(2) by (auto simp: list_ex_iff run_matches_def)
  have "op_RenewalOf p \<noteq> ''''" using p(3) by simp
  from policies_follow_without_overlap [OF y(1) p(1) this] obtain old and c :: charge where
    old: "old \<in> set (rb_policies (ry_db y))" "op_ID old = op_RenewalOf p" "op_CoverageStart p = max (op_CoverageEnd old) (ch_ConfirmedAt c)"
    by blast
  then have "op_CoverageEnd old \<le> op_CoverageStart p" by simp
  with y(1) p old(1,2) show ?thesis by metis
qed

section \<open>A payment after the deadline\<close>

text \<open>C26. An insured person who was told that the policy is not renewed can still be charged for it. From the
  start the service reaches a state in which a renewal is closed as not renewed because its payment
  failed, and yet its charge was confirmed after it was closed and its coverage is active: a sweep at
  the deadline closes the renewal of a charge that was never attempted, and nothing withdraws the
  charge, which the worker takes later.\<close>

theorem not_renewed_yet_charged:
  "\<exists>y r c p. renewal_reach DefaultRenewalPolicy y \<and> r \<in> set (rb_renewals (ry_db y)) \<and> rw_Status r = RenewalNotRenewed \<and>
    rw_Reason r = NotRenewedPaymentFailed \<and> gm_get (db_charges (rb_charges (ry_db y))) (rw_ChargeID r) = Some c \<and>
    ch_Status c = StatusConfirmed \<and> rw_ClosedAt r < ch_ConfirmedAt c \<and>
    p \<in> set (rb_policies (ry_db y)) \<and> op_ID p = ch_PolicyID c \<and> op_RenewalOf p = rw_PolicyID r"
proof -
  obtain y where y: "renewal_reach DefaultRenewalPolicy y" "run_matches y run_closed" using run_states_reachable(2) by blast
  then have db: "ry_db run_closed = ry_db y" by (simp add: run_matches_def)
  from run_closed_state [unfolded db list_ex_iff] obtain r c p where "r \<in> set (rb_renewals (ry_db y))" "rw_Status r = RenewalNotRenewed"
    "rw_Reason r = NotRenewedPaymentFailed" "gm_get (db_charges (rb_charges (ry_db y))) (rw_ChargeID r) = Some c" "ch_Status c = StatusConfirmed"
    "rw_ClosedAt r < ch_ConfirmedAt c" "p \<in> set (rb_policies (ry_db y))" "op_ID p = ch_PolicyID c" "op_RenewalOf p = rw_PolicyID r"
    by (auto split: option.splits)
  with y(1) show ?thesis by blast
qed

end
