(* ===== verification/Renewal_Requests.thy ===== *)
theory Renewal_Requests
  imports Renewal_Properties
begin

text \<open>
  What one call of the renewal service does: a repeated acceptance, the sweep of the policies that
  nobody renewed, and the calls as runs of \<^const>\<open>renewal_step\<close>.
\<close>

section \<open>Acceptances\<close>

lemma errors_Is_payable [simp]: "errors_Is ErrChargeNotPayable ErrChargeNotPayable"
  by (simp add: ErrChargeNotPayable_def)

lemma inserted_row_id: "ch_AcceptanceID (inserted_row c) = ch_AcceptanceID c"
  by (simp add: inserted_row_def)

text \<open>The charge that \<^const>\<open>finish\<close> answers is the one in the table.\<close>

lemma CreatePending_stored:
  assumes "CreatePending c db = (db1, Inr (stored, b))"
  shows "gm_get (db_charges db1) (ch_AcceptanceID c) = Some stored" and "0 < ch_AmountMinor c"
    and "b \<Longrightarrow> stored = inserted_row c"
  using assms by (auto simp: CreatePending_def db_Get_def inserted_row_def split: if_splits option.splits)

lemma CreatePending_again:
  assumes "gm_get (db_charges db) (ch_AcceptanceID c) = Some d" and "0 < ch_AmountMinor c"
  shows "CreatePending c db = (db, Inr (d, False))"
  using assms by (simp add: CreatePending_def db_Get_def)

lemma attach_stored:
  assumes "db_AttachPaymentMethod i m t db = (db2, Inr d)" and "\<And>c. gm_get (db_charges db) i = Some c \<Longrightarrow> ch_AcceptanceID c = i"
  shows "gm_get (db_charges db2) i = Some d"
  using assms by (auto simp: db_AttachPaymentMethod_def Let_def attached_row_def split: option.splits if_splits)

lemma attach_refused: "db_AttachPaymentMethod i m t db = (db2, Inl e) \<Longrightarrow> db2 = db"
  by (auto simp: db_AttachPaymentMethod_def Let_def split: option.splits if_splits)

lemma finish_stored:
  assumes "finish p r created t db = (db1, Inr a)"
  shows "gm_get (db_charges (rb_charges db1)) (rw_ChargeID r) = Some (acd_Charge a)"
    and "acd_Renewal a = r" and "acd_Created a = created" and "0 < ToMinorUnits (rw_Premium r)"
    and "activatable (NewRenewalCharge p r t)" and "rb_policies db1 = rb_policies db" and "rb_renewals db1 = rb_renewals db"
proof -
  let ?c = "NewRenewalCharge p r t"
  have v: "ValidateActivation ?c t = None"
    using assms by (auto simp: finish_def Let_def split: option.splits)
  then show "activatable ?c" by (simp add: ValidateActivation_iff)
  obtain cs res where cp: "CreatePending ?c (rb_charges db) = (cs, res)" by fastforce
  with assms v obtain stored b where res: "res = Inr (stored, b)"
    by (auto simp: finish_def Let_def on_charges_def split: sum.splits)
  have cid: "ch_AcceptanceID ?c = rw_ChargeID r" "ch_AmountMinor ?c = ToMinorUnits (rw_Premium r)" by (simp_all add: NewRenewalCharge_def)
  note st = CreatePending_stored [OF cp [unfolded res], unfolded cid]
  show "0 < ToMinorUnits (rw_Premium r)" by (rule st(2))
  let ?same = "(db\<lparr>rb_charges := cs\<rparr>, Inr \<lparr>acd_Renewal = r, acd_Charge = stored, acd_Created = created\<rparr>)"
  have "finish p r created t db = ?same \<or>
    (\<exists>m cs2 d. db_AttachPaymentMethod (rw_ChargeID r) m t cs = (cs2, Inr d) \<and> b \<and>
      finish p r created t db = (db\<lparr>rb_charges := cs2\<rparr>, Inr \<lparr>acd_Renewal = r, acd_Charge = d, acd_Created = created\<rparr>))"
    using assms v cp res
    by (auto simp: finish_def Let_def on_charges_def split: bool.splits sum.splits if_splits prod.splits dest: attach_refused)
  then have "gm_get (db_charges (rb_charges db1)) (rw_ChargeID r) = Some (acd_Charge a) \<and> acd_Renewal a = r \<and> acd_Created a = created \<and>
      rb_policies db1 = rb_policies db \<and> rb_renewals db1 = rb_renewals db"
  proof (elim disjE exE conjE)
    assume "finish p r created t db = ?same"
    with assms st(1) show ?thesis by auto
  next
    fix m cs2 d assume at: "db_AttachPaymentMethod (rw_ChargeID r) m t cs = (cs2, Inr d)" "b"
      and eq: "finish p r created t db = (db\<lparr>rb_charges := cs2\<rparr>, Inr \<lparr>acd_Renewal = r, acd_Charge = d, acd_Created = created\<rparr>)"
    have "ch_AcceptanceID c = rw_ChargeID r" if "gm_get (db_charges cs) (rw_ChargeID r) = Some c" for c
    proof -
      have "c = inserted_row (NewRenewalCharge p r t)" using that st(1) st(3) [OF at(2)] by simp
      with cid show ?thesis by (simp only: inserted_row_id)
    qed
    from attach_stored [OF at(1) this] eq assms show ?thesis by simp
  qed
  then show "gm_get (db_charges (rb_charges db1)) (rw_ChargeID r) = Some (acd_Charge a)" "acd_Renewal a = r" "acd_Created a = created"
    "rb_policies db1 = rb_policies db" "rb_renewals db1 = rb_renewals db" by simp_all
qed

lemma finish_again:
  assumes "gm_get (db_charges (rb_charges db)) (rw_ChargeID r) = Some c" and "0 < ToMinorUnits (rw_Premium r)"
    and "activatable (NewRenewalCharge p r t)" and "t' \<noteq> 0"
  shows "finish p r created t' db = (db, Inr \<lparr>acd_Renewal = r, acd_Charge = c, acd_Created = created\<rparr>)"
proof -
  have "activatable (NewRenewalCharge p r t')" using assms(3) by (simp add: activatable_def NewRenewalCharge_def)
  then have v: "ValidateActivation (NewRenewalCharge p r t') t' = None" using assms(4) by (simp add: ValidateActivation_iff)
  have "CreatePending (NewRenewalCharge p r t') (rb_charges db) = (rb_charges db, Inr (c, False))"
    by (rule CreatePending_again) (use assms in \<open>simp_all add: NewRenewalCharge_def\<close>)
  with v show ?thesis by (simp add: finish_def Let_def on_charges_def)
qed

lemma find_renewal_snoc:
  "find_renewal i u db = None \<Longrightarrow> rb_renewals db' = rb_renewals db @ [r] \<Longrightarrow> rw_PolicyID r = i \<Longrightarrow> rw_PeriodEnd r = u \<Longrightarrow>
   find_renewal i u db' = Some r"
proof -
  have "find P xs = None \<Longrightarrow> P x \<Longrightarrow> find P (xs @ [x]) = Some x" for P and x :: renewal and xs
    by (induction xs) (auto split: if_splits)
  then show "find_renewal i u db = None \<Longrightarrow> rb_renewals db' = rb_renewals db @ [r] \<Longrightarrow> rw_PolicyID r = i \<Longrightarrow> rw_PeriodEnd r = u \<Longrightarrow> ?thesis"
    by (simp add: find_renewal_def)
qed

lemma Accept_finished:
  assumes "Accept rules eng ctx i t t' db = (db1, Inr a)"
  obtains p r created where "ownedPolicy ctx i db1 = Inr p" and "find_renewal (op_ID p) (op_CoverageEnd p) db1 = Some r"
    and "rw_Status r \<noteq> RenewalNotRenewed" and "acd_Renewal a = r" and "0 < ToMinorUnits (rw_Premium r)"
    and "activatable (NewRenewalCharge p r t')" and "gm_get (db_charges (rb_charges db1)) (rw_ChargeID r) = Some (acd_Charge a)"
proof -
  obtain p where p: "ownedPolicy ctx i db = Inr p" using assms by (auto simp: Accept_def split: sum.splits)
  have owned: "ownedPolicy ctx i db1 = Inr p" if "rb_policies db1 = rb_policies db"
    using p that by (simp add: ownedPolicy_def Policy_Get_def find_policy_def)
  show thesis
  proof (cases "find_renewal (op_ID p) (op_CoverageEnd p) db")
    case (Some r)
    with assms p have f: "finish p r False t' db = (db1, Inr a)" and s: "rw_Status r \<noteq> RenewalNotRenewed"
      by (auto simp: Accept_def Renewal_Get_def split: if_splits)
    note st = finish_stored [OF f]
    have "find_renewal (op_ID p) (op_CoverageEnd p) db1 = Some r" using Some st(7) by (simp add: find_renewal_def)
    from that [OF owned [OF st(6)] this s st(2,4,5,1)] show thesis .
  next
    case None
    let ?r = "new_renewal rules p (requote rules eng p t) t"
    obtain db' res where rc: "Renewal_Create ?r db = (db', res)" by fastforce
    with assms p None obtain stored created where res: "res = Inr (stored, created)"
      by (auto simp: Accept_def Renewal_Get_def Let_def ErrRenewalNotFound_def split: if_splits option.splits sum.splits)
    have sel: "rw_PolicyID ?r = op_ID p" "rw_PeriodEnd ?r = op_CoverageEnd p" "rw_Status ?r = RenewalAccepted"
      by (simp_all add: new_renewal_def Let_def)
    have new: "db' = db\<lparr>rb_renewals := rb_renewals db @ [stored_renewal ?r]\<rparr>" "stored = stored_renewal ?r" "created"
      using rc res None by (auto simp: Renewal_Create_def Let_def sel split: if_splits option.splits)
    with assms p None rc res have f: "finish p stored created t' db' = (db1, Inr a)"
      by (auto simp: Accept_def Renewal_Get_def Let_def ErrRenewalNotFound_def split: if_splits option.splits)
    note st = finish_stored [OF f]
    have "find_renewal (op_ID p) (op_CoverageEnd p) db1 = Some stored"
      using None st(7) new by (simp add: find_renewal_snoc sel)
    moreover have "rw_Status stored \<noteq> RenewalNotRenewed" using new(2) sel by simp
    ultimately show thesis using that owned st new(1) by simp
  qed
qed

text \<open>What the runs keep: the policies, and every charge with its terms.\<close>

lemma charges_last_create: "charges_last db (fst (CreatePending c db))"
  by (auto simp: CreatePending_def inserted_row_def intro!: charges_last_put split: sum.split)

lemma charges_last_trans: "charges_last a b \<Longrightarrow> charges_last b c \<Longrightarrow> charges_last a c"
  unfolding charges_last_def by (meson charge_lasts_trans)

lemma charges_stepD: "charges_step rs db db' \<Longrightarrow> charges_last db db'"
  by (simp add: charges_step_def)

lemma renewal_step_keeps:
  assumes "renewal_step rules y z" and "renewal_inv y"
  shows "charges_last (rb_charges (ry_db y)) (rb_charges (ry_db z)) \<and> set (rb_policies (ry_db y)) \<subseteq> set (rb_policies (ry_db z))"
  using assms
proof (induction rule: renewal_step.induct)
  case (charge y cs)
  then have "charge_inv (rb_charges (ry_db y))" by (simp add: renewal_inv_def renewal_db_inv_def)
  with charge_statement_step [OF charge(1)] charges_stepD show ?case by simp
next
  case (claim i y lease cs c)
  then have inv: "charge_inv (rb_charges (ry_db y))" and cs: "cs = fst (db_Claim i (ry_now y) lease (rb_charges (ry_db y)))"
    by (simp_all add: renewal_inv_def renewal_db_inv_def)
  from charges_stepD [OF charges_step_claim [OF inv]] show ?case by (simp add: cs)
next
  case (confirm c y out)
  then have inv: "charge_inv (rb_charges (ry_db y))" and "working_ok (ry_db y) c"
    by (simp_all add: renewal_inv_def renewal_db_inv_def renewal_tasks_def list_all_iff)
  then obtain d where "gm_get (db_charges (rb_charges (ry_db y))) (ch_AcceptanceID c) = Some d" "charge_terms d = charge_terms c"
    by (auto simp: working_ok_def)
  from charges_stepD [OF charges_step_confirm [OF inv this]] show ?case by simp
next
  case (project y i c)
  then show ?case by (auto simp: Projector_Receive_def Policy_Create_def)
next
  case (accept_store y xs p r ys db' stored created)
  have "rb_charges db' = rb_charges (ry_db y) \<and> rb_policies db' = rb_policies (ry_db y)"
    by (rule Renewal_Create_cases [of r "ry_db y"]) (use accept_store(2) in auto)
  then show ?case by simp
next
  case (finish p r y)
  then show ?case by (simp add: on_charges_def case_prod_beta charges_last_create)
next
  case (lapse p y t)
  show ?case by (rule Renewal_Create_cases [of "lapse_of p t" "ry_db y"]) auto
qed (simp_all add: MarkRenewed_def MarkNotRenewed_def MarkNotified_def)

lemma renewal_steps_keep:
  assumes "(renewal_step rules)\<^sup>*\<^sup>* y z" and "renewal_inv y"
  shows "charges_last (rb_charges (ry_db y)) (rb_charges (ry_db z)) \<and> set (rb_policies (ry_db y)) \<subseteq> set (rb_policies (ry_db z)) \<and> renewal_inv z"
  using assms
proof (induction rule: rtranclp_induct)
  case (step x z)
  with renewal_step_keeps [OF step(2)] renewal_inv_step [OF step(2)] show ?case by (auto intro: charges_last_trans)
qed simp

lemma owned_later:
  assumes inv: "renewal_db_inv db'" and sub: "set (rb_policies db) \<subseteq> set (rb_policies db')" and p: "ownedPolicy ctx i db = Inr p"
  shows "ownedPolicy ctx i db' = Inr p"
proof -
  have f: "find_policy i db = Some p" by (rule ownedPolicy_found [OF p])
  then have in': "p \<in> set (rb_policies db')" "op_ID p = i" using find_policy_Some sub by blast+
  obtain q where q: "find_policy i db' = Some q"
    using in' by (cases "find_policy i db'") (auto simp: find_policy_def find_None_iff)
  have "inj_on op_ID (set (rb_policies db'))" using renewal_db_invD(2) [OF inv] by (simp add: distinct_map)
  from inj_onD [OF this _ _ in'(1), of q] find_policy_Some [OF q] in'(2) have "q = p" by simp
  with q f p show ?thesis by (auto simp: ownedPolicy_def Policy_Get_def split: option.splits)
qed

text \<open>The charge of a renewal is made of what was agreed.\<close>

lemma agreed_charge: "agreed q = agreed r \<Longrightarrow> NewRenewalCharge p q t = NewRenewalCharge p r t"
  by (simp add: agreed_def NewRenewalCharge_def)

text \<open>C23. An acceptance that succeeded can be repeated. Take any state in which the tables are as the call left
  them and any later state, after whatever the workers, the gateway, the sweeps and other callers did. If
  the same person asks again there, at any instant, inside the window or not, and whatever the rating
  engine answers by then, nothing is written: no second renewal, no second charge, no other price. While
  the renewal has not been closed as not renewed, the answer is that renewal, with the conditions that
  were accepted, and its charge as it is by then, marked as not created; when it has, for instance by a
  sweep at the deadline of an unpaid charge, the answer is the error of a closed renewal.\<close>

theorem accepting_again_changes_nothing:
  assumes "Accept rules eng ctx i t t1 db = (ry_db y, Inr a)" and "renewal_reach rules y" and "(renewal_step rules)\<^sup>*\<^sup>* y z"
    and "t2 \<noteq> 0"
  shows "\<exists>r c. find_renewal (rw_PolicyID (acd_Renewal a)) (rw_PeriodEnd (acd_Renewal a)) (ry_db z) = Some r \<and>
    stays (acd_Renewal a) r \<and>
    gm_get (db_charges (rb_charges (ry_db z))) (rw_ChargeID r) = Some c \<and> charge_lasts (acd_Charge a) c \<and>
    Accept rules' eng' ctx i t' t2 (ry_db z) =
      (ry_db z, if rw_Status r = RenewalNotRenewed then Inl (RenewalErr (closedError r))
        else Inr \<lparr>acd_Renewal = r, acd_Charge = c, acd_Created = False\<rparr>) \<and>
    (ry_db z = ry_db y \<longrightarrow> rw_Status r \<noteq> RenewalNotRenewed \<and> r = acd_Renewal a \<and> c = acd_Charge a)"
proof -
  from assms(1) obtain p r0 created where f: "ownedPolicy ctx i (ry_db y) = Inr p"
    "find_renewal (op_ID p) (op_CoverageEnd p) (ry_db y) = Some r0" "rw_Status r0 \<noteq> RenewalNotRenewed" "acd_Renewal a = r0"
    "0 < ToMinorUnits (rw_Premium r0)" "activatable (NewRenewalCharge p r0 t1)"
    "gm_get (db_charges (rb_charges (ry_db y))) (rw_ChargeID r0) = Some (acd_Charge a)" by (rule Accept_finished)
  note r0 = find_renewal_Some [OF f(2)]
  note keep = renewal_steps_keep [OF assms(3) renewal_inv_reach [OF assms(2)]]
  note inv = reach_renewal_db [OF renewal_reach_steps [OF assms(2,3)]]
  from renewals_stay_steps [OF assms(3)] r0 obtain r where r: "r \<in> set (rb_renewals (ry_db z))" "stays r0 r"
    unfolding renewals_stay_def by blast
  then have ag: "agreed r = agreed r0" by (simp add: stays_def)
  then have sel: "rw_PolicyID r = op_ID p" "rw_PeriodEnd r = op_CoverageEnd p" "rw_ChargeID r = rw_ChargeID r0" "rw_Premium r = rw_Premium r0"
    using r0 by (simp_all add: agreed_def)
  have found: "find_renewal (op_ID p) (op_CoverageEnd p) (ry_db z) = Some r" using find_renewal_in [OF inv r(1)] sel by simp
  obtain c where c: "gm_get (db_charges (rb_charges (ry_db z))) (rw_ChargeID r) = Some c" "charge_lasts (acd_Charge a) c"
    using charges_lastD [OF conjunct1 [OF keep] f(7)] sel by auto
  have own: "ownedPolicy ctx i (ry_db z) = Inr p" using owned_later [OF inv _ f(1)] keep by blast
  have "0 < ToMinorUnits (rw_Premium r)" "activatable (NewRenewalCharge p r t1)" using f(5,6) sel agreed_charge [OF ag] by simp_all
  from finish_again [OF c(1) this assms(4), of False] found own
  have "Accept rules' eng' ctx i t' t2 (ry_db z) =
      (ry_db z, if rw_Status r = RenewalNotRenewed then Inl (RenewalErr (closedError r))
        else Inr \<lparr>acd_Renewal = r, acd_Charge = c, acd_Created = False\<rparr>)"
    by (simp add: Accept_def Renewal_Get_def)
  with found r(2) r0 c f show ?thesis by (intro exI [of _ r] exI [of _ c]) auto
qed

lemma run_accepted_table:
  "\<exists>db a. Accept DefaultRenewalPolicy run_engine run_customer (PolicyIDFor ''a1'') (336 * day_ns) (336 * day_ns) db =
    (ry_db (renewal_run DefaultRenewalPolicy run_accepts (renewal_init 50)), Inr a)"
proof -
  let ?s = "renewal_run DefaultRenewalPolicy (run_policy_of ''a1'' @ [RTick (336 * day_ns)]) (renewal_init 50)"
  let ?a = "Accept DefaultRenewalPolicy run_engine run_customer (PolicyIDFor ''a1'') (336 * day_ns) (336 * day_ns) (ry_db ?s)"
  have "ry_now ?s = 336 * day_ns" by code_simp
  then have "ry_db (renewal_run DefaultRenewalPolicy [RAccept run_engine run_customer (PolicyIDFor ''a1'')] ?s) = fst ?a"
    by (simp add: renewal_run_def)
  then have "fst ?a = ry_db (renewal_run DefaultRenewalPolicy run_accepts (renewal_init 50))"
    by (simp add: run_accepts_def renewal_run_append [symmetric])
  moreover have "\<not> isl (snd ?a)" by code_simp
  ultimately show ?thesis by (metis isl_def prod.collapse sum.exhaust)
qed

lemma run_swept_state:
  "list_all (\<lambda>r. rw_Status r = RenewalNotRenewed)
    (rb_renewals (ry_db (renewal_run DefaultRenewalPolicy (run_accepts @ [RTick (340 * day_ns), RSweep None]) (renewal_init 50))))"
  by code_simp

text \<open>The renewal is accepted on day 336. Asked again on day 400, the call answers the same while the tables are as it
  left them, and the error of a closed renewal when a sweep on day 340 closed the unpaid one.\<close>

theorem accepting_again_changes_nothing_witness:
  "\<exists>y z (a :: accepted_renewal) b. renewal_reach DefaultRenewalPolicy y \<and> (renewal_step DefaultRenewalPolicy)\<^sup>*\<^sup>* y z \<and>
    Accept DefaultRenewalPolicy run_engine run_customer (PolicyIDFor ''a1'') (400 * day_ns) (401 * day_ns) (ry_db y) =
      (ry_db y, Inr \<lparr>acd_Renewal = acd_Renewal a, acd_Charge = acd_Charge a, acd_Created = False\<rparr>) \<and>
    rw_Status b = RenewalNotRenewed \<and> stays (acd_Renewal a) b \<and>
    Accept DefaultRenewalPolicy run_engine run_customer (PolicyIDFor ''a1'') (400 * day_ns) (401 * day_ns) (ry_db z) =
      (ry_db z, Inl (RenewalErr (closedError b)))"
proof -
  let ?s = "renewal_run DefaultRenewalPolicy run_accepts (renewal_init 50)"
  obtain y :: renewal_sys where y: "renewal_reach DefaultRenewalPolicy y" "run_matches y ?s"
    using renewal_run_reachable [of 50 DefaultRenewalPolicy run_accepts] by auto
  obtain z :: renewal_sys where z: "(renewal_step DefaultRenewalPolicy)\<^sup>*\<^sup>* y z"
    "run_matches z (renewal_run DefaultRenewalPolicy [RTick (340 * day_ns), RSweep None] ?s)"
    using renewal_run_steps [OF y(2)] by blast
  have closed: "list_all (\<lambda>r. rw_Status r = RenewalNotRenewed) (rb_renewals (ry_db z))"
    using z(2) run_swept_state by (simp add: run_matches_def renewal_run_append)
  obtain db a where acc: "Accept DefaultRenewalPolicy run_engine run_customer (PolicyIDFor ''a1'') (336 * day_ns) (336 * day_ns) db = (ry_db y, Inr a)"
    using run_accepted_table y(2) by (auto simp: run_matches_def)
  have t: "401 * day_ns \<noteq> 0" by (simp add: day_ns_def)
  note again = accepting_again_changes_nothing [OF acc y(1) _ t, of _ DefaultRenewalPolicy run_engine "400 * day_ns"]
  from again [OF z(1)] obtain b where b: "b \<in> set (rb_renewals (ry_db z))" "stays (acd_Renewal a) b"
    "Accept DefaultRenewalPolicy run_engine run_customer (PolicyIDFor ''a1'') (400 * day_ns) (401 * day_ns) (ry_db z) =
      (ry_db z, if rw_Status b = RenewalNotRenewed then Inl (RenewalErr (closedError b))
        else Inr \<lparr>acd_Renewal = b, acd_Charge = the (gm_get (db_charges (rb_charges (ry_db z))) (rw_ChargeID b)), acd_Created = False\<rparr>)"
    by (auto dest: find_renewal_Some)
  with closed have "rw_Status b = RenewalNotRenewed" by (simp add: list_all_iff)
  moreover from again [OF rtranclp.rtrancl_refl] have
    "Accept DefaultRenewalPolicy run_engine run_customer (PolicyIDFor ''a1'') (400 * day_ns) (401 * day_ns) (ry_db y) =
      (ry_db y, Inr \<lparr>acd_Renewal = acd_Renewal a, acd_Charge = acd_Charge a, acd_Created = False\<rparr>)" by auto
  ultimately show ?thesis using y(1) z(1) b by (intro exI [of _ y] exI [of _ z] exI [of _ a] exI [of _ b]) simp
qed

lemma long_id_not_activatable:
  assumes "111 < length (rw_PolicyID r)" and "rw_ChargeID r = RenewalID (rw_PolicyID r) u"
  shows "finish p r created t db = (db, Inl (RenewalErr (errorf_w (''the renewal of '' @ op_ID p @ '' cannot activate its coverage: '')
    (the (ValidateActivation (NewRenewalCharge p r t) t)))))"
proof -
  have "128 < length (PolicyIDFor (rw_ChargeID r))" using assms RenewalID_length [of "rw_PolicyID r" u] by (simp add: PolicyIDFor_def)
  then have "\<not> activatable (NewRenewalCharge p r t)"
    by (simp add: activatable_def ValidPolicyID_def class_match_def NewRenewalCharge_def)
  then have "ValidateActivation (NewRenewalCharge p r t) t \<noteq> None" by (simp add: ValidateActivation_iff)
  then show ?thesis by (auto simp: finish_def Let_def)
qed

text \<open>C27. A policy identifier of more than 111 characters can never be renewed: the policy that follows has an
  identifier at least 17 characters longer than its predecessor's, and the policies core takes at most
  128. In a reachable state every acceptance for such a policy ends in an error and makes no charge.\<close>

theorem long_policy_ids_cannot_renew:
  assumes "renewal_reach rules y" and "111 < length i"
  shows "(\<exists>e. snd (Accept rules eng ctx i t t' (ry_db y)) = Inl e) \<and>
    rb_charges (fst (Accept rules eng ctx i t t' (ry_db y))) = rb_charges (ry_db y)"
proof (cases "ownedPolicy ctx i (ry_db y)")
  case (Inl e)
  then show ?thesis by (simp add: Accept_def)
next
  case (Inr p)
  note inv = reach_renewal_db [OF assms(1)]
  have i: "op_ID p = i" using find_policy_id [OF ownedPolicy_found [OF Inr]] .
  show ?thesis
  proof (cases "find_renewal (op_ID p) (op_CoverageEnd p) (ry_db y)")
    case (Some r)
    show ?thesis
    proof (cases "rw_Status r = RenewalNotRenewed")
      case True
      with Inr Some show ?thesis by (simp add: Accept_def Renewal_Get_def)
    next
      case False
      have r: "r \<in> set (rb_renewals (ry_db y))" "rw_PolicyID r = i" using find_renewal_Some [OF Some] i by simp_all
      with renewal_db_invD(5) [OF inv r(1)] False have "rw_ChargeID r = RenewalID (rw_PolicyID r) (rw_PeriodEnd r)"
        by (auto simp: renewal_ok_def)
      with long_id_not_activatable [of r] r(2) assms(2) Inr Some False show ?thesis by (simp add: Accept_def Renewal_Get_def)
    qed
  next
    case None
    let ?r = "new_renewal rules p (requote rules eng p t) t"
    have sel: "rw_PolicyID (stored_renewal ?r) = i" "rw_ChargeID (stored_renewal ?r) = RenewalID i (op_CoverageEnd p)"
      by (simp_all add: new_renewal_def Let_def RenewalChargeID_def i)
    have find: "find_renewal (rw_PolicyID ?r) (rw_PeriodEnd ?r) (ry_db y) = None" using None by (simp add: new_renewal_def Let_def)
    note fin = long_id_not_activatable [of "stored_renewal ?r", unfolded sel, OF assms(2) refl]
    show ?thesis
    proof (cases rule: Renewal_Create_cases [of ?r "ry_db y"])
      case (same res)
      then obtain e where "res = Inl e" using find by (cases res) auto
      with same(1) Inr None show ?thesis
        by (auto simp: Accept_def Renewal_Get_def Let_def split: option.split)
    next
      case new
      with fin Inr None show ?thesis
        by (auto simp: Accept_def Renewal_Get_def Let_def split: option.split)
    qed
  qed
qed

theorem long_policy_ids_cannot_renew_witness:
  "\<exists>y e. renewal_reach DefaultRenewalPolicy y \<and> find_policy (PolicyIDFor (replicate 110 CHR ''a'')) (ry_db y) \<noteq> None \<and>
    snd (Accept DefaultRenewalPolicy run_engine run_customer (PolicyIDFor (replicate 110 CHR ''a'')) (336 * day_ns) (336 * day_ns) (ry_db y)) =
      Inl e"
proof -
  obtain y where y: "renewal_reach DefaultRenewalPolicy y" "run_matches y (run_insured (replicate 110 CHR ''a''))"
    using run_states_reachable(3) by blast
  have "111 < length (PolicyIDFor (replicate 110 CHR ''a''))" by (simp add: PolicyIDFor_def)
  from long_policy_ids_cannot_renew [OF y(1) this, of run_engine run_customer "336 * day_ns" "336 * day_ns"] y run_insured_state(1)
  show ?thesis by (auto simp: run_matches_def)
qed

section \<open>The sweep\<close>

lemma record_lapses_mono: "set (rb_renewals db) \<subseteq> set (rb_renewals (fst (record_lapses now ps n db)))"
proof (induction ps arbitrary: n db)
  case (Cons p ps)
  have "set (rb_renewals db) \<subseteq> set (rb_renewals (fst (Renewal_Create (lapse_of p now) db)))"
    by (rule Renewal_Create_cases [of "lapse_of p now" db]) auto
  moreover obtain db' res where "Renewal_Create (lapse_of p now) db = (db', res)" by fastforce
  ultimately show ?case using Cons [of db' n] Cons [of db' "n + 1"] by (auto split: sum.split prod.split bool.split)
qed simp

lemma lapse_of_sel [simp]:
  "rw_PolicyID (lapse_of p now) = op_ID p" "rw_PeriodEnd (lapse_of p now) = op_CoverageEnd p"
  "rw_ID (lapse_of p now) = RenewalID (op_ID p) (op_CoverageEnd p)" "rw_Status (lapse_of p now) = RenewalNotRenewed"
  "rw_Reason (lapse_of p now) = NotRenewedNoResponse" "rw_CustomerID (lapse_of p now) = op_CustomerID p"
  "rw_ChargeID (lapse_of p now) = ''''"
  by (simp_all add: lapse_of_def)

lemma lapse_created:
  assumes inv: "renewal_db_inv db" and p: "p \<in> set (rb_policies db)" and none: "find_renewal (op_ID p) (op_CoverageEnd p) db = None"
  shows "Renewal_Create (lapse_of p now) db =
    (db\<lparr>rb_renewals := rb_renewals db @ [stored_renewal (lapse_of p now)]\<rparr>, Inr (stored_renewal (lapse_of p now), True))"
proof -
  have "\<not> list_ex (\<lambda>q. rw_ID q = rw_ID (lapse_of p now)) (rb_renewals db)"
  proof
    assume "list_ex (\<lambda>q. rw_ID q = rw_ID (lapse_of p now)) (rb_renewals db)"
    then obtain q where q: "q \<in> set (rb_renewals db)" "rw_ID q = RenewalID (op_ID p) (op_CoverageEnd p)" by (auto simp: list_ex_iff)
    note ok = renewal_db_invD(5) [OF inv q(1)]
    then have "RenewalID (rw_PolicyID q) (rw_PeriodEnd q) = RenewalID (op_ID p) (op_CoverageEnd p)" using q(2) by (simp add: renewal_ok_def)
    then have pid: "rw_PolicyID q = op_ID p" by (rule RenewalID_policy)
    from ok obtain p' where p': "p' \<in> set (rb_policies db)" "op_ID p' = rw_PolicyID q" "op_CoverageEnd p' = rw_PeriodEnd q"
      by (auto simp: renewal_ok_def)
    have "inj_on op_ID (set (rb_policies db))" using renewal_db_invD(2) [OF inv] by (simp add: distinct_map)
    from inj_onD [OF this _ p'(1) p] p'(2) pid have "p' = p" by simp
    with find_renewal_in [OF inv q(1)] p'(3) pid none show False by simp
  qed
  moreover have "find_policy (op_ID p) db \<noteq> None" using p by (auto simp: find_policy_def find_None_iff)
  ultimately show ?thesis using none by (simp add: Renewal_Create_def Let_def)
qed

lemma lapse_renewal_ok: "p \<in> set (rb_policies db) \<Longrightarrow> renewal_ok db (lapse_of p now)"
  by (auto simp: renewal_ok_def)

definition no_answer :: "orig_policy \<Rightarrow> renewal \<Rightarrow> bool" where
  "no_answer p r \<longleftrightarrow> rw_PolicyID r = op_ID p \<and> rw_PeriodEnd r = op_CoverageEnd p \<and> rw_Status r = RenewalNotRenewed \<and>
     rw_Reason r = NotRenewedNoResponse"

lemma record_lapses_all:
  assumes "renewal_db_inv db" and "set ps \<subseteq> set (rb_policies db)" and "distinct (map op_ID ps)"
    and "\<And>p. p \<in> set ps \<Longrightarrow> find_renewal (op_ID p) (op_CoverageEnd p) db = None"
  shows "snd (record_lapses now ps n db) = n + length ps \<and>
    (\<forall>p \<in> set ps. \<exists>r \<in> set (rb_renewals (fst (record_lapses now ps n db))). no_answer p r)"
  using assms
proof (induction ps arbitrary: n db)
  case (Cons p ps)
  let ?r = "stored_renewal (lapse_of p now)"
  let ?db = "db\<lparr>rb_renewals := rb_renewals db @ [?r]\<rparr>"
  have p: "p \<in> set (rb_policies db)" using Cons.prems(2) by simp
  have created: "Renewal_Create (lapse_of p now) db = (?db, Inr (?r, True))"
    using lapse_created [OF Cons.prems(1) p] Cons.prems(4) by simp
  have inv: "renewal_db_inv ?db" using create_keeps(1) [OF Cons.prems(1) lapse_renewal_ok [OF p], of now] created by simp
  have none: "find_renewal (op_ID q) (op_CoverageEnd q) ?db = None" if q: "q \<in> set ps" for q
  proof -
    have "op_ID q \<in> op_ID ` set ps" "op_ID p \<notin> op_ID ` set ps" using Cons.prems(3) q by simp_all
    then have "op_ID q \<noteq> op_ID p" by metis
    moreover have "find_renewal (op_ID q) (op_CoverageEnd q) db = None" using Cons.prems(4) q by simp
    ultimately show ?thesis by (auto simp: find_renewal_def find_None_iff)
  qed
  have IH: "snd (record_lapses now ps (n + 1) ?db) = n + 1 + length ps \<and>
      (\<forall>p \<in> set ps. \<exists>r \<in> set (rb_renewals (fst (record_lapses now ps (n + 1) ?db))). no_answer p r)"
    by (rule Cons.IH [OF inv]) (use Cons.prems(2,3) none in auto)
  have "?r \<in> set (rb_renewals ?db)" by simp
  then have "?r \<in> set (rb_renewals (fst (record_lapses now ps (n + 1) ?db)))" using record_lapses_mono by blast
  moreover have "no_answer p ?r" by (simp add: no_answer_def)
  ultimately show ?case using IH created by auto
qed simp

lemma settle_stays: "renewals_stay db (fst (settle r now db))"
  by (auto simp: settle_def renewals_stay_marks split: sum.split prod.split bool.split) (metis fst_conv renewals_stay_marks(1,2))+

lemma settle_all_stay: "renewals_stay db (fold (\<lambda>r d. fst (settle r now d)) rs db)"
proof (induction rs arbitrary: db)
  case (Cons r rs)
  from renewals_stay_trans [OF settle_stays Cons] show ?case by simp
qed simp

lemma lapse_loop_stays: "renewals_stay db (lapse_loop rules send now rs db)"
proof (induction rs arbitrary: db)
  case (Cons r rs)
  from Cons [of db] renewals_stay_trans [OF renewals_stay_marks(3) Cons] show ?case
    by (auto split: sum.split option.split)
qed simp

lemma sweep_listed:
  assumes "renewal_db_inv db"
  shows "set (ListLapsed since now n db) \<subseteq> set (rb_policies db)" and "distinct (map op_ID (ListLapsed since now n db))"
    and "p \<in> set (ListLapsed since now n db) \<Longrightarrow> find_renewal (op_ID p) (op_CoverageEnd p) db = None"
proof -
  show "set (ListLapsed since now n db) \<subseteq> set (rb_policies db)" by (auto simp: ListLapsed_def dest: in_set_takeD)
  have "inj_on op_ID (set (rb_policies db))" "distinct (rb_policies db)"
    using renewal_db_invD(2) [OF assms] by (simp_all add: distinct_map)
  then show "distinct (map op_ID (ListLapsed since now n db))"
    using \<open>set (ListLapsed since now n db) \<subseteq> set (rb_policies db)\<close>
    by (auto simp: distinct_map ListLapsed_def intro: inj_on_subset)
  show "p \<in> set (ListLapsed since now n db) \<Longrightarrow> find_renewal (op_ID p) (op_CoverageEnd p) db = None"
    by (auto simp: ListLapsed_def lapsed_def dest: in_set_takeD)
qed

text \<open>C24. A sweep closes what nobody renewed. In a reachable state every policy it lists, which are the first
  100 that ended within the last 30 days and have no renewal, leaves the sweep with the renewal of that
  period as not renewed for lack of an answer, and the number it reports is the number of policies
  listed, so that none of them fails and none is counted twice.\<close>

theorem sweep_closes_lapses:
  assumes "renewal_reach rules y"
  shows "snd (renewal_Sweep rules' notifier now (ry_db y)) = length (ListLapsed (time_Add now (- LapseLookback)) now sweepBatch (ry_db y)) \<and>
    (\<forall>p \<in> set (ListLapsed (time_Add now (- LapseLookback)) now sweepBatch (ry_db y)).
      \<exists>r \<in> set (rb_renewals (fst (renewal_Sweep rules' notifier now (ry_db y)))). no_answer p r)"
proof -
  let ?ps = "ListLapsed (time_Add now (- LapseLookback)) now sweepBatch (ry_db y)"
  let ?db1 = "fst (record_lapses now ?ps 0 (ry_db y))"
  note inv = reach_renewal_db [OF assms]
  have all: "snd (record_lapses now ?ps 0 (ry_db y)) = length ?ps \<and> (\<forall>p \<in> set ?ps. \<exists>r \<in> set (rb_renewals ?db1). no_answer p r)"
    using record_lapses_all [OF inv sweep_listed(1,2) [OF inv] sweep_listed(3) [OF inv], where now = now and n = 0] by simp
  have "renewals_stay ?db1 (fst (renewal_Sweep rules' notifier now (ry_db y)))"
    by (auto simp: renewal_Sweep_def Let_def case_prod_beta notifyLapses_def settle_all_stay split: option.split
      intro: renewals_stay_trans [OF settle_all_stay lapse_loop_stays])
  then have "\<exists>q \<in> set (rb_renewals (fst (renewal_Sweep rules' notifier now (ry_db y)))). no_answer p q"
    if "r \<in> set (rb_renewals ?db1)" "no_answer p r" for p r
    using that by (fastforce simp: renewals_stay_def stays_def agreed_def outcome_of_def no_answer_def)
  with all show ?thesis by (auto simp: renewal_Sweep_def Let_def case_prod_beta)
qed

theorem sweep_closes_lapses_witness:
  "\<exists>y p r. renewal_reach DefaultRenewalPolicy y \<and>
    r \<in> set (rb_renewals (fst (renewal_Sweep DefaultRenewalPolicy None (366 * day_ns) (ry_db y)))) \<and> no_answer p r \<and>
    0 < snd (renewal_Sweep DefaultRenewalPolicy None (366 * day_ns) (ry_db y))"
proof -
  obtain y where y: "renewal_reach DefaultRenewalPolicy y" "run_matches y (run_insured ''a1'')" using run_states_reachable(3) by blast
  then have "ListLapsed (time_Add (366 * day_ns) (- LapseLookback)) (366 * day_ns) sweepBatch (ry_db y) \<noteq> []"
    using run_insured_state(2) by (simp add: run_matches_def)
  then obtain p ps where "ListLapsed (time_Add (366 * day_ns) (- LapseLookback)) (366 * day_ns) sweepBatch (ry_db y) = p # ps"
    by (meson neq_Nil_conv)
  with sweep_closes_lapses [OF y(1), of DefaultRenewalPolicy None "366 * day_ns"] obtain r where
    "r \<in> set (rb_renewals (fst (renewal_Sweep DefaultRenewalPolicy None (366 * day_ns) (ry_db y))))" "no_answer p r"
    "0 < snd (renewal_Sweep DefaultRenewalPolicy None (366 * day_ns) (ry_db y))" by auto
  with y(1) show ?thesis by blast
qed

section \<open>The calls as runs\<close>

text \<open>C25. The calls of the service refine the statements. From any state, an acceptance whose two readings of the
  clock do not go back leaves in the tables what a sequence of atomic statements of \<^const>\<open>renewal_step\<close> leaves
  at the second reading, and a status request, the list of the policies of a customer and a sweep what a
  sequence of statements leaves at their reading, so every invariant and every safety property of the
  statements holds before and after each call. An acceptance is moreover two runs with a gap: the tables
  where it has found or stored its renewal are reached by statements, and after whatever the others do
  next, the creation of the charge on the tables as they are by then, which is the rest of the call, is
  again a sequence of statements.\<close>

theorem calls_are_statements:
  assumes "ry_now y \<le> t" and "t \<le> t'"
  shows "(\<exists>z. (renewal_step rules)\<^sup>*\<^sup>* y z \<and> ry_now z = t' \<and> ry_db z = fst (Accept rules eng ctx i t t' (ry_db y))) \<and>
   (\<exists>z. (renewal_step rules)\<^sup>*\<^sup>* y z \<and> ry_now z = t \<and> ry_db z = fst (renewal_Status ctx i t (ry_db y))) \<and>
   (\<exists>z. (renewal_step rules)\<^sup>*\<^sup>* y z \<and> ry_now z = t \<and> ry_db z = fst (ListPolicies rules ctx t (ry_db y))) \<and>
   (\<exists>z. (renewal_step rules)\<^sup>*\<^sup>* y z \<and> ry_now z = t \<and> ry_db z = fst (renewal_Sweep rules notifier t (ry_db y))) \<and>
   (\<forall>db1 p r created. Accept_store rules eng ctx i t (ry_db y) = (db1, Inr (p, r, created)) \<longrightarrow>
     Accept rules eng ctx i t t' (ry_db y) = finish p r created t' db1 \<and>
     (\<exists>w. (renewal_step rules)\<^sup>*\<^sup>* y w \<and> ry_now w = t \<and> ry_db w = db1 \<and>
       (\<forall>z t''. (renewal_step rules)\<^sup>*\<^sup>* w z \<longrightarrow> ry_now z \<le> t'' \<longrightarrow>
         (\<exists>z'. (renewal_step rules)\<^sup>*\<^sup>* z z' \<and> ry_now z' = t'' \<and> ry_db z' = fst (finish p r created t'' (ry_db z))))))"
proof (intro conjI allI impI)
  let ?y = "y\<lparr>ry_now := t\<rparr>"
  note later = leads_later [OF assms(1)]
  show "\<exists>z. (renewal_step rules)\<^sup>*\<^sup>* y z \<and> ry_now z = t' \<and> ry_db z = fst (Accept rules eng ctx i t t' (ry_db y))"
    using Accept_clocked [OF assms] by blast
  show "\<exists>z. (renewal_step rules)\<^sup>*\<^sup>* y z \<and> ry_now z = t \<and> ry_db z = fst (renewal_Status ctx i t (ry_db y))"
    using later Status_leads [of rules ?y ctx i] by simp
  show "\<exists>z. (renewal_step rules)\<^sup>*\<^sup>* y z \<and> ry_now z = t \<and> ry_db z = fst (ListPolicies rules ctx t (ry_db y))"
    using later ListPolicies_leads [of rules ?y ctx] by simp
  show "\<exists>z. (renewal_step rules)\<^sup>*\<^sup>* y z \<and> ry_now z = t \<and> ry_db z = fst (renewal_Sweep rules notifier t (ry_db y))"
    using later Sweep_leads [of rules ?y rules notifier] by simp
next
  fix db1 p r created
  assume st: "Accept_store rules eng ctx i t (ry_db y) = (db1, Inr (p, r, created))"
  show "Accept rules eng ctx i t t' (ry_db y) = finish p r created t' db1" using st by (simp add: Accept_split)
  from Accept_store_later [OF assms(1) st] obtain w :: renewal_sys where w: "(renewal_step rules)\<^sup>*\<^sup>* y w" "ry_db w = db1" "ry_now w = t"
    "(p, r) \<in> set (ry_finishing w)" by auto
  have "\<exists>z'. (renewal_step rules)\<^sup>*\<^sup>* z z' \<and> ry_now z' = t'' \<and> ry_db z' = fst (finish p r created t'' (ry_db z))"
    if "(renewal_step rules)\<^sup>*\<^sup>* w z" "ry_now z \<le> t''" for z t''
    using finish_later [OF w(4) that, of created] by blast
  with w show "\<exists>w. (renewal_step rules)\<^sup>*\<^sup>* y w \<and> ry_now w = t \<and> ry_db w = db1 \<and>
       (\<forall>z t''. (renewal_step rules)\<^sup>*\<^sup>* w z \<longrightarrow> ry_now z \<le> t'' \<longrightarrow>
         (\<exists>z'. (renewal_step rules)\<^sup>*\<^sup>* z z' \<and> ry_now z' = t'' \<and> ry_db z' = fst (finish p r created t'' (ry_db z))))" by blast
qed

text \<open>An acceptance stores its renewal on day 336 and creates its charge on day 337, alone or after a sweep that ran in
  between.\<close>

lemma run_call_state:
  "rb_renewals (ry_db (run_insured ''a1'')) = [] \<and> ry_now (run_insured ''a1'') \<le> 336 * day_ns"
  "case Accept_store DefaultRenewalPolicy run_engine run_customer (PolicyIDFor ''a1'') (336 * day_ns) (ry_db (run_insured ''a1'')) of
     (db1, Inr (p, r, created)) \<Rightarrow> rb_renewals db1 = [r] \<and> gm_get (db_charges (rb_charges db1)) (rw_ChargeID r) = None \<and>
       gm_get (db_charges (rb_charges (fst (finish p r created (337 * day_ns)
         (fst (renewal_Sweep DefaultRenewalPolicy None (336 * day_ns) db1)))))) (rw_ChargeID r) \<noteq> None
   | _ \<Rightarrow> False"
  by code_simp+

theorem calls_are_statements_witness:
  "\<exists>y w x z r. renewal_reach DefaultRenewalPolicy y \<and> rb_renewals (ry_db y) = [] \<and>
    (\<exists>z. (renewal_step DefaultRenewalPolicy)\<^sup>*\<^sup>* y z \<and> ry_now z = 337 * day_ns \<and> ry_db z =
      fst (Accept DefaultRenewalPolicy run_engine run_customer (PolicyIDFor ''a1'') (336 * day_ns) (337 * day_ns) (ry_db y))) \<and>
    (renewal_step DefaultRenewalPolicy)\<^sup>*\<^sup>* y w \<and> ry_now w = 336 * day_ns \<and> rb_renewals (ry_db w) = [r] \<and>
    gm_get (db_charges (rb_charges (ry_db w))) (rw_ChargeID r) = None \<and>
    (renewal_step DefaultRenewalPolicy)\<^sup>*\<^sup>* w x \<and> ry_db x = fst (renewal_Sweep DefaultRenewalPolicy None (336 * day_ns) (ry_db w)) \<and>
    (renewal_step DefaultRenewalPolicy)\<^sup>*\<^sup>* x z \<and> ry_now z = 337 * day_ns \<and>
    gm_get (db_charges (rb_charges (ry_db z))) (rw_ChargeID r) \<noteq> None"
proof -
  obtain y :: renewal_sys where y: "renewal_reach DefaultRenewalPolicy y" "run_matches y (run_insured ''a1'')"
    using run_states_reachable(3) by blast
  note state = run_call_state [folded conjunct1 [OF y(2) [unfolded run_matches_def]]]
  have now: "ry_now y \<le> 336 * day_ns" "336 * day_ns \<le> (336 * day_ns :: time)" "336 * day_ns \<le> (337 * day_ns :: time)"
    using y(2) state(1) by (simp_all add: run_matches_def day_ns_def)
  obtain db1 p r created where st: "Accept_store DefaultRenewalPolicy run_engine run_customer (PolicyIDFor ''a1'') (336 * day_ns) (ry_db y) =
      (db1, Inr (p, r, created))"
    and db1: "rb_renewals db1 = [r]" "gm_get (db_charges (rb_charges db1)) (rw_ChargeID r) = None"
      "gm_get (db_charges (rb_charges (fst (finish p r created (337 * day_ns)
        (fst (renewal_Sweep DefaultRenewalPolicy None (336 * day_ns) db1)))))) (rw_ChargeID r) \<noteq> None"
    using state(2) by (auto split: prod.splits sum.splits)
  note call = calls_are_statements [OF now(1,3), of DefaultRenewalPolicy run_engine run_customer "PolicyIDFor ''a1''" None]
  from call st obtain w :: renewal_sys where w: "(renewal_step DefaultRenewalPolicy)\<^sup>*\<^sup>* y w" "ry_now w = 336 * day_ns" "ry_db w = db1"
    and rest: "\<And>z t''. (renewal_step DefaultRenewalPolicy)\<^sup>*\<^sup>* w z \<Longrightarrow> ry_now z \<le> t'' \<Longrightarrow>
      \<exists>z'. (renewal_step DefaultRenewalPolicy)\<^sup>*\<^sup>* z z' \<and> ry_now z' = t'' \<and> ry_db z' = fst (finish p r created t'' (ry_db z))"
    by blast
  obtain x :: renewal_sys where x: "(renewal_step DefaultRenewalPolicy)\<^sup>*\<^sup>* w x" "ry_now x = 336 * day_ns"
    "ry_db x = fst (renewal_Sweep DefaultRenewalPolicy None (336 * day_ns) (ry_db w))"
    using calls_are_statements [OF eq_refl [OF w(2)] now(2), of DefaultRenewalPolicy run_engine run_customer "PolicyIDFor ''a1''" None] by blast
  from rest [OF x(1), of "337 * day_ns"] obtain z :: renewal_sys where z: "(renewal_step DefaultRenewalPolicy)\<^sup>*\<^sup>* x z" "ry_now z = 337 * day_ns"
    "ry_db z = fst (finish p r created (337 * day_ns) (ry_db x))" using x(2) now(3) by auto
  show ?thesis
    using y(1) state(1) call w x z db1
    by (intro exI [of _ y] exI [of _ w] exI [of _ x] exI [of _ z] exI [of _ r]) simp
qed

end
