(* ===== verification/Spec2Isabelle.thy ===== *)
theory Spec2Isabelle
  imports Claims_Payout Scenario Triage_Scenario Filing_Scenario Billing_Properties Consent_Requests Renewal_Requests
begin

text \<open>
  Solventa, the back end of an insurer: Go services that quote and issue policies, charge premiums, take
  claims and pay indemnities. This development models the claims service, the charge of the premiums and the
  renewals in the origination service, the payment gateway both call, the consents and their revocations in the audit service, and
  the shared packages they stand on, and proves what makes them correct.

  \<^bold>\<open>The program.\<close> When a customer accepts an offer, the origination service creates a charge of the premium
  (\<^verbatim>\<open>services/origination/internal/billing/starter.go\<close>). The customer hands over a payment method
  (\<^verbatim>\<open>billing/service.go\<close>), a worker charges it through the payment gateway and, once it is confirmed, hands the
  activation of the coverage to its consumers (\<^verbatim>\<open>billing/worker.go\<close>); an analyst may resume a charge that failed.
  The activations are projected into the policies the insured sees; in the last 30 days of a policy its holder may
  renew it, which creates another charge, and a sweep closes what nobody renewed or paid
  (\<^verbatim>\<open>services/origination/internal/renewal\<close>).
  An insured person files a claim from the phone, with photographs captured in the place,
  or from the web portal, with supports uploaded before (\<^verbatim>\<open>services/claims/internal/filing\<close>). The claims are kept in
  one store for both channels (\<^verbatim>\<open>adapters/memory/cases.go\<close> is the store the model follows; the PostgreSQL one has the
  same contract). Several tasks calculate the priority of the claims that wait (\<^verbatim>\<open>triage\<close>). An analyst of operations
  approves or rejects a claim (\<^verbatim>\<open>decision/service.go\<close>), and a worker pays the approved ones through the payment
  gateway and tells the rejected ones by e-mail (\<^verbatim>\<open>decision/worker.go\<close>). A person consents to the processing of their
  data and may revoke it from the phone or through an analyst (\<^verbatim>\<open>services/audit/internal/consents\<close>); the audit service
  records the revocation with a receipt and a worker notifies the entity, which confirms or not; what is shown of a
  consent is derived from its events (\<^verbatim>\<open>domain/consent_view.go\<close>). The three workers run on the idempotent runner of
  \<^verbatim>\<open>pkg/idempotency\<close>, which claims an attempt under a lease, calls the provider with one key and records the result,
  with the waits of \<^verbatim>\<open>pkg/resilience\<close>; who may do what is decided by \<^verbatim>\<open>pkg/security\<close>.

  \<^bold>\<open>The theories.\<close>
    \<^item> \<open>Prelude\<close>, \<open>Gostring\<close>, \<open>Gotime\<close>, \<open>Gocalendar\<close>, \<open>Gofloat\<close>, \<open>Gohash\<close>: what the code uses of Go and of its
      library: 64-bit integers that wrap and divide towards zero, wrapped errors, maps as association lists,
      \<^verbatim>\<open>sort.Slice\<close>, UTF-8 and \<^verbatim>\<open>strings.TrimSpace\<close>, \<^verbatim>\<open>strconv\<close>, the calendar, \<^verbatim>\<open>AddDate\<close> and RFC 3339,
      floating-point rounding, SHA-256.
    \<^item> \<open>Paging\<close>: the pages of a list, with the locale \<open>cursor_list\<close> of what a store promises of its list.
    \<^item> \<open>Resilience\<close>, \<open>Security\<close>, \<open>Idempotency\<close>: the three packages of \<^verbatim>\<open>pkg\<close>. The contract of a store of attempts is
      the locale \<open>attempt_store\<close>; the lemmas about the runner are proved inside it.
    \<^item> \<open>Payment_Gateway\<close>: the gateway (\<^verbatim>\<open>stubs/payment-gateway\<close>) with its books, and the client of \<^verbatim>\<open>pkg/adapters/payments\<close>
      with its classification of every answer.
    \<^item> \<open>Charges\<close>: the charge of a premium and its rules (\<^verbatim>\<open>domain/charge.go\<close>, \<^verbatim>\<open>domain/contract.go\<close>) and the table it is
      kept in, one function per statement of \<^verbatim>\<open>adapters/postgres/charges.go\<close>; the table is an interpretation of
      \<open>attempt_store\<close>. \<open>Billing\<close>: the service, the starter and the worker over it.
    \<^item> \<open>Billing_Runs\<close>: the step relation \<open>billing_step\<close> of workers, customers, analysts, network and gateway, with the
      invariant of the money; \<open>Billing_Safety\<close>: the activations, and the worker as a sequence of these steps;
      \<open>Billing_Rows\<close>: what every row keeps; \<open>Billing_Scenario\<close>: runs; \<open>Billing_Properties\<close>: the properties.
    \<^item> \<open>Renewals\<close>: \<^verbatim>\<open>domain/renewal.go\<close> and the tables of the policies and the renewals; \<open>Renewal_Service\<close>: the service, the
      sweep and the projector. \<open>Renewal_Runs\<close>: the step relation \<open>renewal_step\<close> of insured people, sweeps, analysts and the
      worker of the charges; \<open>Renewal_Safety\<close>: its invariant; \<open>Renewal_Calls\<close>: the calls of the service as sequences of
      its steps; \<open>Renewal_Scenario\<close>: runs; \<open>Renewal_Properties\<close>, \<open>Renewal_Requests\<close>: the properties.
    \<^item> \<open>Claims_Catalog\<close>, \<open>Claims_Rules\<close>, \<open>Claims_Web\<close>: \<^verbatim>\<open>domain\<close>: the catalog and the policies, the rules of the mobile
      filing and of its evidence, and the ones of the web filing and of its supports. Every check is a function that
      returns the fields it found wrong, in the order of the code.
    \<^item> \<open>Claims_Cases\<close>: the store of the claims; a record of the fields of \<^verbatim>\<open>CaseStore\<close> and one function per method.
    \<^item> \<open>Claims_Filing\<close>: the use cases of the two filings and of the supports, over that store.
    \<^item> \<open>Claims_Triage\<close>: the level, its policy, the store of the calculations and the service; the step relation
      \<open>triage_step\<close> interleaves the tasks.
    \<^item> \<open>Claims_Decision\<close>, \<open>Claims_Payout\<close>: the decision, its store and the service of the analyst; the worker, and the
      step relation \<open>pay_step\<close> of workers, analysts, insured people and gateway.
    \<^item> \<open>Consents\<close>, \<open>Consent_View\<close>, \<open>Revocations\<close>: \<^verbatim>\<open>domain\<close> of the audit service: the consent and its checks, what is
      derived from its events, the requests to revoke it. \<open>Consent_Store\<close>: its tables, one function per statement or
      transaction of \<^verbatim>\<open>adapters/postgres\<close>; \<open>Consent_Notices\<close>: the notices are an interpretation of \<open>attempt_store\<close>.
      \<open>Consent_Service\<close>: the use cases.
    \<^item> \<open>Consent_Runs\<close>: the step relation \<open>audit_step\<close> of holders, analysts, workers and retries, with its invariant;
      \<open>Consent_Safety\<close>: every step keeps it; \<open>Consent_Derived\<close>: what the events derive; \<open>Consent_Lasting\<close>: what no step
      undoes; \<open>Consent_Scenario\<close>: runs; \<open>Consent_Properties\<close>, \<open>Consent_Requests\<close>: the properties.
    \<^item> \<open>Scenario\<close>, \<open>Filing_Scenario\<close>, \<open>Triage_Scenario\<close>: runs of the model on concrete inputs, from a filing to its
      payment; the theorems with hypotheses are applied to them.

  \<^bold>\<open>What the theorems show.\<close> Indemnities: no disbursement without an approval of exactly that amount, a paid claim was
  disbursed, what was decided is final, three automatic attempts, one live attempt, and the store of the payouts
  implements the contract of the runner. Premiums: an acceptance that no analyst resumed is charged at most once, one
  that was resumed can be charged twice, every activated coverage was paid, nothing is charged without a payment
  method, and a pass of the worker, with a reading of the clock for each
  claim, is a sequence of the steps these hold of. Renewals: a period has one renewal and
  one outcome, a renewed policy was paid and never overlaps the one before, an acceptance can be repeated in every later
  state and writes nothing, the sweep closes every period it lists, the calls are sequences of the steps, with what
  others do between the two readings of the clock of an acceptance; a renewal that was closed for its payment can still be charged, and identifiers grow
  until a policy cannot be renewed. Amounts: what is paid and the deductible
  make the gross amount, and minor units survive the floating-point numbers of the documents. Filing: the
  numbers and the supports are unique, an accepted filing is complete, a retry files nothing. Lists: the pages give
  every claim once. Priorities: the history is a chain under any interleaving and the sweeps leave nobody waiting.
  Consents: an active consent can always be revoked, once and for good; what is shown of the notices is what their
  store says; a retry resumes exactly the entities that did not confirm; a revocation is partial exactly while an
  entity is unresolved; a confirmed notice is final. Access: who sees
  a priority and a consent.

  \<^bold>\<open>Arguments of the model.\<close> The clock, the random bytes, the object storage, the policy core, the mailer, the network
  and the consumers of an activation are arguments of the functions that use them. The gateway of \<open>billing_step\<close> is
  the one of the repository; the one of \<open>pay_step\<close> is any that keeps the documented contract: for a key it executed
  it never executes again, it answers a success only for a key it executed, and it may fail in any other way before
  or after executing. A statement on a table is one atomic step. The clocks of the workers of the charges agree. So do the
  clocks of the renewals, and those of the audit service. New
  identifiers are assumed to be fresh: they are 122 random bits.

  \<^bold>\<open>Bounds and fuel.\<close> \<open>Backoff_loop\<close> ends by the distance of its counter to the attempts. \<open>follow_pages\<close> has the
  number of elements of the list as its fuel, which is enough because each page but the last takes one at least. The
  products of \<open>DeductibleOf\<close> wrap; \<open>approval_amounts\<close> says for which amounts they do not. A float64 is a rational, rounded
  to 53 bits after every operation; the exponents are not bounded, so amounts that overflow or underflow are outside
  the model.

  \<^bold>\<open>Not modelled.\<close> HTTP handlers, SQL text and the clients of other services (their effects are the arguments above);
  logging; the timers that call the workers; the JWT verification; of the origination service everything but the charge
  of the premium and the renewals; of the audit service the search list of compliance, the decisions and the credentials of the partners,
  and that PostgreSQL keeps instants to the microsecond; the partners and notifications services.
\<close>

section \<open>Payments\<close>

text \<open>C1. Money only leaves for a decided claim. In every state that workers, analysts, insured
  people and the gateway can reach together, with crashes, lost leases and retries anywhere, each
  disbursement the gateway made is under the key of exactly one claim, that claim has one decision,
  an approval, and what was disbursed is what it decided: the gross amount less the deductible, in
  its currency and to its beneficiary.\<close>

theorem disbursements_are_decided:
  assumes "pay_step\<^sup>*\<^sup>* (pay_init t) y" and "ps_ledger y k = Some b"
  shows "\<exists>!cid. k = PayoutKey cid \<and>
    (\<exists>d p. gm_get (ds_decisions (ps_store y)) cid = Some d \<and> dn_ClaimID d = cid \<and> dn_Outcome d = Outcome_Approved \<and>
       dn_Payout d = Some p \<and> b = (i64 (dn_GrossAmountMinor d - DeductibleMinor d), py_Currency p, py_BeneficiaryID p))"
proof -
  have inv: "decision_inv (ps_store y)" "ledger_ok (ps_store y) (ps_ledger y)"
    using pay_inv_reachable [OF assms(1)] by (simp_all add: pay_inv_def)
  from inv(2) assms(2) obtain cid d p where d: "gm_get (ds_decisions (ps_store y)) cid = Some d" "dn_Payout d = Some p"
    "py_Key p = k" "disbursement_of p = b"
    unfolding ledger_ok_def by blast
  note D = decision_invD [OF inv(1) d(1)]
  note P = decision_ok_payout [OF D(2) d(2)]
  have "k = PayoutKey cid" "b = (i64 (dn_GrossAmountMinor d - DeductibleMinor d), py_Currency p, py_BeneficiaryID p)"
    using P(2) D(1) d(3,4) by (auto simp: payout_ok_def disbursement_of_def)
  moreover have "PayoutKey i = PayoutKey j \<Longrightarrow> i = j" for i j by (simp add: PayoutKey_def)
  ultimately show ?thesis using d D(1) P(1) by (intro ex1I [of _ cid]) auto
qed

theorem disbursements_are_decided_witness:
  "\<exists>!cid. PayoutKey ''c1'' = PayoutKey cid \<and>
    (\<exists>d p. gm_get (ds_decisions (ps_store run_paid)) cid = Some d \<and> dn_ClaimID d = cid \<and> dn_Outcome d = Outcome_Approved \<and>
       dn_Payout d = Some p \<and> (900004, ''COP'', ''ana'') =
         (i64 (dn_GrossAmountMinor d - DeductibleMinor d), py_Currency p, py_BeneficiaryID p))"
  by (rule disbursements_are_decided [OF run_paid_reached(1) run_paid_sel(2)])

text \<open>C2. A claim that shows as paid was paid: in every reachable state, a claim with status paid has
  a confirmed payout whose amount, currency and beneficiary are exactly what the gateway disbursed
  under the key of the claim.\<close>

theorem paid_claims_were_disbursed:
  assumes "pay_step\<^sup>*\<^sup>* (pay_init t) y" and "gm_get (cs_byID (ds_cases (ps_store y))) cid = Some c"
    and "cl_Status c = StatusPaid"
  shows "\<exists>d p. gm_get (ds_decisions (ps_store y)) cid = Some d \<and> dn_Payout d = Some p \<and> py_Status p = StatusConfirmed \<and>
    ps_ledger y (PayoutKey cid) = Some (py_AmountMinor p, py_Currency p, py_BeneficiaryID p)"
proof -
  have inv: "decision_inv (ps_store y)" "ledger_ok (ps_store y) (ps_ledger y)" "paid_ok (ps_store y) (ps_ledger y)"
    using pay_inv_reachable [OF assms(1)] by (simp_all add: pay_inv_def)
  obtain d where d: "gm_get (ds_decisions (ps_store y)) cid = Some d"
    using inv(1) assms(2,3) unfolding decision_inv_def by (cases "gm_get (ds_decisions (ps_store y)) cid") force+
  note D = decision_invD [OF inv(1) d]
  from D(3) assms(2,3) have "StatusOf d = Some StatusPaid" by auto
  then obtain p where p: "dn_Payout d = Some p" "py_Status p = StatusConfirmed"
    by (auto simp: StatusOf_def split: if_splits option.splits status.splits)
  have k: "py_Key p = PayoutKey cid" using decision_ok_payout(2) [OF D(2) p(1)] D(1) by (simp add: payout_ok_def)
  have "ps_ledger y (PayoutKey cid) \<noteq> None" using inv(3) d p k unfolding paid_ok_def by metis
  then obtain b where b: "ps_ledger y (PayoutKey cid) = Some b" by blast
  with inv(2) obtain cid' d' p' where d': "gm_get (ds_decisions (ps_store y)) cid' = Some d'" "dn_Payout d' = Some p'"
    "py_Key p' = PayoutKey cid" "disbursement_of p' = b"
    unfolding ledger_ok_def by blast
  have "cid' = cid"
    using decision_ok_payout(2) [OF decision_invD(2) [OF inv(1) d'(1)] d'(2)] decision_invD(1) [OF inv(1) d'(1)] d'(3)
    by (simp add: payout_ok_def PayoutKey_def)
  with d' d p have "b = disbursement_of p" by simp
  with d p b show ?thesis by (simp add: disbursement_of_def)
qed

theorem paid_claims_were_disbursed_witness:
  "\<exists>c. gm_get (cs_byID (ds_cases (ps_store run_paid))) ''c1'' = Some c \<and> cl_Status c = StatusPaid \<and>
    (\<exists>d p. gm_get (ds_decisions (ps_store run_paid)) ''c1'' = Some d \<and> dn_Payout d = Some p \<and> py_Status p = StatusConfirmed \<and>
      ps_ledger run_paid (PayoutKey ''c1'') = Some (py_AmountMinor p, py_Currency p, py_BeneficiaryID p))"
  using run_paid_sel(3) paid_claims_were_disbursed [OF run_paid_reached(1), of "''c1''"] by blast

text \<open>C3. The status of a claim is the one of its decision: in every reachable state a decided claim
  shows exactly the status its decision gives, and a claim without a decision can still be decided;
  so no claim is left between the two writes of a decision.\<close>

theorem status_follows_decision:
  assumes "pay_step\<^sup>*\<^sup>* (pay_init t) y" and "gm_get (cs_byID (ds_cases (ps_store y))) cid = Some c"
  shows "case gm_get (ds_decisions (ps_store y)) cid of
           None \<Rightarrow> Decidable (cl_Status c)
         | Some d \<Rightarrow> StatusOf d = Some (cl_Status c) \<and> dn_FilingNumber d = cl_FilingNumber c"
proof -
  have inv: "decision_inv (ps_store y)" using pay_inv_reachable [OF assms(1)] by (simp add: pay_inv_def)
  show ?thesis
  proof (cases "gm_get (ds_decisions (ps_store y)) cid")
    case None
    with inv assms(2) show ?thesis by (simp add: decision_inv_def del: Decidable_iff)
  next
    case (Some d)
    from decision_invD(3) [OF inv Some] assms(2) show ?thesis by (auto simp: Some)
  qed
qed

theorem status_follows_decision_witness:
  "\<exists>c. gm_get (cs_byID (ds_cases (ps_store run_paid))) ''c1'' = Some c \<and>
    (case gm_get (ds_decisions (ps_store run_paid)) ''c1'' of
       None \<Rightarrow> Decidable (cl_Status c)
     | Some d \<Rightarrow> StatusOf d = Some (cl_Status c) \<and> dn_FilingNumber d = cl_FilingNumber c)"
  using run_paid_sel(3) status_follows_decision [OF run_paid_reached(1), of "''c1''"] by blast

text \<open>C4. What was decided never changes: from any reachable state on, whatever the workers, the
  analysts and the gateway do, the outcome, the amounts, the reason, the analyst and the instant of a
  decision, and the key, amount, currency and beneficiary of its payout, stay as they were.\<close>

theorem decided_terms_are_final:
  assumes "pay_step\<^sup>*\<^sup>* (pay_init t) y" and "pay_step\<^sup>*\<^sup>* y y'" and "gm_get (ds_decisions (ps_store y)) cid = Some d"
  shows "\<exists>d'. gm_get (ds_decisions (ps_store y')) cid = Some d' \<and> what_was_decided d' = what_was_decided d"
  using pay_steps_evolve [OF assms(2) pay_inv_reachable [OF assms(1)]] assms(3) by (simp add: evolves_def)

theorem decided_terms_are_final_witness:
  "\<exists>d d'. gm_get (ds_decisions (ps_store run_approved)) ''c1'' = Some d \<and>
     gm_get (ds_decisions (ps_store run_paid)) ''c1'' = Some d' \<and> what_was_decided d' = what_was_decided d"
  using run_approved_sel(1) run_claimed_steps run_paid_steps
    decided_terms_are_final [OF run_approved_reached, of run_paid "''c1''"]
  by (meson rtranclp_trans)

text \<open>C28. At most three automatic attempts: in every reachable state a payout that can still be sent
  has failed fewer than three times since it was decided or retried by hand, and no payout counts
  more than three failures.\<close>

theorem automatic_attempts_bounded:
  assumes "pay_step\<^sup>*\<^sup>* (pay_init t) y" and "gm_get (ds_decisions (ps_store y)) cid = Some d" and "dn_Payout d = Some p"
  shows "0 \<le> py_Attempts p \<and> py_Attempts p \<le> MaxAutomaticPayoutAttempts \<and>
    (py_Status p \<noteq> StatusFailed \<longrightarrow> py_Attempts p < MaxAutomaticPayoutAttempts)"
proof -
  have "attempts_ok (ps_store y)" using pay_inv_reachable [OF assms(1)] by (simp add: pay_inv_def)
  with assms(2,3) have "attempts_fine p" by (auto simp: attempts_ok_def)
  then show ?thesis by (auto simp: attempts_fine_def split: if_splits)
qed

theorem automatic_attempts_bounded_witness:
  "\<exists>d p. gm_get (ds_decisions (ps_store run_claimed)) ''c1'' = Some d \<and> dn_Payout d = Some p \<and>
     0 \<le> py_Attempts p \<and> py_Attempts p < MaxAutomaticPayoutAttempts"
proof -
  have g: "gm_get (ds_decisions (ps_store run_claimed)) ''c1'' = Some run_attempt"
    using run_leasing(2) by (simp add: run_claimed_def)
  have "py_Status run_payout \<noteq> StatusFailed" by (simp add: run_leasing(6))
  with g run_leasing(3) automatic_attempts_bounded [OF run_paid_reached(2) g run_leasing(3)] show ?thesis by auto
qed

text \<open>C29. A payout is never sent twice at once: in every reachable state, of the attempts in flight for
  one claim at most one has a lease that has not ended, so a worker that is slow, and not dead, loses
  the payout only after its lease.\<close>

theorem one_live_attempt:
  assumes "pay_step\<^sup>*\<^sup>* (pay_init t) y" and "(r, res) \<in> set (ps_flight y)" and "(r', res') \<in> set (ps_flight y)"
    and "dn_ClaimID r = dn_ClaimID r'"
    and "ps_now y \<le> at_ClaimedUntil (AttemptState r)" and "ps_now y \<le> at_ClaimedUntil (AttemptState r')"
  shows "(r, res) = (r', res')"
proof -
  have l: "lease_ok (ps_store y) (ps_flight y) (ps_now y)" and F: "flight_ok (ps_store y) (ps_ledger y) (ps_flight y)"
    using pay_inv_reachable [OF assms(1)] by (simp_all add: pay_inv_def)
  have h: "\<exists>d p. holds_payout (ps_store y) q d p" if "(q, w) \<in> set (ps_flight y)" "ps_now y \<le> at_ClaimedUntil (AttemptState q)" for q w
    using l that by (force simp: lease_ok_def lease_state_def)
  obtain d p d' p' where hp: "holds_payout (ps_store y) r d p" "holds_payout (ps_store y) r' d' p'"
    using h [OF assms(2,5)] h [OF assms(3,6)] by blast
  then have "at_ClaimedUntil (AttemptState r) = at_ClaimedUntil (AttemptState r')"
    using assms(4) by (auto simp: holds_payout_def AttemptState_def)
  then have "lease_id (r, res) = lease_id (r', res')" using assms(4) by (simp add: lease_id_def)
  moreover have "inj_on lease_id (set (ps_flight y))" using l by (simp add: lease_ok_def distinct_map)
  ultimately show ?thesis using assms(2,3) by (meson inj_onD)
qed

theorem one_live_attempt_witness:
  "{(r, res). (r, res) \<in> set (ps_flight run_claimed) \<and> dn_ClaimID r = ''c1'' \<and>
      ps_now run_claimed \<le> at_ClaimedUntil (AttemptState r)} = {(run_attempt, None)}"
proof -
  have f: "(run_attempt, None) \<in> set (ps_flight run_claimed)" by (simp add: run_claimed_def)
  have n: "ps_now run_claimed \<le> at_ClaimedUntil (AttemptState run_attempt)"
    using run_leasing by (simp add: AttemptState_def run_claimed_def run_now_def)
  have "(r, res) = (run_attempt, None)" if "(r, res) \<in> set (ps_flight run_claimed)" "dn_ClaimID r = ''c1''"
    "ps_now run_claimed \<le> at_ClaimedUntil (AttemptState r)" for r res
    using one_live_attempt [OF run_paid_reached(2) that(1) f _ that(3) n] that(2) run_leasing(4) by simp
  with f n run_leasing(4) show ?thesis by blast
qed

text \<open>C30. The store of the payouts keeps the contract of the idempotent runner: a result is recorded
  exactly while the worker that brings it still holds its lease. Then only the payout of that claim
  changes, it leaves the state in progress with the same key, and it is confirmed exactly when the
  gateway answered a success. A result that comes after the lease was lost changes nothing and is
  reported as lost.\<close>

theorem results_recorded_while_held:
  assumes "decision_inv s" and "dn_Payout r \<noteq> None"
  shows "\<exists>st reason s' stored. record_result (worker_runner p l) r now res s = (st, reason, s', stored) \<and>
    (if \<exists>a. view_payout s (dn_ClaimID r) = Some a \<and> holds_claim a (AttemptState r)
     then decision_inv s' \<and> (\<exists>a a'. view_payout s (dn_ClaimID r) = Some a \<and>
            view_payout s' = (view_payout s)(dn_ClaimID r \<mapsto> a') \<and> at_Key a' = at_Key a \<and>
            at_Status a' \<noteq> StatusInProgress \<and> (at_Status a' = StatusConfirmed \<longleftrightarrow> (\<exists>out. res = Inr out)))
     else s' = s \<and> stored = Inl ErrClaimLost)"
proof -
  have rn: "worker_runner p l = payouts.the_runner p l" by (simp add: worker_runner_def payouts.the_runner_def)
  have i: "at_ID (AttemptState r) = dn_ClaimID r" by (simp add: AttemptState_def split: option.split)
  show ?thesis
  proof (cases "\<exists>a. view_payout s (dn_ClaimID r) = Some a \<and> holds_claim a (AttemptState r)")
    case True
    then obtain a where a: "view_payout s (dn_ClaimID r) = Some a" "holds_claim a (AttemptState r)" by blast
    have "at_ID a = dn_ClaimID r" using payouts.view_id [OF assms(1) a(1)] .
    with payouts.record_held [OF assms(1), of r a p l now res] assms(2) a True i show ?thesis
      unfolding rn by fastforce
  next
    case False
    with payouts.record_lost [OF assms(1), of r p l now res] assms(2) i show ?thesis
      unfolding rn payouts.held_by_def by fastforce
  qed
qed

theorem results_recorded_while_held_witness:
  "\<exists>st reason s' stored. record_result (worker_runner DefaultRetry 30) run_attempt 125 (Inr run_outcome) (ps_store run_claimed) =
     (st, reason, s', stored) \<and> decision_inv s' \<and>
     (\<exists>a'. view_payout s' = (view_payout (ps_store run_claimed))(''c1'' \<mapsto> a') \<and> at_Status a' = StatusConfirmed)"
proof -
  have inv: "decision_inv (ps_store run_claimed)" using pay_inv_reachable [OF run_paid_reached(2)] by (simp add: pay_inv_def)
  have v: "view_payout (ps_store run_claimed) ''c1'' = Some (AttemptState run_attempt)"
    using run_leasing(2,3) by (simp add: view_payout_def run_claimed_def)
  have h: "holds_claim (AttemptState run_attempt) (AttemptState run_attempt)"
    using run_leasing(3,6) by (simp add: holds_claim_def AttemptState_def)
  from results_recorded_while_held [OF inv, of run_attempt DefaultRetry 30 125 "Inr run_outcome"] v h run_leasing(3,4)
  show ?thesis by fastforce
qed

text \<open>C31. A confirmed payout is final: the worker that picks it up again claims nothing, calls the gateway
  not at all, whatever the gateway would answer, and writes nothing.\<close>

theorem confirmed_payout_is_final:
  assumes "decision_inv s" and "gm_get (ds_decisions s) cid = Some d" and "dn_Payout d = Some q"
    and "py_Status q = StatusConfirmed"
  shows "Runner_Process (worker_runner p l) cid exec now1 now2 s = (s, empty_report, None)"
proof -
  have "view_payout s cid = Some (AttemptState d)" using assms by (simp add: view_payout_def)
  moreover have "at_Status (AttemptState d) = StatusConfirmed" using assms by (simp add: AttemptState_def)
  moreover have "worker_runner p l = payouts.the_runner p l" by (simp add: worker_runner_def payouts.the_runner_def)
  ultimately show ?thesis using payouts.confirmed_final [OF assms(1)] by simp
qed

theorem confirmed_payout_is_final_witness:
  "Runner_Process (worker_runner DefaultRetry 30) ''c1'' (\<lambda>_ x. (x, Inr run_outcome)) 500 501 (ps_store run_paid) =
     (ps_store run_paid, empty_report, None)"
proof -
  have inv: "decision_inv (ps_store run_paid)" using pay_inv_reachable [OF run_paid_reached(1)] by (simp add: pay_inv_def)
  from run_paid_sel(1) obtain d q where "gm_get (ds_decisions (ps_store run_paid)) ''c1'' = Some d" "dn_Payout d = Some q"
    "py_Status q = StatusConfirmed" by blast
  then show ?thesis by (rule confirmed_payout_is_final [OF inv])
qed

text \<open>A claim is decided once: after a decision took effect, every other decision on the claim is
  refused, and the store does not change.\<close>

theorem one_decision_per_claim:
  assumes "Decide d s = (s', Inr d1)" and "dn_ClaimID d' = dn_ClaimID d"
  shows "Decide d' s' = (s', Inl ErrNotDecidable)"
proof -
  from assms(1) obtain c st where "gm_get (cs_byID (ds_cases s)) (dn_ClaimID d) = Some c"
    and s': "s' = setStatus (dn_ClaimID d) st (put_decision (dn_ClaimID d) d1 s)"
    by (auto simp: Decide_def Let_def split: option.splits if_splits)
  then obtain c' where "gm_get (cs_byID (ds_cases s')) (dn_ClaimID d) = Some c'"
    "gm_get (ds_decisions s') (dn_ClaimID d) = Some d1"
    by (auto simp: setStatus_def put_decision_def Let_def)
  with assms(2) show ?thesis by (simp add: Decide_def)
qed

theorem one_decision_per_claim_witness:
  "Decide run_decision (ps_store run_approved) = (ps_store run_approved, Inl ErrNotDecidable)"
proof -
  have "\<exists>d1. Decide run_decision (ps_store run_filed) = (ps_store run_approved, Inr d1)"
  proof (cases "Decide run_decision (ps_store run_filed)")
    case (Pair s' res)
    from domain_Approve_ok(1) [OF run_approval] Pair show ?thesis
    proof (cases rule: Decide_cases)
      case (refused e)
      with run_approved_sel(1) run_filed_sel(2) Pair show ?thesis by (auto simp: run_approved_def)
    next
      case (decided c st d1)
      with Pair show ?thesis by (auto simp: run_approved_def)
    qed
  qed
  then show ?thesis using one_decision_per_claim by blast
qed

text \<open>C32. The amounts of an approval add up, for every amount whose product with the deductible stays in
  the range of a 64-bit integer: the insured person gets a positive amount, what is paid and the
  deductible make exactly the gross amount, which is within the insured value, and the deductible is
  the percentage of the coverage rounded to the nearest unit.\<close>

theorem approval_amounts:
  assumes "domain_Approve c cov ho gross who t = Inr d" and "amount_safe gross (cov_DeductibleBasisPoints cov)"
  shows "\<exists>p. dn_Payout d = Some p \<and> 0 < py_AmountMinor p \<and> 0 \<le> DeductibleMinor d \<and>
    py_AmountMinor p + DeductibleMinor d = gross \<and> gross \<le> cov_InsuredValueMinor cov \<and>
    \<bar>10000 * DeductibleMinor d - gross * cov_DeductibleBasisPoints cov\<bar> \<le> 5000"
proof -
  have d: "dn_GrossAmountMinor d = gross" "dn_DeductibleBasisPoints d = cov_DeductibleBasisPoints cov"
    "dn_InsuredValueMinor d = cov_InsuredValueMinor cov"
    using assms(1) by (auto simp: domain_Approve_def Let_def split: if_splits)
  from domain_Approve_amounts [OF assms] DeductibleOf_bounds [OF assms(2)] d show ?thesis
    by (auto simp: approval_amounts_ok_def DeductibleMinor_def split: option.splits)
qed

theorem approval_amounts_witness:
  "\<exists>p. dn_Payout run_decision = Some p \<and> 0 < py_AmountMinor p \<and> 0 \<le> DeductibleMinor run_decision \<and>
    py_AmountMinor p + DeductibleMinor run_decision = 1000005 \<and> 1000005 \<le> cov_InsuredValueMinor run_coverage \<and>
    \<bar>10000 * DeductibleMinor run_decision - 1000005 * cov_DeductibleBasisPoints run_coverage\<bar> \<le> 5000"
  by (rule approval_amounts [OF run_approval]) (simp add: amount_safe_def run_coverage_def basisPoints_def)

text \<open>C33. An approval is made on the terms of the claim it approves: it needs a claim in evaluation, the
  terms the policy core has for its policy and its insured person, a coverage of its incident and an
  amount within the insured value; the beneficiary is the insured person of the claim, the money goes
  to the account the core has for that person, and the claim shows as approved.\<close>

theorem approval_on_the_terms_of_the_claim:
  assumes "service_Approve terms now cid analyst gross s = (s', Inr d)"
  shows "\<exists>c core pt ho cov p. gm_get (cs_byID (ds_cases s)) cid = Some c \<and> Decidable (cl_Status c) \<and> terms = Some core \<and>
    ptr_PolicyTerms core (cl_Subject c) (cl_PolicyID c) = Inr pt \<and> ptr_Holder core (cl_Subject c) = Inr ho \<and>
    PolicyTerms_CoverageOf pt (cl_IncidentType c) = Some cov \<and> 0 < gross \<and> gross \<le> cov_InsuredValueMinor cov \<and>
    dn_Payout d = Some p \<and> py_BeneficiaryID p = cl_Subject c \<and> py_Destination p = ho_PayoutAccount ho \<and>
    py_Currency p = cov_Currency cov \<and> dn_DecidedBy d = analyst \<and>
    (cl_ID c = cid \<longrightarrow> gm_get (ds_decisions s') cid = Some d \<and>
       gm_get (cs_byID (ds_cases s')) cid = Some (c\<lparr>cl_Status := StatusApproved\<rparr>))"
proof -
  from assms obtain c where c: "gm_get (cs_byID (ds_cases s)) cid = Some c" "Decidable (cl_Status c)"
    "decidable cid s = Inr c"
    by (auto simp: service_Approve_def decidable_def Get_def split: option.splits if_splits)
  with assms obtain core pt ho where t: "terms = Some core" "ptr_PolicyTerms core (cl_Subject c) (cl_PolicyID c) = Inr pt"
    "ptr_Holder core (cl_Subject c) = Inr ho" "termsOf terms c = Inr (pt, ho)"
    by (auto simp: service_Approve_def termsOf_def split: option.splits sum.splits)
  with assms c obtain cov d0 where v: "PolicyTerms_CoverageOf pt (cl_IncidentType c) = Some cov"
    "domain_Approve c cov ho gross analyst now = Inr d0" "Decide d0 s = (s', Inr d)"
    by (auto simp: service_Approve_def split: option.splits sum.splits)
  note ok = domain_Approve_ok [OF v(2)]
  from ok(1) v(3) obtain c' st where e: "gm_get (cs_byID (ds_cases s)) (cl_ID c) = Some c'"
    "d = d0\<lparr>dn_FilingNumber := cl_FilingNumber c'\<rparr>" "StatusOf d = Some st" "s' = setStatus (cl_ID c) st (put_decision (cl_ID c) d s)"
    by (cases rule: Decide_cases) (auto simp: ok(2))
  have "st = StatusApproved" using e(2,3) ok(3) by simp
  with e c have "cl_ID c = cid \<longrightarrow> gm_get (ds_decisions s') cid = Some d \<and>
       gm_get (cs_byID (ds_cases s')) cid = Some (c\<lparr>cl_Status := StatusApproved\<rparr>)"
    by (auto simp: setStatus_def put_decision_def Let_def)
  moreover have "\<exists>p. dn_Payout d = Some p \<and> py_BeneficiaryID p = cl_Subject c \<and> py_Destination p = ho_PayoutAccount ho \<and>
    py_Currency p = cov_Currency cov" "dn_DecidedBy d = analyst" "0 < gross" "gross \<le> cov_InsuredValueMinor cov"
    using v(2) e(2) by (auto simp: domain_Approve_def Let_def split: if_splits)
  ultimately show ?thesis using c t v(1) by blast
qed

theorem approval_on_the_terms_of_the_claim_witness:
  "\<exists>p. dn_Payout run_stored = Some p \<and> py_BeneficiaryID p = ''ana'' \<and> py_Destination p = run_account \<and>
    gm_get (ds_decisions (ps_store run_approved)) ''c1'' = Some run_stored"
proof -
  have "ho_PayoutAccount run_holder = run_account" "ptr_Holder run_core u = Inr run_holder" for u
    by (simp_all add: run_holder_def run_core_def)
  with approval_on_the_terms_of_the_claim [OF run_service] run_filed_sel(1) run_record_sel show ?thesis by auto
qed

section \<open>Retries\<close>

text \<open>C34. The wait between attempts has a closed form: for every valid policy it is the base doubled once
  per failed attempt, cut at the maximum, and the doubling never leaves the range of a 64-bit
  integer; so it is never less than the base, never more than the maximum and never shorter after
  one more failure.\<close>

theorem backoff_closed_form:
  assumes "policy_ok p"
  shows "Backoff p n = min (rp_Base p * 2 ^ nat (n - 1)) (rp_Max p) \<and>
    rp_Base p \<le> Backoff p n \<and> Backoff p n \<le> rp_Max p \<and> Backoff p n \<le> Backoff p (n + 1)"
  using Backoff_closed [OF assms] Backoff_bounds [OF assms] Backoff_mono [OF assms, of n "n + 1"] by simp

theorem backoff_closed_form_witness:
  "policy_ok DefaultRetryPolicy \<and> Backoff DefaultRetryPolicy 3 = 2000000000 \<and> Backoff DefaultRetryPolicy 60 = 60000000000"
proof -
  have ok: "policy_ok DefaultRetryPolicy" by code_simp
  have "min (rp_Base DefaultRetryPolicy * 2 ^ nat (3 - 1)) (rp_Max DefaultRetryPolicy) = 2000000000"
    "min (rp_Base DefaultRetryPolicy * 2 ^ nat (60 - 1)) (rp_Max DefaultRetryPolicy) = 60000000000"
    by (simp_all add: DefaultRetryPolicy_def)
  with ok backoff_closed_form [OF ok, of 3] backoff_closed_form [OF ok, of 60] show ?thesis by simp
qed

text \<open>The retry window is respected: with a window, the runner gives up exactly when the window has
  ended, and otherwise the next attempt is later than now, within the window and no later than the
  longest wait; without one it never gives up.\<close>

theorem retry_window:
  assumes "policy_ok p" and "Next p n windowEnd now = (next, exhausted)"
  shows "if windowEnd = 0 then \<not> exhausted \<and> next = now + Backoff p n
    else (exhausted \<longleftrightarrow> windowEnd \<le> now) \<and> (\<not> exhausted \<longrightarrow> now < next \<and> next \<le> windowEnd \<and> next \<le> now + rp_Max p)"
  using Next_cases [OF assms] by simp

theorem retry_window_witness:
  "Next DefaultRetryPolicy 10 1000 999 = (1000, False) \<and> (999 :: int) < 1000"
proof -
  have ok: "policy_ok DefaultRetryPolicy" by code_simp
  have "Next DefaultRetryPolicy 10 1000 999 = (1000, False)" by code_simp
  with retry_window [OF ok this] show ?thesis by simp
qed

section \<open>Filing a claim\<close>

text \<open>C35. Every claim has a filing number of its own: in every state the service reaches, by whatever calls
  of both channels, two claims with the same filing number are one claim, and every claim is found by
  the subject and the key it was filed with.\<close>

theorem filing_numbers_unique:
  assumes "filing_step\<^sup>*\<^sup>* NewCaseStore s"
    and "gm_get (cs_byID s) i = Some c" and "gm_get (cs_byID s) j = Some d"
  shows "(cl_FilingNumber c = cl_FilingNumber d \<longrightarrow> i = j) \<and> cl_ID c = i \<and>
    FindByKey (cl_Subject c) (cl_FilingKey c) s = Inr c"
proof -
  have inv: "case_inv s" using filing_inv_reachable [OF assms(1)] by (simp add: filing_inv_def)
  have "cl_ID c = i" using case_inv_id [OF inv assms(2)] .
  moreover from this have "byFilingKey s (cl_Subject c) (cl_FilingKey c) = Some c"
    using byFilingKey_Some [OF inv] assms(2) by simp
  ultimately show ?thesis using filing_numbers_distinct [OF inv assms(2,3)] by (simp add: FindByKey_def)
qed

theorem filing_numbers_unique_witness:
  "gm_get (cs_byID mobile_store) demo_id = Some (mobile_record mobile_claim) \<and>
   FindByKey ''ana'' ''k1'' mobile_store = Inr (mobile_record mobile_claim)"
proof -
  have "filing_step NewCaseStore mobile_store"
    using file_phone [of demo_random NewCaseStore "Some demo_objects" demo_now demo_now "''ana''" "''k1''" mobile_request] mobile_filed
    by (simp add: fresh_id_def NewCaseStore_def)
  then have r: "filing_step\<^sup>*\<^sup>* NewCaseStore mobile_store" by (rule r_into_rtranclp)
  have "cl_ID mobile_claim = demo_id" "cl_Subject mobile_claim = ''ana''" "cl_FilingKey mobile_claim = ''k1''"
    by (simp_all add: mobile_claim_def)
  moreover have "gm_get (cs_byID mobile_store) (cl_ID mobile_claim) = Some (mobile_record mobile_claim)"
    using File_created [OF mobile_filed] by blast
  ultimately show ?thesis using filing_numbers_unique [OF r, of demo_id "mobile_record mobile_claim"] by simp
qed

text \<open>A support belongs to one claim and nobody hoards them: in every reachable state a support is
  attached to at most one claim, the store knows that claim, and no person has more than fifty
  supports waiting to be attached.\<close>

theorem supports_attached_once:
  assumes "filing_step\<^sup>*\<^sup>* NewCaseStore s"
    and "gm_get (cs_byID s) i = Some c" and "sid \<in> set (support_ids c)"
  shows "cs_attachedTo s sid = Some i \<and> CountPending owner s \<le> 50 \<and>
    (\<forall>j d. gm_get (cs_byID s) j = Some d \<and> sid \<in> set (support_ids d) \<longrightarrow> j = i)"
proof -
  have inv: "case_inv s" "CountPending owner s \<le> MaxPendingSupports"
    using filing_inv_reachable [OF assms(1)] by (simp_all add: filing_inv_def)
  have "cs_attachedTo s sid = Some i"
    using inv(1) assms(2,3) unfolding case_inv_def attached_ok_def by blast
  with inv(2) support_attached_once [OF inv(1) _ assms(2) _ assms(3)] show ?thesis
    by (simp add: MaxPendingSupports_def)
qed

theorem supports_attached_once_witness:
  "cs_attachedTo web_store (sf_ID demo_support) = Some demo_id \<and> CountPending ''ana'' web_store \<le> 50"
  using supports_attached_once [OF web_store_reached web_claim_supports(2,1)] by blast

text \<open>C36. A claim filed from the phone is a complete one: the declaration was accepted, every field is in
  range, the photographs and videos are within their limits, and each piece of evidence belongs to the
  insured person and is in the object storage with the size and the digest that were declared.\<close>

theorem mobile_filing_complete:
  assumes "File st now1 now2 rnd subject key r s = (s1, Inr (c, True))"
  shows "mobile_claim_ok now1 c \<and> fr_DeclarationAccepted r \<and> cl_Subject c = subject \<and> cl_FilingKey c = key \<and>
    gm_get (cs_byID s1) (cl_ID c) = Some (mobile_record c) \<and>
    (\<exists>o1. st = Some o1 \<and> list_all (evidence_stored o1 subject) (cl_Evidence c))"
proof -
  from File_created [OF assms] have a: "mobile_claim_ok now1 c" "checkEvidence st subject (cl_Evidence c) = None"
    "fr_DeclarationAccepted r" "cl_Subject c = subject" "cl_FilingKey c = key"
    "gm_get (cs_byID s1) (cl_ID c) = Some (mobile_record c)" by simp_all
  have "cl_Evidence c \<noteq> []"
    using a(1) by (auto simp: mobile_claim_ok_def photos_of_def MinPhotos_def)
  with a show ?thesis by (simp add: checkEvidence_None)
qed

theorem mobile_filing_complete_witness:
  "mobile_claim_ok demo_now mobile_claim \<and> fr_DeclarationAccepted mobile_request \<and> cl_Subject mobile_claim = ''ana'' \<and>
   cl_FilingKey mobile_claim = ''k1'' \<and> gm_get (cs_byID mobile_store) (cl_ID mobile_claim) = Some (mobile_record mobile_claim) \<and>
   (\<exists>o1. Some demo_objects = Some o1 \<and> list_all (evidence_stored o1 ''ana'') (cl_Evidence mobile_claim))"
  by (rule mobile_filing_complete [OF mobile_filed])

text \<open>A phone that files again does not file twice: the same request with the same key, at any later
  moment and with any other id drawn, writes nothing, and it answers the claim that was filed unless
  the check of the request itself fails by then.\<close>

theorem mobile_filing_retry:
  assumes "File st now1 now2 rnd subject key r s = (s1, Inr (c, True))"
  shows "\<exists>res. File st' now1' now2' rnd' subject key r s1 = (s1, res) \<and>
    (res = Inr (c, False) \<or> (\<exists>e. res = Inl e \<and> (\<forall>x. e \<noteq> FilingCase x)))"
  by (rule File_retry [OF assms])

theorem mobile_filing_retry_witness:
  "File (Some demo_objects) demo_now (demo_now + 5) other_random ''ana'' ''k1'' mobile_request mobile_store =
     (mobile_store, Inr (mobile_claim, False))"
proof -
  have "snd (File (Some demo_objects) demo_now (demo_now + 5) other_random ''ana'' ''k1'' mobile_request mobile_store) = Inl e \<Longrightarrow>
      \<exists>x. e = FilingCase x" for e
    by (subst (asm) File_def, subst (asm) other_newID)
      (auto simp: mobile_valid mobile_evidence Let_def case_prod_beta split: sum.splits)
  with mobile_filing_retry [OF mobile_filed, of "Some demo_objects" demo_now "demo_now + 5" other_random]
  show ?thesis by fastforce
qed

text \<open>C37. A claim filed from the portal is a complete one: its facts are checked, its supports are the files
  the catalog asks for, uploaded and confirmed by the insured person and free until now, none twice,
  all that were sent and at most twenty; and its policy is one of the insured person's policies, in
  force, covering the incident and in force when it happened.\<close>

theorem web_filing_complete:
  assumes "case_inv s" and "web_File dir CatalogV1 now rnd subject key r s = (s1, Inr (c, True))"
  shows "facts_ok now c \<and> gm_get (cs_byID s1) (cl_ID c) = Some c \<and>
    (\<exists>opt. Catalog_Incident CatalogV1 (cl_IncidentType c) = Some opt \<and>
       supports_ok (wr_Supports r) opt subject (Find_supports (supportIDs r) s) (cr_Supports c)) \<and>
    distinct (support_ids c) \<and> length (cr_Supports c) = countIDs (wr_Supports r) \<and> length (cr_Supports c) \<le> 20 \<and>
    (\<forall>sid \<in> set (support_ids c). cs_attachedTo s sid = None) \<and>
    (\<exists>ps p. dir subject = Inr ps \<and> p \<in> set ps \<and> cr_Policy c = Some p \<and> pol_ID p = cl_PolicyID c \<and>
       Policy_ActiveAt p now \<and> Policy_Covers p CatalogV1 (cl_IncidentType c) \<and> Policy_Within p (cl_OccurredAt c))"
proof -
  from web_File_created [OF assms(2)] obtain opt where o: "Catalog_Incident CatalogV1 (cl_IncidentType c) = Some opt"
    "supports_ok (wr_Supports r) opt subject (Find_supports (supportIDs r) s) (cr_Supports c)" by blast
  have d: "distinct (map rq_Code (io_Requirements opt))" using catalog_incident_in [OF catalog_ok_V1 o(1)] by blast
  note l = supports_ok_length [OF o(2) d]
  have "distinct (support_ids c)"
    unfolding support_ids_def by (rule supports_ok_distinct [OF o(2)]) (rule Find_supports_id [OF assms(1)])
  moreover have "length (cr_Supports c) \<le> 20" using l o(2) by (simp add: supports_ok_def MaxSupportsPerClaim_def)
  ultimately show ?thesis using web_File_created [OF assms(2)] l by blast
qed

theorem web_filing_complete_witness:
  "facts_ok demo_now web_claim \<and> distinct (support_ids web_claim) \<and> length (cr_Supports web_claim) = countIDs (wr_Supports web_request)"
  using web_filing_complete [OF web_store0_inv web_filed] by blast

text \<open>A portal that files again does not file twice: the same request with the same key writes nothing
  and answers the claim that was filed, without asking the policy core, so that a policy that ended
  meanwhile does not refuse the retry; only the check of the request itself can.\<close>

theorem web_filing_retry:
  assumes "web_File dir cat now rnd subject key r s = (s1, Inr (c, True))"
  shows "\<exists>res. web_File dir' cat now' rnd' subject key r s1 = (s1, res) \<and>
    (res = Inr (c, False) \<or> (\<exists>bads. res = Inl (FilingInvalid bads) \<and>
       WebFilingRequest_Validate r now' cat subject (Find_supports (supportIDs r) s) = Inl bads))"
  by (rule web_File_retry [OF assms])

theorem web_filing_retry_witness:
  "web_File (\<lambda>_. Inr []) CatalogV1 demo_now other_random ''ana'' ''k2'' web_request web_store =
     (web_store, Inr (web_claim, False))"
  using web_filing_retry [OF web_filed, of "\<lambda>_. Inr []" demo_now other_random] web_valid by auto

text \<open>A support is confirmed only when the stored object is what was declared: its owner asks, the
  object has the declared size and digest, and its first bytes are the signature of its format; a
  support confirmed before stays as it is.\<close>

theorem confirmed_supports_are_stored:
  assumes "service_Confirm st now subject sid s = (s1, Inr f)"
  shows "sf_OwnerSubject f = subject \<and> (\<exists>f0. gm_get (cs_supports s) sid = Some f0 \<and>
     (SupportFile_Confirmed f0 \<and> f = f0 \<and> s1 = s \<or>
      \<not> SupportFile_Confirmed f0 \<and> f = f0\<lparr>sf_ConfirmedAt := time_Truncate now time_Microsecond\<rparr> \<and>
      s1 = s\<lparr>cs_supports := gm_put sid f (cs_supports s)\<rparr> \<and>
      (\<exists>stored head. os_Stat st (SupportFile_ObjectKey f) = Inr stored \<and> se_ByteSize stored = sf_ByteSize f \<and>
         (se_SHA256 stored = '''' \<or> se_SHA256 stored = sf_SHA256 f) \<and>
         os_Head st (SupportFile_ObjectKey f) signatureBytes = Inr head \<and> DetectFormat head = Some (sf_Format f))))"
  by (rule service_Confirm_ok [OF assms])

theorem confirmed_supports_are_stored_witness:
  "sf_OwnerSubject demo_support = ''ana'' \<and>
   (\<exists>stored head. os_Stat demo_objects (SupportFile_ObjectKey demo_support) = Inr stored \<and> se_ByteSize stored = sf_ByteSize demo_support \<and>
      os_Head demo_objects (SupportFile_ObjectKey demo_support) signatureBytes = Inr head \<and> DetectFormat head = Some (sf_Format demo_support))"
proof -
  have "gm_get (cs_supports web_declared) (sf_ID demo_support) = Some demo_unconfirmed"
    by (simp add: web_declared_def gm_get_def)
  moreover have "\<not> SupportFile_Confirmed demo_unconfirmed" by (simp add: demo_unconfirmed_def SupportFile_Confirmed_def)
  ultimately show ?thesis using confirmed_supports_are_stored [OF demo_confirmed] by auto
qed

section \<open>The lists\<close>

text \<open>C38. The queue of the analysts loses nothing: following the pages of a list by status, of any size, each
  from the cursor of the one before, ends after at most as many requests as there are claims, and
  gives every claim of those statuses exactly once, from the oldest to the newest.\<close>

theorem queue_pages_complete:
  assumes "case_inv s" and "0 < psize"
  shows "follow_pages (page_of (\<lambda>after n. ListByStatus sts after (int n) s) cursor_of psize)
      (Suc (length (queue_list sts s))) None = Some (queue_list sts s) \<and>
    set (map cl_ID (queue_list sts s)) = {cid. \<exists>c. gm_get (cs_byID s) cid = Some c \<and> cl_Status c \<in> set sts} \<and>
    sorted_wrt (\<lambda>x y. claim_pos x < claim_pos y) (queue_list sts s)"
proof -
  have "follow_pages (page_of (\<lambda>after n. ListByStatus sts after (int n) s) cursor_of psize)
      (Suc (length (queue_list sts s))) None = Some (queue_list sts s)"
    by (rule queue_pages.follow_all [OF assms])
  moreover have "set (map cl_ID (queue_list sts s)) = cl_ID ` {c \<in> snd ` set (cs_byID s). cl_Status c \<in> set sts}"
    by (simp add: queue_list_def image_image)
  moreover have "cl_ID ` {c \<in> snd ` set (cs_byID s). cl_Status c \<in> set sts} =
      {cid. \<exists>c. gm_get (cs_byID s) cid = Some c \<and> cl_Status c \<in> set sts}"
    by (rule ids_where [OF assms(1)])
  ultimately show ?thesis using queue_list_sorted [OF assms(1)] by simp
qed

theorem queue_pages_complete_witness:
  "follow_pages (page_of (\<lambda>after n. ListByStatus [StatusActive] after (int n) web_store0) cursor_of 10)
      (Suc (length (queue_list [StatusActive] web_store0))) None = Some (queue_list [StatusActive] web_store0)"
  using queue_pages_complete [OF web_store0_inv, of 10 "[StatusActive]"] by simp

text \<open>The same for the claims of one person: following the pages of the list with any filter gives
  exactly the claims of that person that pass it, from the newest to the oldest; no page ever shows a
  claim of somebody else.\<close>

theorem owner_pages_complete:
  assumes "case_inv s" and "0 < psize"
  shows "follow_pages (page_of (\<lambda>after n. the (ListByOwner subject f after (int n) s)) cursor_of psize)
      (Suc (length (owner_list subject f s))) None = Some (owner_list subject f s) \<and>
    list_all (\<lambda>c. cl_Subject c = subject) (owner_list subject f s) \<and>
    set (map cl_ID (owner_list subject f s)) = {cid. \<exists>c. gm_get (cs_byID s) cid = Some c \<and> owner_matches subject f c} \<and>
    sorted_wrt (\<lambda>x y. claim_pos y < claim_pos x) (owner_list subject f s)"
proof -
  have "follow_pages (page_of (\<lambda>after n. the (ListByOwner subject f after (int n) s)) cursor_of psize)
      (Suc (length (owner_list subject f s))) None = Some (owner_list subject f s)"
    by (rule owner_pages.follow_all [OF assms])
  moreover have "list_all (\<lambda>c. cl_Subject c = subject) (owner_list subject f s)"
    by (auto simp: owner_list_def list_all_iff owner_matches_def listed_def)
  moreover have "set (map cl_ID (owner_list subject f s)) = cl_ID ` {c \<in> snd ` set (cs_byID s). owner_matches subject f c}"
    by (simp add: owner_list_def image_image)
  moreover have "cl_ID ` {c \<in> snd ` set (cs_byID s). owner_matches subject f c} =
      {cid. \<exists>c. gm_get (cs_byID s) cid = Some c \<and> owner_matches subject f c}"
    by (rule ids_where [OF assms(1)])
  ultimately show ?thesis using owner_list_sorted [OF assms(1)] by simp
qed

theorem owner_pages_complete_witness:
  "list_all (\<lambda>c. cl_Subject c = ''ana'')
     (owner_list ''ana'' \<lparr>cf_Status = None, cf_PolicyID = '''', cf_FiledFrom = 0\<rparr> web_store0)"
  using owner_pages_complete [OF web_store0_inv, of 10 "''ana''"] by simp

text \<open>The order in which Go ranges over the map of the claims never shows: two stores with the same
  claims in any order of their entries list the same claims in the same order.\<close>

theorem list_order_irrelevant:
  assumes "case_inv s" and "case_inv s'" and "set (cs_byID s) = set (cs_byID s')"
  shows "ListByStatus sts None (int n) s = ListByStatus sts None (int n) s' \<and>
    ListByOwner subject f None (int n) s = ListByOwner subject f None (int n) s'"
  using lists_order_irrelevant [OF assms] by (simp add: ListByStatus_first ListByOwner_first)

theorem list_order_irrelevant_witness:
  "ListByStatus [StatusActive] None (int 5) NewCaseStore = ListByStatus [StatusActive] None (int 5) web_store0"
  using list_order_irrelevant [OF case_inv_New web_store0_inv, of "[StatusActive]" 5] by (simp add: web_store0_def)

section \<open>The priority\<close>

text \<open>C39. The history of the priorities is sound whatever the tasks do at once: with any number of tasks that
  read candidates, assess them later and race with each other and with changes of the claims, the
  calculations of every claim are numbered from one without a gap, the first one says the claim
  entered evaluation, each other names exactly what changed since the one before and the level it
  replaces, and each level is the one the rule gives.\<close>

theorem triage_history_sound:
  assumes "triage_step\<^sup>*\<^sup>* (triage_init cases) y"
  shows "history_ok cid (records_of (sy_triage y) cid) \<and>
    (\<forall>k < length (records_of (sy_triage y) cid). tr_Seq (records_of (sy_triage y) cid ! k) = int k + 1)"
proof -
  have "history_ok cid (records_of (sy_triage y) cid)"
    using sys_inv_steps [OF assms sys_inv_init] by (simp add: sys_inv_def triage_inv_def)
  then show ?thesis using history_seq by blast
qed

theorem triage_history_sound_witness:
  "length (records_of (sy_triage swept) demo_id) = 1 \<and> history_ok demo_id (records_of (sy_triage swept) demo_id)"
  using swept_length triage_history_sound [OF swept_reached] by blast

text \<open>The history of the priorities is only ever added to: from one state to any later one, under any
  interleaving, the calculations of each claim are extended and none is changed or lost.\<close>

theorem triage_history_append_only:
  assumes "triage_step\<^sup>*\<^sup>* y y'"
  shows "prefix (records_of (sy_triage y) cid) (records_of (sy_triage y') cid)"
  by (rule steps_append [OF assms])

theorem triage_history_append_only_witness:
  "prefix (records_of (sy_triage (triage_init mobile_store)) demo_id) (records_of (sy_triage swept) demo_id)"
  by (rule triage_history_append_only [OF swept_reached])

text \<open>C40. The sweep makes progress: with the claims at rest, each sweep calculates exactly the first claims
  that wait, up to its limit, and leaves the rest in the same order; so after as many sweeps as the
  waiting claims fill batches nobody waits any more.\<close>

theorem sweeps_leave_nobody_waiting:
  assumes "case_inv cases" and "triage_inv s" and "0 < limit"
    and "length (waiting p cases s) \<le> k * nat limit"
  shows "waiting p cases (sweeps p now limit cases k s) = [] \<and>
    snd (Sweep p now' limit cases s) = min (nat limit) (length (waiting p cases s)) \<and>
    waiting p cases (fst (Sweep p now' limit cases s)) = drop (nat limit) (waiting p cases s)"
proof -
  have "waiting p cases (sweeps p now limit cases k s) = []"
    using sweeps_waiting [OF assms(1,3,2)] assms(4) by simp
  with Sweep_waiting [OF assms(1-3), of p now' "fst (Sweep p now' limit cases s)" "snd (Sweep p now' limit cases s)"]
  show ?thesis by simp
qed

theorem sweeps_leave_nobody_waiting_witness:
  "waiting TriagePolicyV1 mobile_store (sweeps TriagePolicyV1 (\<lambda>_ _. 5) 50 mobile_store 1 NewTriageStore) = []"
proof -
  have "triage_inv NewTriageStore"
    using sys_inv_init [of mobile_store] by (simp add: sys_inv_def triage_init_def)
  then show ?thesis
    using sweeps_leave_nobody_waiting [OF mobile_store_inv, of NewTriageStore 50 TriagePolicyV1 1] waiting_one by simp
qed

text \<open>The level is one of the three and follows the rule: a larger amount never lowers the urgency, a high
  severity or a high amount is always the first level, and only a low severity with a low amount is
  the third.\<close>

theorem level_follows_rule:
  assumes "tp_LowBelowMinor p \<le> tp_HighAboveMinor p" and "m \<le> n"
  shows "PriorityLevel_Valid (LevelOf sev (BandOf p (Some m))) \<and>
    LevelOf sev (BandOf p (Some n)) \<le> LevelOf sev (BandOf p (Some m)) \<and>
    (LevelOf sev b = 1 \<longleftrightarrow> sev = SeverityHigh \<or> b = AmountHigh) \<and>
    (LevelOf sev b = 3 \<longleftrightarrow> sev = SeverityLow \<and> b = AmountLow)"
  using LevelOf_valid LevelOf_band_mono [OF BandOf_mono [OF assms]] by (auto simp: LevelOf_def)

theorem level_follows_rule_witness:
  "tp_LowBelowMinor TriagePolicyV1 \<le> tp_HighAboveMinor TriagePolicyV1 \<and>
   LevelOf SeverityLow (BandOf TriagePolicyV1 (Some 600000000)) \<le> LevelOf SeverityLow (BandOf TriagePolicyV1 (Some 100))"
proof -
  have "tp_LowBelowMinor TriagePolicyV1 \<le> tp_HighAboveMinor TriagePolicyV1" by (simp add: TriagePolicyV1_def)
  with level_follows_rule [OF this, of 100 600000000] show ?thesis by simp
qed

section \<open>Who may see what\<close>

text \<open>The priority of a claim is shown to nobody but its insured person and operations: a view is returned
  only to a caller whose token has the subject of the claim or the role of operations, for the claim
  asked for, with the last calculation first.\<close>

theorem view_authorized:
  assumes "View ctx cid cases s = Inr v"
  shows "\<exists>who c. ctx = Some who \<and> c \<in> snd ` set (cs_byID cases) \<and> cl_ID c = cid \<and>
    (cl_Subject c \<noteq> '''' \<and> sc_Subject who = cl_Subject c \<or> RoleOperations \<in> set (sc_Roles who)) \<and>
    tv_History v = rev (records_of s cid) \<and> tv_Current v = last_record s cid"
proof -
  from assms obtain cand where cand: "Candidate cid cases s = Inr cand"
    and auth: "RequireOwnerOrRole ctx (cl_Subject (tc_Claim cand)) [RoleOperations] = None"
    and v: "tv_History v = History cid s" "tv_Current v = (case History cid s of [] \<Rightarrow> None | r # _ \<Rightarrow> Some r)"
    by (auto simp: View_def Let_def split: sum.splits option.splits)
  from cand obtain rest where "snapshot (\<lambda>c. cl_ID c = cid) cases = tc_Claim cand # rest"
    by (auto simp: Candidate_def split: list.splits)
  then have "tc_Claim cand \<in> listed ` {c \<in> snd ` set (cs_byID cases). cl_ID c = cid}"
    using set_snapshot [of "\<lambda>c. cl_ID c = cid" cases] by (metis list.set_intros(1))
  then obtain c where c: "c \<in> snd ` set (cs_byID cases)" "cl_ID c = cid" "tc_Claim cand = listed c" by blast
  have "cl_Subject (listed c) = cl_Subject c" by (simp add: listed_def)
  with auth c(3) obtain who where "ctx = Some who"
    "cl_Subject c \<noteq> '''' \<and> sc_Subject who = cl_Subject c \<or> RoleOperations \<in> set (sc_Roles who)"
    by (auto simp: RequireOwnerOrRole_None HasAnyRole_iff)
  moreover have "tv_Current v = last_record s cid"
    unfolding v(2) by (cases "records_of s cid" rule: rev_cases) (simp_all add: History_def last_record_eq)
  ultimately show ?thesis using c v(1) by (auto simp: History_def)
qed

theorem view_authorized_witness:
  "\<exists>c. c \<in> snd ` set (cs_byID mobile_store) \<and> cl_ID c = demo_id \<and> sc_Subject demo_caller = cl_Subject c \<and>
    tv_Current demo_view = last_record NewTriageStore demo_id"
proof -
  have "RoleOperations \<notin> set (sc_Roles demo_caller)" by (simp add: demo_caller_def)
  with view_authorized [OF demo_viewed] show ?thesis by auto
qed

text \<open>The roles of a token are exactly the human roles among its groups, each once, and a check passes
  exactly for a caller with one of the roles asked for: a group that is no role grants nothing.\<close>

theorem roles_are_exact:
  "set (rolesFromGroups v) = {r. role_name r \<in> set (groups_of v)} \<and> distinct (rolesFromGroups v) \<and>
   (RequireAnyRole ctx roles = None \<longleftrightarrow> (\<exists>c. ctx = Some c \<and> set (sc_Roles c) \<inter> set roles \<noteq> {}))"
  by (auto simp: rolesFromGroups_exact RequireAnyRole_def HasAnyRole_iff split: option.splits)

section \<open>Names and numbers\<close>

text \<open>The name a support is stored with is safe, whatever the browser sent: it has no path separator and
  it is never empty, the current directory or the parent directory.\<close>

theorem file_names_safe:
  "list_all (\<lambda>c. \<not> is_sep c) (SanitizeFileName name) \<and> SanitizeFileName name \<notin> {'''', ''.'', ''..''}"
  using SanitizeFileName_safe [of name] by simp

text \<open>Of the number of an account at most the last four digits are ever shown.\<close>

theorem account_numbers_masked:
  "MaskedNumber a = '''' \<or>
   (\<exists>ds. MaskedNumber a = bullet @ bullet @ bullet @ bullet @ '' '' @ ds \<and> length ds \<le> 4 \<and>
     suffix ds (filter is_digit (pa_AccountNumber a)))"
  by (rule MaskedNumber_cases)

text \<open>An amount survives its text: every 64-bit integer printed in decimal is parsed back to itself, so
  the amount of a filing and of its fingerprint are the same.\<close>

theorem amounts_round_trip:
  assumes "MinEstimatedAmountMinor \<le> m" and "m \<le> MaxEstimatedAmountMinor"
  shows "estimatedAmount (FormatInt m) = (Some m, [])"
proof -
  have "in_i64 m" using assms by (simp add: in_i64_def MinEstimatedAmountMinor_def MaxEstimatedAmountMinor_def)
  moreover have "FormatInt m \<noteq> []" by (simp add: FormatInt_def nat_dec_nonempty)
  ultimately show ?thesis using assms by (simp add: estimatedAmount_def ParseInt_FormatInt)
qed

theorem amounts_round_trip_witness: "estimatedAmount (FormatInt 250000000) = (Some 250000000, [])"
  by (rule amounts_round_trip) (simp_all add: MinEstimatedAmountMinor_def MaxEstimatedAmountMinor_def)

end
